(* ===== verification/Rust_Std.thy ===== *)
theory Rust_Std
  imports Prelude
begin

text \<open>
  What the code uses of the Rust standard library: ASCII classification, \<open>str\<close> and slice
  searching and splitting, UTF-8 validation and code points, Unicode trimming, decimal parsing
  and printing, saturating conversions and the process environment.
\<close>

section \<open>ASCII\<close>

definition is_ascii_digit :: "char \<Rightarrow> bool" where
  "is_ascii_digit c \<longleftrightarrow> 48 \<le> ord c \<and> ord c \<le> 57"

definition is_ascii_lowercase :: "char \<Rightarrow> bool" where
  "is_ascii_lowercase c \<longleftrightarrow> 97 \<le> ord c \<and> ord c \<le> 122"

definition is_ascii_uppercase :: "char \<Rightarrow> bool" where
  "is_ascii_uppercase c \<longleftrightarrow> 65 \<le> ord c \<and> ord c \<le> 90"

definition to_ascii_lowercase :: "char \<Rightarrow> char" where
  "to_ascii_lowercase c = (if is_ascii_uppercase c then char_of (ord c + 32) else c)"

definition eq_ignore_ascii_case :: "string \<Rightarrow> string \<Rightarrow> bool" where
  "eq_ignore_ascii_case a b \<longleftrightarrow> map to_ascii_lowercase a = map to_ascii_lowercase b"

section \<open>Searching and splitting\<close>

text \<open>\<open>iter().position(p)\<close>: the index of the first element that satisfies \<open>p\<close>.\<close>

fun position :: "('a \<Rightarrow> bool) \<Rightarrow> 'a list \<Rightarrow> nat option" where
  "position p [] = None"
| "position p (x # xs) = (if p x then Some 0 else map_option Suc (position p xs))"

text \<open>\<open>split(p)\<close>: the pieces between the separators, the empty ones included.\<close>

fun split_by :: "('a \<Rightarrow> bool) \<Rightarrow> 'a list \<Rightarrow> 'a list list" where
  "split_by p [] = [[]]"
| "split_by p (x # xs) =
     (if p x then [] # split_by p xs
      else case split_by p xs of [] \<Rightarrow> [[x]] | w # ws \<Rightarrow> (x # w) # ws)"

abbreviation split_on :: "'a \<Rightarrow> 'a list \<Rightarrow> 'a list list" where
  "split_on c \<equiv> split_by (\<lambda>x. x = c)"

text \<open>\<open>join(sep)\<close> of a vector of strings.\<close>

fun join :: "'a list \<Rightarrow> 'a list list \<Rightarrow> 'a list" where
  "join sep [] = []"
| "join sep [w] = w"
| "join sep (w # v # ws) = w @ sep @ join sep (v # ws)"

text \<open>\<open>split_once(c)\<close> and \<open>rsplit_once(c)\<close>.\<close>

fun split_once :: "'a \<Rightarrow> 'a list \<Rightarrow> ('a list \<times> 'a list) option" where
  "split_once c [] = None"
| "split_once c (x # xs) =
     (if x = c then Some ([], xs) else map_option (\<lambda>(a, b). (x # a, b)) (split_once c xs))"

definition rsplit_once :: "'a \<Rightarrow> 'a list \<Rightarrow> ('a list \<times> 'a list) option" where
  "rsplit_once c xs = map_option (\<lambda>(a, b). (rev b, rev a)) (split_once c (rev xs))"

text \<open>\<open>find(pattern)\<close> for a string pattern: the offset of the first occurrence.\<close>

fun find_str :: "string \<Rightarrow> string \<Rightarrow> nat option" where
  "find_str p [] = (if p = [] then Some 0 else None)"
| "find_str p (x # xs) = (if prefix p (x # xs) then Some 0 else map_option Suc (find_str p xs))"

definition contains_str :: "string \<Rightarrow> string \<Rightarrow> bool" where
  "contains_str s p \<longleftrightarrow> find_str p s \<noteq> None"

fun strip_prefix_str :: "string \<Rightarrow> string \<Rightarrow> string option" where
  "strip_prefix_str [] s = Some s"
| "strip_prefix_str (p # ps) [] = None"
| "strip_prefix_str (p # ps) (x # xs) = (if p = x then strip_prefix_str ps xs else None)"

text \<open>\<open>trim_matches\<close> with a set of ASCII characters, on both ends.\<close>

definition trim_matches :: "('a \<Rightarrow> bool) \<Rightarrow> 'a list \<Rightarrow> 'a list" where
  "trim_matches p s = rev (dropWhile p (rev (dropWhile p s)))"

text \<open>\<open>Vec::remove(i)\<close>; the code calls it in range only.\<close>

definition vec_remove :: "nat \<Rightarrow> 'a list \<Rightarrow> 'a list" where
  "vec_remove i xs = take i xs @ drop (Suc i) xs"

section \<open>UTF-8\<close>

definition is_cont :: "char \<Rightarrow> bool" where
  "is_cont c \<longleftrightarrow> 128 \<le> ord c \<and> ord c \<le> 191"

definition byte_in :: "nat \<Rightarrow> nat \<Rightarrow> char \<Rightarrow> bool" where
  "byte_in lo hi c \<longleftrightarrow> lo \<le> ord c \<and> ord c \<le> hi"

text \<open>Well-formed byte sequences (\<open>str::from_utf8\<close>): the table of the Unicode standard.\<close>

fun valid_utf8 :: "bytes \<Rightarrow> bool" where
  "valid_utf8 [] = True"
| "valid_utf8 (a # s) =
     (if byte_in 0 127 a then valid_utf8 s
      else (case s of
        [] \<Rightarrow> False
      | b # s1 \<Rightarrow>
          if byte_in 194 223 a \<and> is_cont b then valid_utf8 s1
          else (case s1 of
            [] \<Rightarrow> False
          | c # s2 \<Rightarrow>
              if is_cont c \<and> (byte_in 224 224 a \<and> byte_in 160 191 b
                  \<or> byte_in 225 236 a \<and> is_cont b
                  \<or> byte_in 237 237 a \<and> byte_in 128 159 b
                  \<or> byte_in 238 239 a \<and> is_cont b)
              then valid_utf8 s2
              else (case s2 of
                [] \<Rightarrow> False
              | d # s3 \<Rightarrow>
                  is_cont c \<and> is_cont d \<and> (byte_in 240 240 a \<and> byte_in 144 191 b
                    \<or> byte_in 241 243 a \<and> is_cont b
                    \<or> byte_in 244 244 a \<and> byte_in 128 143 b)
                  \<and> valid_utf8 s3))))"

text \<open>\<open>zstr.to_str().ok()\<close>, \<open>str::from_utf8(..).ok()\<close>.\<close>

definition to_str :: "bytes \<Rightarrow> string option" where
  "to_str b = (if valid_utf8 b then Some b else None)"

text \<open>
  \<open>chars()\<close>: a string cut before every byte that is not a continuation byte, so each piece is
  the encoding of one code point when the string is well formed.
\<close>

function utf8_chars :: "string \<Rightarrow> string list" where
  "utf8_chars [] = []"
| "utf8_chars (c # s) = (c # takeWhile is_cont s) # utf8_chars (dropWhile is_cont s)"
  by pat_completeness auto
termination
  by (relation "measure length") (auto intro: le_imp_less_Suc length_dropWhile_le)

text \<open>\<open>char::is_whitespace\<close> on the encoding of one code point (the White\_Space property).\<close>

definition is_whitespace :: "string \<Rightarrow> bool" where
  "is_whitespace w \<longleftrightarrow>
     (case map ord w of
        [a] \<Rightarrow> 9 \<le> a \<and> a \<le> 13 \<or> a = 32
      | [a, b] \<Rightarrow> a = 194 \<and> (b = 133 \<or> b = 160)
      | [a, b, c] \<Rightarrow>
          a = 225 \<and> b = 154 \<and> c = 128
          \<or> a = 226 \<and> b = 128 \<and> (128 \<le> c \<and> c \<le> 138 \<or> c = 168 \<or> c = 169 \<or> c = 175)
          \<or> a = 226 \<and> b = 129 \<and> c = 159
          \<or> a = 227 \<and> b = 128 \<and> c = 128
      | _ \<Rightarrow> False)"

definition trim :: "string \<Rightarrow> string" where
  "trim s = concat (trim_matches is_whitespace (utf8_chars s))"

definition trim_start :: "string \<Rightarrow> string" where
  "trim_start s = concat (dropWhile is_whitespace (utf8_chars s))"

section \<open>Numbers\<close>

fun digits_value :: "nat \<Rightarrow> string \<Rightarrow> nat option" where
  "digits_value acc [] = Some acc"
| "digits_value acc (c # s) =
     (if is_ascii_digit c then digits_value (10 * acc + (ord c - 48)) s else None)"

text \<open>
  \<open>parse::<uN>()\<close> of an unsigned type with maximum \<open>m\<close>: one leading plus sign is
  accepted, at least one digit is required, and a value above the maximum is an error.
\<close>

definition parse_unsigned :: "nat \<Rightarrow> string \<Rightarrow> nat option" where
  "parse_unsigned m s =
     (let ds = (case s of c # t \<Rightarrow> if c = CHR ''+'' then t else s | [] \<Rightarrow> [])
      in if ds = [] then None
         else case digits_value 0 ds of
                None \<Rightarrow> None
              | Some v \<Rightarrow> if v \<le> m then Some v else None)"

text \<open>\<open>to_string()\<close> of an unsigned and of a signed integer.\<close>

fun show_nat :: "nat \<Rightarrow> string" where
  "show_nat n =
     (if n < 10 then [char_of (48 + n)] else show_nat (n div 10) @ [char_of (48 + n mod 10)])"

declare show_nat.simps [simp del]

definition show_int :: "int \<Rightarrow> string" where
  "show_int i = (if i < 0 then CHR ''-'' # show_nat (nat (- i)) else show_nat (nat i))"

text \<open>\<open>i64::try_from(n).unwrap_or(i64::MAX)\<close> of a \<open>usize\<close>.\<close>

definition usize_to_i64 :: "nat \<Rightarrow> int" where
  "usize_to_i64 n = (if n \<le> i64_max then int n else int i64_max)"

section \<open>The process environment\<close>

text \<open>
  The environment is the list of its variables, names and values as raw bytes.
  \<open>env::var\<close> reports a value that is not UTF-8; \<open>env::vars\<close> panics when any name or
  value of the environment is not UTF-8; \<open>env::set_var\<close> panics on a name that is empty or
  holds an equals sign and on an embedded zero byte. A panic is \<^const>\<open>None\<close>.
\<close>

type_synonym os_env = "(bytes \<times> bytes) list"

datatype var_result = VarOk string | NotPresent | NotUnicode

definition env_var_os :: "os_env \<Rightarrow> string \<Rightarrow> bytes option" where
  "env_var_os env name = map_of env name"

definition env_var :: "os_env \<Rightarrow> string \<Rightarrow> var_result" where
  "env_var env name =
     (case map_of env name of
        None \<Rightarrow> NotPresent
      | Some v \<Rightarrow> if valid_utf8 v then VarOk v else NotUnicode)"

text \<open>\<open>env::var(name).ok()\<close>\<close>

definition env_get :: "os_env \<Rightarrow> string \<Rightarrow> string option" where
  "env_get env name = (case env_var env name of VarOk v \<Rightarrow> Some v | _ \<Rightarrow> None)"

definition env_vars :: "os_env \<Rightarrow> (string \<times> string) list option" where
  "env_vars env =
     (if \<forall>(k, v) \<in> set env. valid_utf8 k \<and> valid_utf8 v then Some env else None)"

definition settable_name :: "string \<Rightarrow> bool" where
  "settable_name k \<longleftrightarrow> k \<noteq> [] \<and> CHR ''='' \<notin> set k \<and> CHR 0x00 \<notin> set k"

definition env_put :: "string \<Rightarrow> string \<Rightarrow> os_env \<Rightarrow> os_env" where
  "env_put k v env = AList.update k v env"

definition set_var :: "string \<Rightarrow> string \<Rightarrow> os_env \<Rightarrow> os_env option" where
  "set_var k v env =
     (if settable_name k \<and> CHR 0x00 \<notin> set v then Some (env_put k v env) else None)"

definition env_del :: "string \<Rightarrow> os_env \<Rightarrow> os_env" where
  "env_del k env = AList.delete k env"

definition remove_var :: "string \<Rightarrow> os_env \<Rightarrow> os_env option" where
  "remove_var k env = (if settable_name k then Some (env_del k env) else None)"

fun set_vars :: "(string \<times> string) list \<Rightarrow> os_env \<Rightarrow> os_env option" where
  "set_vars [] env = Some env"
| "set_vars ((k, v) # kvs) env =
     (case set_var k v env of None \<Rightarrow> None | Some env' \<Rightarrow> set_vars kvs env')"

section \<open>Laws of the library functions\<close>

subsection \<open>Splitting and joining\<close>

text \<open>Evaluation of a comparison of concrete texts without regard to case.\<close>

lemmas ascii_case_simps =
  eq_ignore_ascii_case_def to_ascii_lowercase_def is_ascii_uppercase_def char_of_def bit_0

lemma split_by_not_Nil [simp]: "split_by p xs \<noteq> []"
  by (cases xs) (auto split: list.splits)

lemma split_by_none: "\<forall>x\<in>set xs. \<not> p x \<Longrightarrow> split_by p xs = [xs]"
  by (induction xs) auto

lemma split_by_append_sep:
  "p c \<Longrightarrow> \<forall>x\<in>set w. \<not> p x \<Longrightarrow> split_by p (w @ c # xs) = w # split_by p xs"
  by (induction w) auto

lemma split_on_append_sep: "c \<notin> set w \<Longrightarrow> split_on c (w @ c # xs) = w # split_on c xs"
  by (rule split_by_append_sep) auto

lemma split_by_pieces_clean: "w \<in> set (split_by p xs) \<Longrightarrow> x \<in> set w \<Longrightarrow> \<not> p x"
proof (induction xs arbitrary: w x)
  case (Cons y ys)
  then show ?case by (cases "split_by p ys") (fastforce split: if_splits)+
qed simp

lemma split_on_clean: "w \<in> set (split_on c xs) \<Longrightarrow> c \<notin> set w"
  using split_by_pieces_clean [of w "\<lambda>x. x = c" xs c] by auto

lemma split_by_pieces_subset: "w \<in> set (split_by p xs) \<Longrightarrow> x \<in> set w \<Longrightarrow> x \<in> set xs"
proof (induction xs arbitrary: w x)
  case (Cons y ys)
  then show ?case by (cases "split_by p ys") (fastforce split: if_splits)+
qed simp

lemma join_Cons: "ws \<noteq> [] \<Longrightarrow> join sep (w # ws) = w @ sep @ join sep ws"
  by (cases ws) auto

lemma join_split_on [simp]: "join [c] (split_on c xs) = xs"
proof (induction xs)
  case (Cons x xs)
  show ?case
  proof (cases "split_on c xs")
    case (Cons w ws)
    with Cons.IH show ?thesis by (cases ws) (auto simp: join_Cons)
  qed simp
qed simp

lemma split_on_join:
  "ws \<noteq> [] \<Longrightarrow> \<forall>w\<in>set ws. c \<notin> set w \<Longrightarrow> split_on c (join [c] ws) = ws"
proof (induction ws)
  case (Cons w ws)
  show ?case
  proof (cases ws)
    case Nil
    with Cons.prems show ?thesis by (auto intro: split_by_none)
  next
    case (Cons v vs)
    with Cons.prems Cons.IH show ?thesis
      by (simp add: join_Cons split_on_append_sep del: join.simps)
  qed
qed simp

lemma length_join:
  "length (join [c] ws) = sum_list (map length ws) + (length ws - 1)"
proof (induction ws)
  case (Cons w ws)
  then show ?case by (cases ws) auto
qed simp

lemma split_once_append: "c \<notin> set a \<Longrightarrow> split_once c (a @ c # b) = Some (a, b)"
  by (induction a) auto

lemma split_once_None: "split_once c xs = None \<longleftrightarrow> c \<notin> set xs"
  by (induction xs) auto

lemma split_once_SomeD: "split_once c xs = Some (a, b) \<Longrightarrow> c \<notin> set a \<and> xs = a @ c # b"
proof (induction xs arbitrary: a)
  case (Cons x xs)
  show ?case
  proof (cases "x = c")
    case False
    with Cons.prems obtain a' where "split_once c xs = Some (a', b)" "a = x # a'" by auto
    with Cons.IH [of a'] False show ?thesis by auto
  qed (use Cons.prems in auto)
qed simp

lemma split_once_Some: "split_once c xs = Some (a, b) \<longleftrightarrow> c \<notin> set a \<and> xs = a @ c # b"
  using split_once_SomeD split_once_append by metis

lemma position_None: "position p xs = None \<longleftrightarrow> (\<forall>x\<in>set xs. \<not> p x)"
  by (induction xs) auto

lemma position_Some_split:
  "position p xs = Some i \<Longrightarrow>
     i < length xs \<and> p (xs ! i) \<and> (\<forall>x\<in>set (take i xs). \<not> p x)"
proof (induction xs arbitrary: i)
  case (Cons x xs)
  then show ?case by (cases i) (auto split: if_splits)
qed simp

lemma position_append: "\<forall>x\<in>set a. \<not> p x \<Longrightarrow> p c \<Longrightarrow> position p (a @ c # b) = Some (length a)"
  by (induction a) auto

subsection \<open>Trimming\<close>

lemma trim_matches_id:
  "xs = [] \<or> \<not> p (hd xs) \<and> \<not> p (last xs) \<Longrightarrow> trim_matches p xs = xs"
  by (cases "xs = []") (auto simp: trim_matches_def dropWhile_hd hd_rev)

lemma set_trim_matches: "set (trim_matches p xs) \<subseteq> set xs"
  by (auto simp: trim_matches_def dest!: set_dropWhileD)

lemma length_trim_matches: "length (trim_matches p xs) \<le> length xs"
proof -
  have "length (dropWhile p (rev (dropWhile p xs))) \<le> length (rev (dropWhile p xs))"
    by (rule length_dropWhile_le)
  also have "\<dots> \<le> length xs" by (simp add: length_dropWhile_le)
  finally show ?thesis by (simp add: trim_matches_def)
qed

lemma trim_matches_ends:
  assumes "trim_matches p xs \<noteq> []"
  shows "\<not> p (hd (trim_matches p xs))" and "\<not> p (last (trim_matches p xs))"
proof -
  let ?d = "dropWhile p xs"
  let ?r = "dropWhile p (rev ?d)"
  have ne: "?r \<noteq> []" using assms by (simp add: trim_matches_def)
  then show "\<not> p (last (trim_matches p xs))"
    using hd_dropWhile [OF ne] by (simp add: trim_matches_def last_rev)
  have d: "?d \<noteq> []"
  proof
    assume "?d = []"
    then have "?r = []" by (simp del: dropWhile_eq_Nil_conv)
    with ne show False by simp
  qed
  have "last ?r = last (rev ?d)"
    using ne by (metis dropWhile_eq_drop last_drop not_le drop_all)
  then have "last ?r = hd ?d" using d by (simp add: last_rev)
  then show "\<not> p (hd (trim_matches p xs))"
    using hd_dropWhile [OF d] ne by (simp add: trim_matches_def hd_rev)
qed

subsection \<open>Removal by index\<close>

lemma vec_remove_split: "i < length xs \<Longrightarrow> \<exists>a b. xs = a @ xs ! i # b \<and> vec_remove i xs = a @ b"
  by (metis id_take_nth_drop vec_remove_def)

lemma length_vec_remove: "i < length xs \<Longrightarrow> length (vec_remove i xs) = length xs - 1"
  by (simp add: vec_remove_def)

lemma sum_list_vec_remove:
  "i < length xs \<Longrightarrow> sum_list (map f xs) = f (xs ! i) + (sum_list (map f (vec_remove i xs)) :: nat)"
proof -
  assume "i < length xs"
  then obtain a b where ab: "xs = a @ xs ! i # b" "vec_remove i xs = a @ b"
    using vec_remove_split by blast
  have "sum_list (map f (a @ xs ! i # b)) = f (xs ! i) + sum_list (map f (a @ b))" by simp
  with ab show ?thesis by metis
qed

lemma subseq_vec_remove: "subseq (vec_remove i xs) xs"
proof (cases "i < length xs")
  case True
  then obtain a b where ab: "xs = a @ xs ! i # b" "vec_remove i xs = a @ b"
    using vec_remove_split by blast
  have "subseq (a @ b) (a @ xs ! i # b)" by (intro list_emb_append_mono) auto
  with ab show ?thesis by metis
qed (simp add: vec_remove_def)

subsection \<open>Code points\<close>

lemma concat_utf8_chars [simp]: "concat (utf8_chars s) = s"
  by (induction s rule: utf8_chars.induct) auto

lemma utf8_chars_nonempty: "w \<in> set (utf8_chars s) \<Longrightarrow> w \<noteq> []"
  by (induction s rule: utf8_chars.induct) auto

lemma length_utf8_chars_le: "length (utf8_chars s) \<le> length s"
proof (induction s rule: utf8_chars.induct)
  case (2 c s)
  then show ?case using length_dropWhile_le [of is_cont s] by simp
qed simp

lemma block_takeWhile: "\<forall>x\<in>set a. P x \<Longrightarrow> b = [] \<or> \<not> P (hd b) \<Longrightarrow> takeWhile P (a @ b) = a"
  by (cases b) (auto simp: takeWhile_id takeWhile_append)

lemma block_dropWhile: "\<forall>x\<in>set a. P x \<Longrightarrow> b = [] \<or> \<not> P (hd b) \<Longrightarrow> dropWhile P (a @ b) = b"
  by (cases b) (auto simp: dropWhile_append)

lemma utf8_chars_concat_take: "utf8_chars (concat (take n (utf8_chars s))) = take n (utf8_chars s)"
proof (induction s arbitrary: n rule: utf8_chars.induct)
  case (2 c s)
  show ?case
  proof (cases n)
    case (Suc m)
    let ?rest = "concat (take m (utf8_chars (dropWhile is_cont s)))"
    have head: "?rest = [] \<or> \<not> is_cont (hd ?rest)"
    proof (cases "dropWhile is_cont s")
      case (Cons d t)
      then have "\<not> is_cont d" by (simp add: dropWhile_eq_Cons_conv)
      with Cons show ?thesis by (cases m) auto
    next
      case Nil
      then show ?thesis by (simp del: dropWhile_eq_Nil_conv)
    qed
    have "takeWhile is_cont (takeWhile is_cont s @ ?rest) = takeWhile is_cont s"
      and "dropWhile is_cont (takeWhile is_cont s @ ?rest) = ?rest"
      using block_takeWhile [where P = is_cont, OF _ head]
        block_dropWhile [where P = is_cont, OF _ head] set_takeWhileD by metis+
    with Suc "2.IH" show ?thesis by simp
  qed simp
qed simp

lemma valid_utf8_ascii: "\<forall>c\<in>set s. ord c < 128 \<Longrightarrow> valid_utf8 s"
  by (induction s) (auto simp: byte_in_def)

lemma byte_in_cont: "byte_in l h b \<Longrightarrow> 128 \<le> l \<Longrightarrow> h \<le> 191 \<Longrightarrow> is_cont b"
  by (simp add: byte_in_def is_cont_def)

lemma byte_in_not_cont: "byte_in l h b \<Longrightarrow> 191 < l \<or> h < 128 \<Longrightarrow> \<not> is_cont b"
  by (auto simp: byte_in_def is_cont_def)

text \<open>A well-formed string starts with a code point: its first byte and continuation bytes after it.\<close>

lemma valid_utf8_step:
  assumes "valid_utf8 (a # s)"
  shows "\<not> is_cont a \<and> (\<exists>c r. s = c @ r \<and> (\<forall>x\<in>set c. is_cont x) \<and> valid_utf8 r \<and>
    (\<forall>t. valid_utf8 (a # c @ t) = valid_utf8 t))"
proof (cases "byte_in 0 127 a")
  case True
  with assms have "valid_utf8 s" by simp
  with True show ?thesis
    by (intro conjI exI [of _ "[]"] exI [of _ s]) (simp_all add: byte_in_not_cont [where l = 0 and h = 127])
next
  case one: False
  with assms obtain b s1 where s: "s = b # s1" by (cases s) auto
  show ?thesis
  proof (cases "byte_in 194 223 a \<and> is_cont b")
    case True
    with assms one s show ?thesis
      by (intro conjI exI [of _ "[b]"] exI [of _ s1]) (simp_all add: byte_in_not_cont [where l = 194 and h = 223])
  next
    case two: False
    from assms one s two obtain c s2 where s1: "s1 = c # s2" by (cases s1) (simp_all split: if_splits)
    define P where "P \<longleftrightarrow> is_cont c \<and> (byte_in 224 224 a \<and> byte_in 160 191 b \<or> byte_in 225 236 a \<and> is_cont b
      \<or> byte_in 237 237 a \<and> byte_in 128 159 b \<or> byte_in 238 239 a \<and> is_cont b)"
    show ?thesis
    proof (cases P)
      case True
      have cont: "is_cont b" "is_cont c"
        using True byte_in_cont [of 160 191 b] byte_in_cont [of 128 159 b] unfolding P_def by auto
      have lead: "\<not> is_cont a"
        using True byte_in_not_cont [of 224 224 a] byte_in_not_cont [of 225 236 a] byte_in_not_cont [of 237 237 a]
          byte_in_not_cont [of 238 239 a] unfolding P_def by auto
      have eq: "valid_utf8 (a # b # c # t) = valid_utf8 t" for t
        using one two True unfolding P_def by (simp only: valid_utf8.simps list.case if_True if_False simp_thms)
      from assms have "valid_utf8 s2" unfolding s s1 eq .
      with cont lead show ?thesis
        unfolding s s1 by (intro conjI exI [of _ "[b, c]"] exI [of _ s2]) (simp_all add: eq del: valid_utf8.simps)
    next
      case three: False
      define Q where "Q \<longleftrightarrow> byte_in 240 240 a \<and> byte_in 144 191 b \<or> byte_in 241 243 a \<and> is_cont b
        \<or> byte_in 244 244 a \<and> byte_in 128 143 b"
      have eq: "valid_utf8 (a # b # c # t) =
          (case t of [] \<Rightarrow> False | d # s3 \<Rightarrow> is_cont c \<and> is_cont d \<and> Q \<and> valid_utf8 s3)" for t
        using one two three unfolding P_def Q_def by (simp only: valid_utf8.simps list.case if_True if_False)
      from assms obtain d s3 where s2: "s2 = d # s3" and q: "is_cont c" "is_cont d" Q "valid_utf8 s3"
        unfolding s s1 eq by (cases s2) auto
      have b: "is_cont b"
        using q(3) byte_in_cont [of 144 191 b] byte_in_cont [of 128 143 b] unfolding Q_def by auto
      have lead: "\<not> is_cont a"
        using q(3) byte_in_not_cont [of 240 240 a] byte_in_not_cont [of 241 243 a] byte_in_not_cont [of 244 244 a]
        unfolding Q_def by auto
      from q b lead show ?thesis
        unfolding s s1 s2
        by (intro conjI exI [of _ "[b, c, d]"] exI [of _ s3]) (simp_all add: eq del: valid_utf8.simps)
    qed
  qed
qed

lemma valid_utf8_head: "valid_utf8 (c # s) \<Longrightarrow> \<not> is_cont c"
  using valid_utf8_step by blast

text \<open>Cutting a well-formed string between code points keeps it well formed.\<close>

lemma valid_utf8_take: "valid_utf8 s \<Longrightarrow> valid_utf8 (concat (take n (utf8_chars s)))"
proof (induction s arbitrary: n rule: utf8_chars.induct)
  case (2 a s)
  from valid_utf8_step [OF "2.prems"] obtain c r where c: "s = c @ r" "\<forall>x\<in>set c. is_cont x" "valid_utf8 r"
    "\<And>t. valid_utf8 (a # c @ t) = valid_utf8 t" by blast
  have hd: "r = [] \<or> \<not> is_cont (hd r)" using c(3) valid_utf8_head by (cases r) auto
  have tw: "takeWhile is_cont s = c" and dw: "dropWhile is_cont s = r"
    unfolding c(1) using block_takeWhile [OF c(2) hd] block_dropWhile [OF c(2) hd] by simp_all
  show ?case
  proof (cases n)
    case (Suc m)
    have "valid_utf8 (concat (take m (utf8_chars r)))" using "2.IH" [unfolded dw, OF c(3)] .
    with Suc c(4) show ?thesis by (simp add: tw dw)
  qed simp
qed simp

text \<open>Strings can be cut at the end of a well-formed prefix and before every occurrence of a well-formed one.\<close>

lemma valid_utf8_drop_prefix: "valid_utf8 p \<Longrightarrow> valid_utf8 (p @ r) = valid_utf8 r"
proof (induction p rule: length_induct)
  case (1 p)
  show ?case
  proof (cases p)
    case (Cons a s)
    with 1 valid_utf8_step obtain c r' where c: "s = c @ r'" "valid_utf8 r'"
      "\<And>t. valid_utf8 (a # c @ t) = valid_utf8 t" by metis
    with Cons have "length r' < length p" by simp
    with 1 c(2) have "valid_utf8 (r' @ r) = valid_utf8 r" by blast
    with Cons c(1) c(3) [of "r' @ r"] show ?thesis by simp
  qed simp
qed

lemma valid_utf8_at:
  "valid_utf8 (q @ r) \<Longrightarrow> r = [] \<or> \<not> is_cont (hd r) \<Longrightarrow> valid_utf8 r"
proof (induction q rule: length_induct)
  case (1 q)
  show ?case
  proof (cases q)
    case (Cons a s)
    with "1.prems"(1) valid_utf8_step [of a "s @ r"] obtain c r' where c: "s @ r = c @ r'" "\<forall>x\<in>set c. is_cont x"
      "valid_utf8 r'" by auto
    have le: "length c \<le> length s"
    proof (rule ccontr)
      assume "\<not> length c \<le> length s"
      then have "length s < length c" by simp
      with c(1) have "r \<noteq> []" "(c @ r') ! length s = hd r" and "(c @ r') ! length s \<in> set c"
        by (metis append_Nil2 length_append le_add1 not_le,
            metis append_Nil2 hd_conv_nth length_append le_add1 not_le nth_append_length_plus add_0_right,
            simp add: nth_append)
      with c(2) "1.prems"(2) show False by auto
    qed
    then have s: "s = c @ drop (length c) s" "drop (length c) s @ r = r'"
      using c(1) by (metis append_eq_append_conv_if append_take_drop_id, metis append_eq_conv_conj drop_append diff_is_0_eq drop_0)
    have "length (drop (length c) s) < length q" using Cons by simp
    with 1 c(3) s(2) show ?thesis by blast
  qed (use 1 in simp)
qed

lemma valid_utf8_cut: "valid_utf8 (q @ x # r) \<Longrightarrow> \<not> is_cont x \<Longrightarrow> valid_utf8 q"
proof (induction q rule: length_induct)
  case (1 q)
  show ?case
  proof (cases q)
    case (Cons a s)
    with "1.prems"(1) valid_utf8_step [of a "s @ x # r"] obtain c r' where c: "s @ x # r = c @ r'"
      "\<forall>y\<in>set c. is_cont y" "valid_utf8 r'" "\<And>t. valid_utf8 (a # c @ t) = valid_utf8 t" by auto
    have "\<exists>s'. s = c @ s' \<and> r' = s' @ x # r"
      using c(1,2) "1.prems"(2) by (auto simp: append_eq_append_conv2 append_eq_Cons_conv Cons_eq_append_conv)
    then obtain s' where s': "s = c @ s'" "r' = s' @ x # r" by blast
    moreover have "length s' < length q" using s' Cons by simp
    ultimately have "valid_utf8 s'" using 1 c(3) by blast
    with c(4) [of s'] s' Cons show ?thesis by simp
  qed simp
qed

lemma valid_utf8_occurrence:
  "valid_utf8 (q @ p @ r) \<Longrightarrow> valid_utf8 p \<Longrightarrow> p \<noteq> [] \<Longrightarrow> valid_utf8 r"
  using valid_utf8_at [of q "p @ r"] valid_utf8_drop_prefix [of p r] valid_utf8_head
  by (metis append_is_Nil_conv hd_append2 list.collapse)

text \<open>The pieces of a string, and every contiguous part of them, are the pieces of their concatenation.\<close>

definition pieces :: "string list \<Rightarrow> bool" where
  "pieces ws \<longleftrightarrow> (\<forall>w\<in>set ws. w \<noteq> [] \<and> list_all is_cont (tl w)) \<and> (\<forall>w\<in>set (tl ws). \<not> is_cont (hd w))"

lemma utf8_chars_pieces: "pieces (utf8_chars s)"
proof (induction s rule: utf8_chars.induct)
  case (2 c s)
  have hd: "\<forall>w\<in>set (utf8_chars (dropWhile is_cont s)). \<not> is_cont (hd w)"
  proof (cases "dropWhile is_cont s")
    case (Cons d t)
    then have "\<not> is_cont d" by (simp add: dropWhile_eq_Cons_conv)
    with 2 Cons show ?thesis by (simp add: pieces_def)
  next
    case Nil
    then show ?thesis by (simp del: dropWhile_eq_Nil_conv)
  qed
  with 2 show ?case by (auto simp: pieces_def list_all_iff dest: set_takeWhileD)
qed (simp add: pieces_def)

lemma utf8_chars_of_pieces: "pieces ws \<Longrightarrow> utf8_chars (concat ws) = ws"
proof (induction ws)
  case (Cons w ws)
  then obtain c t where w: "w = c # t" and t: "\<forall>x\<in>set t. is_cont x"
    by (cases w) (auto simp: pieces_def list_all_iff)
  from Cons.prems have ws: "pieces ws" and hd: "concat ws = [] \<or> \<not> is_cont (hd (concat ws))"
    by (cases ws; auto simp: pieces_def)+
  show ?case
    using Cons.IH [OF ws] block_takeWhile [OF t hd] block_dropWhile [OF t hd] by (simp add: w)
qed simp

lemma pieces_sub: "pieces (us @ vs @ ws) \<Longrightarrow> pieces vs"
  by (cases us; cases vs) (auto simp: pieces_def)

lemma trim_matches_sub: "\<exists>us ws. xs = us @ trim_matches p xs @ ws"
proof -
  have "xs = takeWhile p xs @ dropWhile p xs" by simp
  moreover have "dropWhile p xs = rev (takeWhile p (rev (dropWhile p xs)) @ dropWhile p (rev (dropWhile p xs)))"
    by (simp del: rev_append)
  ultimately have "xs = takeWhile p xs @ trim_matches p xs @ rev (takeWhile p (rev (dropWhile p xs)))"
    by (metis rev_append trim_matches_def)
  then show ?thesis by blast
qed

lemma trim_idem: "trim (trim s) = trim s"
proof -
  let ?t = "trim_matches is_whitespace (utf8_chars s)"
  obtain us ws where "utf8_chars s = us @ ?t @ ws" using trim_matches_sub by blast
  then have "pieces ?t" using utf8_chars_pieces [of s] pieces_sub by metis
  then have "utf8_chars (concat ?t) = ?t" by (rule utf8_chars_of_pieces)
  moreover have "trim_matches is_whitespace ?t = ?t"
    by (cases "?t = []") (auto intro!: trim_matches_id simp: trim_matches_ends)
  ultimately show ?thesis by (simp add: trim_def)
qed

lemma trim_sub: "\<exists>a b. s = a @ trim s @ b"
proof -
  obtain us ws where "utf8_chars s = us @ trim_matches is_whitespace (utf8_chars s) @ ws"
    using trim_matches_sub by blast
  then have "concat (utf8_chars s) = concat us @ trim s @ concat ws" by (metis concat_append trim_def)
  then show ?thesis unfolding concat_utf8_chars by blast
qed

lemma set_trim: "set (trim s) \<subseteq> set s"
  using trim_sub [of s] by (metis Un_upper1 Un_upper2 le_supI2 set_append subset_trans)

lemma to_str_Some [simp]: "to_str b = Some s \<longleftrightarrow> valid_utf8 b \<and> s = b"
  by (auto simp: to_str_def)

subsection \<open>Numbers\<close>

lemma digits_value_append:
  "digits_value acc (s @ t) = (case digits_value acc s of None \<Rightarrow> None | Some v \<Rightarrow> digits_value v t)"
  by (induction s arbitrary: acc) auto

lemma ord_digit: "n < 10 \<Longrightarrow> of_char (char_of (48 + n) :: char) = 48 + (n::nat)"
  by simp

lemma digits_value_show_nat: "digits_value 0 (show_nat n) = Some n"
proof (induction n rule: show_nat.induct)
  case (1 n)
  show ?case
  proof (cases "n < 10")
    case True
    then show ?thesis by (subst show_nat.simps) (simp add: is_ascii_digit_def)
  next
    case False
    have "is_ascii_digit (char_of (48 + n mod 10))" by (simp add: is_ascii_digit_def)
    with False 1 show ?thesis
      by (subst show_nat.simps) (simp add: digits_value_append)
  qed
qed

lemma show_nat_digits: "c \<in> set (show_nat n) \<Longrightarrow> is_ascii_digit c"
proof (induction n rule: show_nat.induct)
  case (1 n)
  from "1.prems" show ?case
    by (subst (asm) show_nat.simps) (auto simp: is_ascii_digit_def dest: "1.IH" split: if_splits)
qed

lemma show_nat_not_Nil [simp]: "show_nat n \<noteq> []"
  by (subst show_nat.simps) simp

lemma parse_unsigned_show_nat: "n \<le> m \<Longrightarrow> parse_unsigned m (show_nat n) = Some n"
proof -
  assume "n \<le> m"
  obtain c t where ct: "show_nat n = c # t" by (cases "show_nat n") auto
  then have "c \<noteq> CHR ''+''" using show_nat_digits [of c n] by (auto simp: is_ascii_digit_def)
  with ct \<open>n \<le> m\<close> digits_value_show_nat [of n] show ?thesis by (simp add: parse_unsigned_def)
qed

lemma parse_unsigned_bound: "parse_unsigned m s = Some v \<Longrightarrow> v \<le> m"
  by (auto simp: parse_unsigned_def Let_def split: list.splits option.splits if_splits)

subsection \<open>Substrings\<close>

lemma find_str_Some:
  "find_str p s = Some i \<Longrightarrow> i + length p \<le> length s \<and> prefix p (drop i s)"
proof (induction p s arbitrary: i rule: find_str.induct)
  case (2 p x xs)
  then show ?case by (auto split: if_splits dest: prefix_length_le)
qed (auto split: if_splits)

lemma find_str_least: "prefix p (drop j s) \<Longrightarrow> \<exists>i\<le>j. find_str p s = Some i"
proof (induction p s arbitrary: j rule: find_str.induct)
  case (2 p x xs)
  show ?case
  proof (cases "prefix p (x # xs)")
    case False
    with "2.prems" obtain j' where j: "j = Suc j'" by (cases j) auto
    with "2.prems" "2.IH" [OF False, of j'] show ?thesis by auto
  qed simp
qed simp

lemma strip_prefix_str_Some: "strip_prefix_str p s = Some t \<longleftrightarrow> s = p @ t"
  by (induction p s rule: strip_prefix_str.induct) auto

lemma contains_str_infix: "contains_str s p \<longleftrightarrow> (\<exists>a b. s = a @ p @ b)"
proof
  assume "contains_str s p"
  then obtain i where i: "find_str p s = Some i" by (auto simp: contains_str_def)
  then obtain b where "drop i s = p @ b" using find_str_Some prefix_def by blast
  then have "s = take i s @ p @ b" by (metis append_take_drop_id)
  then show "\<exists>a b. s = a @ p @ b" by blast
next
  assume "\<exists>a b. s = a @ p @ b"
  then obtain a b where "s = a @ p @ b" by blast
  then have "prefix p (drop (length a) s)" by simp
  then show "contains_str s p" using find_str_least by (fastforce simp: contains_str_def)
qed

subsection \<open>Environment\<close>

lemma map_of_env_put [store_simps]: "map_of (env_put k v env) = (map_of env)(k \<mapsto> v)"
  by (simp add: env_put_def update_conv')

lemma map_of_env_del [store_simps]: "map_of (env_del k env) = (map_of env)(k := None)"
  by (simp add: env_del_def delete_conv')

lemma map_of_set_vars:
  "set_vars kvs env = Some env' \<Longrightarrow> map_of env' = map_of env ++ map_of (rev kvs)"
proof (induction kvs arbitrary: env)
  case (Cons kv kvs)
  obtain k v where "kv = (k, v)" by (cases kv)
  with Cons.prems have "set_vars kvs (env_put k v env) = Some env'"
    by (auto simp: set_var_def split: if_splits)
  then have "map_of env' = (map_of env)(k \<mapsto> v) ++ map_of (rev kvs)"
    by (simp only: Cons.IH store_simps)
  then show ?case
    by (simp add: \<open>kv = (k, v)\<close> fun_eq_iff map_add_def split: option.splits)
qed simp

lemma set_vars_Some:
  "(\<forall>(k, v)\<in>set kvs. settable_name k \<and> CHR 0x00 \<notin> set v) \<Longrightarrow> \<exists>env'. set_vars kvs env = Some env'"
  by (induction kvs arbitrary: env) (auto simp: set_var_def)

lemma env_var_cong: "map_of e1 k = map_of e2 k \<Longrightarrow> env_var e1 k = env_var e2 k"
  by (simp add: env_var_def)

end
