(* ===== verification/Interfaces.thy ===== *)
theory Interfaces
  imports Rust_Std
begin

text \<open>
  The contracts that several components share, as locales: keyed stores (environment,
  tracestate, baggage, native context values, provider table), codecs and codecs whose output
  can be cut at a separator (URL encoding, tracestate header), values cached for the length of
  a request (provider configuration hash, attribute limits, sensitive-data switch),
  transition systems with an invariant (context storage, batch processor), and carriers of
  headers (what propagators write to and read from). Each is
  interpreted in the theory of the component that provides the operations.
\<close>

section \<open>Keyed stores\<close>

locale keyed_store =
  fixes get :: "'m \<Rightarrow> 'k \<Rightarrow> 'v option"
    and put :: "'k \<Rightarrow> 'v \<Rightarrow> 'm \<Rightarrow> 'm"
    and del :: "'k \<Rightarrow> 'm \<Rightarrow> 'm"
    and wf :: "'m \<Rightarrow> bool"
    and ok :: "'m \<Rightarrow> 'k \<Rightarrow> 'v \<Rightarrow> bool"
  assumes get_put: "wf m \<Longrightarrow> ok m k v \<Longrightarrow> get (put k v m) = (get m)(k \<mapsto> v)"
    and get_del: "wf m \<Longrightarrow> get (del k m) = (get m)(k := None)"
    and wf_put: "wf m \<Longrightarrow> ok m k v \<Longrightarrow> wf (put k v m)"
    and wf_del: "wf m \<Longrightarrow> wf (del k m)"
begin

lemma put_get_same: "wf m \<Longrightarrow> ok m k v \<Longrightarrow> get (put k v m) k = Some v"
  by (simp add: get_put)

lemma put_get_other: "wf m \<Longrightarrow> ok m k v \<Longrightarrow> l \<noteq> k \<Longrightarrow> get (put k v m) l = get m l"
  by (simp add: get_put)

lemma put_overwrites:
  "wf m \<Longrightarrow> ok m k v \<Longrightarrow> ok (put k v m) k w \<Longrightarrow> ok m k w \<Longrightarrow>
     get (put k w (put k v m)) = get (put k w m)"
  by (simp add: get_put wf_put)

lemma del_after_put:
  "wf m \<Longrightarrow> ok m k v \<Longrightarrow> get m k = None \<Longrightarrow> get (del k (put k v m)) = get m"
  by (simp add: get_put get_del wf_put fun_upd_idem)

text \<open>A sequence of accepted updates: the last value of each key wins.\<close>

lemma fold_put:
  assumes "wf m" and "\<And>m k v. wf m \<Longrightarrow> (k, v) \<in> set kvs \<Longrightarrow> ok m k v"
  shows "wf (fold (\<lambda>(k, v). put k v) kvs m)
    \<and> get (fold (\<lambda>(k, v). put k v) kvs m) = get m ++ map_of (rev kvs)"
  using assms
proof (induction kvs arbitrary: m)
  case (Cons kv kvs)
  obtain k v where kv: "kv = (k, v)" by (cases kv)
  with Cons.prems have ok: "ok m k v" by simp
  with Cons.prems kv have "wf (put k v m)" by (simp add: wf_put)
  with Cons.IH [of "put k v m"] Cons.prems kv ok show ?case
    by (simp add: get_put fun_eq_iff map_add_def split: option.splits)
qed simp

end

section \<open>Codecs\<close>

locale codec =
  fixes enc :: "'a \<Rightarrow> string"
    and dec :: "string \<Rightarrow> 'a"
    and valid :: "'a \<Rightarrow> bool"
  assumes dec_enc: "valid x \<Longrightarrow> dec (enc x) = x"
begin

lemma enc_inj: "valid x \<Longrightarrow> valid y \<Longrightarrow> enc x = enc y \<Longrightarrow> x = y"
  by (metis dec_enc)

lemma map_dec_enc: "\<forall>x\<in>set xs. valid x \<Longrightarrow> map dec (map enc xs) = xs"
  by (induction xs) (auto simp: dec_enc)

end

locale separable_codec = codec enc dec valid
  for enc :: "'a \<Rightarrow> string" and dec :: "string \<Rightarrow> 'a" and valid :: "'a \<Rightarrow> bool" +
  fixes sep :: char
  assumes sep_free: "valid x \<Longrightarrow> sep \<notin> set (enc x)"
begin

text \<open>A list of encoded items joined by the separator can be cut and decoded again.\<close>

lemma split_join_enc:
  assumes "xs \<noteq> []" and "\<forall>x\<in>set xs. valid x"
  shows "split_on sep (join [sep] (map enc xs)) = map enc xs"
  using assms by (intro split_on_join) (auto dest: sep_free)

lemma decode_joined:
  assumes "xs \<noteq> []" and "\<forall>x\<in>set xs. valid x"
  shows "map dec (split_on sep (join [sep] (map enc xs))) = xs"
  unfolding split_join_enc [OF assms] by (rule map_dec_enc [OF assms(2)])

end

section \<open>Values cached for a request\<close>

locale request_cache =
  fixes begin_req :: "'env \<Rightarrow> 's \<Rightarrow> 's"
    and end_req :: "'s \<Rightarrow> 's"
    and read :: "'env \<Rightarrow> 's \<Rightarrow> 'v \<times> 's"
    and compute :: "'env \<Rightarrow> 'v"
  assumes read_begin: "read e' (begin_req e s) = (compute e, begin_req e s)"
    and read_end: "fst (read e (end_req s)) = compute e"
begin

text \<open>The values and the final state of a sequence of reads, one per environment.\<close>

fun reads :: "'env list \<Rightarrow> 's \<Rightarrow> 'v list \<times> 's" where
  "reads [] s = ([], s)"
| "reads (e # es) s =
     (let (v, s') = read e s; (vs, s'') = reads es s' in (v # vs, s''))"

lemma reads_begin:
  "reads es (begin_req e s) = (replicate (length es) (compute e), begin_req e s)"
  by (induction es) (auto simp: read_begin)

lemma next_request: "read e' (begin_req e (end_req s)) = (compute e, begin_req e (end_req s))"
  by (rule read_begin)

end

section \<open>Transition systems\<close>

inductive reachable :: "('s \<Rightarrow> bool) \<Rightarrow> ('s \<Rightarrow> 's \<Rightarrow> bool) \<Rightarrow> 's \<Rightarrow> bool"
  for init :: "'s \<Rightarrow> bool" and step :: "'s \<Rightarrow> 's \<Rightarrow> bool" where
  reach_init: "init s \<Longrightarrow> reachable init step s"
| reach_step: "reachable init step s \<Longrightarrow> step s t \<Longrightarrow> reachable init step t"

locale safe_system =
  fixes init :: "'s \<Rightarrow> bool"
    and step :: "'s \<Rightarrow> 's \<Rightarrow> bool"
    and safe :: "'s \<Rightarrow> bool"
  assumes safe_init: "init s \<Longrightarrow> safe s"
    and safe_step: "safe s \<Longrightarrow> step s t \<Longrightarrow> safe t"
begin

lemma reachable_safe: "reachable init step s \<Longrightarrow> safe s"
  by (induction rule: reachable.induct) (auto intro: safe_init safe_step)

lemma steps_safe: "step\<^sup>*\<^sup>* s t \<Longrightarrow> safe s \<Longrightarrow> safe t"
  by (induction rule: rtranclp_induct) (auto intro: safe_step)

end

section \<open>Carriers of headers\<close>

text \<open>
  Propagators write headers to a carrier and read them back. Names may be identified (\<open>same\<close>), as
  header names are without regard to case; \<open>name\<close> and \<open>content\<close> are the names and texts a carrier takes.
\<close>

locale header_carrier =
  fixes put :: "'k \<Rightarrow> 'v \<Rightarrow> 'c \<Rightarrow> 'c"
    and get :: "'c \<Rightarrow> 'k \<Rightarrow> 'v option"
    and ok :: "'c \<Rightarrow> bool"
    and same :: "'k \<Rightarrow> 'k \<Rightarrow> bool"
    and name :: "'k \<Rightarrow> bool"
    and content :: "'v \<Rightarrow> bool"
  assumes ok_put: "ok c \<Longrightarrow> name k \<Longrightarrow> content v \<Longrightarrow> ok (put k v c)"
    and get_put: "ok c \<Longrightarrow> name k \<Longrightarrow> content v \<Longrightarrow> get (put k v c) l = (if same k l then Some v else get c l)"
begin

definition put_all :: "('k \<times> 'v) list \<Rightarrow> 'c \<Rightarrow> 'c" where
  "put_all hs c = fold (\<lambda>(k, v). put k v) hs c"

lemma put_all_get:
  assumes "ok c" and "\<forall>(k, v)\<in>set hs. name k \<and> content v"
  shows "ok (put_all hs c) \<and>
    get (put_all hs c) l = (case List.find (\<lambda>h. same (fst h) l) (rev hs) of Some h \<Rightarrow> Some (snd h) | None \<Rightarrow> get c l)"
  using assms
proof (induction hs rule: rev_induct)
  case (snoc h hs)
  then show ?case by (cases h) (auto simp: put_all_def ok_put get_put)
qed (simp add: put_all_def)

text \<open>The order in which headers with different names are written does not matter.\<close>

lemma put_all_distinct:
  assumes "ok c" and hs: "\<forall>(k, v)\<in>set hs. name k \<and> content v"
    and distinct: "\<And>h h'. h \<in> set hs \<Longrightarrow> h' \<in> set hs \<Longrightarrow> same (fst h) l \<Longrightarrow> same (fst h') l \<Longrightarrow> h = h'"
    and "(k, v) \<in> set hs" and "same k l"
  shows "get (put_all hs c) l = Some v"
proof -
  obtain h where h: "List.find (\<lambda>h. same (fst h) l) (rev hs) = Some h"
    using assms(4,5) by (cases "List.find (\<lambda>h. same (fst h) l) (rev hs)") (auto simp: find_None_iff)
  from find_Some_in [OF h] have "h \<in> set hs" "same (fst h) l" by auto
  with distinct [of h "(k, v)"] assms(4,5) have "h = (k, v)" by simp
  with put_all_get [OF assms(1) hs, of l] h show ?thesis by simp
qed

lemma put_all_absent:
  assumes "ok c" and hs: "\<forall>(k, v)\<in>set hs. name k \<and> content v" and "\<forall>h\<in>set hs. \<not> same (fst h) l"
  shows "get (put_all hs c) l = get c l"
proof -
  have "List.find (\<lambda>h. same (fst h) l) (rev hs) = None" using assms(3) by (auto simp: find_None_iff)
  with put_all_get [OF assms(1) hs, of l] show ?thesis by simp
qed

end

section \<open>The process environment as a keyed store\<close>

interpretation env_store: keyed_store map_of env_put env_del "\<lambda>_. True" "\<lambda>_ _ _. True"
  by unfold_locales (auto simp: store_simps)

end
