(* ===== verification/Batch_Config.thy ===== *)
theory Batch_Config
  imports Interfaces
begin

text \<open>
  The configuration of the bounded batch span processor (\<open>trace/batch_processor.rs\<close>): the limits,
  \<open>RetryPolicy::from_env\<close>, \<open>BatchProcessorConfig::from_env\<close> with the parsers they use, and the
  classification of exporter failures into retryable and terminal ones.

  A \<open>Duration\<close> is the number of its nanoseconds. The configured sizes are naturals, bounded by the
  parsers; the counters of the processor are 64-bit words (theory \<open>Batch_Export\<close>).
\<close>

section \<open>Limits\<close>

type_synonym duration = nat

definition from_millis :: "nat \<Rightarrow> duration" where
  "from_millis ms = ms * 1000000"

definition DEFAULT_MAX_QUEUE_SIZE :: nat where "DEFAULT_MAX_QUEUE_SIZE = 2048"
definition DEFAULT_MAX_EXPORT_BATCH_SIZE :: nat where "DEFAULT_MAX_EXPORT_BATCH_SIZE = 512"
definition DEFAULT_SCHEDULE_DELAY_MS :: nat where "DEFAULT_SCHEDULE_DELAY_MS = 1000"
definition DEFAULT_EXPORT_TIMEOUT_MS :: nat where "DEFAULT_EXPORT_TIMEOUT_MS = 3000"
definition DEFAULT_SHUTDOWN_TIMEOUT_MS :: nat where "DEFAULT_SHUTDOWN_TIMEOUT_MS = 500"
definition MAX_QUEUE_SIZE :: nat where "MAX_QUEUE_SIZE = 65536"
definition MAX_EXPORT_BATCH_SIZE :: nat where "MAX_EXPORT_BATCH_SIZE = 4096"
definition MAX_CONCURRENT_EXPORTS :: nat where "MAX_CONCURRENT_EXPORTS = 8"
definition MAX_SCHEDULE_DELAY_MS :: nat where "MAX_SCHEDULE_DELAY_MS = 60000"
definition MAX_EXPORT_TIMEOUT_MS :: nat where "MAX_EXPORT_TIMEOUT_MS = 30000"
definition MAX_SHUTDOWN_TIMEOUT_MS :: nat where "MAX_SHUTDOWN_TIMEOUT_MS = 2000"
definition DEFAULT_RETRY_MAX_ATTEMPTS :: nat where "DEFAULT_RETRY_MAX_ATTEMPTS = 3"
definition MAX_RETRY_MAX_ATTEMPTS :: nat where "MAX_RETRY_MAX_ATTEMPTS = 10"
definition DEFAULT_RETRY_MAX_ELAPSED_MS :: nat where "DEFAULT_RETRY_MAX_ELAPSED_MS = 5000"
definition MAX_RETRY_MAX_ELAPSED_MS :: nat where "MAX_RETRY_MAX_ELAPSED_MS = 30000"
definition DEFAULT_RETRY_INITIAL_BACKOFF_MS :: nat where "DEFAULT_RETRY_INITIAL_BACKOFF_MS = 100"
definition MAX_RETRY_INITIAL_BACKOFF_MS :: nat where "MAX_RETRY_INITIAL_BACKOFF_MS = 5000"
definition RETRY_BACKOFF_CAP :: duration where "RETRY_BACKOFF_CAP = from_millis 5000"
definition RETRY_BACKOFF_SLICE :: duration where "RETRY_BACKOFF_SLICE = from_millis 10"

lemmas limit_defs = DEFAULT_MAX_QUEUE_SIZE_def DEFAULT_MAX_EXPORT_BATCH_SIZE_def
  DEFAULT_SCHEDULE_DELAY_MS_def DEFAULT_EXPORT_TIMEOUT_MS_def DEFAULT_SHUTDOWN_TIMEOUT_MS_def
  MAX_QUEUE_SIZE_def MAX_EXPORT_BATCH_SIZE_def MAX_CONCURRENT_EXPORTS_def
  MAX_SCHEDULE_DELAY_MS_def MAX_EXPORT_TIMEOUT_MS_def MAX_SHUTDOWN_TIMEOUT_MS_def
  DEFAULT_RETRY_MAX_ATTEMPTS_def MAX_RETRY_MAX_ATTEMPTS_def DEFAULT_RETRY_MAX_ELAPSED_MS_def
  MAX_RETRY_MAX_ELAPSED_MS_def DEFAULT_RETRY_INITIAL_BACKOFF_MS_def
  MAX_RETRY_INITIAL_BACKOFF_MS_def RETRY_BACKOFF_CAP_def RETRY_BACKOFF_SLICE_def

section \<open>Parsing bounded integers from the environment\<close>

definition range_message :: "string \<Rightarrow> nat \<Rightarrow> nat \<Rightarrow> string" where
  "range_message name lo hi =
     name @ '' must be an integer between '' @ show_nat lo @ '' and '' @ show_nat hi"

definition unicode_message :: "string \<Rightarrow> string" where
  "unicode_message name = name @ '' must be valid UTF-8''"

text \<open>\<open>value.parse().ok().filter(..).ok_or_else(..)\<close>; \<open>usize\<close> and \<open>u64\<close> have the same range.\<close>

definition checked_value :: "string \<Rightarrow> nat \<Rightarrow> nat \<Rightarrow> string \<Rightarrow> (string, nat) result" where
  "checked_value name lo hi value =
     (case parse_unsigned usize_max value of
        Some v \<Rightarrow> if lo \<le> v \<and> v \<le> hi then Ok v else Err (range_message name lo hi)
      | None \<Rightarrow> Err (range_message name lo hi))"

definition parse_u64_range :: "os_env \<Rightarrow> string \<Rightarrow> nat \<Rightarrow> nat \<Rightarrow> nat \<Rightarrow> (string, nat) result" where
  "parse_u64_range env name dflt minimum maximum =
     (case env_var env name of
        VarOk value \<Rightarrow> checked_value name minimum maximum value
      | NotPresent \<Rightarrow> Ok dflt
      | NotUnicode \<Rightarrow> Err (unicode_message name))"

definition parse_u64 :: "os_env \<Rightarrow> string \<Rightarrow> nat \<Rightarrow> nat \<Rightarrow> (string, nat) result" where
  "parse_u64 env name dflt maximum = parse_u64_range env name dflt 1 maximum"

definition parse_usize :: "os_env \<Rightarrow> string \<Rightarrow> nat \<Rightarrow> nat \<Rightarrow> (string, nat) result" where
  "parse_usize env name dflt maximum =
     (case env_var env name of
        VarOk value \<Rightarrow> checked_value name 1 maximum value
      | NotPresent \<Rightarrow> Ok dflt
      | NotUnicode \<Rightarrow> Err (unicode_message name))"

fun parse_first_u64 :: "os_env \<Rightarrow> string list \<Rightarrow> nat \<Rightarrow> nat \<Rightarrow> (string, nat) result" where
  "parse_first_u64 env [] dflt maximum = Ok dflt"
| "parse_first_u64 env (name # names) dflt maximum =
     (case env_var env name of
        VarOk value \<Rightarrow> checked_value name 1 maximum value
      | NotPresent \<Rightarrow> parse_first_u64 env names dflt maximum
      | NotUnicode \<Rightarrow> Err (unicode_message name))"

section \<open>Retry policy and configuration\<close>

record retry_policy =
  max_attempts :: nat
  max_elapsed :: duration
  initial_backoff :: duration

definition retry_policy_from_env :: "os_env \<Rightarrow> (string, retry_policy) result" where
  "retry_policy_from_env env =
     result_bind (parse_usize env ''OTEL_PHP_EXPORT_RETRY_MAX_ATTEMPTS''
       DEFAULT_RETRY_MAX_ATTEMPTS MAX_RETRY_MAX_ATTEMPTS) (\<lambda>attempts.
     result_bind (parse_u64_range env ''OTEL_PHP_EXPORT_RETRY_MAX_ELAPSED''
       DEFAULT_RETRY_MAX_ELAPSED_MS 0 MAX_RETRY_MAX_ELAPSED_MS) (\<lambda>elapsed_ms.
     result_bind (parse_u64 env ''OTEL_PHP_EXPORT_RETRY_INITIAL_BACKOFF''
       DEFAULT_RETRY_INITIAL_BACKOFF_MS MAX_RETRY_INITIAL_BACKOFF_MS) (\<lambda>backoff_ms.
     Ok \<lparr>max_attempts = attempts, max_elapsed = from_millis elapsed_ms,
         initial_backoff = from_millis backoff_ms\<rparr>)))"

definition retries_enabled :: "retry_policy \<Rightarrow> bool" where
  "retries_enabled p \<longleftrightarrow> max_attempts p > 1 \<and> max_elapsed p \<noteq> 0"

record batch_config =
  max_queue_size :: nat
  max_export_batch_size :: nat
  max_concurrent_exports :: nat
  scheduled_delay :: duration
  export_timeout :: duration
  shutdown_timeout :: duration
  retry :: retry_policy

definition batch_config_from_env :: "os_env \<Rightarrow> (string, batch_config) result" where
  "batch_config_from_env env =
     result_bind (parse_usize env ''OTEL_BSP_MAX_QUEUE_SIZE'' DEFAULT_MAX_QUEUE_SIZE MAX_QUEUE_SIZE)
       (\<lambda>queue_size.
     result_bind (parse_usize env ''OTEL_BSP_MAX_EXPORT_BATCH_SIZE''
         DEFAULT_MAX_EXPORT_BATCH_SIZE MAX_EXPORT_BATCH_SIZE) (\<lambda>batch_size.
     if batch_size > queue_size then
       Err ''OTEL_BSP_MAX_EXPORT_BATCH_SIZE must not exceed OTEL_BSP_MAX_QUEUE_SIZE''
     else
     result_bind (parse_usize env ''OTEL_BSP_MAX_CONCURRENT_EXPORTS'' 1 MAX_CONCURRENT_EXPORTS)
       (\<lambda>concurrent.
     result_bind (parse_u64 env ''OTEL_BSP_SCHEDULE_DELAY''
         DEFAULT_SCHEDULE_DELAY_MS MAX_SCHEDULE_DELAY_MS) (\<lambda>delay_ms.
     result_bind (parse_first_u64 env
         [''OTEL_EXPORTER_OTLP_TRACES_TIMEOUT'', ''OTEL_EXPORTER_OTLP_TIMEOUT'']
         DEFAULT_EXPORT_TIMEOUT_MS MAX_EXPORT_TIMEOUT_MS) (\<lambda>timeout_ms.
     result_bind (parse_u64 env ''OTEL_PHP_SHUTDOWN_TIMEOUT''
         DEFAULT_SHUTDOWN_TIMEOUT_MS MAX_SHUTDOWN_TIMEOUT_MS) (\<lambda>shutdown_ms.
     result_bind (retry_policy_from_env env) (\<lambda>policy.
     Ok \<lparr>max_queue_size = queue_size, max_export_batch_size = batch_size,
         max_concurrent_exports = concurrent, scheduled_delay = from_millis delay_ms,
         export_timeout = from_millis timeout_ms, shutdown_timeout = from_millis shutdown_ms,
         retry = policy\<rparr>)))))))"

text \<open>The bounds every accepted configuration keeps; the processor relies on them.\<close>

definition wf_policy :: "retry_policy \<Rightarrow> bool" where
  "wf_policy p \<longleftrightarrow>
     1 \<le> max_attempts p \<and> max_attempts p \<le> 10
     \<and> max_elapsed p \<le> from_millis 30000
     \<and> from_millis 1 \<le> initial_backoff p \<and> initial_backoff p \<le> from_millis 5000"

definition wf_config :: "batch_config \<Rightarrow> bool" where
  "wf_config c \<longleftrightarrow>
     1 \<le> max_export_batch_size c \<and> max_export_batch_size c \<le> 4096
     \<and> max_export_batch_size c \<le> max_queue_size c \<and> max_queue_size c \<le> 65536
     \<and> 1 \<le> max_concurrent_exports c \<and> max_concurrent_exports c \<le> 8
     \<and> from_millis 1 \<le> scheduled_delay c \<and> scheduled_delay c \<le> from_millis 60000
     \<and> from_millis 1 \<le> export_timeout c \<and> export_timeout c \<le> from_millis 30000
     \<and> from_millis 1 \<le> shutdown_timeout c \<and> shutdown_timeout c \<le> from_millis 2000
     \<and> wf_policy (retry c)"

section \<open>Classification of exporter failures\<close>

datatype export_error_kind = Retryable | Terminal

text \<open>\<open>OTelSdkError\<close> of the SDK, as far as the code matches on it.\<close>

datatype otel_sdk_error = AlreadyShutdown | Timeout duration | InternalFailure string

definition transport_markers :: "string list" where
  "transport_markers =
     [''transport error'', ''error trying to connect'', ''tcp connect error'',
      ''connection refused'', ''ConnectionRefused'', ''connection reset'', ''ConnectionReset'',
      ''connection aborted'', ''ConnectionAborted'', ''broken pipe'', ''BrokenPipe'',
      ''dns error'', ''failed to lookup address'', ''timed out'', ''TimedOut'',
      ''Timeout expired'', ''deadline'', ''connection closed'', ''channel closed'',
      ''operation was canceled'']"

definition is_transport_failure :: "string \<Rightarrow> bool" where
  "is_transport_failure message = list_ex (contains_str message) transport_markers"

definition retryable_codes :: "string list" where
  "retryable_codes =
     [''The operation was cancelled'', ''Cancelled'',
      ''Deadline expired before operation could complete'', ''DeadlineExceeded'',
      ''The operation was aborted'', ''Aborted'',
      ''Operation was attempted past the valid range'', ''OutOfRange'',
      ''The service is currently unavailable'', ''Unavailable'',
      ''Unrecoverable data loss or corruption'', ''DataLoss'',
      ''Some resource has been exhausted'', ''ResourceExhausted'']"

definition unknown_codes :: "string list" where
  "unknown_codes = [''Unknown error'', ''Unknown'']"

definition grpc_code :: "string \<Rightarrow> string" where
  "grpc_code rest =
     (let code = dropWhile (\<lambda>c. c = CHR 0x27) rest;
          code_end = (case position (\<lambda>c. c = CHR 0x27 \<or> c = CHR '','') code of
                        Some i \<Rightarrow> i | None \<Rightarrow> length code)
      in take code_end code)"

definition classify_grpc_status :: "string \<Rightarrow> export_error_kind option" where
  "classify_grpc_status message =
     (case (case strip_prefix_str ''code: '' message of
              Some r \<Rightarrow> Some r
            | None \<Rightarrow> strip_prefix_str ''status: '' message) of
        None \<Rightarrow> None
      | Some rest \<Rightarrow>
          let code = grpc_code rest in
          if code \<in> set retryable_codes then Some Retryable
          else if code \<in> set unknown_codes then
            Some (if is_transport_failure message then Retryable else Terminal)
          else Some Terminal)"

definition status_digits :: "string \<Rightarrow> nat option" where
  "status_digits rest = parse_unsigned (2 ^ 16 - 1) (takeWhile is_ascii_digit (trim_start rest))"

definition http_status_code :: "string \<Rightarrow> nat option" where
  "http_status_code message =
     (case find_str ''kind: Status('' message of
        Some index \<Rightarrow> status_digits (drop (index + length ''kind: Status('') message)
      | None \<Rightarrow>
          (case find_str ''Status Code: '' message of
             Some index \<Rightarrow> status_digits (drop (index + length ''Status Code: '') message)
           | None \<Rightarrow> None))"

definition classify_export_message :: "string \<Rightarrow> export_error_kind" where
  "classify_export_message message =
     (case classify_grpc_status message of
        Some kind \<Rightarrow> kind
      | None \<Rightarrow>
          (case http_status_code message of
             Some status \<Rightarrow> if status \<in> {429, 502, 503, 504} then Retryable else Terminal
           | None \<Rightarrow>
               if prefix ''reqwest::Error { kind: Request'' message \<or> is_transport_failure message
               then Retryable else Terminal))"

definition classify_export_error :: "otel_sdk_error \<Rightarrow> export_error_kind" where
  "classify_export_error e =
     (case e of
        Timeout _ \<Rightarrow> Retryable
      | AlreadyShutdown \<Rightarrow> Terminal
      | InternalFailure message \<Rightarrow> classify_export_message message)"

section \<open>Accepted configurations\<close>

lemma checked_value_Ok:
  "checked_value name lo hi s = Inr v \<Longrightarrow> lo \<le> v \<and> v \<le> hi"
  by (auto simp: checked_value_def split: option.splits if_splits)

lemma checked_value_show:
  "lo \<le> v \<Longrightarrow> v \<le> hi \<Longrightarrow> hi \<le> usize_max \<Longrightarrow> checked_value name lo hi (show_nat v) = Inr v"
  by (simp add: checked_value_def parse_unsigned_show_nat)

lemma parse_u64_range_Ok:
  "parse_u64_range env name d lo hi = Inr v \<Longrightarrow> v = d \<or> lo \<le> v \<and> v \<le> hi"
  by (auto simp: parse_u64_range_def dest: checked_value_Ok split: var_result.splits)

lemma parse_u64_Ok: "parse_u64 env name d hi = Inr v \<Longrightarrow> v = d \<or> 1 \<le> v \<and> v \<le> hi"
  unfolding parse_u64_def by (rule parse_u64_range_Ok)

lemma parse_usize_Ok: "parse_usize env name d hi = Inr v \<Longrightarrow> v = d \<or> 1 \<le> v \<and> v \<le> hi"
  by (auto simp: parse_usize_def dest: checked_value_Ok split: var_result.splits)

lemma parse_first_u64_Ok:
  "parse_first_u64 env names d hi = Inr v \<Longrightarrow> v = d \<or> 1 \<le> v \<and> v \<le> hi"
  by (induction names) (auto dest: checked_value_Ok split: var_result.splits)

lemma retry_policy_from_env_wf: "retry_policy_from_env env = Inr p \<Longrightarrow> wf_policy p"
  by (fastforce simp: retry_policy_from_env_def result_bind_Inr_conv wf_policy_def from_millis_def
      limit_defs dest!: parse_usize_Ok parse_u64_range_Ok parse_u64_Ok)

lemma batch_config_from_env_wf:
  assumes "batch_config_from_env env = Inr c"
  shows "wf_config c"
proof -
  from assms obtain q b n d t s p where
    q: "parse_usize env ''OTEL_BSP_MAX_QUEUE_SIZE'' DEFAULT_MAX_QUEUE_SIZE MAX_QUEUE_SIZE = Inr q"
    and b: "parse_usize env ''OTEL_BSP_MAX_EXPORT_BATCH_SIZE''
        DEFAULT_MAX_EXPORT_BATCH_SIZE MAX_EXPORT_BATCH_SIZE = Inr b"
    and bq: "\<not> b > q"
    and n: "parse_usize env ''OTEL_BSP_MAX_CONCURRENT_EXPORTS'' 1 MAX_CONCURRENT_EXPORTS = Inr n"
    and d: "parse_u64 env ''OTEL_BSP_SCHEDULE_DELAY''
        DEFAULT_SCHEDULE_DELAY_MS MAX_SCHEDULE_DELAY_MS = Inr d"
    and t: "parse_first_u64 env
        [''OTEL_EXPORTER_OTLP_TRACES_TIMEOUT'', ''OTEL_EXPORTER_OTLP_TIMEOUT'']
        DEFAULT_EXPORT_TIMEOUT_MS MAX_EXPORT_TIMEOUT_MS = Inr t"
    and s: "parse_u64 env ''OTEL_PHP_SHUTDOWN_TIMEOUT''
        DEFAULT_SHUTDOWN_TIMEOUT_MS MAX_SHUTDOWN_TIMEOUT_MS = Inr s"
    and p: "retry_policy_from_env env = Inr p"
    and c: "c = \<lparr>max_queue_size = q, max_export_batch_size = b, max_concurrent_exports = n,
      scheduled_delay = from_millis d, export_timeout = from_millis t,
      shutdown_timeout = from_millis s, retry = p\<rparr>"
    unfolding batch_config_from_env_def
    by (simp only: result_bind_Inr_conv split: if_splits) (blast | simp)
  from parse_usize_Ok [OF q] parse_usize_Ok [OF b] bq parse_usize_Ok [OF n] parse_u64_Ok [OF d]
    parse_first_u64_Ok [OF t] parse_u64_Ok [OF s] retry_policy_from_env_wf [OF p]
  show ?thesis by (auto simp: c wf_config_def from_millis_def limit_defs)
qed

section \<open>Failures\<close>

lemma grpc_code_quoted:
  assumes "c \<noteq> []" and "CHR 0x27 \<notin> set c" and "CHR '','' \<notin> set c"
  shows "grpc_code (CHR 0x27 # c @ CHR 0x27 # rest) = c"
proof -
  let ?p = "\<lambda>x. x = CHR 0x27 \<or> x = CHR '',''"
  have "dropWhile (\<lambda>x. x = CHR 0x27) (CHR 0x27 # c @ CHR 0x27 # rest) = c @ CHR 0x27 # rest"
    using assms(1,2) by (cases c) auto
  moreover have "position ?p (c @ CHR 0x27 # rest) = Some (length c)"
    using assms(2,3) by (induction c) auto
  ultimately show ?thesis by (simp add: grpc_code_def Let_def)
qed

lemma digit_not_whitespace: "is_ascii_digit d \<Longrightarrow> \<not> is_whitespace (d # w)"
  by (auto simp: is_whitespace_def is_ascii_digit_def split: list.splits)

lemma trim_start_digit: "is_ascii_digit d \<Longrightarrow> trim_start (d # s) = d # s"
  by (simp add: trim_start_def digit_not_whitespace)

lemma status_digits_show:
  assumes "n < 2 ^ 16" and "rest = [] \<or> \<not> is_ascii_digit (hd rest)"
  shows "status_digits (show_nat n @ rest) = Some n"
proof -
  obtain d t where dt: "show_nat n = d # t" by (cases "show_nat n") auto
  then have "is_ascii_digit d" using show_nat_digits [of d n] by simp
  then have "trim_start (show_nat n @ rest) = show_nat n @ rest"
    using trim_start_digit [of d "t @ rest"] dt by simp
  moreover have "takeWhile is_ascii_digit (show_nat n @ rest) = show_nat n"
    using assms(2) show_nat_digits by (intro block_takeWhile) auto
  ultimately show ?thesis using assms(1) by (simp add: status_digits_def parse_unsigned_show_nat)
qed

lemma http_status_code_line:
  "find_str ''Status Code: '' m = Some i \<Longrightarrow> find_str ''kind: Status('' m = None \<Longrightarrow>
     http_status_code m = status_digits (drop (i + length ''Status Code: '') m)"
  by (simp only: http_status_code_def option.case)

lemma classify_grpc_quoted:
  assumes "c \<noteq> []" and "CHR 0x27 \<notin> set c" and "CHR '','' \<notin> set c"
    and m: "m = ''code: '' @ CHR 0x27 # c @ CHR 0x27 # rest"
  shows "classify_grpc_status m = Some (if c \<in> set retryable_codes
      \<or> c \<in> set unknown_codes \<and> is_transport_failure m then Retryable else Terminal)"
proof -
  have "strip_prefix_str ''code: '' m = Some (CHR 0x27 # c @ CHR 0x27 # rest)"
    unfolding m by (subst strip_prefix_str_Some) (rule refl)
  then show ?thesis
    by (simp only: classify_grpc_status_def option.case Let_def grpc_code_quoted [OF assms(1-3)] simp_thms
        split: if_split) blast
qed

section \<open>Properties\<close>

text \<open>
  C7. Every configuration \<open>BatchProcessorConfig::from_env\<close> accepts is within the documented limits,
  whatever the environment holds: the batch fits the queue, the queue has at most 65536 slots, at
  most 8 exports overlap, the timeouts are positive and bounded, and 1 to 10 attempts are made. An
  empty environment is accepted.
\<close>

theorem batch_config_bounds:
  "(\<forall>c. batch_config_from_env env = Ok c \<longrightarrow> wf_config c)
   \<and> (\<exists>c. batch_config_from_env [] = Ok c \<and> max_queue_size c = 2048 \<and> max_export_batch_size c = 512
        \<and> max_concurrent_exports c = 1 \<and> retries_enabled (retry c))"
proof -
  have "parse_usize [] n d m = Ok d" "parse_u64 [] n d m = Ok d" "parse_u64_range [] n d l m = Ok d"
    "parse_first_u64 [] ns d m = Ok d" for n d l m ns
    by (simp_all add: parse_usize_def parse_u64_def parse_u64_range_def env_var_def)
      (induction ns; simp add: env_var_def)
  then have "\<exists>c. batch_config_from_env [] = Ok c \<and> max_queue_size c = 2048
      \<and> max_export_batch_size c = 512 \<and> max_concurrent_exports c = 1 \<and> retries_enabled (retry c)"
    by (simp add: batch_config_from_env_def retry_policy_from_env_def retries_enabled_def
        limit_defs from_millis_def del: parse_first_u64.simps)
  then show ?thesis using batch_config_from_env_wf by blast
qed

theorem batch_config_bounds_witness:
  "\<exists>c. batch_config_from_env [] = Ok c \<and> wf_config c"
  using batch_config_bounds [of "[]"] by blast

text \<open>
  Failure classification: a gRPC status message is retryable exactly for the codes of the OTLP
  retry list, and for an unknown code when the text names a transport failure; an HTTP status line
  that is the first one of its message is retryable exactly for 429, 502, 503 and 504; a timeout is
  retryable and a shut-down exporter is not.
\<close>

lemma export_error_classification:
  assumes "c \<noteq> []" and "CHR 0x27 \<notin> set c" and "CHR '','' \<notin> set c"
    and "find_str ''Status Code: '' http = Some i" and "find_str ''kind: Status('' http = None"
    and "drop i http = ''Status Code: '' @ show_nat n @ tail" and "n < 2 ^ 16"
    and "tail = [] \<or> \<not> is_ascii_digit (hd tail)" and "classify_grpc_status http = None"
  shows "(classify_export_error (InternalFailure (''code: '' @ CHR 0x27 # c @ CHR 0x27 # rest)) = Retryable
      \<longleftrightarrow> c \<in> set retryable_codes
        \<or> c \<in> set unknown_codes \<and> is_transport_failure (''code: '' @ CHR 0x27 # c @ CHR 0x27 # rest))
    \<and> (classify_export_error (InternalFailure http) = Retryable \<longleftrightarrow> n \<in> {429, 502, 503, 504})
    \<and> classify_export_error (Timeout d) = Retryable
    \<and> classify_export_error AlreadyShutdown = Terminal"
proof -
  have "drop (i + length ''Status Code: '') http = show_nat n @ tail"
    by (subst add.commute, subst drop_drop [symmetric], subst assms(6)) simp
  then have "http_status_code http = Some n"
    by (simp only: http_status_code_line [OF assms(4,5)] status_digits_show [OF assms(7,8)])
  with assms(9) have "classify_export_error (InternalFailure http) = Retryable
      \<longleftrightarrow> n \<in> {429, 502, 503, 504}"
    by (simp add: classify_export_error_def classify_export_message_def)
  with classify_grpc_quoted [OF assms(1-3) refl, of rest] show ?thesis
    by (simp add: classify_export_error_def classify_export_message_def)
qed

end
