(* ===== verification/Batch_Export.thy ===== *)
theory Batch_Export
  imports Batch_Config "HOL-Library.Multiset"
begin

text \<open>
  The worker side of the bounded batch span processor (\<open>trace/batch_processor.rs\<close>): the counters,
  \<open>take_batch\<close>, one round of concurrent exports with its retries (\<open>export_round\<close>), the loop that
  drains the queue (\<open>export_available\<close>) and \<open>discard_remaining\<close>.

  The counters are 64-bit words, so the accounting equations below hold with wrap-around. What the
  worker does not control is an argument: a \<open>round_world\<close> holds what the exporter answers for each
  attempt and batch, the clock readings, the random jitter and what the worker sees in the abort and
  flush flags. The text of an SDK error (its \<open>Display\<close> instance) is the argument \<open>err_text\<close>.
\<close>

section \<open>Counters\<close>

record batch_metrics_snapshot =
  sampled_started :: usize
  sampled_ended :: usize
  queued :: usize
  exported :: usize
  dropped_queue_full :: usize
  dropped_export_failure :: usize
  dropped_shutdown :: usize
  export_failures :: usize
  export_retries :: usize
  export_retry_recovered :: usize
  queue_depth :: usize
  queue_high_watermark :: usize
  in_flight :: usize

record batch_metrics = batch_metrics_snapshot +
  queue_full_log_emitted :: bool
  export_failure_log_emitted :: bool

definition batch_metrics_default :: batch_metrics where
  "batch_metrics_default =
     \<lparr>sampled_started = 0, sampled_ended = 0, queued = 0, exported = 0, dropped_queue_full = 0,
      dropped_export_failure = 0, dropped_shutdown = 0, export_failures = 0, export_retries = 0,
      export_retry_recovered = 0, queue_depth = 0, queue_high_watermark = 0, in_flight = 0,
      queue_full_log_emitted = False, export_failure_log_emitted = False\<rparr>"

definition snapshot :: "batch_metrics \<Rightarrow> batch_metrics_snapshot" where
  "snapshot m = batch_metrics_snapshot.truncate m"

definition update_high_watermark :: "usize \<Rightarrow> batch_metrics \<Rightarrow> batch_metrics" where
  "update_high_watermark depth m =
     m\<lparr>queue_high_watermark := max (queue_high_watermark m) depth\<rparr>"

section \<open>Taking batches from the queue\<close>

text \<open>\<open>try_recv\<close> until the batch is full or the channel is empty; \<open>n\<close> is the room left.\<close>

fun take_batch :: "nat \<Rightarrow> 'span list \<Rightarrow> batch_metrics \<Rightarrow> 'span list \<times> 'span list \<times> batch_metrics" where
  "take_batch 0 q m = ([], q, m)"
| "take_batch (Suc n) [] m = ([], [], m)"
| "take_batch (Suc n) (s # q) m =
     (let (batch, q', m') = take_batch n q (m\<lparr>queue_depth := queue_depth m - 1\<rparr>)
      in (s # batch, q', m'))"

fun take_batches ::
  "nat \<Rightarrow> nat \<Rightarrow> 'span list \<Rightarrow> batch_metrics \<Rightarrow> 'span list list \<times> 'span list \<times> batch_metrics" where
  "take_batches 0 cap q m = ([], q, m)"
| "take_batches (Suc k) cap q m =
     (let (batch, q', m') = take_batch cap q m in
      if batch = [] then ([], q', m')
      else let (batches, q'', m'') = take_batches k cap q' m' in (batch # batches, q'', m''))"

definition discard_remaining :: "'span list \<Rightarrow> batch_metrics \<Rightarrow> 'span list \<times> batch_metrics" where
  "discard_remaining q m = ([], m\<lparr>queue_depth := 0\<rparr>)"

section \<open>Backoff\<close>

definition jittered :: "nat \<Rightarrow> duration \<Rightarrow> duration" where
  "jittered random backoff = (let percent = 80 + random mod 41 in backoff * percent div 100)"

text \<open>
  \<open>aborts k\<close> and \<open>flushes k\<close> are what the k-th poll sees in the two flags. \<open>delays k\<close> is the time
  that passes before the k-th reading of the clock on top of the requested sleep:
  \<open>thread::sleep\<close> never returns early and \<open>Instant\<close> never goes back, so the loop ends.
\<close>

function wait_backoff_loop ::
  "(nat \<Rightarrow> bool) \<Rightarrow> (nat \<Rightarrow> bool) \<Rightarrow> (nat \<Rightarrow> duration) \<Rightarrow> nat \<Rightarrow> duration \<Rightarrow> duration \<Rightarrow> bool" where
  "wait_backoff_loop aborts flushes delays k now deadline =
     (if aborts k then True
      else if flushes k then False
      else
        let now' = now + delays k; remaining = deadline - now' in
        if remaining = 0 then False
        else wait_backoff_loop aborts flushes delays (Suc k)
               (now' + min remaining RETRY_BACKOFF_SLICE) deadline)"
  by pat_completeness auto
termination
  by (relation "measure (\<lambda>(_, _, _, _, now, deadline). deadline - now)")
    (auto simp: RETRY_BACKOFF_SLICE_def from_millis_def)

declare wait_backoff_loop.simps [simp del]

definition wait_backoff ::
  "(nat \<Rightarrow> bool) \<Rightarrow> (nat \<Rightarrow> bool) \<Rightarrow> (nat \<Rightarrow> duration) \<Rightarrow> duration \<Rightarrow> duration \<Rightarrow> bool" where
  "wait_backoff aborts flushes delays now delay =
     wait_backoff_loop aborts flushes delays 0 now (now + delay)"

section \<open>One round of exports\<close>

type_synonym sdk_result = "(otel_sdk_error, unit) result"

text \<open>
  What a round observes, by attempt number (from 1): the answer of the exporter for each index and
  batch, \<open>started.elapsed()\<close> before the export and after it, the abort flag after the export, and
  the polls, delays and random value of the backoff that follows.
\<close>

record 'span round_world =
  export_result :: "nat \<Rightarrow> nat \<Rightarrow> 'span list \<Rightarrow> sdk_result"
  elapsed_before :: "nat \<Rightarrow> duration"
  abort_after :: "nat \<Rightarrow> bool"
  elapsed_after :: "nat \<Rightarrow> duration"
  random_value :: "nat \<Rightarrow> nat"
  poll_abort :: "nat \<Rightarrow> nat \<Rightarrow> bool"
  poll_flush :: "nat \<Rightarrow> nat \<Rightarrow> bool"
  poll_delay :: "nat \<Rightarrow> nat \<Rightarrow> duration"

definition span_count :: "'span list list \<Rightarrow> nat" where
  "span_count batches = sum_list (map length batches)"

definition begin_attempt :: "nat \<Rightarrow> 'span list list \<Rightarrow> batch_metrics \<Rightarrow> batch_metrics" where
  "begin_attempt attempt pending m =
     (let m1 = (if attempt > 1
                then m\<lparr>export_retries := export_retries m + of_nat (length pending)\<rparr> else m)
      in m1\<lparr>in_flight := of_nat (span_count pending)\<rparr>)"

definition may_retry_again :: "retry_policy \<Rightarrow> nat \<Rightarrow> duration \<Rightarrow> bool" where
  "may_retry_again policy attempt elapsed \<longleftrightarrow>
     retries_enabled policy \<and> attempt < max_attempts policy \<and> elapsed < max_elapsed policy"

definition export_batches ::
  "'span round_world \<Rightarrow> nat \<Rightarrow> 'span list list \<Rightarrow> (sdk_result \<times> 'span list) list" where
  "export_batches w attempt pending =
     map (\<lambda>(i, batch). (export_result w attempt i batch, batch)) (List.enumerate 0 pending)"

definition record_terminal_failure ::
  "nat \<Rightarrow> string \<Rightarrow> batch_metrics \<times> string option \<Rightarrow> batch_metrics \<times> string option" where
  "record_terminal_failure batch_size error mf =
     (case mf of (m, first_error) \<Rightarrow>
       (m\<lparr>export_failures := export_failures m + 1,
          dropped_export_failure := dropped_export_failure m + of_nat batch_size,
          export_failure_log_emitted := True\<rparr>,
        if first_error = None then Some error else first_error))"

definition record_success :: "nat \<Rightarrow> nat \<Rightarrow> batch_metrics \<Rightarrow> batch_metrics" where
  "record_success attempt batch_size m =
     (let m1 = m\<lparr>exported := exported m + of_nat batch_size\<rparr> in
      if attempt > 1 then m1\<lparr>export_retry_recovered := export_retry_recovered m1 + 1\<rparr> else m1)"

text \<open>
  The loop over the results of one attempt. A batch that may be retried is taken from \<open>pending\<close>,
  which still holds every batch when another attempt is permitted.
\<close>

fun account_results ::
  "(otel_sdk_error \<Rightarrow> string) \<Rightarrow> bool \<Rightarrow> nat \<Rightarrow> (sdk_result \<times> 'span list) list \<Rightarrow>
     batch_metrics \<times> string option \<Rightarrow>
     ('span list \<times> string) list \<times> batch_metrics \<times> string option" where
  "account_results err_text again attempt [] mf = ([], mf)"
| "account_results err_text again attempt ((Inr u, batch) # rest) mf =
     account_results err_text again attempt rest
       (record_success attempt (length batch) (fst mf), snd mf)"
| "account_results err_text again attempt ((Inl e, batch) # rest) mf =
     (let retryable = (classify_export_error e = Retryable) in
      if again \<and> retryable then
        let (retries, mf') = account_results err_text again attempt rest mf
        in ((batch, err_text e) # retries, mf')
      else account_results err_text again attempt rest
             (record_terminal_failure (length batch) (err_text e) mf))"

definition round_result :: "string option \<Rightarrow> (string, unit) result" where
  "round_result first_error = (case first_error of None \<Rightarrow> Ok () | Some e \<Rightarrow> Err e)"

lemma account_results_final [simp]:
  "fst (account_results err_text False attempt rs mf) = []"
  by (induction err_text False attempt rs mf rule: account_results.induct) auto

lemma account_results_retry_again:
  "account_results err_text again attempt rs mf = (retries, mf') \<Longrightarrow> retries \<noteq> [] \<Longrightarrow> again"
  using account_results_final [of err_text attempt rs mf] by (cases again) auto

text \<open>
  The loop of \<open>export_round\<close>: \<open>done\<close> attempts have been made, \<open>backoff\<close> is the next delay before
  jitter, \<open>fe\<close> the first terminal error. It ends because a retry needs an attempt number below
  \<open>max_attempts\<close>.
\<close>

function export_round_loop ::
  "(otel_sdk_error \<Rightarrow> string) \<Rightarrow> retry_policy \<Rightarrow> 'span round_world \<Rightarrow> nat \<Rightarrow> duration \<Rightarrow>
     string option \<Rightarrow> 'span list list \<Rightarrow> batch_metrics \<Rightarrow> (string, unit) result \<times> batch_metrics" where
  "export_round_loop err_text policy w n backoff fe pending m =
     (let attempt = n + 1;
          m1 = begin_attempt attempt pending m;
          again = may_retry_again policy attempt (elapsed_before w attempt);
          results = export_batches w attempt pending in
      if abort_after w attempt then (round_result fe, m1\<lparr>in_flight := 0\<rparr>)
      else case account_results err_text again attempt results (m1, fe) of (retries, m2, fe2) \<Rightarrow>
        if retries = [] then (round_result fe2, m2\<lparr>in_flight := 0\<rparr>)
        else
          let remaining = max_elapsed policy - elapsed_after w attempt in
          if remaining = 0 then
            (case fold (\<lambda>(batch, error). record_terminal_failure (length batch) error) retries (m2, fe2)
             of (m3, fe3) \<Rightarrow> (round_result fe3, m3\<lparr>in_flight := 0\<rparr>))
          else
            let delay = min (min (jittered (random_value w attempt) backoff) RETRY_BACKOFF_CAP) remaining;
                backoff' = min (backoff * 2) RETRY_BACKOFF_CAP;
                pending' = map fst retries;
                m3 = m2\<lparr>in_flight := of_nat (span_count pending')\<rparr> in
            if wait_backoff (poll_abort w attempt) (poll_flush w attempt) (poll_delay w attempt)
                 (elapsed_after w attempt) delay
            then (round_result fe2, m3\<lparr>in_flight := 0\<rparr>)
            else export_round_loop err_text policy w attempt backoff' fe2 pending' m3)"
  by pat_completeness auto

termination
  by (relation "measure (\<lambda>(_, policy, _, n, _). max_attempts policy - n)")
    (auto simp: may_retry_again_def dest!: account_results_retry_again [OF sym])

declare export_round_loop.simps [simp del]

definition export_round ::
  "(otel_sdk_error \<Rightarrow> string) \<Rightarrow> retry_policy \<Rightarrow> 'span round_world \<Rightarrow> 'span list list \<Rightarrow>
     batch_metrics \<Rightarrow> (string, unit) result \<times> batch_metrics" where
  "export_round err_text policy w pending m =
     export_round_loop err_text policy w 0 (initial_backoff policy) None pending m"

section \<open>Facts on taking batches\<close>

lemma take_batch_spec:
  "take_batch n q m =
     (take n q, drop n q, m\<lparr>queue_depth := queue_depth m - of_nat (min n (length q))\<rparr>)"
  by (induction n q m rule: take_batch.induct) (simp_all add: algebra_simps)

lemma span_count_simps [simp]:
  "span_count [] = 0" "span_count (b # bs) = length b + span_count bs"
  "span_count (bs @ cs) = span_count bs + span_count cs"
  by (simp_all add: span_count_def)

lemma take_batches_spec:
  "take_batches k cap q m = (bs, q', m') \<Longrightarrow>
     q = concat bs @ q' \<and> length bs \<le> k \<and> (\<forall>b\<in>set bs. b \<noteq> [] \<and> length b \<le> cap)
     \<and> m' = m\<lparr>queue_depth := queue_depth m - of_nat (span_count bs)\<rparr>"
proof (induction k arbitrary: q m bs q' m')
  case (Suc k)
  let ?m1 = "m\<lparr>queue_depth := queue_depth m - of_nat (min cap (length q))\<rparr>"
  show ?case
  proof (cases "take cap q = []")
    case True
    with Suc.prems show ?thesis by (auto simp: take_batch_spec Let_def)
  next
    case False
    then obtain bs1 where rest: "take_batches k cap (drop cap q) ?m1 = (bs1, q', m')"
        "bs = take cap q # bs1"
      using Suc.prems by (auto simp: take_batch_spec Let_def split: prod.splits if_splits)
    from Suc.IH [OF rest(1)] have "drop cap q = concat bs1 @ q'" by blast
    then have "q = take cap q @ concat bs1 @ q'" by (metis append_take_drop_id)
    with Suc.IH [OF rest(1)] rest(2) False show ?thesis
      by (auto simp: min.commute algebra_simps)
  qed
qed simp

lemma take_batches_nonempty:
  "take_batches k cap q m = (bs, q', m') \<Longrightarrow> 0 < k \<Longrightarrow> 0 < cap \<Longrightarrow> q \<noteq> [] \<Longrightarrow> bs \<noteq> []"
  by (cases k) (auto simp: take_batch_spec Let_def split: prod.splits)

lemma span_count_concat: "span_count bs = length (concat bs)"
  by (simp add: span_count_def length_concat)

section \<open>Draining the queue\<close>

text \<open>
  What a call of \<open>export_available\<close> observes, by round: the abort flag at the head of the loop and
  the world of the round. The definition is the call with no request thread sending meanwhile, which
  is how it runs while \<open>force_flush\<close> or \<open>shutdown\<close> blocks the PHP thread; theory
  \<open>Batch_Processor\<close> interleaves the worker with request threads.
\<close>

record 'span export_world =
  abort_seen :: "nat \<Rightarrow> bool"
  rounds :: "nat \<Rightarrow> 'span round_world"

function export_available_loop ::
  "(otel_sdk_error \<Rightarrow> string) \<Rightarrow> batch_config \<Rightarrow> 'span export_world \<Rightarrow> nat \<Rightarrow> nat \<Rightarrow> nat \<Rightarrow>
     string option \<Rightarrow> 'span list \<Rightarrow> batch_metrics \<Rightarrow> string option \<times> 'span list \<times> batch_metrics" where
  "export_available_loop err_text cfg aw r target processed fe q m =
     (if processed < target \<and> \<not> abort_seen aw r then
        (case take_batches (max_concurrent_exports cfg) (max_export_batch_size cfg) q m of
           (batches, q1, m1) \<Rightarrow>
             if batches = [] then (fe, q1, m1)
             else case export_round err_text (retry cfg) (rounds aw r) batches m1 of
               (res, m2) \<Rightarrow>
                 export_available_loop err_text cfg aw (Suc r) target (processed + span_count batches)
                   (case fe of Some e \<Rightarrow> Some e | None \<Rightarrow> (case res of Inl e \<Rightarrow> Some e | Inr _ \<Rightarrow> None))
                   q1 m2)
      else (fe, q, m))"
  by pat_completeness auto
termination
proof (relation "measure (\<lambda>(_, _, _, _, _, _, _, q, _). length q)", goal_cases)
  case (2 err_text cfg aw r target processed fe q m x batches y q1 m1)
  then have "take_batches (max_concurrent_exports cfg) (max_export_batch_size cfg) q m
      = (x, y, q1)" "x \<noteq> []" by auto
  from take_batches_spec [OF this(1)] this(2) have "q = concat x @ y" "concat x \<noteq> []"
    by (auto simp: neq_Nil_conv)
  then have "length y < length q" by simp
  with 2 show ?case by auto
qed simp

declare export_available_loop.simps [simp del]

definition export_available ::
  "(otel_sdk_error \<Rightarrow> string) \<Rightarrow> batch_config \<Rightarrow> 'span export_world \<Rightarrow> 'span list \<Rightarrow> batch_metrics \<Rightarrow>
     sdk_result \<times> 'span list \<times> batch_metrics" where
  "export_available err_text cfg aw q m =
     (case export_available_loop err_text cfg aw 0 (unat (queue_depth m)) 0 None q m of
        (first_error, q', m') \<Rightarrow>
          (case first_error of Some e \<Rightarrow> Err (InternalFailure e) | None \<Rightarrow> Ok (), q', m'))"

section \<open>Accounting\<close>

text \<open>The counters that only request threads write, and \<open>queue_depth\<close>, which a round leaves alone.\<close>

definition request_view ::
  "batch_metrics \<Rightarrow> usize \<times> usize \<times> usize \<times> usize \<times> usize \<times> usize \<times> usize \<times> bool" where
  "request_view m =
     (sampled_started m, sampled_ended m, queued m, dropped_queue_full m, dropped_shutdown m,
      queue_depth m, queue_high_watermark m, queue_full_log_emitted m)"

text \<open>
  From \<open>m\<close> to \<open>m'\<close>, \<open>x\<close> spans were counted as exported, \<open>d\<close> as dropped after a failure, and \<open>f\<close>
  batches as failed.
\<close>

definition tally :: "batch_metrics \<Rightarrow> batch_metrics \<Rightarrow> nat \<Rightarrow> nat \<Rightarrow> nat \<Rightarrow> bool" where
  "tally m m' x d f \<longleftrightarrow>
     exported m' = exported m + of_nat x
     \<and> dropped_export_failure m' = dropped_export_failure m + of_nat d
     \<and> export_failures m' = export_failures m + of_nat f
     \<and> request_view m' = request_view m"

lemma tally_refl [simp]: "tally m m 0 0 0"
  by (simp add: tally_def)

lemma tally_trans:
  "tally m1 m2 x d f \<Longrightarrow> tally m2 m3 x' d' f' \<Longrightarrow> tally m1 m3 (x + x') (d + d') (f + f')"
  by (simp add: tally_def)

lemma tally_in_flight [simp]: "tally m (m'\<lparr>in_flight := i\<rparr>) x d f = tally m m' x d f"
  by (simp add: tally_def request_view_def)

lemma tally_begin_attempt: "tally m (begin_attempt a p m) 0 0 0"
  by (simp add: tally_def request_view_def begin_attempt_def Let_def)

lemma tally_record_success: "tally m (record_success a n m) n 0 0"
  by (simp add: tally_def request_view_def record_success_def Let_def)

lemma tally_record_terminal:
  "record_terminal_failure n e (m, fe) = (m', fe') \<Longrightarrow> tally m m' 0 n 1 \<and> fe' \<noteq> None \<and> (fe \<noteq> None \<longrightarrow> fe' = fe)"
  by (auto simp: tally_def request_view_def record_terminal_failure_def split: if_splits)

lemma account_results_tally:
  "account_results err_text again a rs (m, fe) = (retries, m', fe') \<Longrightarrow>
     \<exists>x d f. tally m m' x d f
       \<and> x + d + span_count (map fst retries) = span_count (map snd rs)
       \<and> f + length retries \<le> length rs \<and> (f = 0 \<longrightarrow> d = 0)
       \<and> (fe' = None \<longleftrightarrow> fe = None \<and> f = 0)"
proof (induction err_text again a rs "(m, fe)" arbitrary: m fe retries rule: account_results.induct)
  case (2 err_text again a u batch rest m fe)
  let ?n = "length batch"
  from "2.prems" have "account_results err_text again a rest (record_success a ?n m, fe)
      = (retries, m', fe')" by simp
  from "2.hyps" [unfolded fst_conv snd_conv, OF this] obtain x d f where IH: "tally (record_success a ?n m) m' x d f"
    "x + d + span_count (map fst retries) = span_count (map snd rest)"
    "f + length retries \<le> length rest" "f = 0 \<longrightarrow> d = 0" "fe' = None \<longleftrightarrow> fe = None \<and> f = 0"
    by auto
  from tally_trans [OF tally_record_success IH(1)] have "tally m m' (?n + x) d f" by simp
  with IH(2-) show ?case by (intro exI [of _ "?n + x"] exI [of _ d] exI [of _ f]) auto
next
  case (3 err_text again a e batch rest m fe)
  let ?n = "length batch"
  show ?case
  proof (cases "again \<and> classify_export_error e = Retryable")
    case True
    then obtain retries1 where
      r: "account_results err_text again a rest (m, fe) = (retries1, m', fe')"
      "retries = (batch, err_text e) # retries1"
      using "3.prems" by (auto simp: Let_def split: prod.splits)
    from "3.hyps"(1) [OF refl True r(1)] obtain x d f where "tally m m' x d f"
      "x + d + span_count (map fst retries1) = span_count (map snd rest)"
      "f + length retries1 \<le> length rest" "f = 0 \<longrightarrow> d = 0" "fe' = None \<longleftrightarrow> fe = None \<and> f = 0"
      by auto
    with r(2) show ?thesis by (intro exI [of _ x] exI [of _ d] exI [of _ f]) auto
  next
    case False
    obtain m1 fe1 where t: "record_terminal_failure ?n (err_text e) (m, fe) = (m1, fe1)"
      by (cases "record_terminal_failure ?n (err_text e) (m, fe)")
    with "3.prems" False have r: "account_results err_text again a rest (m1, fe1) = (retries, m', fe')"
      by (auto simp: Let_def split: if_splits)
    from "3.hyps"(2) [OF refl False t r] obtain x d f where IH: "tally m1 m' x d f"
      "x + d + span_count (map fst retries) = span_count (map snd rest)"
      "f + length retries \<le> length rest" "fe' = None \<longleftrightarrow> fe1 = None \<and> f = 0"
      by auto
    note tm = tally_record_terminal [OF t]
    from tally_trans [OF conjunct1 [OF tm] IH(1)] have "tally m m' x (?n + d) (Suc f)" by simp
    with IH(2-) tm show ?thesis by (intro exI [of _ x] exI [of _ "?n + d"] exI [of _ "Suc f"]) auto
  qed
qed auto

lemma map_snd_export_batches [simp]: "map snd (export_batches w a pending) = pending"
  by (simp add: export_batches_def comp_def case_prod_beta' List.enumerate_eq_zip map_snd_zip)

lemma length_export_batches [simp]: "length (export_batches w a pending) = length pending"
  by (simp add: export_batches_def)

lemma in_export_batches:
  "(r, b) \<in> set (export_batches w a pending) \<Longrightarrow> \<exists>i. r = export_result w a i b"
  by (auto simp: export_batches_def)

lemma fold_terminal_tally:
  "fold (\<lambda>(batch, e). record_terminal_failure (length batch) e) retries (m, fe) = (m', fe') \<Longrightarrow>
     tally m m' 0 (span_count (map fst retries)) (length retries)
     \<and> (fe' = None \<longleftrightarrow> fe = None \<and> retries = [])"
proof (induction retries arbitrary: m fe)
  case (Cons r retries)
  obtain batch e where r: "r = (batch, e)" by (cases r)
  obtain m1 fe1 where t: "record_terminal_failure (length batch) e (m, fe) = (m1, fe1)"
    by (cases "record_terminal_failure (length batch) e (m, fe)")
  with Cons.prems r have "fold (\<lambda>(batch, e). record_terminal_failure (length batch) e) retries (m1, fe1)
      = (m', fe')" by simp
  from Cons.IH [OF this] tally_record_terminal [OF t] r show ?case
    using tally_trans [of m m1 0 "length batch" 1 m' 0] by auto
qed auto

text \<open>A backoff during which the abort flag is never seen set is not aborted.\<close>

lemma wait_backoff_loop_quiet:
  "\<forall>k. \<not> aborts k \<Longrightarrow> \<not> wait_backoff_loop aborts flushes delays k now deadline"
proof (induction aborts flushes delays k now deadline rule: wait_backoff_loop.induct)
  case (1 aborts flushes delays k now deadline)
  show ?case
    by (subst wait_backoff_loop.simps) (simp add: Let_def "1.prems" "1.IH" [OF _ _ refl refl])
qed

lemma wait_backoff_quiet: "\<forall>k. \<not> aborts k \<Longrightarrow> \<not> wait_backoff aborts flushes delays now delay"
  unfolding wait_backoff_def by (rule wait_backoff_loop_quiet)

definition quiet :: "'span round_world \<Rightarrow> bool" where
  "quiet w \<longleftrightarrow> (\<forall>n. \<not> abort_after w n) \<and> (\<forall>n k. \<not> poll_abort w n k)"

text \<open>
  The summary of a round: \<open>l\<close> is the number of spans it leaves uncounted, which is zero unless the
  round saw the abort flag.
\<close>

definition round_summary ::
  "bool \<Rightarrow> 'span list list \<Rightarrow> string option \<Rightarrow> batch_metrics \<Rightarrow> (string, unit) result \<times> batch_metrics \<Rightarrow> bool" where
  "round_summary silent pending fe m out \<longleftrightarrow>
     (\<exists>x d f l. tally m (snd out) x d f \<and> x + d + l = span_count pending \<and> f \<le> length pending
       \<and> (f = 0 \<longrightarrow> d = 0) \<and> (silent \<longrightarrow> l = 0) \<and> (fst out = Ok () \<longleftrightarrow> fe = None \<and> f = 0))
     \<and> in_flight (snd out) = 0"

lemma round_result_Ok [simp]: "round_result fe = Inr () \<longleftrightarrow> fe = None"
  by (cases fe) (simp_all add: round_result_def)

lemma round_summaryI:
  assumes "tally m m' x d f" and "x + d + l = span_count pending" and "f \<le> length pending"
    and "f = 0 \<longrightarrow> d = 0" and "silent \<longrightarrow> l = 0" and "fe' = None \<longleftrightarrow> fe = None \<and> f = 0"
  shows "round_summary silent pending fe m (round_result fe', m'\<lparr>in_flight := 0\<rparr>)"
  unfolding round_summary_def fst_conv snd_conv round_result_Ok tally_in_flight
  by (intro conjI exI [of _ x] exI [of _ d] exI [of _ f] exI [of _ l]) (use assms in simp_all)

lemma round_summary_trans:
  assumes t: "tally m m1 x d f" and n: "x + d + span_count pending1 = span_count pending"
    and f: "f + length pending1 \<le> length pending" "f = 0 \<longrightarrow> d = 0"
      "fe1 = None \<longleftrightarrow> fe = None \<and> f = 0"
    and s: "round_summary silent pending1 fe1 m1 out"
  shows "round_summary silent pending fe m out"
proof -
  from s obtain x' d' f' l' where o: "tally m1 (snd out) x' d' f'"
    "x' + d' + l' = span_count pending1" "f' \<le> length pending1" "f' = 0 \<longrightarrow> d' = 0"
    "silent \<longrightarrow> l' = 0" "fst out = Ok () \<longleftrightarrow> fe1 = None \<and> f' = 0" "in_flight (snd out) = 0"
    unfolding round_summary_def by blast
  have "x + x' + (d + d') + l' = span_count pending" "f + f' \<le> length pending"
    "f + f' = 0 \<longrightarrow> d + d' = 0" "fst out = Ok () \<longleftrightarrow> fe = None \<and> f + f' = 0"
    using o(2-6) n f by auto
  with tally_trans [OF t o(1)] o(5,7) show ?thesis unfolding round_summary_def by blast
qed

lemma export_round_loop_summary:
  "round_summary (quiet w) pending fe m (export_round_loop err_text p w n backoff fe pending m)"
proof (induction err_text p w n backoff fe pending m rule: export_round_loop.induct)
  case (1 err_text p w n backoff fe pending m)
  let ?a = "n + 1" and ?m1 = "begin_attempt (n + 1) pending m"
  let ?again = "may_retry_again p ?a (elapsed_before w ?a)"
  obtain retries m2 fe2 where
    acc: "account_results err_text ?again ?a (export_batches w ?a pending) (?m1, fe) = (retries, m2, fe2)"
    by (cases "account_results err_text ?again ?a (export_batches w ?a pending) (?m1, fe)") auto
  from account_results_tally [OF acc] obtain x d f where t0: "tally ?m1 m2 x d f"
    and n: "x + d + span_count (map fst retries) = span_count pending"
    and f: "f + length retries \<le> length pending" "f = 0 \<longrightarrow> d = 0" "fe2 = None \<longleftrightarrow> fe = None \<and> f = 0"
    by auto
  from tally_trans [OF tally_begin_attempt t0] have t: "tally m m2 x d f" by simp
  let ?rem = "max_elapsed p - elapsed_after w ?a"
  let ?delay = "min (min (jittered (random_value w ?a) backoff) RETRY_BACKOFF_CAP) ?rem"
  let ?m3 = "m2\<lparr>in_flight := of_nat (span_count (map fst retries))\<rparr>"
  let ?wait = "wait_backoff (poll_abort w ?a) (poll_flush w ?a) (poll_delay w ?a) (elapsed_after w ?a) ?delay"
  consider (abort) "abort_after w ?a" | (finished) "\<not> abort_after w ?a" "retries = []"
    | (late) "\<not> abort_after w ?a" "retries \<noteq> []" "?rem = 0"
    | (cut) "\<not> abort_after w ?a" "retries \<noteq> []" "?rem \<noteq> 0" "?wait"
    | (again) "\<not> abort_after w ?a" "retries \<noteq> []" "?rem \<noteq> 0" "\<not> ?wait" by blast
  then show ?case
  proof cases
    case abort
    have "round_summary (quiet w) pending fe m (round_result fe, ?m1\<lparr>in_flight := 0\<rparr>)"
      by (rule round_summaryI [OF tally_begin_attempt, where l = "span_count pending"])
        (use abort in \<open>auto simp: quiet_def\<close>)
    with abort show ?thesis by (subst export_round_loop.simps) (simp add: Let_def)
  next
    case finished
    have "round_summary (quiet w) pending fe m (round_result fe2, m2\<lparr>in_flight := 0\<rparr>)"
      by (rule round_summaryI [OF t, where l = 0]) (use n f finished in auto)
    with finished acc show ?thesis by (subst export_round_loop.simps) (simp add: Let_def)
  next
    case late
    obtain m4 fe4 where fold: "fold (\<lambda>(batch, e). record_terminal_failure (length batch) e) retries (m2, fe2)
        = (m4, fe4)" by force
    have "round_summary (quiet w) pending fe m (round_result fe4, m4\<lparr>in_flight := 0\<rparr>)"
      by (rule round_summaryI [OF tally_trans [OF t conjunct1 [OF fold_terminal_tally [OF fold]]],
            where l = 0])
        (use n f late fold_terminal_tally [OF fold] in auto)
    with late acc fold show ?thesis by (subst export_round_loop.simps) (simp add: Let_def)
  next
    case cut
    then have "\<not> quiet w" using wait_backoff_quiet by (metis quiet_def)
    then have "round_summary (quiet w) pending fe m (round_result fe2, ?m3\<lparr>in_flight := 0\<rparr>)"
      by (intro round_summaryI [where l = "span_count (map fst retries)"]) (use t n f in auto)
    with cut acc show ?thesis by (subst export_round_loop.simps) (simp add: Let_def)
  next
    case again
    have "round_summary (quiet w) (map fst retries) fe2 ?m3
        (export_round_loop err_text p w ?a (min (backoff * 2) RETRY_BACKOFF_CAP) fe2 (map fst retries) ?m3)"
      by (rule "1.IH" [OF refl refl refl refl again(1) acc [symmetric] refl again(2) refl again(3)
            refl refl refl refl again(4)])
    moreover have "tally m ?m3 x d f" using t by simp
    moreover have "f + length (map fst retries) \<le> length pending" using f(1) by simp
    ultimately have "round_summary (quiet w) pending fe m
        (export_round_loop err_text p w ?a (min (backoff * 2) RETRY_BACKOFF_CAP) fe2 (map fst retries) ?m3)"
      using round_summary_trans n f(2,3) by blast
    with again acc show ?thesis by (subst export_round_loop.simps) (simp add: Let_def)
  qed
qed

section \<open>The ledger of a round\<close>

text \<open>
  A reading of a round that keeps no counter: the final answer the exporter gave for each batch, in
  the order the answers became final. An answer is final unless it is a retryable error and another
  attempt is permitted; the errors waiting for a retry become final when the time budget is used up,
  and are given up without an entry when the worker sees the abort flag.
\<close>

definition to_retry :: "bool \<Rightarrow> sdk_result \<times> 'span list \<Rightarrow> bool" where
  "to_retry again rb \<longleftrightarrow>
     again \<and> (case fst rb of Inl e \<Rightarrow> classify_export_error e = Retryable | Inr _ \<Rightarrow> False)"

function round_ledger ::
  "retry_policy \<Rightarrow> 'span round_world \<Rightarrow> nat \<Rightarrow> duration \<Rightarrow> 'span list list \<Rightarrow>
     (sdk_result \<times> 'span list) list" where
  "round_ledger p w n backoff pending =
     (let a = n + 1;
          again = may_retry_again p a (elapsed_before w a);
          answers = export_batches w a pending;
          waiting = filter (to_retry again) answers;
          remaining = max_elapsed p - elapsed_after w a;
          delay = min (min (jittered (random_value w a) backoff) RETRY_BACKOFF_CAP) remaining in
      if abort_after w a then []
      else filter (\<lambda>rb. \<not> to_retry again rb) answers @
        (if waiting = [] then []
         else if remaining = 0 then waiting
         else if wait_backoff (poll_abort w a) (poll_flush w a) (poll_delay w a) (elapsed_after w a) delay
         then []
         else round_ledger p w a (min (backoff * 2) RETRY_BACKOFF_CAP) (map snd waiting)))"
  by pat_completeness auto
termination
  by (relation "measure (\<lambda>(p, _, n, _, _). max_attempts p - n)")
    (auto simp: may_retry_again_def to_retry_def filter_empty_conv)

declare round_ledger.simps [simp del]

fun delivered :: "(sdk_result \<times> 'span list) list \<Rightarrow> 'span list list" where
  "delivered [] = []"
| "delivered ((Inr u, b) # l) = b # delivered l"
| "delivered ((Inl e, b) # l) = delivered l"

fun failures :: "(sdk_result \<times> 'span list) list \<Rightarrow> (otel_sdk_error \<times> 'span list) list" where
  "failures [] = []"
| "failures ((Inr u, b) # l) = failures l"
| "failures ((Inl e, b) # l) = (e, b) # failures l"

lemma ledger_append [simp]:
  "delivered (l @ k) = delivered l @ delivered k" "failures (l @ k) = failures l @ failures k"
  by (induction l rule: delivered.induct) simp_all

lemma ledger_counts: "span_count (delivered l) + span_count (map snd (failures l)) = span_count (map snd l)"
  by (induction l rule: delivered.induct) simp_all

definition first_failure ::
  "(otel_sdk_error \<Rightarrow> string) \<Rightarrow> string option \<Rightarrow> (sdk_result \<times> 'span list) list \<Rightarrow> string option" where
  "first_failure err_text fe l =
     (case fe of Some e \<Rightarrow> Some e
      | None \<Rightarrow> (case failures l of [] \<Rightarrow> None | (e, b) # _ \<Rightarrow> Some (err_text e)))"

text \<open>The counters and the first error went from one state to the other by booking the ledger.\<close>

definition booked ::
  "(otel_sdk_error \<Rightarrow> string) \<Rightarrow> (sdk_result \<times> 'span list) list \<Rightarrow>
     batch_metrics \<times> string option \<Rightarrow> batch_metrics \<times> string option \<Rightarrow> bool" where
  "booked err_text l mf mf' \<longleftrightarrow>
     exported (fst mf') = exported (fst mf) + of_nat (span_count (delivered l))
     \<and> dropped_export_failure (fst mf') =
         dropped_export_failure (fst mf) + of_nat (span_count (map snd (failures l)))
     \<and> export_failures (fst mf') = export_failures (fst mf) + of_nat (length (failures l))
     \<and> snd mf' = first_failure err_text (snd mf) l"

lemma booked_trans:
  "booked err_text l mf mf1 \<Longrightarrow> booked err_text k mf1 mf2 \<Longrightarrow> booked err_text (l @ k) mf mf2"
  by (auto simp: booked_def first_failure_def split: option.splits list.splits)

lemma booked_nil [simp]:
  "booked err_text [] (m, fe) (m', fe') \<longleftrightarrow>
     exported m' = exported m \<and> dropped_export_failure m' = dropped_export_failure m
     \<and> export_failures m' = export_failures m \<and> fe' = fe"
  by (auto simp: booked_def first_failure_def split: option.splits)

lemma booked_in_flight [simp]:
  "booked err_text l mf (m\<lparr>in_flight := i\<rparr>, fe) = booked err_text l mf (m, fe)"
  "booked err_text l (m\<lparr>in_flight := i\<rparr>, fe) mf = booked err_text l (m, fe) mf"
  by (simp_all add: booked_def)

lemma booked_begin_attempt [simp]:
  "booked err_text l (begin_attempt a p m, fe) mf = booked err_text l (m, fe) mf"
  by (simp add: booked_def begin_attempt_def Let_def)

lemma booked_success: "booked err_text [(Inr u, b)] mf (record_success a (length b) (fst mf), snd mf)"
  by (simp add: booked_def record_success_def Let_def first_failure_def split: option.split)

lemma booked_failure:
  "booked err_text [(Inl e, b)] mf (record_terminal_failure (length b) (err_text e) mf)"
  by (auto simp: booked_def record_terminal_failure_def first_failure_def split: option.split prod.split)

definition retry_entry :: "(otel_sdk_error \<Rightarrow> string) \<Rightarrow> sdk_result \<times> 'span list \<Rightarrow> 'span list \<times> string" where
  "retry_entry err_text rb = (snd rb, err_text (projl (fst rb)))"

lemma to_retry_simps [simp]:
  "\<not> to_retry again (Inr u, b)"
  "to_retry again (Inl e, b) \<longleftrightarrow> again \<and> classify_export_error e = Retryable"
  by (simp_all add: to_retry_def)

lemma retry_entry_simps [simp]: "retry_entry err_text (Inl e, b) = (b, err_text e)"
  "fst \<circ> retry_entry err_text = snd"
  by (auto simp: retry_entry_def)

lemma account_results_booked:
  "account_results err_text again a rs mf = (retries, mf') \<Longrightarrow>
     retries = map (retry_entry err_text) (filter (to_retry again) rs)
     \<and> booked err_text (filter (\<lambda>rb. \<not> to_retry again rb) rs) mf mf'"
proof (induction err_text again a rs mf arbitrary: retries rule: account_results.induct)
  case (1 err_text again a mf)
  then show ?case by (cases mf; cases mf') auto
next
  case (2 err_text again a u b rest mf)
  from "2.IH" [of retries] "2.prems"
  have i: "retries = map (retry_entry err_text) (filter (to_retry again) rest)"
    "booked err_text (filter (\<lambda>rb. \<not> to_retry again rb) rest) (record_success a (length b) (fst mf), snd mf) mf'"
    by simp_all
  from i(1) booked_trans [OF booked_success [of err_text u b mf a] i(2)] show ?case by simp
next
  case (3 err_text again a e b rest mf)
  show ?case
  proof (cases "again \<and> classify_export_error e = Retryable")
    case True
    then show ?thesis
      using "3.prems" "3.IH"(1) [OF refl True]
      by (auto simp: Let_def split: prod.splits)
  next
    case False
    let ?mf = "record_terminal_failure (length b) (err_text e) mf"
    from "3.prems" False have "account_results err_text again a rest ?mf = (retries, mf')"
      by (auto simp: Let_def split: if_splits)
    from "3.IH"(2) [OF refl False this]
    have i: "retries = map (retry_entry err_text) (filter (to_retry again) rest)"
      "booked err_text (filter (\<lambda>rb. \<not> to_retry again rb) rest) ?mf mf'" by simp_all
    from i(1) booked_trans [OF booked_failure [of err_text e b mf] i(2)] False show ?thesis by auto
  qed
qed

lemma fold_terminal_booked:
  "\<forall>rb\<in>set l. to_retry again rb \<Longrightarrow>
     booked err_text l mf
       (fold (\<lambda>(b, e). record_terminal_failure (length b) e) (map (retry_entry err_text) l) mf)"
proof (induction l arbitrary: mf)
  case Nil
  then show ?case by (cases mf) simp
next
  case (Cons rb l)
  then obtain e b where rb: "rb = (Inl e, b)"
    by (cases rb; cases "fst rb") (auto simp: to_retry_def)
  let ?mf = "record_terminal_failure (length b) (err_text e) mf"
  have "booked err_text l ?mf
      (fold (\<lambda>(b, e). record_terminal_failure (length b) e) (map (retry_entry err_text) l) ?mf)"
    using Cons by simp
  from booked_trans [OF booked_failure [of err_text e b mf] this] show ?case
    by (simp add: rb)
qed

lemma export_round_loop_booked:
  "\<exists>fe'. booked err_text (round_ledger p w n backoff pending) (m, fe)
      (snd (export_round_loop err_text p w n backoff fe pending m), fe')
    \<and> fst (export_round_loop err_text p w n backoff fe pending m) = round_result fe'"
proof (induction err_text p w n backoff fe pending m rule: export_round_loop.induct)
  case (1 err_text p w n backoff fe pending m)
  let ?a = "n + 1" and ?m1 = "begin_attempt (n + 1) pending m"
  let ?again = "may_retry_again p ?a (elapsed_before w ?a)"
  let ?rs = "export_batches w ?a pending"
  let ?wait = "filter (to_retry ?again) ?rs" and ?fin = "filter (\<lambda>rb. \<not> to_retry ?again rb) ?rs"
  let ?retries = "map (retry_entry err_text) ?wait"
  obtain m2 fe2 where acc: "account_results err_text ?again ?a ?rs (?m1, fe) = (?retries, m2, fe2)"
    and b: "booked err_text ?fin (m, fe) (m2, fe2)"
    using account_results_booked [of err_text ?again ?a ?rs "(?m1, fe)"]
    by (cases "account_results err_text ?again ?a ?rs (?m1, fe)") auto
  let ?rem = "max_elapsed p - elapsed_after w ?a"
  let ?delay = "min (min (jittered (random_value w ?a) backoff) RETRY_BACKOFF_CAP) ?rem"
  let ?m3 = "m2\<lparr>in_flight := of_nat (span_count (map snd ?wait))\<rparr>"
  let ?stop = "wait_backoff (poll_abort w ?a) (poll_flush w ?a) (poll_delay w ?a) (elapsed_after w ?a) ?delay"
  note ledger = round_ledger.simps [of p w n backoff pending]
  consider (abort) "abort_after w ?a" | (finished) "\<not> abort_after w ?a" "?wait = []"
    | (late) "\<not> abort_after w ?a" "?wait \<noteq> []" "?rem = 0"
    | (cut) "\<not> abort_after w ?a" "?wait \<noteq> []" "?rem \<noteq> 0" "?stop"
    | (again) "\<not> abort_after w ?a" "?wait \<noteq> []" "?rem \<noteq> 0" "\<not> ?stop" by blast
  then show ?case
  proof cases
    case abort
    then show ?thesis
      by (subst export_round_loop.simps, subst (2) export_round_loop.simps)
        (simp add: ledger Let_def booked_def begin_attempt_def first_failure_def split: option.splits)
  next
    case finished
    have "export_round_loop err_text p w n backoff fe pending m = (round_result fe2, m2\<lparr>in_flight := 0\<rparr>)"
      using finished acc by (subst export_round_loop.simps) (simp add: Let_def)
    moreover have "round_ledger p w n backoff pending = ?fin" using finished by (simp add: ledger Let_def)
    ultimately show ?thesis using b by auto
  next
    case late
    obtain m4 fe4 where fold: "fold (\<lambda>(b, e). record_terminal_failure (length b) e) ?retries (m2, fe2)
        = (m4, fe4)" by force
    have "booked err_text ?wait (m2, fe2) (m4, fe4)"
      using fold_terminal_booked [of ?wait ?again err_text "(m2, fe2)"] fold by simp
    from booked_trans [OF b this] have "booked err_text (?fin @ ?wait) (m, fe) (m4, fe4)" .
    moreover have "export_round_loop err_text p w n backoff fe pending m = (round_result fe4, m4\<lparr>in_flight := 0\<rparr>)"
      using late acc fold by (subst export_round_loop.simps) (simp add: Let_def)
    moreover have "round_ledger p w n backoff pending = ?fin @ ?wait" using late by (simp add: ledger Let_def)
    ultimately show ?thesis by auto
  next
    case cut
    have "export_round_loop err_text p w n backoff fe pending m = (round_result fe2, ?m3\<lparr>in_flight := 0\<rparr>)"
      using cut acc by (subst export_round_loop.simps) (simp add: Let_def)
    moreover have "round_ledger p w n backoff pending = ?fin" using cut by (simp add: ledger Let_def)
    ultimately show ?thesis using b by auto
  next
    case again
    let ?b = "min (backoff * 2) RETRY_BACKOFF_CAP"
    have ne: "?retries \<noteq> []" using again(2) by simp
    from "1.IH" [OF refl refl refl refl again(1) acc [symmetric] refl ne refl again(3) refl refl refl refl]
      again(4) obtain fe' where
      i: "booked err_text (round_ledger p w ?a ?b (map snd ?wait)) (m2, fe2)
          (snd (export_round_loop err_text p w ?a ?b fe2 (map snd ?wait) ?m3), fe')"
        "fst (export_round_loop err_text p w ?a ?b fe2 (map snd ?wait) ?m3) = round_result fe'"
      by auto
    have "export_round_loop err_text p w n backoff fe pending m =
        export_round_loop err_text p w ?a ?b fe2 (map snd ?wait) ?m3"
      using again acc by (subst export_round_loop.simps) (simp add: Let_def)
    moreover have "round_ledger p w n backoff pending = ?fin @ round_ledger p w ?a ?b (map snd ?wait)"
      using again by (subst ledger) (simp add: Let_def)
    ultimately show ?thesis using booked_trans [OF b i(1)] i(2) by auto
  qed
qed

lemma mset_map_partition:
  "mset (map f rs) = mset (map f (filter (\<lambda>x. \<not> P x) rs)) + mset (map f (filter P rs))"
  by (induction rs) auto

lemma mset_round_cut:
  assumes "mset pending = mset (map snd fin) + mset (map snd waiting)" and "silent \<longrightarrow> \<not> stopped"
    and "l = (if stopped \<and> abort then [] else fin @ (if waiting = [] \<or> \<not> stopped then waiting else []))"
  shows "mset (map snd l) \<subseteq># mset pending \<and> (silent \<longrightarrow> mset (map snd l) = mset pending)"
  using assms by auto

text \<open>The ledger holds each batch at most once, and every batch when the abort flag is not seen.\<close>

lemma round_ledger_batches:
  "mset (map snd (round_ledger p w n backoff pending)) \<subseteq># mset pending
   \<and> (quiet w \<longrightarrow> mset (map snd (round_ledger p w n backoff pending)) = mset pending)"
proof (induction p w n backoff pending rule: round_ledger.induct)
  case (1 p w n backoff pending)
  let ?a = "n + 1"
  let ?again = "may_retry_again p ?a (elapsed_before w ?a)"
  let ?rs = "export_batches w ?a pending"
  let ?wait = "filter (to_retry ?again) ?rs" and ?fin = "filter (\<lambda>rb. \<not> to_retry ?again rb) ?rs"
  have split: "mset pending = mset (map snd ?fin) + mset (map snd ?wait)"
    using mset_map_partition [of snd ?rs "to_retry ?again"] by (simp only: map_snd_export_batches)
  have q: "\<not> abort_after w ?a" "\<not> wait_backoff (poll_abort w ?a) f d t x" if "quiet w" for f d t x
    using that wait_backoff_quiet by (auto simp: quiet_def)
  let ?rem = "max_elapsed p - elapsed_after w ?a"
  let ?stop = "wait_backoff (poll_abort w ?a) (poll_flush w ?a) (poll_delay w ?a) (elapsed_after w ?a)
      (min (min (jittered (random_value w ?a) backoff) RETRY_BACKOFF_CAP) ?rem)"
  let ?more = "round_ledger p w ?a (min (backoff * 2) RETRY_BACKOFF_CAP) (map snd ?wait)"
  have cases: "round_ledger p w n backoff pending =
      (if abort_after w ?a then []
       else ?fin @ (if ?wait = [] then [] else if ?rem = 0 then ?wait else if ?stop then [] else ?more))"
    by (subst round_ledger.simps) (simp only: Let_def)
  show ?case
  proof (cases "abort_after w ?a \<or> ?wait = [] \<or> ?rem = 0 \<or> ?stop")
    case True
    show ?thesis
    proof (rule mset_round_cut [OF split, where abort = "abort_after w ?a"
          and stopped = "abort_after w ?a \<or> ?wait \<noteq> [] \<and> ?rem \<noteq> 0 \<and> ?stop"])
      show "quiet w \<longrightarrow> \<not> (abort_after w ?a \<or> ?wait \<noteq> [] \<and> ?rem \<noteq> 0 \<and> ?stop)" using q by blast
      show "round_ledger p w n backoff pending =
          (if (abort_after w ?a \<or> ?wait \<noteq> [] \<and> ?rem \<noteq> 0 \<and> ?stop) \<and> abort_after w ?a then []
           else ?fin @ (if ?wait = [] \<or> \<not> (abort_after w ?a \<or> ?wait \<noteq> [] \<and> ?rem \<noteq> 0 \<and> ?stop)
             then ?wait else []))"
        unfolding cases using True by presburger
    qed
  next
    case False
    then have "\<not> abort_after w ?a" "?wait \<noteq> []" "?rem \<noteq> 0" "\<not> ?stop" by simp_all
    from "1.IH" [OF refl refl refl refl refl refl this] this show ?thesis
      unfolding cases split by simp
  qed
qed

text \<open>An entry is an answer of the exporter, and an error in it could not be retried.\<close>

definition final_answer :: "retry_policy \<Rightarrow> 'span round_world \<Rightarrow> sdk_result \<Rightarrow> 'span list \<Rightarrow> bool" where
  "final_answer p w r b \<longleftrightarrow>
     (\<exists>a i. 1 \<le> a \<and> a \<le> max 1 (max_attempts p) \<and> r = export_result w a i b
        \<and> (\<forall>e. r = Inl e \<and> classify_export_error e = Retryable \<longrightarrow>
             max_attempts p \<le> max 1 a \<or> max_elapsed p \<le> elapsed_before w a \<or> max_elapsed p \<le> elapsed_after w a))"

lemma round_ledger_answers:
  "n = 0 \<or> n < max_attempts p \<Longrightarrow> (r, b) \<in> set (round_ledger p w n backoff pending) \<Longrightarrow> final_answer p w r b"
proof (induction p w n backoff pending rule: round_ledger.induct)
  case (1 p w n backoff pending)
  let ?a = "n + 1"
  let ?again = "may_retry_again p ?a (elapsed_before w ?a)"
  let ?rs = "export_batches w ?a pending"
  let ?wait = "filter (to_retry ?again) ?rs"
  let ?more = "round_ledger p w ?a (min (backoff * 2) RETRY_BACKOFF_CAP) (map snd ?wait)"
  have a: "1 \<le> ?a" "?a \<le> max 1 (max_attempts p)" using "1.prems"(1) by auto
  have fin: "final_answer p w r b" if "(r, b) \<in> set ?rs"
      "\<not> to_retry ?again (r, b) \<or> max_elapsed p \<le> elapsed_after w ?a"
  proof -
    from that(1) obtain i where "r = export_result w ?a i b" using in_export_batches by blast
    with a that(2) show ?thesis unfolding final_answer_def
      by (intro exI [of _ ?a] exI [of _ i])
        (auto simp: to_retry_def may_retry_again_def retries_enabled_def)
  qed
  consider (settled) "\<not> abort_after w ?a" "(r, b) \<in> set ?rs"
      "\<not> to_retry ?again (r, b) \<or> max_elapsed p \<le> elapsed_after w ?a"
    | (more) "(r, b) \<in> set ?more" "?wait \<noteq> []" "\<not> abort_after w ?a"
      "max_elapsed p - elapsed_after w ?a \<noteq> 0"
      "\<not> wait_backoff (poll_abort w ?a) (poll_flush w ?a) (poll_delay w ?a) (elapsed_after w ?a)
         (min (min (jittered (random_value w ?a) backoff) RETRY_BACKOFF_CAP)
           (max_elapsed p - elapsed_after w ?a))"
    using "1.prems"(2) by (subst (asm) round_ledger.simps) (auto simp: Let_def split: if_splits)
  then show ?case
  proof cases
    case settled
    with fin show ?thesis by blast
  next
    case more
    from more(2) have "?a < max_attempts p"
      by (auto simp: to_retry_def may_retry_again_def filter_empty_conv)
    with "1.IH" [OF refl refl refl refl refl refl more(3,2,4,5)] more(1) show ?thesis by blast
  qed
qed

section \<open>Attempts are bounded\<close>

text \<open>Two worlds that answer alike in the first \<open>k\<close> attempts.\<close>

definition agree_upto :: "nat \<Rightarrow> 'span round_world \<Rightarrow> 'span round_world \<Rightarrow> bool" where
  "agree_upto k w v \<longleftrightarrow> (\<forall>a\<le>k.
     export_result w a = export_result v a \<and> elapsed_before w a = elapsed_before v a
     \<and> abort_after w a = abort_after v a \<and> elapsed_after w a = elapsed_after v a
     \<and> random_value w a = random_value v a \<and> poll_abort w a = poll_abort v a
     \<and> poll_flush w a = poll_flush v a \<and> poll_delay w a = poll_delay v a)"

lemma export_round_loop_agree:
  "agree_upto (max 1 (max_attempts p)) w v \<Longrightarrow> n = 0 \<or> n < max_attempts p \<Longrightarrow>
     export_round_loop err_text p w n backoff fe pending m =
     export_round_loop err_text p v n backoff fe pending m"
proof (induction err_text p w n backoff fe pending m rule: export_round_loop.induct)
  case (1 err_text p w n backoff fe pending m)
  let ?a = "n + 1" and ?m1 = "begin_attempt (n + 1) pending m"
  let ?again = "may_retry_again p ?a (elapsed_before w ?a)"
  have "?a \<le> max 1 (max_attempts p)" using "1.prems"(2) by auto
  with "1.prems"(1) have eq: "export_result v ?a = export_result w ?a"
    "elapsed_before v ?a = elapsed_before w ?a" "abort_after v ?a = abort_after w ?a"
    "elapsed_after v ?a = elapsed_after w ?a" "random_value v ?a = random_value w ?a"
    "poll_abort v ?a = poll_abort w ?a" "poll_flush v ?a = poll_flush w ?a"
    "poll_delay v ?a = poll_delay w ?a" by (simp_all add: agree_upto_def)
  have eb: "export_batches v ?a pending = export_batches w ?a pending"
    unfolding export_batches_def eq by (rule refl)
  obtain retries m2 fe2 where
    acc: "account_results err_text ?again ?a (export_batches w ?a pending) (?m1, fe) = (retries, m2, fe2)"
    by (cases "account_results err_text ?again ?a (export_batches w ?a pending) (?m1, fe)") auto
  let ?rem = "max_elapsed p - elapsed_after w ?a"
  let ?delay = "min (min (jittered (random_value w ?a) backoff) RETRY_BACKOFF_CAP) ?rem"
  let ?m3 = "m2\<lparr>in_flight := of_nat (span_count (map fst retries))\<rparr>"
  let ?wait = "wait_backoff (poll_abort w ?a) (poll_flush w ?a) (poll_delay w ?a) (elapsed_after w ?a) ?delay"
  note unf = export_round_loop.simps [of err_text p w n] export_round_loop.simps [of err_text p v n]
  show ?case
  proof (cases "\<not> abort_after w ?a \<and> retries \<noteq> [] \<and> ?rem \<noteq> 0 \<and> \<not> ?wait")
    case True
    then have c: "\<not> abort_after w ?a" "retries \<noteq> []" "?rem \<noteq> 0" "\<not> ?wait" by blast+
    from account_results_retry_again [OF acc c(2)] have "?a < max_attempts p"
      by (simp add: may_retry_again_def)
    then have IH: "export_round_loop err_text p w ?a (min (backoff * 2) RETRY_BACKOFF_CAP) fe2 (map fst retries) ?m3
      = export_round_loop err_text p v ?a (min (backoff * 2) RETRY_BACKOFF_CAP) fe2 (map fst retries) ?m3"
      using "1.IH" [OF refl refl refl refl c(1) acc [symmetric] refl c(2) refl c(3)
            refl refl refl refl c(4)] "1.prems"(1) by blast
    show ?thesis unfolding unf Let_def eb eq using c acc IH by simp
  next
    case False
    then show ?thesis unfolding unf Let_def eb eq using acc by (auto split: prod.splits)
  qed
qed

lemma export_retries_frame [simp]:
  "export_retries (record_success a n m) = export_retries m"
  "export_retries (fst (record_terminal_failure n e mf)) = export_retries (fst mf)"
  "export_retries (m\<lparr>in_flight := i\<rparr>) = export_retries m"
  by (auto simp: record_success_def record_terminal_failure_def Let_def split: prod.splits)

lemma account_results_export_retries:
  "export_retries (fst (snd (account_results err_text again a rs mf))) = export_retries (fst mf)"
proof (induction err_text again a rs mf rule: account_results.induct)
  case (3 err_text again a e batch rest mf)
  show ?case
  proof (cases "again \<and> classify_export_error e = Retryable")
    case True
    with "3.IH"(1) [OF refl True] show ?thesis by (simp add: Let_def case_prod_beta')
  next
    case False
    with "3.IH"(2) [OF refl False] show ?thesis by (auto simp: Let_def)
  qed
qed simp_all

lemma fold_terminal_export_retries:
  "export_retries (fst (fold (\<lambda>(batch, e). record_terminal_failure (length batch) e) rs mf))
     = export_retries (fst mf)"
  by (induction rs arbitrary: mf) (auto split: prod.splits)

lemma export_retries_begin:
  "export_retries (begin_attempt a pending m)
     = export_retries m + of_nat (if a > 1 then length pending else 0)"
  by (simp add: begin_attempt_def Let_def)

definition retry_budget :: "retry_policy \<Rightarrow> nat \<Rightarrow> nat" where
  "retry_budget p n = (if n = 0 then max_attempts p - 1 else max_attempts p - n)"

lemma export_round_loop_retries:
  "n = 0 \<or> n < max_attempts p \<Longrightarrow>
     \<exists>r. export_retries (snd (export_round_loop err_text p w n backoff fe pending m))
           = export_retries m + of_nat r
       \<and> r \<le> retry_budget p n * length pending"
proof (induction err_text p w n backoff fe pending m rule: export_round_loop.induct)
  case (1 err_text p w n backoff fe pending m)
  let ?a = "n + 1" and ?m1 = "begin_attempt (n + 1) pending m"
  let ?again = "may_retry_again p ?a (elapsed_before w ?a)"
  let ?k = "if ?a > 1 then length pending else 0"
  obtain retries m2 fe2 where
    acc: "account_results err_text ?again ?a (export_batches w ?a pending) (?m1, fe) = (retries, m2, fe2)"
    by (cases "account_results err_text ?again ?a (export_batches w ?a pending) (?m1, fe)") auto
  have m2: "export_retries m2 = export_retries m + of_nat ?k"
    using account_results_export_retries [of err_text ?again ?a "export_batches w ?a pending" "(?m1, fe)"]
    by (simp only: acc fst_conv snd_conv export_retries_begin)
  have len: "length retries \<le> length pending" using account_results_tally [OF acc] by auto
  have k: "?k \<le> retry_budget p n * length pending"
    using "1.prems" by (auto simp: retry_budget_def Suc_le_eq)
  let ?rem = "max_elapsed p - elapsed_after w ?a"
  let ?delay = "min (min (jittered (random_value w ?a) backoff) RETRY_BACKOFF_CAP) ?rem"
  let ?m3 = "m2\<lparr>in_flight := of_nat (span_count (map fst retries))\<rparr>"
  let ?wait = "wait_backoff (poll_abort w ?a) (poll_flush w ?a) (poll_delay w ?a) (elapsed_after w ?a) ?delay"
  show ?case
  proof (cases "\<not> abort_after w ?a \<and> retries \<noteq> [] \<and> ?rem \<noteq> 0 \<and> \<not> ?wait")
    case True
    then have c: "\<not> abort_after w ?a" "retries \<noteq> []" "?rem \<noteq> 0" "\<not> ?wait" by blast+
    let ?out = "export_round_loop err_text p w ?a (min (backoff * 2) RETRY_BACKOFF_CAP) fe2 (map fst retries) ?m3"
    from account_results_retry_again [OF acc c(2)] have lt: "?a < max_attempts p"
      by (simp add: may_retry_again_def)
    then obtain r where r: "export_retries (snd ?out) = export_retries ?m3 + of_nat r"
        "r \<le> retry_budget p ?a * length (map fst retries)"
      using "1.IH" [OF refl refl refl refl c(1) acc [symmetric] refl c(2) refl c(3)
            refl refl refl refl c(4)] by blast
    have "r \<le> retry_budget p ?a * length pending" using r(2) len
      by (metis length_map le_trans mult_le_mono2)
    moreover obtain j where "max_attempts p = Suc (?a + j)" using less_imp_Suc_add [OF lt] by blast
    ultimately have "?k + r \<le> retry_budget p n * length pending"
      by (cases n) (auto simp: retry_budget_def)
    moreover have "export_round_loop err_text p w n backoff fe pending m = ?out"
      by (subst export_round_loop.simps) (use c acc in \<open>simp add: Let_def\<close>)
    ultimately show ?thesis using r(1) m2
      by (intro exI [of _ "?k + r"]) (simp add: algebra_simps)
  next
    case False
    have "export_retries (snd (export_round_loop err_text p w n backoff fe pending m))
        \<in> {export_retries ?m1, export_retries m2}"
      by (subst export_round_loop.simps)
        (use False acc fold_terminal_export_retries [of retries "(m2, fe2)"] in
          \<open>auto simp: Let_def split: prod.splits\<close>)
    then have "export_retries (snd (export_round_loop err_text p w n backoff fe pending m))
        = export_retries m + of_nat ?k"
      using m2 export_retries_begin [of ?a pending m] by auto
    with k show ?thesis by blast
  qed
qed

section \<open>Draining accounts for every span\<close>

definition drain_summary ::
  "nat \<Rightarrow> nat \<Rightarrow> string option \<Rightarrow> 'span list \<Rightarrow> batch_metrics \<Rightarrow>
     string option \<times> 'span list \<times> batch_metrics \<Rightarrow> bool" where
  "drain_summary target processed fe q m out \<longleftrightarrow>
     (case out of (fe', q', m') \<Rightarrow>
       \<exists>x d f. tally (m\<lparr>queue_depth := queue_depth m'\<rparr>) m' x d f
         \<and> x + d + length q' = length q \<and> suffix q' q
         \<and> queue_depth m' = queue_depth m - of_nat (x + d)
         \<and> (f = 0 \<longrightarrow> d = 0) \<and> (fe' = None \<longleftrightarrow> fe = None \<and> f = 0)
         \<and> (q' = [] \<or> target \<le> processed + x + d)
         \<and> (in_flight m = 0 \<longrightarrow> in_flight m' = 0))"

lemma tally_queue_depth:
  assumes "tally m m' x d f"
  shows "queue_depth m' = queue_depth m"
    and "tally (m\<lparr>queue_depth := c\<rparr>) (m'\<lparr>queue_depth := c\<rparr>) x d f"
  using assms by (auto simp: tally_def request_view_def)

lemma drain_step:
  assumes tb: "take_batches k cap q m = (bs, q1, m1)"
    and rs: "round_summary True bs None m1 (res, m2)"
    and fe1: "fe1 = (case fe of Some e \<Rightarrow> Some e | None \<Rightarrow> (case res of Inl e \<Rightarrow> Some e | Inr _ \<Rightarrow> None))"
    and ds: "drain_summary target (processed + span_count bs) fe1 q1 m2 out"
  shows "drain_summary target processed fe q m out"
proof -
  obtain fe' q' m' where out: "out = (fe', q', m')" by (cases out)
  note b = take_batches_spec [OF tb]
  from rs obtain x1 d1 f1 where r: "tally m1 m2 x1 d1 f1" "x1 + d1 = span_count bs" "f1 = 0 \<longrightarrow> d1 = 0"
    "res = Ok () \<longleftrightarrow> f1 = 0" "in_flight m2 = 0" unfolding round_summary_def by auto
  from ds obtain x d f where o: "tally (m2\<lparr>queue_depth := queue_depth m'\<rparr>) m' x d f"
    "x + d + length q' = length q1" "suffix q' q1" "queue_depth m' = queue_depth m2 - of_nat (x + d)"
    "f = 0 \<longrightarrow> d = 0" "fe' = None \<longleftrightarrow> fe1 = None \<and> f = 0"
    "q' = [] \<or> target \<le> processed + span_count bs + x + d" "in_flight m' = 0"
    using r(5) unfolding drain_summary_def out prod.case by blast
  have m1: "m1 = m\<lparr>queue_depth := queue_depth m - of_nat (span_count bs)\<rparr>" and q: "q = concat bs @ q1"
    using b by blast+
  have "tally (m\<lparr>queue_depth := queue_depth m'\<rparr>) (m2\<lparr>queue_depth := queue_depth m'\<rparr>) x1 d1 f1"
    using tally_queue_depth(2) [OF r(1), of "queue_depth m'"] by (simp add: m1)
  from tally_trans [OF this o(1)] have "tally (m\<lparr>queue_depth := queue_depth m'\<rparr>) m' (x1 + x) (d1 + d) (f1 + f)" .
  moreover have "fe1 = None \<longleftrightarrow> fe = None \<and> f1 = 0"
    using r(4) by (cases fe; cases res) (auto simp: fe1)
  moreover have "queue_depth m' = queue_depth m - of_nat ((x1 + x) + (d1 + d))"
  proof -
    have "x1 + x + (d1 + d) = span_count bs + (x + d)" using r(2) by simp
    then show ?thesis using o(4) tally_queue_depth(1) [OF r(1)] by (simp only: m1) simp
  qed
  moreover have "(x1 + x) + (d1 + d) + length q' = length q" "suffix q' q"
    using o(2,3) r(2) q by (auto simp: span_count_concat suffix_def)
  moreover have "q' = [] \<or> target \<le> processed + (x1 + x) + (d1 + d)" using o(7) r(2) by auto
  ultimately show ?thesis unfolding drain_summary_def out prod.case
    using o(5,6,8) r(3) by (intro exI [of _ "x1 + x"] exI [of _ "d1 + d"] exI [of _ "f1 + f"]) simp
qed

lemma drain_stop:
  assumes "q = [] \<or> target \<le> processed"
  shows "drain_summary target processed fe q m (fe, q, m)"
  using assms unfolding drain_summary_def prod.case
  by (intro exI [of _ "0 :: nat"]) (auto simp: tally_def)

lemma export_available_loop_drains:
  assumes "\<forall>r. \<not> abort_seen aw r \<and> quiet (rounds aw r)"
    and "0 < max_concurrent_exports cfg" and "0 < max_export_batch_size cfg"
  shows "drain_summary target processed fe q m
    (export_available_loop err_text cfg aw r target processed fe q m)"
  using assms
proof (induction err_text cfg aw r target processed fe q m rule: export_available_loop.induct)
  case (1 err_text cfg aw r target processed fe q m)
  obtain bs q1 m1 where tb:
    "take_batches (max_concurrent_exports cfg) (max_export_batch_size cfg) q m = (bs, q1, m1)"
    by (cases "take_batches (max_concurrent_exports cfg) (max_export_batch_size cfg) q m")
  obtain res m2 where er: "export_round err_text (retry cfg) (rounds aw r) bs m1 = (res, m2)"
    by (cases "export_round err_text (retry cfg) (rounds aw r) bs m1")
  have ab: "\<not> abort_seen aw r" and qt: "quiet (rounds aw r)" using "1.prems"(1) by blast+
  have rs: "round_summary True bs None m1 (res, m2)"
    using export_round_loop_summary [where w = "rounds aw r" and pending = bs and fe = None and m = m1
        and err_text = err_text and p = "retry cfg" and n = 0 and backoff = "initial_backoff (retry cfg)"] qt er
    by (simp add: export_round_def)
  show ?case
  proof (cases "processed < target \<and> bs \<noteq> []")
    case True
    from "1.IH" [OF conjI [OF conjunct1 [OF True] ab] tb [symmetric] refl conjunct2 [OF True]
        er [symmetric] "1.prems"]
    have "drain_summary target processed fe q m (export_available_loop err_text cfg aw (Suc r) target
      (processed + span_count bs)
      (case fe of Some e \<Rightarrow> Some e | None \<Rightarrow> (case res of Inl e \<Rightarrow> Some e | Inr _ \<Rightarrow> None)) q1 m2)"
      by (rule drain_step [OF tb rs refl])
    moreover have "export_available_loop err_text cfg aw r target processed fe q m =
      export_available_loop err_text cfg aw (Suc r) target (processed + span_count bs)
        (case fe of Some e \<Rightarrow> Some e | None \<Rightarrow> (case res of Inl e \<Rightarrow> Some e | Inr _ \<Rightarrow> None)) q1 m2"
      by (subst export_available_loop.simps) (simp only: True ab tb er prod.case simp_thms if_False if_True)
    ultimately show ?thesis by simp
  next
    case False
    have "q = [] \<and> q1 = [] \<and> m1 = m" if "processed < target"
    proof -
      from that False have "bs = []" by simp
      with take_batches_nonempty [OF tb "1.prems"(2,3)] have "q = []" by blast
      with take_batches_spec [OF tb] \<open>bs = []\<close> show ?thesis by simp
    qed
    with False show ?thesis
      by (subst export_available_loop.simps) (use ab tb in \<open>auto intro: drain_stop\<close>)
  qed
qed

section \<open>Recovery by retrying\<close>

lemma account_results_all_retryable:
  "\<forall>(r, b)\<in>set rs. \<exists>e. r = Inl e \<and> classify_export_error e = Retryable \<Longrightarrow>
     \<exists>ts. account_results err_text True a rs mf = (ts, mf) \<and> map fst ts = map snd rs"
proof (induction rs)
  case (Cons rb rs)
  then obtain e where e: "fst rb = Inl e" "classify_export_error e = Retryable" by auto
  then have rb: "rb = (Inl e, snd rb)" by (metis prod.collapse)
  from Cons obtain ts where "account_results err_text True a rs mf = (ts, mf)" "map fst ts = map snd rs"
    by auto
  with e show ?case by (subst rb) (auto simp: Let_def intro: exI [of _ "(snd rb, err_text e) # ts"])
qed simp

lemma account_results_all_ok:
  "\<forall>(r, b)\<in>set rs. r = Inr () \<Longrightarrow>
     \<exists>m'. account_results err_text again a rs (m, fe) = ([], m', fe)
       \<and> tally m m' (span_count (map snd rs)) 0 0
       \<and> export_retry_recovered m' = export_retry_recovered m + of_nat (if a > 1 then length rs else 0)"
proof (induction rs arbitrary: m)
  case (Cons rb rs)
  then have rb: "rb = (Inr (), snd rb)" by (cases rb) auto
  let ?m = "record_success a (length (snd rb)) m"
  from Cons obtain m' where m': "account_results err_text again a rs (?m, fe) = ([], m', fe)"
    "tally ?m m' (span_count (map snd rs)) 0 0"
    "export_retry_recovered m' = export_retry_recovered ?m + of_nat (if a > 1 then length rs else 0)"
    by auto
  from tally_trans [OF tally_record_success m'(2)] m'(1,3) show ?case
    by (subst rb, intro exI [of _ m']) (simp add: record_success_def Let_def)
qed simp

text \<open>The exporter fails with retryable errors in every attempt before the k-th, which succeeds.\<close>

definition recovers_at :: "nat \<Rightarrow> retry_policy \<Rightarrow> 'span round_world \<Rightarrow> bool" where
  "recovers_at k p w \<longleftrightarrow>
     (\<forall>a i b. 1 \<le> a \<and> a < k \<longrightarrow>
        (\<exists>e. export_result w a i b = Inl e \<and> classify_export_error e = Retryable)
        \<and> elapsed_before w a < max_elapsed p \<and> elapsed_after w a < max_elapsed p)
     \<and> (\<forall>i b. export_result w k i b = Inr ())"

lemma export_round_loop_recovers:
  assumes "recovers_at k p w" and "quiet w" and "k \<le> max_attempts p" and "n < k" and "pending \<noteq> []"
  shows "\<exists>m'. export_round_loop err_text p w n backoff fe pending m = (round_result fe, m')
    \<and> tally m m' (span_count pending) 0 0"
  using assms(4,5)
proof (induction "k - n" arbitrary: n backoff pending m)
  case (Suc j)
  let ?a = "n + 1" and ?m1 = "begin_attempt (n + 1) pending m"
  let ?again = "may_retry_again p ?a (elapsed_before w ?a)"
  have q: "\<not> abort_after w ?a" "\<not> wait_backoff (poll_abort w ?a) f d t x" for f d t x
    using assms(2) wait_backoff_quiet by (auto simp: quiet_def)
  show ?case
  proof (cases "?a = k")
    case True
    then have "\<forall>(r, b)\<in>set (export_batches w ?a pending). r = Inr ()"
      using assms(1) in_export_batches unfolding recovers_at_def by fast
    from account_results_all_ok [OF this, of err_text ?again ?a ?m1 fe]
    obtain m' where "account_results err_text ?again ?a (export_batches w ?a pending) (?m1, fe) = ([], m', fe)"
      "tally ?m1 m' (span_count pending) 0 0" by auto
    with tally_trans [OF tally_begin_attempt this(2)] q(1) show ?thesis
      by (subst export_round_loop.simps) (simp add: Let_def)
  next
    case False
    with Suc.prems have a: "1 \<le> ?a" "?a < k" by auto
    then have t: "elapsed_before w ?a < max_elapsed p" "elapsed_after w ?a < max_elapsed p"
      using assms(1) unfolding recovers_at_def by blast+
    then have again: "?again" using a assms(3) by (auto simp: may_retry_again_def retries_enabled_def)
    have "\<forall>(r, b)\<in>set (export_batches w ?a pending). \<exists>e. r = Inl e \<and> classify_export_error e = Retryable"
      using assms(1) a in_export_batches unfolding recovers_at_def by fast
    from account_results_all_retryable [OF this, of err_text ?a "(?m1, fe)"] obtain ts where
      ts: "account_results err_text True ?a (export_batches w ?a pending) (?m1, fe) = (ts, ?m1, fe)"
      "map fst ts = pending" by auto
    let ?m3 = "?m1\<lparr>in_flight := of_nat (span_count pending)\<rparr>"
    obtain m' where m': "export_round_loop err_text p w ?a (min (backoff * 2) RETRY_BACKOFF_CAP) fe pending ?m3
        = (round_result fe, m')" "tally ?m3 m' (span_count pending) 0 0"
      using Suc.hyps(1) [of ?a pending] Suc.hyps(2) a Suc.prems(2) by fastforce
    have "ts \<noteq> []" using ts(2) Suc.prems(2) by auto
    with m'(1) ts t q again have "export_round_loop err_text p w n backoff fe pending m = (round_result fe, m')"
      by (subst export_round_loop.simps) (simp add: Let_def)
    moreover have "tally m ?m3 0 0 0" by (simp add: tally_begin_attempt)
    ultimately show ?thesis using tally_trans [OF _ m'(2)] by fastforce
  qed
qed simp

lemma export_available_quiet:
  assumes "wf_config cfg" and "\<forall>r. \<not> abort_seen aw r \<and> quiet (rounds aw r)"
    and "queue_depth m = of_nat (length q)" and "length q < 2 ^ 64" and "in_flight m = 0"
  shows "case export_available err_text cfg aw q m of (res, q', m') \<Rightarrow>
    q' = [] \<and> queue_depth m' = 0 \<and> in_flight m' = 0
    \<and> (\<exists>x d f. x + d = length q \<and> exported m' = exported m + of_nat x
         \<and> dropped_export_failure m' = dropped_export_failure m + of_nat d
         \<and> export_failures m' = export_failures m + of_nat f
         \<and> (f = 0 \<longrightarrow> d = 0) \<and> (res = Ok () \<longleftrightarrow> f = 0))"
proof -
  obtain fe q' m' where out:
    "export_available_loop err_text cfg aw 0 (unat (queue_depth m)) 0 None q m = (fe, q', m')"
    by (cases "export_available_loop err_text cfg aw 0 (unat (queue_depth m)) 0 None q m")
  have target: "unat (queue_depth m) = length q"
    by (simp only: assms(3) unat_of_nat_usize [OF assms(4)])
  have "drain_summary (length q) 0 None q m (fe, q', m')"
    using export_available_loop_drains [OF assms(2), of cfg "length q" 0 None q m err_text 0] assms(1) out target
    by (simp add: wf_config_def)
  then obtain x d f where s: "tally (m\<lparr>queue_depth := queue_depth m'\<rparr>) m' x d f"
    "x + d + length q' = length q" "queue_depth m' = queue_depth m - of_nat (x + d)" "f = 0 \<longrightarrow> d = 0"
    "fe = None \<longleftrightarrow> f = 0" "q' = [] \<or> length q \<le> x + d" "in_flight m' = 0"
    using assms(5) unfolding drain_summary_def prod.case add_0 simp_thms by blast
  have q': "q' = []" using s(2,6) by (cases q') auto
  then have "queue_depth m' = 0" using s(2,3) assms(3) by simp
  with q' s show ?thesis
    unfolding export_available_def out prod.case tally_def
    by (intro conjI exI [of _ x] exI [of _ d] exI [of _ f]) (auto split: option.splits)
qed

section \<open>Properties\<close>

text \<open>A world for concrete runs: every export times out before attempt \<open>k\<close> and succeeds from then on.\<close>

definition flaky_world :: "nat \<Rightarrow> 'span round_world" where
  "flaky_world k =
     \<lparr>export_result = (\<lambda>a _ _. if a < k then Inl (Timeout 1) else Inr ()),
      elapsed_before = (\<lambda>_. 0), abort_after = (\<lambda>_. False), elapsed_after = (\<lambda>_. 0),
      random_value = (\<lambda>_. 0), poll_abort = (\<lambda>_ _. False), poll_flush = (\<lambda>_ _. True),
      poll_delay = (\<lambda>_ _. 0)\<rparr>"

lemma flaky_world_simps [simp]:
  "quiet (flaky_world k)"
  "0 < max_elapsed p \<Longrightarrow> recovers_at k p (flaky_world k)"
  "agree_upto n w w"
  by (auto simp: quiet_def recovers_at_def flaky_world_def agree_upto_def classify_export_error_def)

text \<open>
  C3. A round of exports books exactly the answers of the exporter. With \<open>l\<close> the ledger of final
  answers (\<open>round_ledger\<close>): the spans of the batches whose final answer is a success are added to
  \<open>exported\<close>, those of the batches whose final answer is an error to \<open>dropped_export_failure\<close>, and
  \<open>export_failures\<close> grows by the number of these batches; the round answers Ok exactly when no final
  answer is an error, and otherwise the text of the first one. Every batch is in the ledger at most
  once, and exactly once unless the round saw the abort flag of an expired shutdown; an error in it
  is one that cannot be retried, or came when the attempts or the time for retries were used up. The
  round leaves nothing marked as in flight and does not touch the counters of the request side.
\<close>

theorem export_round_accounting:
  "case export_round err_text p w batches m of (res, m') \<Rightarrow>
     let l = round_ledger p w 0 (initial_backoff p) batches in
       exported m' = exported m + of_nat (span_count (delivered l))
       \<and> dropped_export_failure m' = dropped_export_failure m + of_nat (span_count (map snd (failures l)))
       \<and> export_failures m' = export_failures m + of_nat (length (failures l))
       \<and> res = (case failures l of [] \<Rightarrow> Ok () | (e, b) # _ \<Rightarrow> Err (err_text e))
       \<and> mset (map snd l) \<subseteq># mset batches \<and> (quiet w \<longrightarrow> mset (map snd l) = mset batches)
       \<and> (\<forall>(r, b) \<in> set l. final_answer p w r b)
       \<and> in_flight m' = 0 \<and> request_view m' = request_view m"
proof -
  let ?l = "round_ledger p w 0 (initial_backoff p) batches"
  have "round_summary (quiet w) batches None m (export_round err_text p w batches m)"
    unfolding export_round_def by (rule export_round_loop_summary)
  then have "in_flight (snd (export_round err_text p w batches m)) = 0"
    "request_view (snd (export_round err_text p w batches m)) = request_view m"
    by (auto simp: round_summary_def tally_def)
  moreover obtain fe' where "booked err_text ?l (m, None) (snd (export_round err_text p w batches m), fe')"
    "fst (export_round err_text p w batches m) = round_result fe'"
    using export_round_loop_booked [of err_text p w 0 "initial_backoff p" batches m None]
    by (auto simp: export_round_def)
  moreover have "\<forall>(r, b) \<in> set ?l. final_answer p w r b" using round_ledger_answers by blast
  ultimately show ?thesis
    using round_ledger_batches [of p w 0 "initial_backoff p" batches]
    by (auto simp: Let_def case_prod_beta booked_def first_failure_def round_result_def split: list.splits)
qed

text \<open>
  Two batches in one round with two attempts: the first fails for good, the second is retried and
  then succeeds.
\<close>

definition mixed_world :: "'span round_world" where
  "mixed_world = (flaky_world 2)\<lparr>export_result :=
     (\<lambda>a i _. if a = 1 then (if i = 0 then Inl AlreadyShutdown else Inl (Timeout 1)) else Inr ())\<rparr>"

theorem export_round_accounting_witness:
  "case export_round (\<lambda>_. ''e'') \<lparr>max_attempts = 2, max_elapsed = 9, initial_backoff = 1\<rparr>
       mixed_world [[1, 2], [3 :: nat]] batch_metrics_default of (res, m') \<Rightarrow>
     res = Err ''e'' \<and> exported m' = 1 \<and> dropped_export_failure m' = 2 \<and> export_failures m' = 1"
proof -
  let ?p = "\<lparr>max_attempts = 2, max_elapsed = 9, initial_backoff = 1\<rparr>"
  have "round_ledger ?p mixed_world 0 1 [[1, 2], [3 :: nat]] =
      [(Inl AlreadyShutdown, [1, 2]), (Inr (), [3])]"
    by (simp add: round_ledger.simps export_batches_def mixed_world_def flaky_world_def to_retry_def
        may_retry_again_def retries_enabled_def classify_export_error_def wait_backoff_def
        wait_backoff_loop.simps)
  then show ?thesis
    using export_round_accounting [where err_text = "\<lambda>_. ''e''" and w = mixed_world and p = ?p
        and batches = "[[1, 2], [3 :: nat]]" and m = batch_metrics_default]
    by (simp add: Let_def case_prod_beta batch_metrics_default_def)
qed

text \<open>
  C6. A round ends after at most \<open>max_attempts\<close> export attempts: its result does not depend on what
  the exporter would answer to a later attempt, and it counts at most \<open>max_attempts - 1\<close> retries for
  each batch.
\<close>

theorem export_round_attempts_bounded:
  assumes "1 \<le> max_attempts p" and "agree_upto (max_attempts p) w v"
  shows "export_round err_text p w batches m = export_round err_text p v batches m
    \<and> (\<exists>r \<le> (max_attempts p - 1) * length batches.
         export_retries (snd (export_round err_text p w batches m)) = export_retries m + of_nat r)"
proof -
  have "agree_upto (max 1 (max_attempts p)) w v" using assms by (simp add: max_def)
  then have "export_round err_text p w batches m = export_round err_text p v batches m"
    unfolding export_round_def by (intro export_round_loop_agree) auto
  then show ?thesis
    using export_round_loop_retries [of 0 p err_text w "initial_backoff p" None batches m]
    by (auto simp: export_round_def retry_budget_def)
qed

theorem export_round_attempts_bounded_witness:
  "export_round (\<lambda>_. ''e'') \<lparr>max_attempts = 2, max_elapsed = 9, initial_backoff = 1\<rparr> (flaky_world 3)
       [[True]] batch_metrics_default
   = export_round (\<lambda>_. ''e'') \<lparr>max_attempts = 2, max_elapsed = 9, initial_backoff = 1\<rparr> (flaky_world 7)
       [[True]] batch_metrics_default"
proof -
  have "agree_upto (max_attempts \<lparr>max_attempts = 2, max_elapsed = 9, initial_backoff = 1\<rparr>)
      (flaky_world 3 :: bool round_world) (flaky_world 7)"
    by (auto simp: agree_upto_def flaky_world_def)
  then show ?thesis
    using export_round_attempts_bounded [of "\<lparr>max_attempts = 2, max_elapsed = 9, initial_backoff = 1\<rparr>"
        "flaky_world 3" "flaky_world 7" "\<lambda>_. ''e''" "[[True]]" batch_metrics_default] by simp
qed

text \<open>
  Transient failures lose nothing: when every attempt before the k-th fails with a retryable
  error, the k-th succeeds, k is within the attempt budget and the time budget is not used up, the
  round exports every span, drops none and answers Ok.
\<close>

lemma export_round_recovers:
  assumes "recovers_at k p w" and "quiet w" and "1 \<le> k" and "k \<le> max_attempts p" and "batches \<noteq> []"
  shows "\<exists>m'. export_round err_text p w batches m = (Ok (), m')
    \<and> exported m' = exported m + of_nat (span_count batches)
    \<and> dropped_export_failure m' = dropped_export_failure m \<and> export_failures m' = export_failures m"
  using export_round_loop_recovers [OF assms(1,2,4) _ assms(5), of 0 err_text "initial_backoff p" None m] assms(3)
  by (auto simp: export_round_def tally_def round_result_def)

text \<open>
  \<open>export_available\<close> empties the queue when no abort is signalled: afterwards the queue is empty,
  \<open>queue_depth\<close> and \<open>in_flight\<close> are zero, every span that was queued is counted exactly once, and the
  result is Ok exactly when no export failed.
\<close>

lemma export_available_drains_queue:
  assumes "wf_config cfg" and "\<forall>r. \<not> abort_seen aw r \<and> quiet (rounds aw r)"
    and "queue_depth m = of_nat (length q)" and "length q < 2 ^ 64" and "in_flight m = 0"
  shows "case export_available err_text cfg aw q m of (res, q', m') \<Rightarrow>
    q' = [] \<and> queue_depth m' = 0 \<and> in_flight m' = 0
    \<and> (\<exists>x d f. x + d = length q \<and> exported m' = exported m + of_nat x
         \<and> dropped_export_failure m' = dropped_export_failure m + of_nat d
         \<and> export_failures m' = export_failures m + of_nat f
         \<and> (f = 0 \<longrightarrow> d = 0) \<and> (res = Ok () \<longleftrightarrow> f = 0))"
  using assms by (rule export_available_quiet)

end
