(* ===== verification/Batch_Processor.thy ===== *)
theory Batch_Processor
  imports Batch_Export
begin

text \<open>
  The request side of the bounded batch span processor (\<open>trace/batch_processor.rs\<close>) and its
  concurrent composition with the worker. First the operations of \<open>BoundedBatchSpanProcessor\<close> as
  functions on its shared state; then a step relation in which any number of \<open>on_end\<close> calls, a
  shutdown and the worker thread interleave at their accesses to the shared counters and channels.

  Reply channels are named by numbers. A \<open>try_send\<close> on a channel fails when the channel is full and
  when its receiver is gone.
\<close>

section \<open>State\<close>

datatype 'res control_message =
  Export
| ForceFlush nat
| Shutdown nat
| SetResource 'res

record ('span, 'res) processor =
  span_queue :: "'span list"
  control_queue :: "'res control_message list"
  receivers_gone :: bool
  metrics :: batch_metrics
  export_pending :: bool
  abort_export :: bool
  flush_requested :: bool
  shutdown_started :: bool
  handle_present :: bool

definition processor_new :: "('span, 'res) processor" where
  "processor_new =
     \<lparr>span_queue = [], control_queue = [], receivers_gone = False, metrics = batch_metrics_default,
      export_pending = False, abort_export = False, flush_requested = False,
      shutdown_started = False, handle_present = True\<rparr>"

datatype send_result = Sent | Full | Disconnected

definition control_capacity :: nat where
  "control_capacity = 8"

definition control_try_send ::
  "'res control_message \<Rightarrow> ('span, 'res) processor \<Rightarrow> send_result \<times> ('span, 'res) processor" where
  "control_try_send msg p =
     (if receivers_gone p then (Disconnected, p)
      else if length (control_queue p) < control_capacity
        then (Sent, p\<lparr>control_queue := control_queue p @ [msg]\<rparr>)
      else (Full, p))"

definition span_try_send ::
  "batch_config \<Rightarrow> 'span \<Rightarrow> ('span, 'res) processor \<Rightarrow> send_result \<times> ('span, 'res) processor" where
  "span_try_send cfg span p =
     (if receivers_gone p then (Disconnected, p)
      else if length (span_queue p) < max_queue_size cfg
        then (Sent, p\<lparr>span_queue := span_queue p @ [span]\<rparr>)
      else (Full, p))"

section \<open>Operations of the request side\<close>

definition notify_export :: "('span, 'res) processor \<Rightarrow> ('span, 'res) processor" where
  "notify_export p =
     (let p1 = p\<lparr>export_pending := True\<rparr> in
      if \<not> export_pending p then
        (case control_try_send Export p1 of
           (Sent, p2) \<Rightarrow> p2
         | (_, p2) \<Rightarrow> p2\<lparr>export_pending := False\<rparr>)
      else p1)"

definition on_start :: "('span, 'res) processor \<Rightarrow> ('span, 'res) processor" where
  "on_start p = p\<lparr>metrics := (metrics p)\<lparr>sampled_started := sampled_started (metrics p) + 1\<rparr>\<rparr>"

text \<open>
  \<open>on_end\<close> in the pieces between which other threads can run: count the span and test the shutdown
  flag; reserve a place in \<open>queue_depth\<close>; try to send; settle the counters for the outcome.
\<close>

definition on_end_enter :: "('span, 'res) processor \<Rightarrow> bool \<times> ('span, 'res) processor" where
  "on_end_enter p =
     (let m = (metrics p)\<lparr>sampled_ended := sampled_ended (metrics p) + 1\<rparr> in
      if shutdown_started p
      then (False, p\<lparr>metrics := m\<lparr>dropped_shutdown := dropped_shutdown m + 1\<rparr>\<rparr>)
      else (True, p\<lparr>metrics := m\<rparr>))"

definition on_end_reserve :: "('span, 'res) processor \<Rightarrow> usize \<times> ('span, 'res) processor" where
  "on_end_reserve p =
     (let depth = queue_depth (metrics p) + 1
      in (depth, p\<lparr>metrics := (metrics p)\<lparr>queue_depth := depth\<rparr>\<rparr>))"

definition on_end_sent ::
  "batch_config \<Rightarrow> usize \<Rightarrow> ('span, 'res) processor \<Rightarrow> ('span, 'res) processor" where
  "on_end_sent cfg depth p =
     (let m = (metrics p)\<lparr>queued := queued (metrics p) + 1\<rparr>;
          p1 = p\<lparr>metrics := update_high_watermark (min depth (of_nat (max_queue_size cfg))) m\<rparr> in
      if unat depth \<ge> max_export_batch_size cfg then notify_export p1 else p1)"

definition on_end_full :: "('span, 'res) processor \<Rightarrow> ('span, 'res) processor" where
  "on_end_full p =
     p\<lparr>metrics := (metrics p)
        \<lparr>queue_depth := queue_depth (metrics p) - 1,
         dropped_queue_full := dropped_queue_full (metrics p) + 1,
         queue_full_log_emitted := True\<rparr>\<rparr>"

definition on_end_disconnected :: "('span, 'res) processor \<Rightarrow> ('span, 'res) processor" where
  "on_end_disconnected p =
     p\<lparr>metrics := (metrics p)
        \<lparr>queue_depth := queue_depth (metrics p) - 1,
         dropped_shutdown := dropped_shutdown (metrics p) + 1\<rparr>\<rparr>"

definition on_end_settle ::
  "batch_config \<Rightarrow> usize \<Rightarrow> send_result \<Rightarrow> ('span, 'res) processor \<Rightarrow> ('span, 'res) processor" where
  "on_end_settle cfg depth r p =
     (case r of Sent \<Rightarrow> on_end_sent cfg depth p
      | Full \<Rightarrow> on_end_full p
      | Disconnected \<Rightarrow> on_end_disconnected p)"

definition on_end :: "batch_config \<Rightarrow> 'span \<Rightarrow> ('span, 'res) processor \<Rightarrow> ('span, 'res) processor" where
  "on_end cfg span p =
     (case on_end_enter p of
        (False, p1) \<Rightarrow> p1
      | (True, p1) \<Rightarrow>
          (case on_end_reserve p1 of (depth, p2) \<Rightarrow>
             case span_try_send cfg span p2 of (r, p3) \<Rightarrow> on_end_settle cfg depth r p3))"

text \<open>
  \<open>wait_for_control\<close>: the message is posted, then the worker runs (\<open>worker\<close> is what it does to the
  state meanwhile) and the wait ends with a reply, a timeout or a closed reply channel.
\<close>

datatype wait_outcome = Replied sdk_result | TimedOut | ReplyClosed

definition wait_for_control ::
  "'res control_message \<Rightarrow> duration \<Rightarrow> (('span, 'res) processor \<Rightarrow> ('span, 'res) processor) \<Rightarrow>
     wait_outcome \<Rightarrow> ('span, 'res) processor \<Rightarrow> sdk_result \<times> ('span, 'res) processor" where
  "wait_for_control msg timeout worker outcome p =
     (case control_try_send msg p of
        (Full, p1) \<Rightarrow> (Err (InternalFailure ''trace exporter control queue is full''), p1)
      | (Disconnected, p1) \<Rightarrow> (Err AlreadyShutdown, p1)
      | (Sent, p1) \<Rightarrow>
          (case outcome of
             Replied r \<Rightarrow> r
           | TimedOut \<Rightarrow> Err (Timeout timeout)
           | ReplyClosed \<Rightarrow> Err (InternalFailure ''trace exporter worker stopped''),
           worker p1))"

definition force_flush ::
  "batch_config \<Rightarrow> nat \<Rightarrow> (('span, 'res) processor \<Rightarrow> ('span, 'res) processor) \<Rightarrow> wait_outcome \<Rightarrow>
     ('span, 'res) processor \<Rightarrow> sdk_result \<times> ('span, 'res) processor" where
  "force_flush cfg chan worker outcome p =
     wait_for_control (ForceFlush chan) (shutdown_timeout cfg) worker outcome
       (p\<lparr>flush_requested := True\<rparr>)"

text \<open>
  After an expired shutdown the abort flag is set before \<open>queue_depth\<close> and \<open>in_flight\<close> are read.
\<close>

definition shutdown_abort :: "('span, 'res) processor \<Rightarrow> ('span, 'res) processor" where
  "shutdown_abort p = p\<lparr>abort_export := True\<rparr>"

definition shutdown_count :: "('span, 'res) processor \<Rightarrow> ('span, 'res) processor" where
  "shutdown_count p =
     (let remaining = queue_depth (metrics p) + in_flight (metrics p)
      in p\<lparr>metrics := (metrics p)\<lparr>dropped_shutdown := dropped_shutdown (metrics p) + remaining\<rparr>\<rparr>)"

definition shutdown_with_timeout ::
  "batch_config \<Rightarrow> duration \<Rightarrow> nat \<Rightarrow> (('span, 'res) processor \<Rightarrow> ('span, 'res) processor) \<Rightarrow>
     wait_outcome \<Rightarrow> bool \<Rightarrow> ('span, 'res) processor \<Rightarrow> sdk_result \<times> ('span, 'res) processor" where
  "shutdown_with_timeout cfg timeout chan worker outcome worker_panicked p =
     (if shutdown_started p then (Err AlreadyShutdown, p)
      else
        let effective_timeout = min timeout (shutdown_timeout cfg);
            p1 = p\<lparr>shutdown_started := True, flush_requested := True\<rparr> in
        case wait_for_control (Shutdown chan) effective_timeout worker outcome p1 of
          (Inl (Timeout t), p2) \<Rightarrow> (Err (Timeout t), shutdown_count (shutdown_abort p2))
        | (Inr u, p2) \<Rightarrow>
            let p3 = p2\<lparr>handle_present := False\<rparr> in
            if handle_present p2 \<and> worker_panicked
            then (Err (InternalFailure ''trace exporter worker panicked''), p3)
            else (Ok u, p3)
        | (Inl e, p2) \<Rightarrow> (Err e, p2))"

definition set_resource :: "'res \<Rightarrow> ('span, 'res) processor \<Rightarrow> ('span, 'res) processor" where
  "set_resource r p = snd (control_try_send (SetResource r) p)"

section \<open>The worker thread\<close>

text \<open>
  One turn of \<open>run_worker\<close>: what \<open>recv_timeout\<close> returned, the observations of the export it starts
  and the answers of the exporter to \<open>force_flush\<close> and \<open>shutdown\<close> are arguments. The turn returns
  the reply it sends, if any, and whether the loop goes on; when it ends, both receivers are dropped and
  with them whatever the channels still hold.
\<close>

datatype 'res received = Message "'res control_message" | RecvTimeout | RecvDisconnected

record 'span turn_world =
  exports :: "'span export_world"
  exporter_flush :: sdk_result
  exporter_shutdown :: sdk_result
  abort_at_end :: bool

definition recv_wait :: "batch_config \<Rightarrow> duration \<Rightarrow> duration" where
  "recv_wait cfg elapsed_since_export = scheduled_delay cfg - elapsed_since_export"

definition drain ::
  "(otel_sdk_error \<Rightarrow> string) \<Rightarrow> batch_config \<Rightarrow> 'span turn_world \<Rightarrow> ('span, 'res) processor \<Rightarrow>
     sdk_result \<times> ('span, 'res) processor" where
  "drain err_text cfg tw p =
     (case export_available err_text cfg (exports tw) (span_queue p) (metrics p) of
        (res, q, m) \<Rightarrow> (res, p\<lparr>span_queue := q, metrics := m\<rparr>))"

definition drop_receivers :: "('span, 'res) processor \<Rightarrow> ('span, 'res) processor" where
  "drop_receivers p = p\<lparr>receivers_gone := True, span_queue := [], control_queue := []\<rparr>"

definition worker_turn ::
  "(otel_sdk_error \<Rightarrow> string) \<Rightarrow> batch_config \<Rightarrow> 'span turn_world \<Rightarrow> 'res received \<Rightarrow>
     ('span, 'res) processor \<Rightarrow> (nat \<times> sdk_result) option \<times> bool \<times> ('span, 'res) processor" where
  "worker_turn err_text cfg tw received p =
     (case received of
        Message Export \<Rightarrow> (None, True, snd (drain err_text cfg tw (p\<lparr>export_pending := False\<rparr>)))
      | Message (ForceFlush chan) \<Rightarrow>
          (case drain err_text cfg tw p of (res, p1) \<Rightarrow>
             (Some (chan, result_bind res (\<lambda>_. exporter_flush tw)), True, p1\<lparr>flush_requested := False\<rparr>))
      | Message (Shutdown chan) \<Rightarrow>
          (case drain err_text cfg tw p of (res, p1) \<Rightarrow>
             let p2 = (if abort_at_end tw
                       then (case discard_remaining (span_queue p1) (metrics p1) of
                               (q, m) \<Rightarrow> p1\<lparr>span_queue := q, metrics := m\<rparr>)
                       else p1)
             in (Some (chan, result_bind res (\<lambda>_. exporter_shutdown tw)), False,
                 drop_receivers p2))
      | Message (SetResource r) \<Rightarrow> (None, True, p)
      | RecvTimeout \<Rightarrow> (None, True, snd (drain err_text cfg tw p))
      | RecvDisconnected \<Rightarrow> (None, False, drop_receivers p))"

text \<open>The loop of the worker over what it receives, with the replies it sends in order.\<close>

fun run_worker ::
  "(otel_sdk_error \<Rightarrow> string) \<Rightarrow> batch_config \<Rightarrow> ('span turn_world \<times> 'res received) list \<Rightarrow>
     ('span, 'res) processor \<Rightarrow> (nat \<times> sdk_result) list \<times> ('span, 'res) processor" where
  "run_worker err_text cfg [] p = ([], p)"
| "run_worker err_text cfg ((tw, r) # rest) p =
     (case worker_turn err_text cfg tw r p of (reply, running, p1) \<Rightarrow>
        let out = (case reply of None \<Rightarrow> [] | Some c \<Rightarrow> [c]) in
        if running then
          (case run_worker err_text cfg rest p1 of (replies, p2) \<Rightarrow> (out @ replies, p2))
        else (out, p1))"

section \<open>Interleaving\<close>

text \<open>
  An \<open>on_end\<close> call in progress: counted; with a reserved place; after \<open>try_send\<close>, with its outcome.
\<close>

datatype 'span producer =
  Entered 'span
| Reserved usize 'span
| Tried usize send_result

text \<open>
  The worker between its accesses to shared state. \<open>Filling\<close> and \<open>Popped\<close> are inside \<open>take_batch\<close>
  before and after the pop whose \<open>queue_depth\<close> update is still to come; \<open>Exporting a pending\<close> is
  inside attempt \<open>a\<close>; \<open>Accounting\<close> is after the test of the abort flag; \<open>Stopping\<close> has left the loop but
  not yet dropped the receivers.
\<close>

datatype 'span worker =
  Idle
| Draining nat nat
| Filling nat nat "'span list list" "'span list"
| Popped nat nat "'span list list" "'span list"
| Attempting nat nat nat "'span list list"
| Exporting nat nat nat "'span list list"
| Accounting nat nat nat "'span list list"
| Stopping
| Stopped

text \<open>The shutdown call: not made, waiting for the worker, abort flag set, finished.\<close>

datatype shutdown_phase = NotCalled | Waiting | AbortSet | Finished

text \<open>
  \<open>discarded\<close> is no state of the code: it counts the spans that were in the channel when the worker
  dropped its receiver, which no counter of the code does.
\<close>

record ('span, 'res) system =
  proc :: "('span, 'res) processor"
  producers :: "'span producer list"
  shutdown_phase :: shutdown_phase
  turn :: "'res received"
  worker :: "'span worker"
  discarded :: nat

definition system_init :: "('span, 'res) system \<Rightarrow> bool" where
  "system_init s \<longleftrightarrow>
     s = \<lparr>proc = processor_new, producers = [], shutdown_phase = NotCalled, turn = RecvTimeout,
          worker = Idle, discarded = 0\<rparr>"

text \<open>What a turn of the worker does after its export loop, and the end of the thread.\<close>

definition finish_turn :: "('span, 'res) system \<Rightarrow> ('span, 'res) system" where
  "finish_turn s =
     (let p = proc s in
      case turn s of
        Message (ForceFlush _) \<Rightarrow> s\<lparr>proc := p\<lparr>flush_requested := False\<rparr>, worker := Idle\<rparr>
      | Message (Shutdown _) \<Rightarrow>
          (if abort_export p
           then (case discard_remaining (span_queue p) (metrics p) of (q, m) \<Rightarrow>
                   s\<lparr>proc := p\<lparr>span_queue := q, metrics := m\<rparr>, worker := Stopping\<rparr>)
           else s\<lparr>worker := Stopping\<rparr>)
      | _ \<Rightarrow> s\<lparr>worker := Idle\<rparr>)"

definition stop_worker :: "('span, 'res) system \<Rightarrow> ('span, 'res) system" where
  "stop_worker s =
     s\<lparr>proc := drop_receivers (proc s), worker := Stopped,
       discarded := discarded s + length (span_queue (proc s))\<rparr>"

abbreviation set_metrics :: "('span, 'res) system \<Rightarrow> batch_metrics \<Rightarrow> ('span, 'res) system" where
  "set_metrics s m \<equiv> s\<lparr>proc := (proc s)\<lparr>metrics := m\<rparr>\<rparr>"

inductive request_step ::
  "batch_config \<Rightarrow> ('span, 'res) system \<Rightarrow> ('span, 'res) system \<Rightarrow> bool" for cfg where
  rs_start: "request_step cfg s (s\<lparr>proc := on_start (proc s)\<rparr>)"
| rs_enter: "on_end_enter (proc s) = (True, p) \<Longrightarrow>
    request_step cfg s (s\<lparr>proc := p, producers := producers s @ [Entered x]\<rparr>)"
| rs_refuse: "on_end_enter (proc s) = (False, p) \<Longrightarrow> request_step cfg s (s\<lparr>proc := p\<rparr>)"
| rs_reserve: "producers s = a @ Entered x # b \<Longrightarrow> on_end_reserve (proc s) = (d, p) \<Longrightarrow>
    request_step cfg s (s\<lparr>proc := p, producers := a @ Reserved d x # b\<rparr>)"
| rs_send: "producers s = a @ Reserved d x # b \<Longrightarrow> span_try_send cfg x (proc s) = (r, p) \<Longrightarrow>
    request_step cfg s (s\<lparr>proc := p, producers := a @ Tried d r # b\<rparr>)"
| rs_settle: "producers s = a @ Tried d r # b \<Longrightarrow>
    request_step cfg s (s\<lparr>proc := on_end_settle cfg d r (proc s), producers := a @ b\<rparr>)"
| rs_flush: "request_step cfg s
    (s\<lparr>proc := snd (control_try_send (ForceFlush c) ((proc s)\<lparr>flush_requested := True\<rparr>))\<rparr>)"
| rs_resource: "request_step cfg s (s\<lparr>proc := set_resource r (proc s)\<rparr>)"
| rs_shutdown: "shutdown_phase s = NotCalled \<Longrightarrow>
    request_step cfg s
      (s\<lparr>proc := snd (control_try_send (Shutdown c)
                 ((proc s)\<lparr>shutdown_started := True, flush_requested := True\<rparr>)),
         shutdown_phase := Waiting\<rparr>)"
| rs_shutdown_done: "shutdown_phase s = Waiting \<Longrightarrow> request_step cfg s (s\<lparr>shutdown_phase := Finished\<rparr>)"
| rs_abort: "shutdown_phase s = Waiting \<Longrightarrow>
    request_step cfg s (s\<lparr>proc := shutdown_abort (proc s), shutdown_phase := AbortSet\<rparr>)"
| rs_count: "shutdown_phase s = AbortSet \<Longrightarrow>
    request_step cfg s (s\<lparr>proc := shutdown_count (proc s), shutdown_phase := Finished\<rparr>)"

inductive worker_step ::
  "(otel_sdk_error \<Rightarrow> string) \<Rightarrow> batch_config \<Rightarrow> ('span, 'res) system \<Rightarrow> ('span, 'res) system \<Rightarrow> bool"
  for err_text cfg where
  ws_recv: "worker s = Idle \<Longrightarrow> control_queue (proc s) = msg # rest \<Longrightarrow> \<forall>r. msg \<noteq> SetResource r \<Longrightarrow>
    worker_step err_text cfg s
      (s\<lparr>proc := (proc s)\<lparr>control_queue := rest,
                         export_pending := (if msg = Export then False else export_pending (proc s))\<rparr>,
         turn := Message msg, worker := Draining (unat (queue_depth (metrics (proc s)))) 0\<rparr>)"
| ws_set_resource: "worker s = Idle \<Longrightarrow> control_queue (proc s) = SetResource r # rest \<Longrightarrow>
    worker_step err_text cfg s (s\<lparr>proc := (proc s)\<lparr>control_queue := rest\<rparr>\<rparr>)"
| ws_tick: "worker s = Idle \<Longrightarrow> control_queue (proc s) = [] \<Longrightarrow>
    worker_step err_text cfg s
      (s\<lparr>turn := RecvTimeout, worker := Draining (unat (queue_depth (metrics (proc s)))) 0\<rparr>)"
| ws_fill: "worker s = Draining t n \<Longrightarrow> n < t \<Longrightarrow> \<not> abort_export (proc s) \<Longrightarrow>
    worker_step err_text cfg s (s\<lparr>worker := Filling t n [] []\<rparr>)"
| ws_finish: "worker s = Draining t n \<Longrightarrow> \<not> n < t \<or> abort_export (proc s) \<Longrightarrow>
    worker_step err_text cfg s (finish_turn s)"
| ws_stop: "worker s = Stopping \<Longrightarrow> worker_step err_text cfg s (stop_worker s)"
| ws_pop: "worker s = Filling t n bs cur \<Longrightarrow> length bs < max_concurrent_exports cfg \<Longrightarrow>
    length cur < max_export_batch_size cfg \<Longrightarrow> span_queue (proc s) = x # q \<Longrightarrow>
    worker_step err_text cfg s
      (s\<lparr>proc := (proc s)\<lparr>span_queue := q\<rparr>, worker := Popped t n bs (cur @ [x])\<rparr>)"
| ws_decrement: "worker s = Popped t n bs cur \<Longrightarrow>
    worker_step err_text cfg s
      (set_metrics s ((metrics (proc s))\<lparr>queue_depth := queue_depth (metrics (proc s)) - 1\<rparr>)
        \<lparr>worker := Filling t n bs cur\<rparr>)"
| ws_batch: "worker s = Filling t n bs cur \<Longrightarrow> length bs < max_concurrent_exports cfg \<Longrightarrow> cur \<noteq> [] \<Longrightarrow>
    length cur = max_export_batch_size cfg \<or> span_queue (proc s) = [] \<Longrightarrow>
    worker_step err_text cfg s (s\<lparr>worker := Filling t n (bs @ [cur]) []\<rparr>)"
| ws_round: "worker s = Filling t n bs [] \<Longrightarrow> bs \<noteq> [] \<Longrightarrow>
    length bs = max_concurrent_exports cfg \<or> span_queue (proc s) = [] \<Longrightarrow>
    worker_step err_text cfg s (s\<lparr>worker := Attempting t (n + span_count bs) 0 bs\<rparr>)"
| ws_empty: "worker s = Filling t n [] [] \<Longrightarrow> span_queue (proc s) = [] \<Longrightarrow>
    worker_step err_text cfg s (s\<lparr>worker := Draining t t\<rparr>)"
| ws_attempt: "worker s = Attempting t n a pending \<Longrightarrow>
    worker_step err_text cfg s
      (set_metrics s (begin_attempt (a + 1) pending (metrics (proc s)))
        \<lparr>worker := Exporting t n (a + 1) pending\<rparr>)"
| ws_aborted: "worker s = Exporting t n a pending \<Longrightarrow> abort_export (proc s) \<Longrightarrow>
    worker_step err_text cfg s
      (set_metrics s ((metrics (proc s))\<lparr>in_flight := 0\<rparr>)\<lparr>worker := Draining t n\<rparr>)"
| ws_exported: "worker s = Exporting t n a pending \<Longrightarrow> \<not> abort_export (proc s) \<Longrightarrow>
    worker_step err_text cfg s (s\<lparr>worker := Accounting t n a pending\<rparr>)"
| ws_round_done: "worker s = Accounting t n a pending \<Longrightarrow> map snd rs = pending \<Longrightarrow>
    account_results err_text again a rs (metrics (proc s), fe) = ([], m', fe') \<Longrightarrow>
    worker_step err_text cfg s (set_metrics s (m'\<lparr>in_flight := 0\<rparr>)\<lparr>worker := Draining t n\<rparr>)"
| ws_retry: "worker s = Accounting t n a pending \<Longrightarrow> map snd rs = pending \<Longrightarrow>
    account_results err_text again a rs (metrics (proc s), fe) = (retries, m', fe') \<Longrightarrow> retries \<noteq> [] \<Longrightarrow>
    retries_enabled (retry cfg) \<Longrightarrow> a < max_attempts (retry cfg) \<Longrightarrow>
    worker_step err_text cfg s
      (set_metrics s (m'\<lparr>in_flight := of_nat (span_count (map fst retries))\<rparr>)
        \<lparr>worker := Attempting t n a (map fst retries)\<rparr>)"
| ws_late: "worker s = Accounting t n a pending \<Longrightarrow> map snd rs = pending \<Longrightarrow>
    account_results err_text again a rs (metrics (proc s), fe) = (retries, m', fe') \<Longrightarrow> retries \<noteq> [] \<Longrightarrow>
    fold (\<lambda>(batch, e). record_terminal_failure (length batch) e) retries (m', fe') = (m2, fe2) \<Longrightarrow>
    worker_step err_text cfg s (set_metrics s (m2\<lparr>in_flight := 0\<rparr>)\<lparr>worker := Draining t n\<rparr>)"
| ws_backoff_aborted: "worker s = Attempting t n a pending \<Longrightarrow> a \<noteq> 0 \<Longrightarrow> abort_export (proc s) \<Longrightarrow>
    worker_step err_text cfg s
      (set_metrics s ((metrics (proc s))\<lparr>in_flight := 0\<rparr>)\<lparr>worker := Draining t n\<rparr>)"

definition system_step ::
  "(otel_sdk_error \<Rightarrow> string) \<Rightarrow> batch_config \<Rightarrow> ('span, 'res) system \<Rightarrow> ('span, 'res) system \<Rightarrow> bool" where
  "system_step err_text cfg s t \<longleftrightarrow> request_step cfg s t \<or> worker_step err_text cfg s t"

section \<open>Invariant\<close>

text \<open>Spans the worker has taken from the queue and not yet counted.\<close>

fun held :: "'span worker \<Rightarrow> nat" where
  "held (Filling _ _ batches cur) = span_count batches + length cur"
| "held (Popped _ _ batches cur) = span_count batches + length cur"
| "held (Attempting _ _ _ pending) = span_count pending"
| "held (Exporting _ _ _ pending) = span_count pending"
| "held (Accounting _ _ _ pending) = span_count pending"
| "held _ = 0"

fun undecremented :: "'span worker \<Rightarrow> nat" where
  "undecremented (Popped _ _ _ _) = 1"
| "undecremented _ = 0"

fun in_flight_of :: "'span worker \<Rightarrow> usize" where
  "in_flight_of (Attempting _ _ a pending) = (if a = 0 then 0 else of_nat (span_count pending))"
| "in_flight_of (Exporting _ _ _ pending) = of_nat (span_count pending)"
| "in_flight_of (Accounting _ _ _ pending) = of_nat (span_count pending)"
| "in_flight_of _ = 0"

fun attempt_ok :: "'span worker \<Rightarrow> bool" where
  "attempt_ok (Exporting _ _ a _) = (a \<noteq> 0)"
| "attempt_ok (Accounting _ _ a _) = (a \<noteq> 0)"
| "attempt_ok _ = True"

fun holds_place :: "'span producer \<Rightarrow> bool" where
  "holds_place (Entered _) = False"
| "holds_place (Reserved _ _) = True"
| "holds_place (Tried _ r) = (r \<noteq> Sent)"

fun sent_unsettled :: "'span producer \<Rightarrow> bool" where
  "sent_unsettled (Tried _ r) = (r = Sent)"
| "sent_unsettled _ = False"

abbreviation tally_of :: "('a \<Rightarrow> bool) \<Rightarrow> 'a list \<Rightarrow> nat" where
  "tally_of P xs \<equiv> length (filter P xs)"

definition bounds_inv :: "batch_config \<Rightarrow> ('span, 'res) system \<Rightarrow> bool" where
  "bounds_inv cfg s \<longleftrightarrow>
     length (span_queue (proc s)) \<le> max_queue_size cfg
     \<and> queue_high_watermark (metrics (proc s)) \<le> of_nat (max_queue_size cfg)
     \<and> in_flight (metrics (proc s)) = in_flight_of (worker s) \<and> attempt_ok (worker s)"

definition depth_inv :: "('span, 'res) system \<Rightarrow> bool" where
  "depth_inv s \<longleftrightarrow>
     queue_depth (metrics (proc s)) =
       of_nat (length (span_queue (proc s)) + tally_of holds_place (producers s)
               + undecremented (worker s) + discarded s)"

definition ended_inv :: "('span, 'res) system \<Rightarrow> bool" where
  "ended_inv s \<longleftrightarrow>
     sampled_ended (metrics (proc s)) =
       queued (metrics (proc s)) + dropped_queue_full (metrics (proc s))
       + dropped_shutdown (metrics (proc s)) + of_nat (length (producers s))"

definition queued_inv :: "('span, 'res) system \<Rightarrow> bool" where
  "queued_inv s \<longleftrightarrow>
     queued (metrics (proc s)) + of_nat (tally_of sent_unsettled (producers s)) =
       of_nat (length (span_queue (proc s)) + held (worker s) + discarded s)
       + exported (metrics (proc s)) + dropped_export_failure (metrics (proc s))"

text \<open>The worker stops only for a shutdown, and only then something is discarded: at most one queue.\<close>

definition stop_inv :: "batch_config \<Rightarrow> ('span, 'res) system \<Rightarrow> bool" where
  "stop_inv cfg s \<longleftrightarrow>
     (worker s \<noteq> Stopped \<longrightarrow> discarded s = 0) \<and> discarded s \<le> max_queue_size cfg
     \<and> (receivers_gone (proc s) \<longleftrightarrow> worker s = Stopped) \<and> (worker s = Stopped \<longrightarrow> span_queue (proc s) = [])
     \<and> (shutdown_phase s = NotCalled \<longrightarrow>
          \<not> shutdown_started (proc s) \<and> worker s \<noteq> Stopping \<and> worker s \<noteq> Stopped \<and> (\<forall>c. turn s \<noteq> Message (Shutdown c))
          \<and> (\<forall>c. Shutdown c \<notin> set (control_queue (proc s))))"

definition system_inv :: "batch_config \<Rightarrow> ('span, 'res) system \<Rightarrow> bool" where
  "system_inv cfg s \<longleftrightarrow>
     bounds_inv cfg s
     \<and> stop_inv cfg s
     \<and> (shutdown_phase s \<in> {NotCalled, Waiting} \<longrightarrow> \<not> abort_export (proc s))
     \<and> (shutdown_phase s = AbortSet \<longrightarrow> abort_export (proc s))
     \<and> (\<not> abort_export (proc s) \<longrightarrow> depth_inv s \<and> ended_inv s \<and> queued_inv s)"

lemmas inv_defs = bounds_inv_def depth_inv_def ended_inv_def queued_inv_def

lemma control_try_send_frame [simp]:
  "metrics (snd (control_try_send msg p)) = metrics p"
  "span_queue (snd (control_try_send msg p)) = span_queue p"
  "abort_export (snd (control_try_send msg p)) = abort_export p"
  by (simp_all add: control_try_send_def)

lemma notify_export_frame [simp]:
  "metrics (notify_export p) = metrics p"
  "span_queue (notify_export p) = span_queue p"
  "abort_export (notify_export p) = abort_export p"
  by (simp_all add: notify_export_def control_try_send_def Let_def)

lemma set_resource_frame [simp]:
  "metrics (set_resource r p) = metrics p"
  "span_queue (set_resource r p) = span_queue p"
  "abort_export (set_resource r p) = abort_export p"
  by (simp_all add: set_resource_def)

lemma on_end_settle_frame [simp]:
  "span_queue (on_end_settle cfg d r p) = span_queue p"
  "abort_export (on_end_settle cfg d r p) = abort_export p"
  by (simp_all add: on_end_settle_def on_end_sent_def on_end_full_def on_end_disconnected_def Let_def
      split: send_result.splits)

lemma on_end_settle_metrics:
  "metrics (on_end_settle cfg d r p) =
     (case r of
        Sent \<Rightarrow> update_high_watermark (min d (of_nat (max_queue_size cfg)))
                 ((metrics p)\<lparr>queued := queued (metrics p) + 1\<rparr>)
      | Full \<Rightarrow> (metrics p)\<lparr>queue_depth := queue_depth (metrics p) - 1,
                 dropped_queue_full := dropped_queue_full (metrics p) + 1, queue_full_log_emitted := True\<rparr>
      | Disconnected \<Rightarrow> (metrics p)\<lparr>queue_depth := queue_depth (metrics p) - 1,
                 dropped_shutdown := dropped_shutdown (metrics p) + 1\<rparr>)"
  by (simp add: on_end_settle_def on_end_sent_def on_end_full_def on_end_disconnected_def Let_def
      split: send_result.splits)

lemma request_step_bounds: "request_step cfg s t \<Longrightarrow> bounds_inv cfg s \<Longrightarrow> bounds_inv cfg t"
  by (induction rule: request_step.induct)
    (auto simp: bounds_inv_def on_start_def on_end_enter_def on_end_reserve_def span_try_send_def
      on_end_settle_metrics update_high_watermark_def shutdown_abort_def shutdown_count_def Let_def
      min.coboundedI2 split: if_splits send_result.splits)

lemma request_step_depth: "request_step cfg s t \<Longrightarrow> depth_inv s \<Longrightarrow> depth_inv t"
  by (induction rule: request_step.induct)
    (auto simp: depth_inv_def on_start_def on_end_enter_def on_end_reserve_def span_try_send_def
      on_end_settle_metrics update_high_watermark_def shutdown_abort_def shutdown_count_def Let_def
      split: if_splits send_result.splits)

lemma request_step_ended:
  "request_step cfg s t \<Longrightarrow> \<not> abort_export (proc t) \<Longrightarrow> shutdown_phase s \<noteq> AbortSet \<Longrightarrow> ended_inv s \<Longrightarrow> ended_inv t"
  by (induction rule: request_step.induct)
    (auto simp: ended_inv_def on_start_def on_end_enter_def on_end_reserve_def span_try_send_def
      on_end_settle_metrics update_high_watermark_def shutdown_abort_def shutdown_count_def Let_def
      split: if_splits send_result.splits)

lemma request_step_queued: "request_step cfg s t \<Longrightarrow> queued_inv s \<Longrightarrow> queued_inv t"
  by (induction rule: request_step.induct)
    (auto simp: queued_inv_def on_start_def on_end_enter_def on_end_reserve_def span_try_send_def
      on_end_settle_metrics update_high_watermark_def shutdown_abort_def shutdown_count_def Let_def
      algebra_simps split: if_splits send_result.splits)

lemma request_step_phase:
  "request_step cfg s t \<Longrightarrow>
     (shutdown_phase s \<in> {NotCalled, Waiting} \<longrightarrow> \<not> abort_export (proc s)) \<and> (shutdown_phase s = AbortSet \<longrightarrow> abort_export (proc s)) \<Longrightarrow>
     (shutdown_phase t \<in> {NotCalled, Waiting} \<longrightarrow> \<not> abort_export (proc t)) \<and> (shutdown_phase t = AbortSet \<longrightarrow> abort_export (proc t))
     \<and> (\<not> abort_export (proc t) \<longrightarrow> \<not> abort_export (proc s))"
  by (induction rule: request_step.induct)
    (auto simp: on_start_def on_end_enter_def on_end_reserve_def span_try_send_def shutdown_abort_def
      shutdown_count_def Let_def split: if_splits)

lemma control_try_send_gone [simp]:
  "receivers_gone (snd (control_try_send msg p)) = receivers_gone p"
  "shutdown_started (snd (control_try_send msg p)) = shutdown_started p"
  "set (control_queue (snd (control_try_send msg p))) \<subseteq> insert msg (set (control_queue p))"
  by (auto simp: control_try_send_def)

lemma notify_export_gone [simp]:
  "receivers_gone (notify_export p) = receivers_gone p"
  "shutdown_started (notify_export p) = shutdown_started p"
  "set (control_queue (notify_export p)) \<subseteq> insert Export (set (control_queue p))"
  by (auto simp: notify_export_def control_try_send_def Let_def)

lemma on_end_settle_gone [simp]:
  "receivers_gone (on_end_settle cfg d r p) = receivers_gone p"
  "shutdown_started (on_end_settle cfg d r p) = shutdown_started p"
  "set (control_queue (on_end_settle cfg d r p)) \<subseteq> insert Export (set (control_queue p))"
  using notify_export_gone(3) [of "p\<lparr>metrics := m\<rparr>" for m]
  by (auto simp: on_end_settle_def on_end_sent_def on_end_full_def on_end_disconnected_def Let_def
      split: send_result.splits)

lemma request_step_frame:
  assumes "request_step cfg s t"
  shows "worker t = worker s" "turn t = turn s" "discarded t = discarded s"
    "receivers_gone (proc t) = receivers_gone (proc s)"
    "receivers_gone (proc s) \<Longrightarrow> span_queue (proc t) = span_queue (proc s)"
    "shutdown_phase t = NotCalled \<Longrightarrow> shutdown_phase s = NotCalled \<and> shutdown_started (proc t) = shutdown_started (proc s)
       \<and> (\<forall>c. Shutdown c \<in> set (control_queue (proc t)) \<longrightarrow> Shutdown c \<in> set (control_queue (proc s)))"
  using assms
  by (induction rule: request_step.induct)
    (auto simp: on_start_def on_end_enter_def on_end_reserve_def span_try_send_def set_resource_def
      shutdown_abort_def shutdown_count_def Let_def split: if_splits
      dest: subsetD [OF control_try_send_gone(3)] subsetD [OF on_end_settle_gone(3)])

lemma request_step_stop: "request_step cfg s t \<Longrightarrow> stop_inv cfg s \<Longrightarrow> stop_inv cfg t"
  unfolding stop_inv_def using request_step_frame [of cfg s t] by metis

lemma request_step_inv [inv_intros]: "request_step cfg s t \<Longrightarrow> system_inv cfg s \<Longrightarrow> system_inv cfg t"
  using request_step_stop [of cfg s t] request_step_bounds [of cfg s t] request_step_depth [of cfg s t] request_step_ended [of cfg s t]
    request_step_queued [of cfg s t] request_step_phase [of cfg s t]
  unfolding system_inv_def by blast

lemma tally_fields:
  assumes "tally m m' x d f"
  shows "exported m' = exported m + of_nat x"
    and "dropped_export_failure m' = dropped_export_failure m + of_nat d"
    and "queued m' = queued m" "sampled_ended m' = sampled_ended m"
    "dropped_queue_full m' = dropped_queue_full m" "dropped_shutdown m' = dropped_shutdown m"
    "queue_depth m' = queue_depth m" "queue_high_watermark m' = queue_high_watermark m"
  using assms by (simp_all add: tally_def request_view_def)

lemma begin_attempt_fields [simp]:
  "exported (begin_attempt a pending m) = exported m"
  "dropped_export_failure (begin_attempt a pending m) = dropped_export_failure m"
  "queued (begin_attempt a pending m) = queued m"
  "sampled_ended (begin_attempt a pending m) = sampled_ended m"
  "dropped_queue_full (begin_attempt a pending m) = dropped_queue_full m"
  "dropped_shutdown (begin_attempt a pending m) = dropped_shutdown m"
  "queue_depth (begin_attempt a pending m) = queue_depth m"
  "queue_high_watermark (begin_attempt a pending m) = queue_high_watermark m"
  "in_flight (begin_attempt a pending m) = of_nat (span_count pending)"
  by (simp_all add: begin_attempt_def Let_def)

lemma finish_turn_worker: "worker (finish_turn s) \<in> {Idle, Stopping}"
  by (simp add: finish_turn_def Let_def discard_remaining_def
      split: received.splits control_message.splits)

lemma finish_turn_frame:
  "producers (finish_turn s) = producers s" "shutdown_phase (finish_turn s) = shutdown_phase s"
  "discarded (finish_turn s) = discarded s"
  "abort_export (proc (finish_turn s)) = abort_export (proc s)"
  "\<not> abort_export (proc s) \<Longrightarrow> metrics (proc (finish_turn s)) = metrics (proc s)
     \<and> span_queue (proc (finish_turn s)) = span_queue (proc s)"
  "length (span_queue (proc (finish_turn s))) \<le> length (span_queue (proc s))"
  "queue_high_watermark (metrics (proc (finish_turn s))) = queue_high_watermark (metrics (proc s))"
  "in_flight (metrics (proc (finish_turn s))) = in_flight (metrics (proc s))"
  by (simp_all add: finish_turn_def Let_def discard_remaining_def
      split: received.splits control_message.splits)

lemma finish_turn_gone:
  "receivers_gone (proc (finish_turn s)) = receivers_gone (proc s)"
  "shutdown_started (proc (finish_turn s)) = shutdown_started (proc s)"
  "control_queue (proc (finish_turn s)) = control_queue (proc s)" "turn (finish_turn s) = turn s"
  "worker (finish_turn s) = Stopping \<Longrightarrow> \<exists>c. turn s = Message (Shutdown c)"
  by (simp_all add: finish_turn_def Let_def discard_remaining_def
      split: received.splits control_message.splits)

lemma finish_turn_stop: "worker s = Draining t n \<Longrightarrow> stop_inv cfg s \<Longrightarrow> stop_inv cfg (finish_turn s)"
  using finish_turn_worker [of s] finish_turn_gone(5) [of s]
  unfolding stop_inv_def finish_turn_gone(1-4) finish_turn_frame(2,3) by auto

lemma worker_step_stop:
  "worker_step err_text cfg s t \<Longrightarrow> bounds_inv cfg s \<Longrightarrow> stop_inv cfg s \<Longrightarrow> stop_inv cfg t"
proof (induction rule: worker_step.induct)
  case (ws_finish s t n)
  then show ?case by (auto intro: finish_turn_stop)
next
  case (ws_stop s)
  then show ?case by (auto simp: stop_inv_def stop_worker_def drop_receivers_def bounds_inv_def)
qed (auto simp: stop_inv_def)

text \<open>
  A worker step that moves counters by a tally and leaves the queue and the flags alone: the spans it
  no longer holds are exactly those it counted.
\<close>

lemma counted_step_inv:
  assumes "system_inv cfg s" and "tally (metrics (proc s)) m' x d f"
    and "stop_inv cfg (set_metrics s (m'\<lparr>in_flight := in_flight_of w\<rparr>)\<lparr>worker := w\<rparr>)"
    and "held (worker s) = x + d + held w" and "undecremented (worker s) = 0" and "undecremented w = 0"
    and "attempt_ok w"
  shows "system_inv cfg (set_metrics s (m'\<lparr>in_flight := in_flight_of w\<rparr>)\<lparr>worker := w\<rparr>)"
  using assms(1,3-7) unfolding system_inv_def inv_defs
  by (auto simp: tally_fields [OF assms(2)])

lemma finish_turn_inv:
  assumes "system_inv cfg s" and "worker s = Draining t n"
  shows "system_inv cfg (finish_turn s)"
proof -
  have "stop_inv cfg (finish_turn s)" using assms finish_turn_stop by (auto simp: system_inv_def)
  have w: "in_flight_of (worker (finish_turn s)) = 0" "attempt_ok (worker (finish_turn s))"
    "held (worker (finish_turn s)) = 0" "undecremented (worker (finish_turn s)) = 0"
    using finish_turn_worker [of s] by auto
  have "bounds_inv cfg (finish_turn s)"
    using assms w(2) finish_turn_frame(6) [of s] unfolding system_inv_def bounds_inv_def w(1) finish_turn_frame(7,8)
    by auto
  moreover have "depth_inv (finish_turn s) \<and> ended_inv (finish_turn s) \<and> queued_inv (finish_turn s)"
    if "\<not> abort_export (proc s)"
    using assms that finish_turn_frame(5) [OF that]
    unfolding system_inv_def depth_inv_def ended_inv_def queued_inv_def w(3,4) finish_turn_frame(1,3) by simp
  moreover note \<open>stop_inv cfg (finish_turn s)\<close>
  ultimately show ?thesis
    using assms(1) unfolding system_inv_def finish_turn_frame(2,4) by blast
qed

lemma worker_step_inv [inv_intros]:
  "worker_step err_text cfg s t \<Longrightarrow> system_inv cfg s \<Longrightarrow> system_inv cfg t"
proof -
  assume step: "worker_step err_text cfg s t" and inv: "system_inv cfg s"
  then have "stop_inv cfg t" using worker_step_stop [OF step] by (simp add: system_inv_def)
  with step inv show ?thesis
proof (induction rule: worker_step.induct)
  case (ws_finish s t n)
  then show ?case by (auto intro: finish_turn_inv)
next
  case (ws_round_done s t n a pending rs again fe m' fe')
  from account_results_tally [OF ws_round_done(3)] ws_round_done(2)
  obtain x d f where "tally (metrics (proc s)) m' x d f" "x + d = span_count pending" by auto
  with ws_round_done show ?case
    using counted_step_inv [of cfg s m' x d f "Draining t n"] by simp
next
  case (ws_retry s t n a pending rs again fe retries m' fe')
  from account_results_tally [OF ws_retry(3)] ws_retry(2) obtain x d f where
    "tally (metrics (proc s)) m' x d f" "x + d + span_count (map fst retries) = span_count pending" by auto
  moreover have "a \<noteq> 0" using ws_retry.prems ws_retry(1) by (simp add: system_inv_def bounds_inv_def)
  ultimately show ?case
    using ws_retry counted_step_inv [of cfg s m' x d f "Attempting t n a (map fst retries)"] by simp
next
  case (ws_late s t n a pending rs again fe retries m' fe' m2 fe2)
  from account_results_tally [OF ws_late(3)] ws_late(2) obtain x d f where
    t: "tally (metrics (proc s)) m' x d f" "x + d + span_count (map fst retries) = span_count pending" by auto
  from tally_trans [OF t(1) conjunct1 [OF fold_terminal_tally [OF ws_late(5)]]]
  have "tally (metrics (proc s)) m2 x (d + span_count (map fst retries)) (f + length retries)" by simp
  with ws_late t(2) show ?case
    using counted_step_inv [of cfg s m2 x "d + span_count (map fst retries)" "f + length retries" "Draining t n"]
    by simp
qed (auto simp: system_inv_def inv_defs stop_worker_def drop_receivers_def algebra_simps)
qed

interpretation batch_system: safe_system system_init "system_step err_text cfg" "system_inv cfg"
  for err_text cfg
proof
  fix s :: "('a, 'b) system"
  show "system_init s \<Longrightarrow> system_inv cfg s"
    by (auto simp: system_init_def system_inv_def stop_inv_def inv_defs processor_new_def batch_metrics_default_def)
next
  fix s t :: "('a, 'b) system"
  show "system_inv cfg s \<Longrightarrow> system_step err_text cfg s t \<Longrightarrow> system_inv cfg t"
    by (auto simp: system_step_def intro: inv_intros)
qed

section \<open>Concrete runs\<close>

lemma step_request:
  "request_step cfg s t \<Longrightarrow> \<exists>u. (system_step err_text cfg)\<^sup>*\<^sup>* t u \<and> P u \<Longrightarrow>
     \<exists>u. (system_step err_text cfg)\<^sup>*\<^sup>* s u \<and> P u"
  by (meson converse_rtranclp_into_rtranclp system_step_def)

lemma step_worker:
  "worker_step err_text cfg s t \<Longrightarrow> \<exists>u. (system_step err_text cfg)\<^sup>*\<^sup>* t u \<and> P u \<Longrightarrow>
     \<exists>u. (system_step err_text cfg)\<^sup>*\<^sup>* s u \<and> P u"
  by (meson converse_rtranclp_into_rtranclp system_step_def)

lemma step_stop: "P s \<Longrightarrow> \<exists>u. (system_step err_text cfg)\<^sup>*\<^sup>* s u \<and> P u"
  by blast

lemmas run_simps = processor_new_def batch_metrics_default_def on_end_enter_def on_end_reserve_def
  span_try_send_def on_end_settle_def on_end_sent_def update_high_watermark_def notify_export_def
  control_try_send_def control_capacity_def shutdown_abort_def shutdown_count_def finish_turn_def
  discard_remaining_def begin_attempt_def stop_worker_def drop_receivers_def Let_def

text \<open>A state for the witnesses: one call has sent its span and has not settled the counters yet.\<close>

definition one_sent :: "(nat, nat) system" where
  "one_sent =
     \<lparr>proc = processor_new\<lparr>span_queue := [7], metrics := batch_metrics_default\<lparr>sampled_ended := 1, queue_depth := 1\<rparr>\<rparr>,
      producers = [Tried 1 Sent], shutdown_phase = NotCalled, turn = RecvTimeout, worker = Idle, discarded = 0\<rparr>"

lemma one_sent_reachable:
  assumes "1 \<le> max_queue_size cfg"
  shows "reachable system_init (system_step err_text cfg) one_sent"
proof -
  let ?s0 = "\<lparr>proc = processor_new, producers = [], shutdown_phase = NotCalled, turn = RecvTimeout, worker = Idle,
    discarded = 0\<rparr> :: (nat, nat) system"
  let ?m = "batch_metrics_default\<lparr>sampled_ended := 1\<rparr>"
  let ?s1 = "?s0\<lparr>proc := processor_new\<lparr>metrics := ?m\<rparr>, producers := [Entered 7]\<rparr>"
  let ?s2 = "?s0\<lparr>proc := processor_new\<lparr>metrics := ?m\<lparr>queue_depth := 1\<rparr>\<rparr>, producers := [Reserved 1 7]\<rparr>"
  have "request_step cfg ?s0 ?s1"
    using rs_enter [of ?s0 "processor_new\<lparr>metrics := ?m\<rparr>" cfg 7] by (simp add: run_simps)
  moreover have "request_step cfg ?s1 ?s2"
    using rs_reserve [of ?s1 "[]" 7 "[]" 1 "processor_new\<lparr>metrics := ?m\<lparr>queue_depth := 1\<rparr>\<rparr>" cfg] by (simp add: run_simps)
  moreover have "request_step cfg ?s2 one_sent"
    using rs_send [of ?s2 "[]" 1 7 "[]" cfg Sent "proc one_sent"] assms by (simp add: one_sent_def run_simps)
  moreover have "reachable system_init (system_step err_text cfg) ?s0" by (rule reach_init) (simp add: system_init_def)
  ultimately show ?thesis by (meson reach_step system_step_def)
qed

section \<open>Properties\<close>

text \<open>
  C1. As long as no shutdown has expired, every ended span is accounted for, in any interleaving of any
  number of \<open>on_end\<close> calls, flushes, a shutdown and the worker: it is exported, dropped for a counted
  reason, in the queue, held by the worker, in a call that is still running, or it was in the channel when
  the worker, at the end of a shutdown, dropped its receiver. The last ones (\<open>discarded\<close>) are the only spans
  no counter of the code names: there are none before the worker has stopped, which needs a shutdown, and
  never more than one full queue. So while the worker runs and nothing is under way, the ended spans are
  exactly those exported or counted as dropped.
\<close>

theorem batch_no_span_lost:
  assumes "reachable system_init (system_step err_text cfg) s" and "\<not> abort_export (proc s)"
  shows "let m = metrics (proc s) in
    sampled_ended m + of_nat (tally_of sent_unsettled (producers s)) =
      exported m + dropped_export_failure m + dropped_queue_full m + dropped_shutdown m
      + of_nat (length (span_queue (proc s)) + held (worker s) + length (producers s) + discarded s)
    \<and> (worker s \<noteq> Stopped \<longrightarrow> discarded s = 0) \<and> discarded s \<le> max_queue_size cfg
    \<and> (shutdown_phase s = NotCalled \<longrightarrow> worker s \<noteq> Stopped)
    \<and> (worker s \<noteq> Stopped \<and> producers s = [] \<and> span_queue (proc s) = [] \<and> held (worker s) = 0 \<longrightarrow>
        sampled_ended m = exported m + dropped_queue_full m + dropped_export_failure m + dropped_shutdown m)"
proof -
  from batch_system.reachable_safe [OF assms(1)] assms(2) have "ended_inv s" "queued_inv s" "stop_inv cfg s"
    by (simp_all add: system_inv_def)
  then show ?thesis by (auto simp: ended_inv_def queued_inv_def stop_inv_def Let_def algebra_simps)
qed

theorem batch_no_span_lost_witness:
  "sampled_ended (metrics (proc one_sent)) + of_nat (tally_of sent_unsettled (producers one_sent)) =
     exported (metrics (proc one_sent)) + dropped_export_failure (metrics (proc one_sent))
     + dropped_queue_full (metrics (proc one_sent)) + dropped_shutdown (metrics (proc one_sent))
     + of_nat (length (span_queue (proc one_sent)) + held (worker one_sent) + length (producers one_sent)
         + discarded one_sent)
   \<and> span_queue (proc one_sent) = [7]"
proof -
  obtain c where c: "batch_config_from_env [] = Inr c" "max_queue_size c = 2048"
    by (simp add: batch_config_from_env_def retry_policy_from_env_def parse_usize_def parse_u64_def
        parse_u64_range_def env_var_def limit_defs)
  have go: "\<not> abort_export (proc one_sent)" and q: "span_queue (proc one_sent) = [7]"
    by (simp_all add: one_sent_def processor_new_def)
  have "reachable system_init (system_step (\<lambda>_. []) c) one_sent" by (rule one_sent_reachable) (simp add: c(2))
  from batch_no_span_lost [OF this go] q show ?thesis unfolding Let_def by blast
qed

text \<open>
  C4. The queue is bounded: in every reachable state it holds at most \<open>max_queue_size\<close> spans and the
  high watermark is at most that size. While no shutdown has expired, \<open>queue_depth\<close> is exactly the
  number of queued spans plus the calls that hold a reserved place plus a pop in progress plus, once the
  worker has stopped, the spans dropped with its receiver; so its unsigned counter never wraps below zero
  (for fewer than \<open>2 ^ 32\<close> calls at once).
\<close>

theorem batch_queue_bounded:
  assumes "wf_config cfg" and "reachable system_init (system_step err_text cfg) s"
  shows "length (span_queue (proc s)) \<le> max_queue_size cfg
    \<and> unat (queue_high_watermark (metrics (proc s))) \<le> max_queue_size cfg
    \<and> (worker s \<noteq> Stopped \<longrightarrow> discarded s = 0)
    \<and> (\<not> abort_export (proc s) \<and> length (producers s) < 2 ^ 32 \<longrightarrow>
        unat (queue_depth (metrics (proc s))) =
          length (span_queue (proc s)) + tally_of holds_place (producers s) + undecremented (worker s) + discarded s)"
proof -
  note inv = batch_system.reachable_safe [OF assms(2)]
  from assms(1) have small: "max_queue_size cfg \<le> 65536" by (simp add: wf_config_def)
  then have "unat (of_nat (max_queue_size cfg) :: usize) = max_queue_size cfg"
    by (intro unat_of_nat_usize) simp
  moreover have "queue_high_watermark (metrics (proc s)) \<le> of_nat (max_queue_size cfg)"
    and len: "length (span_queue (proc s)) \<le> max_queue_size cfg"
    and gone: "worker s \<noteq> Stopped \<longrightarrow> discarded s = 0" "discarded s \<le> max_queue_size cfg"
    using inv by (simp_all add: system_inv_def bounds_inv_def stop_inv_def)
  ultimately have "unat (queue_high_watermark (metrics (proc s))) \<le> max_queue_size cfg"
    by (metis word_le_nat_alt)
  moreover have "unat (queue_depth (metrics (proc s))) =
      length (span_queue (proc s)) + tally_of holds_place (producers s) + undecremented (worker s) + discarded s"
    if "\<not> abort_export (proc s)" "length (producers s) < 2 ^ 32"
  proof -
    let ?n = "length (span_queue (proc s)) + tally_of holds_place (producers s) + undecremented (worker s) + discarded s"
    have "undecremented (worker s) \<le> 1" by (cases "worker s") auto
    moreover have "tally_of holds_place (producers s) < 4294967296"
      using le_less_trans [OF length_filter_le that(2)] by simp
    ultimately have "?n < 2 ^ 64" using len small gone(2) by simp
    moreover have "queue_depth (metrics (proc s)) = of_nat ?n"
      using inv that(1) by (simp add: system_inv_def depth_inv_def)
    ultimately show ?thesis by (simp only: unat_of_nat_usize)
  qed
  ultimately show ?thesis using len gone(1) by blast
qed

theorem batch_queue_bounded_witness:
  "length (span_queue (proc one_sent)) \<le> 2048 \<and>
   unat (queue_depth (metrics (proc one_sent))) =
     length (span_queue (proc one_sent)) + tally_of holds_place (producers one_sent) + undecremented (worker one_sent)
     + discarded one_sent"
proof -
  obtain c where c: "batch_config_from_env [] = Inr c" "max_queue_size c = 2048"
    by (simp add: batch_config_from_env_def retry_policy_from_env_def parse_usize_def parse_u64_def
        parse_u64_range_def env_var_def limit_defs)
  have go: "\<not> abort_export (proc one_sent) \<and> length (producers one_sent) < 2 ^ 32"
    by (simp add: one_sent_def processor_new_def)
  have "reachable system_init (system_step (\<lambda>_. []) c) one_sent" by (rule one_sent_reachable) (simp add: c(2))
  from batch_queue_bounded [OF batch_config_from_env_wf [OF c(1)] this] go c(2) show ?thesis by simp
qed

text \<open>
  C9. A shutdown that expires while no call and no queue access of the worker is in progress, and whose
  abort flag and reading of the counters are not separated by a worker step, accounts for everything:
  afterwards the dropped and exported counters add up to the ended spans.
\<close>

theorem shutdown_timeout_accounting:
  assumes "reachable system_init (system_step err_text cfg) s" and "shutdown_phase s = Waiting"
    and "producers s = []" and "worker s = Idle \<or> (\<exists>t n a b. worker s = Exporting t n a b)"
  shows "let m = metrics (shutdown_count (shutdown_abort (proc s))) in
    sampled_ended m =
      exported m + dropped_export_failure m + dropped_queue_full m + dropped_shutdown m"
proof -
  note inv = batch_system.reachable_safe [OF assms(1)]
  with assms(2) have "depth_inv s" "ended_inv s" "queued_inv s" "bounds_inv cfg s"
    by (simp_all add: system_inv_def)
  with assms(3,4) show ?thesis
    by (auto simp: inv_defs shutdown_abort_def shutdown_count_def Let_def algebra_simps)
qed

theorem shutdown_timeout_accounting_witness:
  "sampled_ended (metrics (shutdown_count (shutdown_abort
     ((processor_new :: (nat, nat) processor)\<lparr>shutdown_started := True, flush_requested := True,
        control_queue := [Shutdown 0]\<rparr>)))) = 0"
proof -
  let ?s = "\<lparr>proc = processor_new, producers = [], shutdown_phase = NotCalled,
            turn = RecvTimeout, worker = Idle, discarded = 0\<rparr> :: (nat, nat) system"
  let ?p = "processor_new\<lparr>shutdown_started := True, flush_requested := True, control_queue := [Shutdown 0]\<rparr>"
  let ?t = "?s\<lparr>proc := ?p, shutdown_phase := Waiting\<rparr>"
  have "request_step cfg ?s ?t" for cfg
    using rs_shutdown [of ?s cfg 0] by (simp add: control_try_send_def processor_new_def control_capacity_def)
  then have "reachable system_init (system_step (\<lambda>_. []) cfg) ?t" for cfg
    by (intro reach_step [OF reach_init, of system_init ?s]) (simp_all add: system_init_def system_step_def)
  from shutdown_timeout_accounting [OF this] show ?thesis
    by (simp add: Let_def shutdown_abort_def shutdown_count_def processor_new_def batch_metrics_default_def)
qed

text \<open>
  The two halves of an expired shutdown are not atomic: the worker can see the abort flag and clear
  \<open>in_flight\<close> before the shutdown reads it. There is a run in which one span has ended, the worker has
  stopped and nothing is in progress, and yet the span is counted neither as exported nor as dropped.
\<close>

lemma shutdown_timeout_race:
  assumes "1 < max_export_batch_size cfg" and "1 \<le> max_queue_size cfg" and "1 \<le> max_concurrent_exports cfg"
  shows "\<exists>u. (system_step err_text cfg)\<^sup>*\<^sup>*
     \<lparr>proc = processor_new, producers = [], shutdown_phase = NotCalled, turn = RecvTimeout, worker = Idle, discarded = 0\<rparr> u
     \<and> worker u = Stopped \<and> producers u = [] \<and> span_queue (proc u) = [] \<and> shutdown_phase u = Finished
     \<and> sampled_ended (metrics (proc u)) = 1 \<and> exported (metrics (proc u)) = 0
     \<and> dropped_export_failure (metrics (proc u)) = 0 \<and> dropped_queue_full (metrics (proc u)) = 0
     \<and> dropped_shutdown (metrics (proc u)) = 0"
  supply [simp] = run_simps
  apply (rule step_request, rule rs_enter [where x = x], simp, simp)
  apply (rule step_request, rule rs_reserve [where a = "[]" and b = "[]"], simp, simp, simp)
  apply (rule step_request, rule rs_send [where a = "[]" and b = "[]"], simp, (use assms in simp), simp)
  apply (rule step_request, rule rs_settle [where a = "[]" and b = "[]"], simp, (use assms in simp))
  apply (rule step_worker, rule ws_tick, simp, simp, simp)
  apply (rule step_worker, rule ws_fill, simp, simp, simp, simp)
  apply (rule step_worker, rule ws_pop, simp, (use assms in simp), (use assms in simp), simp, simp)
  apply (rule step_worker, rule ws_decrement, simp, simp)
  apply (rule step_worker, rule ws_batch, simp, (use assms in simp), simp, simp, simp)
  apply (rule step_worker, rule ws_round, simp, simp, simp, simp)
  apply (rule step_worker, rule ws_attempt, simp, simp)
  apply (rule step_request, rule rs_shutdown [where c = 0], simp, simp)
  apply (rule step_request, rule rs_abort, simp, simp)
  apply (rule step_worker, rule ws_aborted, simp, simp, simp)
  apply (rule step_request, rule rs_count, simp, simp)
  apply (rule step_worker, rule ws_finish, simp, simp, simp)
  apply (rule step_worker, rule ws_recv, simp, simp, simp, simp)
  apply (rule step_worker, rule ws_finish, simp, simp, simp)
  apply (rule step_worker, rule ws_stop, simp, simp)
  apply (rule step_stop, simp)
  done

text \<open>
  An orderly shutdown can lose a span too: one whose call passed the test of the shutdown flag and is sent
  after the last export and before the worker drops its receiver. Nothing has expired, nothing is in
  progress, and the counters do not add up.
\<close>

lemma late_span_discarded:
  assumes "1 < max_export_batch_size cfg" and "1 \<le> max_queue_size cfg"
  shows "\<exists>u. (system_step err_text cfg)\<^sup>*\<^sup>*
     \<lparr>proc = processor_new, producers = [], shutdown_phase = NotCalled, turn = RecvTimeout, worker = Idle, discarded = 0\<rparr> u
     \<and> worker u = Stopped \<and> producers u = [] \<and> shutdown_phase u = Finished \<and> \<not> abort_export (proc u)
     \<and> sampled_ended (metrics (proc u)) = 1 \<and> exported (metrics (proc u)) = 0
     \<and> dropped_export_failure (metrics (proc u)) = 0 \<and> dropped_queue_full (metrics (proc u)) = 0
     \<and> dropped_shutdown (metrics (proc u)) = 0 \<and> discarded u = 1"
  supply [simp] = run_simps
  apply (rule step_request, rule rs_enter [where x = x], simp, simp)
  apply (rule step_request, rule rs_shutdown [where c = 0], simp, simp)
  apply (rule step_worker, rule ws_recv, simp, simp, simp, simp)
  apply (rule step_worker, rule ws_finish, simp, simp, simp)
  apply (rule step_request, rule rs_reserve [where a = "[]" and b = "[]"], simp, simp, simp)
  apply (rule step_request, rule rs_send [where a = "[]" and b = "[]"], simp, (use assms in simp), simp)
  apply (rule step_request, rule rs_settle [where a = "[]" and b = "[]"], simp, (use assms in simp))
  apply (rule step_worker, rule ws_stop, simp, simp)
  apply (rule step_request, rule rs_shutdown_done, simp, simp)
  apply (rule step_stop, simp)
  done

text \<open>
  Every branch of \<open>on_end\<close>: after a shutdown, or when the worker is gone, the span is counted as
  dropped by shutdown; with room it is appended to the queue and counted as queued; with a full queue
  it is counted as dropped. Only an accepted span changes the queue or \<open>queue_depth\<close>. A second
  shutdown is refused and changes nothing.
\<close>

lemma on_end_behaviour:
  "(let p' = on_end cfg x p; m = metrics p; m' = metrics p' in
     sampled_ended m' = sampled_ended m + 1
     \<and> (if shutdown_started p \<or> receivers_gone p then
          span_queue p' = span_queue p \<and> dropped_shutdown m' = dropped_shutdown m + 1
          \<and> queue_depth m' = queue_depth m \<and> queued m' = queued m
        else if length (span_queue p) < max_queue_size cfg then
          span_queue p' = span_queue p @ [x] \<and> queued m' = queued m + 1
          \<and> queue_depth m' = queue_depth m + 1 \<and> dropped_shutdown m' = dropped_shutdown m
        else
          span_queue p' = span_queue p \<and> dropped_queue_full m' = dropped_queue_full m + 1
          \<and> queue_depth m' = queue_depth m \<and> queued m' = queued m))
   \<and> shutdown_with_timeout cfg t c w out pan (p\<lparr>shutdown_started := True\<rparr>)
       = (Err AlreadyShutdown, p\<lparr>shutdown_started := True\<rparr>)"
  by (simp add: on_end_def on_end_enter_def on_end_reserve_def span_try_send_def on_end_settle_metrics
      update_high_watermark_def shutdown_with_timeout_def Let_def)

text \<open>
  C8. A flush delivers: when the worker handles \<open>ForceFlush\<close> with no abort signalled, the queue is
  empty afterwards, every queued span is counted as exported or as a failed export, the flush flag is
  cleared, and the waiting caller is answered, with Ok exactly when nothing failed and the exporter's
  own flush succeeded.
\<close>

theorem force_flush_delivers:
  assumes "wf_config cfg" and "\<forall>r. \<not> abort_seen (exports tw) r \<and> quiet (rounds (exports tw) r)"
    and "queue_depth (metrics p) = of_nat (length (span_queue p))" and "length (span_queue p) < 2 ^ 64"
    and "in_flight (metrics p) = 0"
  shows "\<exists>res p'. worker_turn err_text cfg tw (Message (ForceFlush c)) p = (Some (c, res), True, p')
    \<and> span_queue p' = [] \<and> queue_depth (metrics p') = 0 \<and> \<not> flush_requested p'
    \<and> exported (metrics p') + dropped_export_failure (metrics p') =
        exported (metrics p) + dropped_export_failure (metrics p) + of_nat (length (span_queue p))
    \<and> (res = Ok () \<longrightarrow> exporter_flush tw = Ok ()
         \<and> dropped_export_failure (metrics p') = dropped_export_failure (metrics p))"
proof -
  obtain res q' m' where ea:
    "export_available err_text cfg (exports tw) (span_queue p) (metrics p) = (res, q', m')"
    by (cases "export_available err_text cfg (exports tw) (span_queue p) (metrics p)")
  obtain x d and f :: nat where s: "q' = []" "queue_depth m' = 0" "x + d = length (span_queue p)"
    "exported m' = exported (metrics p) + of_nat x" "f = 0 \<longrightarrow> d = 0" "res = Ok () \<longleftrightarrow> f = 0"
    "dropped_export_failure m' = dropped_export_failure (metrics p) + of_nat d"
    using export_available_quiet [OF assms, of err_text] unfolding ea prod.case by blast
  have "exported m' + dropped_export_failure m' =
      exported (metrics p) + dropped_export_failure (metrics p) + of_nat (length (span_queue p))"
    unfolding s(4,7) s(3) [symmetric] by simp
  with s(1,2,5-7) show ?thesis
    by (cases res) (auto simp: worker_turn_def drain_def ea)
qed

theorem force_flush_delivers_witness:
  "\<exists>res p'. worker_turn (\<lambda>_. ''e'') (case batch_config_from_env [] of Inr c \<Rightarrow> c)
       \<lparr>exports = \<lparr>abort_seen = \<lambda>_. False, rounds = \<lambda>_. flaky_world 2\<rparr>, exporter_flush = Ok (),
        exporter_shutdown = Ok (), abort_at_end = False\<rparr> (Message (ForceFlush 4))
       ((processor_new :: (bool, unit) processor)\<lparr>span_queue := [True],
          metrics := batch_metrics_default\<lparr>queue_depth := 1\<rparr>\<rparr>)
     = (Some (4, res), True, p') \<and> span_queue p' = []"
proof -
  obtain c where c: "batch_config_from_env [] = Inr c"
    by (simp add: batch_config_from_env_def retry_policy_from_env_def parse_usize_def parse_u64_def
        parse_u64_range_def env_var_def limit_defs)
  show ?thesis
    using force_flush_delivers [OF batch_config_from_env_wf [OF c], where c = 4 and err_text = "\<lambda>_. ''e''"
        and tw = "\<lparr>exports = \<lparr>abort_seen = \<lambda>_. False, rounds = \<lambda>_. flaky_world 2\<rparr>, exporter_flush = Ok (),
        exporter_shutdown = Ok (), abort_at_end = False\<rparr>"
        and p = "(processor_new :: (bool, unit) processor)\<lparr>span_queue := [True],
          metrics := batch_metrics_default\<lparr>queue_depth := 1\<rparr>\<rparr>"]
    by (auto simp: c batch_metrics_default_def)
qed

end
