(* ===== verification/Trace_State.thy ===== *)
theory Trace_State
  imports Interfaces
begin

text \<open>
  The W3C tracestate list of \<open>trace/trace_state.rs\<close>: parsing, key and value validation, the
  immutable updates \<open>with\<close> and \<open>without\<close>, the header and the header cut to a limit.
  The state of a \<open>TraceState\<close> object is the list of its members.
\<close>

section \<open>Definitions\<close>

record trace_state =
  members :: "(string \<times> string) list"

definition trace_state_default :: trace_state where
  "trace_state_default = \<lparr>members = []\<rparr>"

definition has_member :: "(string \<times> string) list \<Rightarrow> string \<Rightarrow> bool" where
  "has_member ms key \<longleftrightarrow> list_ex (\<lambda>(existing, _). existing = key) ms"

definition key_byte_allowed :: "char \<Rightarrow> bool" where
  "key_byte_allowed b \<longleftrightarrow>
     is_ascii_lowercase b \<or> is_ascii_digit b \<or> b \<in> {CHR ''_'', CHR ''-'', CHR ''*'', CHR ''/''}"

text \<open>The branch of \<open>valid_key\<close> for a key with an at sign at index \<open>at\<close>: tenant and vendor part.\<close>

definition valid_tenant_key :: "string \<Rightarrow> char \<Rightarrow> nat \<Rightarrow> bool" where
  "valid_tenant_key key first at =
     (let vendor_start = at + 1 in
      case drop vendor_start key of
        [] \<Rightarrow> False
      | vendor_first # _ \<Rightarrow>
          if length (filter (\<lambda>b. b = CHR ''@'') key) \<noteq> 1
             \<or> at = 0
             \<or> at > 241
             \<or> length key - vendor_start = 0
             \<or> length key - vendor_start > 14
             \<or> \<not> (is_ascii_lowercase first \<or> is_ascii_digit first)
             \<or> \<not> is_ascii_lowercase vendor_first
          then False
          else list_all key_byte_allowed (take at key)
               \<and> list_all key_byte_allowed (drop vendor_start key))"

definition valid_key :: "string \<Rightarrow> bool" where
  "valid_key key =
     (case key of
        [] \<Rightarrow> False
      | first # _ \<Rightarrow>
          if length key > 256 then False
          else (case position (\<lambda>b. b = CHR ''@'') key of
            Some at \<Rightarrow> valid_tenant_key key first at
          | None \<Rightarrow> is_ascii_lowercase first \<and> list_all key_byte_allowed key))"

definition valid_value :: "string \<Rightarrow> bool" where
  "valid_value value \<longleftrightarrow>
     value \<noteq> [] \<and> length value \<le> 256
     \<and> list_all (\<lambda>b. 32 \<le> ord b \<and> ord b \<le> 126) value
     \<and> (33 \<le> ord (last value) \<and> ord (last value) \<le> 126)
     \<and> CHR '','' \<notin> set value \<and> CHR ''='' \<notin> set value"

definition validate_member :: "(string \<times> string) list \<Rightarrow> string \<Rightarrow> string \<Rightarrow> bool" where
  "validate_member ms key value =
     (let existing = has_member ms key in
      (existing \<or> valid_key key) \<and> valid_value value \<and> (length ms < 32 \<or> existing))"

text \<open>The loop of \<open>parse\<close> over the comma-separated pieces; one bad member voids the whole list.\<close>

fun parse_members :: "(string \<times> string) list \<Rightarrow> string list \<Rightarrow> (string \<times> string) list" where
  "parse_members ms [] = ms"
| "parse_members ms (raw # rest) =
     (let member = trim_matches (\<lambda>c. c = CHR '' '' \<or> c = CHR 0x09) raw in
      if member = [] then parse_members ms rest
      else case split_once (CHR ''='') member of
             None \<Rightarrow> []
           | Some (key, value) \<Rightarrow>
               if \<not> validate_member ms key value then []
               else if \<not> has_member ms key then parse_members (ms @ [(key, value)]) rest
               else parse_members ms rest)"

definition parse :: "string \<Rightarrow> trace_state" where
  "parse raw = \<lparr>members = parse_members [] (split_on (CHR '','') raw)\<rparr>"

definition entry_text :: "string \<times> string \<Rightarrow> string" where
  "entry_text kv = fst kv @ CHR ''='' # snd kv"

definition header :: "trace_state \<Rightarrow> string" where
  "header ts = join '','' (map entry_text (members ts))"

definition entry_len :: "string \<times> string \<Rightarrow> nat" where
  "entry_len kv = length (fst kv) + 1 + length (snd kv)"

definition header_len :: "(string \<times> string) list \<Rightarrow> nat" where
  "header_len ms = sum_list (map entry_len ms) + (length ms - 1)"

text \<open>
  One pass of \<open>limited_header\<close> from the last member to the first: members longer than the
  threshold are removed until the length fits. \<open>i\<close> is the loop's \<open>index\<close>, \<open>len\<close> its running
  \<open>length\<close>.
\<close>

fun drop_pass :: "nat \<Rightarrow> int \<Rightarrow> nat \<Rightarrow> (string \<times> string) list \<Rightarrow> nat \<Rightarrow> (string \<times> string) list \<times> nat" where
  "drop_pass threshold limit 0 ms len = (ms, len)"
| "drop_pass threshold limit (Suc i) ms len =
     (if length ms \<le> i then drop_pass threshold limit i ms len
      else
        let entry = entry_len (ms ! i) in
        if entry \<le> threshold then drop_pass threshold limit i ms len
        else
          let ms' = vec_remove i ms;
              len' = len - (entry + (if ms' \<noteq> [] then 1 else 0))
          in if usize_to_i64 len' \<le> limit then (ms', len')
             else drop_pass threshold limit i ms' len')"

definition limited_header :: "int option \<Rightarrow> trace_state \<Rightarrow> string" where
  "limited_header lim ts =
     (case lim of
        None \<Rightarrow> header ts
      | Some limit \<Rightarrow>
          let ms = members ts; len = header_len ms in
          if usize_to_i64 len > limit then
            let (ms1, len1) = drop_pass 128 limit (length ms) ms len in
            if usize_to_i64 len1 \<le> limit then header \<lparr>members = ms1\<rparr>
            else let (ms2, len2) = drop_pass 0 limit (length ms1) ms1 len1
                 in header \<lparr>members = ms2\<rparr>
          else header \<lparr>members = ms\<rparr>)"

text \<open>The methods of the PHP class; an update that is refused returns the same object.\<close>

definition remove_key :: "string \<Rightarrow> (string \<times> string) list \<Rightarrow> (string \<times> string) list" where
  "remove_key key ms = filter (\<lambda>(existing, _). existing \<noteq> key) ms"

definition construct :: "bytes option \<Rightarrow> trace_state" where
  "construct raw = parse (case raw of None \<Rightarrow> [] | Some b \<Rightarrow> (case to_str b of None \<Rightarrow> [] | Some s \<Rightarrow> s))"

definition with_member :: "string \<Rightarrow> string \<Rightarrow> trace_state \<Rightarrow> trace_state" where
  "with_member key value ts =
     (if \<not> validate_member (members ts) key value then ts
      else \<lparr>members = (key, value) # remove_key key (members ts)\<rparr>)"

definition without_member :: "string \<Rightarrow> trace_state \<Rightarrow> trace_state" where
  "without_member key ts =
     (if \<not> has_member (members ts) key then ts
      else \<lparr>members = remove_key key (members ts)\<rparr>)"

definition get_member :: "trace_state \<Rightarrow> string \<Rightarrow> string option" where
  "get_member ts key = map_option snd (List.find (\<lambda>(existing, _). existing = key) (members ts))"

definition list_member_count :: "trace_state \<Rightarrow> nat" where
  "list_member_count ts = length (members ts)"

text \<open>What PHP code can do with a list: the updates, applied to a constructed object.\<close>

datatype trace_state_op = With string string | Without string

fun apply_op :: "trace_state_op \<Rightarrow> trace_state \<Rightarrow> trace_state" where
  "apply_op (With k v) ts = with_member k v ts"
| "apply_op (Without k) ts = without_member k ts"

text \<open>Well-formed lists: what every constructor and every update produces.\<close>

definition wf_members :: "(string \<times> string) list \<Rightarrow> bool" where
  "wf_members ms \<longleftrightarrow>
     distinct (map fst ms) \<and> length ms \<le> 32
     \<and> list_all (\<lambda>(k, v). valid_key k \<and> valid_value v) ms"

definition wf_trace_state :: "trace_state \<Rightarrow> bool" where
  "wf_trace_state ts \<longleftrightarrow> wf_members (members ts)"

section \<open>Members and keys\<close>

lemma has_member_iff: "has_member ms k \<longleftrightarrow> k \<in> fst ` set ms"
  by (auto simp: has_member_def list_ex_iff image_iff split: prod.splits) force

lemma get_member_map_of: "get_member ts = map_of (members ts)"
proof
  fix k
  have "(\<lambda>(existing, _). existing = k) = (\<lambda>kv :: string \<times> string. fst kv = k)" by auto
  then show "get_member ts k = map_of (members ts) k"
    by (simp add: get_member_def find_key_map_of)
qed

lemma remove_key_filter: "remove_key k ms = filter (\<lambda>kv. fst kv \<noteq> k) ms"
  by (simp add: remove_key_def case_prod_beta')

lemma map_of_remove_key: "map_of (remove_key k ms) = (map_of ms)(k := None)"
  by (simp add: remove_key_filter map_of_filter_neq)

lemma key_byte_not_separator:
  "key_byte_allowed c \<Longrightarrow> c \<noteq> CHR '','' \<and> c \<noteq> CHR ''='' \<and> c \<noteq> CHR '' '' \<and> c \<noteq> CHR 0x09"
  by (auto simp: key_byte_allowed_def is_ascii_lowercase_def is_ascii_digit_def)

lemma valid_tenant_key_bytes:
  "valid_tenant_key k f i \<Longrightarrow>
     list_all key_byte_allowed (take i k) \<and> list_all key_byte_allowed (drop (Suc i) k)"
  by (auto simp: valid_tenant_key_def Let_def split: list.splits if_splits)

lemma valid_key_bytes: "valid_key k \<Longrightarrow> c \<in> set k \<Longrightarrow> key_byte_allowed c \<or> c = CHR ''@''"
proof (cases "position (\<lambda>b. b = CHR ''@'') k")
  case None
  assume "valid_key k" "c \<in> set k"
  with None show ?thesis by (auto simp: valid_key_def list_all_iff split: list.splits if_splits)
next
  case (Some i)
  assume k: "valid_key k" and c: "c \<in> set k"
  from position_Some_split [OF Some] have i: "i < length k" "k ! i = CHR ''@''" by auto
  then have "k = take i k @ CHR ''@'' # drop (Suc i) k" by (metis id_take_nth_drop)
  with c have "c \<in> set (take i k) \<or> c = CHR ''@'' \<or> c \<in> set (drop (Suc i) k)"
    by (metis Un_iff set_append set_ConsD)
  moreover obtain f where "valid_tenant_key k f i"
    using k Some by (auto simp: valid_key_def split: list.splits if_splits)
  ultimately show ?thesis using valid_tenant_key_bytes by (fastforce simp: list_all_iff)
qed

lemma valid_key_clean:
  assumes "valid_key k" and "c \<in> set k"
  shows "c \<noteq> CHR '','' \<and> c \<noteq> CHR ''='' \<and> c \<noteq> CHR '' '' \<and> c \<noteq> CHR 0x09"
  using valid_key_bytes [OF assms] key_byte_not_separator by auto

lemma valid_key_not_Nil: "valid_key k \<Longrightarrow> k \<noteq> []"
  by (auto simp: valid_key_def)

lemma valid_key_length: "valid_key k \<Longrightarrow> length k \<le> 256"
  by (auto simp: valid_key_def split: list.splits if_splits)

lemma valid_value_clean:
  "valid_value v \<Longrightarrow> c \<in> set v \<Longrightarrow> c \<noteq> CHR '','' \<and> c \<noteq> CHR ''='' \<and> c \<noteq> CHR 0x09"
  by (auto simp: valid_value_def list_all_iff)

lemma valid_value_last: "valid_value v \<Longrightarrow> v \<noteq> [] \<and> last v \<noteq> CHR '' '' \<and> last v \<noteq> CHR 0x09"
  by (auto simp: valid_value_def)

section \<open>Well-formedness\<close>

lemma wf_members_Nil [simp]: "wf_members []"
  by (simp add: wf_members_def)

lemma wf_members_snoc:
  "wf_members ms \<Longrightarrow> validate_member ms k v \<Longrightarrow> \<not> has_member ms k \<Longrightarrow> wf_members (ms @ [(k, v)])"
  by (auto simp: wf_members_def validate_member_def has_member_iff)

lemma wf_members_remove: "wf_members ms \<Longrightarrow> wf_members (remove_key k ms)"
  by (auto simp: wf_members_def remove_key_filter list_all_iff
      intro: distinct_fst_filter le_trans [OF length_filter_le])

lemma length_remove_key_less: "has_member ms k \<Longrightarrow> length (remove_key k ms) < length ms"
  by (auto simp: has_member_iff remove_key_filter intro!: length_filter_less)

lemma wf_members_key: "wf_members ms \<Longrightarrow> has_member ms k \<Longrightarrow> valid_key k"
  by (auto simp: wf_members_def has_member_iff list_all_iff)

lemma wf_parse_members: "wf_members ms \<Longrightarrow> wf_members (parse_members ms raws)"
  by (induction ms raws rule: parse_members.induct)
    (auto simp: Let_def wf_members_snoc split: option.splits)

lemma wf_parse [inv_intros]: "wf_trace_state (parse raw)"
  by (simp add: wf_trace_state_def parse_def wf_parse_members)

lemma wf_with_member [inv_intros]:
  assumes "wf_trace_state ts"
  shows "wf_trace_state (with_member k v ts)"
proof (cases "validate_member (members ts) k v")
  case True
  let ?ms = "members ts"
  from assms have wf: "wf_members ?ms" by (simp add: wf_trace_state_def)
  have key: "valid_key k" and val: "valid_value v" and len: "length ?ms < 32 \<or> has_member ?ms k"
    using True wf_members_key [OF wf] by (auto simp: validate_member_def Let_def)
  have "length (remove_key k ?ms) < 32"
    using len length_remove_key_less [of ?ms k] wf
    by (auto simp: wf_members_def remove_key_filter intro: le_less_trans [OF length_filter_le])
  moreover have "k \<notin> fst ` set (remove_key k ?ms)" by (auto simp: remove_key_filter)
  ultimately have "wf_members ((k, v) # remove_key k ?ms)"
    using key val wf_members_remove [OF wf, of k] by (auto simp: wf_members_def)
  with True show ?thesis by (simp add: with_member_def wf_trace_state_def)
qed (use assms in \<open>simp add: with_member_def\<close>)

lemma wf_without_member [inv_intros]:
  "wf_trace_state ts \<Longrightarrow> wf_trace_state (without_member k ts)"
  by (simp add: without_member_def wf_trace_state_def wf_members_remove)

section \<open>The list as a keyed store\<close>

lemma get_with_member:
  "validate_member (members ts) k v \<Longrightarrow>
     get_member (with_member k v ts) = (get_member ts)(k \<mapsto> v)"
  by (auto simp: get_member_map_of with_member_def map_of_remove_key)

lemma get_without_member: "get_member (without_member k ts) = (get_member ts)(k := None)"
proof (cases "has_member (members ts) k")
  case False
  then have "map_of (members ts) k = None" by (simp add: has_member_iff map_of_None_iff_key)
  with False show ?thesis
    by (simp add: without_member_def get_member_map_of fun_upd_idem)
qed (simp add: without_member_def get_member_map_of map_of_remove_key)

interpretation tracestate_store: keyed_store get_member with_member without_member
  wf_trace_state "\<lambda>ts. validate_member (members ts)"
  by unfold_locales (simp_all add: get_with_member get_without_member inv_intros)

section \<open>Parsing the header again\<close>

lemma entry_text_clean:
  assumes "valid_key k" and "valid_value v"
  shows "CHR '','' \<notin> set (entry_text (k, v))"
    and "split_once (CHR ''='') (entry_text (k, v)) = Some (k, v)"
    and "trim_matches (\<lambda>c. c = CHR '' '' \<or> c = CHR 0x09) (entry_text (k, v)) = entry_text (k, v)"
proof -
  show "CHR '','' \<notin> set (entry_text (k, v))"
    using valid_key_clean [OF assms(1)] valid_value_clean [OF assms(2)]
    by (auto simp: entry_text_def)
  show "split_once (CHR ''='') (entry_text (k, v)) = Some (k, v)"
    using valid_key_clean [OF assms(1)] by (auto simp: entry_text_def intro!: split_once_append)
  have "hd (entry_text (k, v)) \<in> set k"
    using valid_key_not_Nil [OF assms(1)] by (cases k) (auto simp: entry_text_def)
  moreover have "last (entry_text (k, v)) = last v"
    using valid_value_last [OF assms(2)] by (auto simp: entry_text_def)
  ultimately show "trim_matches (\<lambda>c. c = CHR '' '' \<or> c = CHR 0x09) (entry_text (k, v)) = entry_text (k, v)"
    using valid_key_clean [OF assms(1)] valid_value_last [OF assms(2)]
    by (intro trim_matches_id) auto
qed

lemma parse_members_entries:
  "wf_members (ms @ kvs) \<Longrightarrow> parse_members ms (map entry_text kvs) = ms @ kvs"
proof (induction kvs arbitrary: ms)
  case (Cons kv kvs)
  obtain k v where kv: "kv = (k, v)" by (cases kv)
  from Cons.prems kv have ok: "valid_key k" "valid_value v" "\<not> has_member ms k" "length ms < 32"
    by (auto simp: wf_members_def has_member_iff)
  moreover have "entry_text (k, v) \<noteq> []" by (simp add: entry_text_def)
  ultimately have "parse_members ms (map entry_text (kv # kvs)) = parse_members (ms @ [kv]) (map entry_text kvs)"
    using kv entry_text_clean [OF ok(1,2)] by (simp add: Let_def validate_member_def)
  also have "\<dots> = (ms @ [kv]) @ kvs" using Cons.prems by (intro Cons.IH) simp
  finally show ?case by simp
qed simp

lemma parse_header:
  assumes "wf_trace_state ts"
  shows "parse (header ts) = ts"
proof (cases "members ts")
  case Nil
  then show ?thesis by (cases ts) (simp add: parse_def header_def trim_matches_def)
next
  case (Cons kv kvs)
  from assms have wf: "wf_members (members ts)" by (simp add: wf_trace_state_def)
  then have "\<forall>w\<in>set (map entry_text (members ts)). CHR '','' \<notin> set w"
    by (auto simp: wf_members_def list_all_iff entry_text_clean)
  with Cons have "split_on (CHR '','') (header ts) = map entry_text (members ts)"
    unfolding header_def by (intro split_on_join) auto
  with wf show ?thesis using parse_members_entries [of "[]" "members ts"] by (simp add: parse_def)
qed

interpretation tracestate_codec: codec header parse wf_trace_state
  by unfold_locales (rule parse_header)

section \<open>Cutting the header to a limit\<close>

lemma length_entry_text [simp]: "length (entry_text kv) = entry_len kv"
  by (simp add: entry_text_def entry_len_def)

lemma length_header: "length (header ts) = header_len (members ts)"
  by (simp add: header_def header_len_def length_join comp_def)

lemma header_len_remove:
  assumes "i < length ms"
  shows "header_len ms - (entry_len (ms ! i) + (if vec_remove i ms \<noteq> [] then 1 else 0))
    = header_len (vec_remove i ms)"
  using assms sum_list_vec_remove [OF assms, of entry_len] length_vec_remove [OF assms]
  by (cases "vec_remove i ms") (auto simp: header_len_def)

lemma drop_pass_len:
  "len = header_len ms \<Longrightarrow> drop_pass t limit i ms len = (ms', len') \<Longrightarrow> len' = header_len ms'"
proof (induction i arbitrary: ms len)
  case (Suc i)
  show ?case
  proof (cases "length ms \<le> i \<or> entry_len (ms ! i) \<le> t")
    case True
    with Suc.prems(2) have "drop_pass t limit i ms len = (ms', len')"
      by (auto simp: Let_def split: if_splits)
    with Suc.prems(1) show ?thesis by (rule Suc.IH)
  next
    case False
    with Suc.prems header_len_remove [of i ms]
    have "(vec_remove i ms, header_len (vec_remove i ms)) = (ms', len')
      \<or> drop_pass t limit i (vec_remove i ms) (header_len (vec_remove i ms)) = (ms', len')"
      by (simp add: Let_def split: if_splits)
    with Suc.IH show ?thesis by blast
  qed
qed simp

lemma drop_pass_subseq: "drop_pass t limit i ms len = (ms', len') \<Longrightarrow> subseq ms' ms"
proof (induction i arbitrary: ms len)
  case (Suc i)
  show ?case
  proof (cases "length ms \<le> i \<or> entry_len (ms ! i) \<le> t")
    case True
    with Suc show ?thesis by (auto simp: Let_def split: if_splits)
  next
    case False
    with Suc.prems obtain l where
      "ms' = vec_remove i ms \<or> drop_pass t limit i (vec_remove i ms) l = (ms', len')"
      by (auto simp: Let_def split: if_splits)
    with Suc.IH subseq_vec_remove [of i ms] show ?thesis
      using subseq_order.trans by blast
  qed
qed simp

lemma drop_pass_zero:
  "length ms \<le> i \<Longrightarrow> drop_pass 0 limit i ms len = (ms', len') \<Longrightarrow>
     ms' = [] \<or> usize_to_i64 len' \<le> limit"
proof (induction i arbitrary: ms len)
  case (Suc i)
  show ?case
  proof (cases "length ms \<le> i")
    case True
    with Suc show ?thesis by auto
  next
    case False
    have pos: "\<not> entry_len (ms ! i) \<le> 0" by (simp add: entry_len_def)
    have "length (vec_remove i ms) \<le> i" using False Suc.prems(1) by (simp add: length_vec_remove)
    moreover obtain l where "usize_to_i64 len' \<le> limit
        \<or> drop_pass 0 limit i (vec_remove i ms) l = (ms', len')"
      using Suc.prems(2) False pos by (auto simp: Let_def split: if_splits)
    ultimately show ?thesis using Suc.IH by blast
  qed
qed simp

text \<open>A pass with a threshold never removes a member that is at most that long.\<close>

lemma drop_pass_keeps_short:
  "drop_pass t limit i ms len = (ms', len') \<Longrightarrow> kv \<in> set ms \<Longrightarrow> entry_len kv \<le> t \<Longrightarrow> kv \<in> set ms'"
proof (induction i arbitrary: ms len)
  case (Suc i)
  show ?case
  proof (cases "length ms \<le> i \<or> entry_len (ms ! i) \<le> t")
    case True
    with Suc show ?thesis by (auto simp: Let_def split: if_splits)
  next
    case False
    then have "i < length ms" by simp
    with vec_remove_split obtain a b where "ms = a @ ms ! i # b" "vec_remove i ms = a @ b" by blast
    with False Suc.prems(2,3) have kept: "kv \<in> set (vec_remove i ms)"
      by (metis Un_iff set_ConsD set_append)
    from Suc.prems(1) False obtain l where
      "ms' = vec_remove i ms \<or> drop_pass t limit i (vec_remove i ms) l = (ms', len')"
      by (auto simp: Let_def split: if_splits)
    with Suc.IH kept Suc.prems(3) show ?thesis by blast
  qed
qed simp

lemma wf_members_subseq:
  assumes "subseq ms' ms" and "wf_members ms"
  shows "wf_members ms'"
proof -
  have "distinct (map fst ms')" using assms
    by (meson distinct_subseq subseq_map wf_members_def)
  moreover have "length ms' \<le> length ms" by (rule list_emb_length [OF assms(1)])
  moreover have "set ms' \<subseteq> set ms" using assms(1) by (auto elim: list_emb_set)
  ultimately show ?thesis using assms(2) by (auto simp: wf_members_def list_all_iff)
qed

text \<open>The length of a well-formed list is far below the range of \<open>i64\<close>.\<close>

lemma wf_header_len:
  assumes "wf_members ms"
  shows "header_len ms \<le> 32 * 513 + 31"
proof -
  have "sum_list (map entry_len ms) \<le> sum_list (map (\<lambda>_. 513) ms)"
  proof (rule sum_list_mono)
    fix kv assume "kv \<in> set ms"
    with assms have "valid_key (fst kv)" "valid_value (snd kv)"
      by (auto simp: wf_members_def list_all_iff)
    then show "entry_len kv \<le> 513"
      using valid_key_length [of "fst kv"] by (auto simp: entry_len_def valid_value_def)
  qed
  moreover have "length ms \<le> 32" using assms by (simp add: wf_members_def)
  ultimately show ?thesis by (simp add: header_len_def sum_list_triv)
qed

lemma usize_to_i64_header_len: "wf_members ms \<Longrightarrow> usize_to_i64 (header_len ms) = int (header_len ms)"
  using wf_header_len [of ms] by (simp add: usize_to_i64_def i64_max_def)

lemma limited_header_members:
  "\<exists>ms'. limited_header (Some limit) ts = header \<lparr>members = ms'\<rparr> \<and> subseq ms' (members ts)
     \<and> (usize_to_i64 (header_len ms') \<le> limit \<or> ms' = [])"
proof -
  let ?ms = "members ts"
  obtain ms1 len1 where p1: "drop_pass 128 limit (length ?ms) ?ms (header_len ?ms) = (ms1, len1)"
    by (cases "drop_pass 128 limit (length ?ms) ?ms (header_len ?ms)")
  obtain ms2 len2 where p2: "drop_pass 0 limit (length ms1) ms1 len1 = (ms2, len2)"
    by (cases "drop_pass 0 limit (length ms1) ms1 len1")
  note l1 = drop_pass_len [OF refl p1] and s1 = drop_pass_subseq [OF p1]
  note l2 = drop_pass_len [OF l1 p2] and s2 = drop_pass_subseq [OF p2]
  note z = drop_pass_zero [OF order.refl p2]
  from s2 s1 have s21: "subseq ms2 ?ms" by (rule subseq_order.trans)
  consider "usize_to_i64 (header_len ?ms) \<le> limit"
    | "usize_to_i64 (header_len ?ms) > limit" "usize_to_i64 len1 \<le> limit"
    | "usize_to_i64 (header_len ?ms) > limit" "usize_to_i64 len1 > limit" by linarith
  then show ?thesis
  proof cases
    case 1
    then show ?thesis by (intro exI [of _ ?ms]) (simp add: limited_header_def)
  next
    case 2
    with p1 l1 s1 show ?thesis by (intro exI [of _ ms1]) (simp add: limited_header_def)
  next
    case 3
    with p1 p2 l2 s21 z show ?thesis by (intro exI [of _ ms2]) (auto simp: limited_header_def)
  qed
qed

lemma members_eta [simp]: "\<lparr>members = members ts\<rparr> = (ts :: trace_state)"
  by simp

section \<open>Properties\<close>

lemma wf_built: "wf_trace_state (fold apply_op ops (construct raw))"
proof -
  have "wf_trace_state ts \<Longrightarrow> wf_trace_state (fold apply_op ops ts)" for ts
  proof (induction ops arbitrary: ts)
    case (Cons opr ops)
    then show ?case by (cases opr) (simp_all add: inv_intros)
  qed simp
  then show ?thesis by (simp add: construct_def inv_intros)
qed

lemma wf_header_ascii:
  assumes "wf_trace_state ts"
  shows "valid_utf8 (header ts)"
proof (rule valid_utf8_ascii, rule ballI)
  fix c assume "c \<in> set (header ts)"
  moreover have "set (join sep ws) \<subseteq> set sep \<union> \<Union> (set ` set ws)" for ws and sep :: string
    by (induction sep ws rule: join.induct) auto
  ultimately have "c = CHR '','' \<or> (\<exists>kv\<in>set (members ts). c \<in> set (entry_text kv))"
    unfolding header_def by fastforce
  moreover have "ord c < 128" if "kv \<in> set (members ts)" "c \<in> set (entry_text kv)" for kv
  proof -
    from that assms have "valid_key (fst kv)" "valid_value (snd kv)"
      by (auto simp: wf_trace_state_def wf_members_def list_all_iff)
    with that(2) valid_key_bytes [of "fst kv" c] show ?thesis
      by (auto simp: entry_text_def valid_value_def list_all_iff key_byte_allowed_def
          is_ascii_lowercase_def is_ascii_digit_def)
  qed
  ultimately show "ord c < 128" by auto
qed

text \<open>
  C5. Whatever header a \<open>TraceState\<close> is built from and whatever \<open>with\<close> and \<open>without\<close> calls follow,
  the list keeps the W3C limits: distinct keys, at most 32 members, every key and value valid.
\<close>

theorem tracestate_always_wellformed:
  "wf_trace_state (fold apply_op ops (construct raw))"
  by (rule wf_built)

text \<open>
  C2. Round trip: parsing the header of any \<open>TraceState\<close> object PHP code can obtain gives the
  object back, member for member and in the same order.
\<close>

theorem tracestate_header_roundtrip:
  "construct (Some (header (fold apply_op ops (construct raw)))) = fold apply_op ops (construct raw)"
  using tracestate_codec.dec_enc [OF wf_built] wf_header_ascii [OF wf_built]
  by (simp add: construct_def to_str_def)

text \<open>
  \<open>toString(limit)\<close> with a limit of zero or more returns at most \<open>limit\<close> bytes, and what it
  returns is the header of a sub-list of the members, in order; a list that fits is not cut.
\<close>

lemma tracestate_limited_header_fits:
  assumes "0 \<le> limit"
  shows "let ts = fold apply_op ops (construct raw) in
    int (length (limited_header (Some limit) ts)) \<le> limit
    \<and> (\<exists>ms. subseq ms (members ts) \<and> limited_header (Some limit) ts = header \<lparr>members = ms\<rparr>)
    \<and> (int (length (header ts)) \<le> limit \<longrightarrow> limited_header (Some limit) ts = header ts)"
proof -
  let ?ts = "fold apply_op ops (construct raw)"
  have wf: "wf_members (members ?ts)" using wf_built by (simp add: wf_trace_state_def)
  obtain ms where ms: "limited_header (Some limit) ?ts = header \<lparr>members = ms\<rparr>"
      "subseq ms (members ?ts)" "usize_to_i64 (header_len ms) \<le> limit \<or> ms = []"
    using limited_header_members by blast
  have "int (length (header \<lparr>members = ms\<rparr>)) \<le> limit"
    using ms(3) assms usize_to_i64_header_len [OF wf_members_subseq [OF ms(2) wf]]
    by (auto simp: length_header header_len_def)
  moreover have "int (length (header ?ts)) \<le> limit \<longrightarrow> limited_header (Some limit) ?ts = header ?ts"
    using usize_to_i64_header_len [OF wf] by (simp add: limited_header_def length_header)
  ultimately show ?thesis using ms(1,2) by (auto simp: Let_def)
qed

text \<open>
  \<open>with\<close> is a keyed update: an accepted pair becomes the first member and the value of its
  key, no other key changes; a refused pair leaves the list as it was, and \<open>without\<close> removes its
  key only.
\<close>

lemma tracestate_update_semantics:
  "get_member (with_member k v ts) l =
     (if validate_member (members ts) k v \<and> l = k then Some v else get_member ts l)
   \<and> get_member (without_member k ts) l = (if l = k then None else get_member ts l)
   \<and> (validate_member (members ts) k v \<longrightarrow> hd (members (with_member k v ts)) = (k, v))"
  using get_with_member [of ts k v] get_without_member [of k ts]
  by (auto simp: with_member_def)

end
