(* ===== verification/Php_Values.thy ===== *)
theory Php_Values
  imports Interfaces
begin

text \<open>
  PHP values as the extension sees them: \<open>ZVal\<close>, the ordered hash tables of PHP arrays and their
  keys. A string key that is the canonical decimal form of a 64-bit integer is stored as an index
  (\<open>zend_symtable\<close>); \<open>key_bytes\<close> is the text of a key. Floating-point numbers are opaque (type
  variable \<open>'f\<close>), and so are objects, which are given by a handle.
\<close>

section \<open>Values and keys\<close>

datatype zkey = KIndex int | KStr bytes

datatype (plugins del: size) 'f zval =
  ZNull
| ZBool bool
| ZLong int
| ZDouble 'f
| ZStr bytes
| ZArr "(zkey \<times> 'f zval) list"
| ZObj nat

text \<open>The canonical decimal strings: no sign but minus, no leading zero, in the range of \<open>i64\<close>.\<close>

definition canonical_digits :: "bytes \<Rightarrow> bool" where
  "canonical_digits s \<longleftrightarrow> s \<noteq> [] \<and> list_all is_ascii_digit s \<and> hd s \<noteq> CHR ''0''"

definition symtable_key :: "bytes \<Rightarrow> zkey" where
  "symtable_key s =
     (let neg = (s \<noteq> [] \<and> hd s = CHR ''-''); ds = (if neg then tl s else s) in
      if s = ''0'' then KIndex 0
      else if canonical_digits ds then
        (case digits_value 0 ds of
           None \<Rightarrow> KStr s
         | Some v \<Rightarrow>
             if neg then (if v \<le> 2 ^ 63 then KIndex (- int v) else KStr s)
             else (if v < 2 ^ 63 then KIndex (int v) else KStr s))
      else KStr s)"

text \<open>\<open>index.to_string()\<close> for an index, the bytes of the string otherwise.\<close>

fun key_bytes :: "zkey \<Rightarrow> bytes" where
  "key_bytes (KIndex i) = show_int i"
| "key_bytes (KStr s) = s"

text \<open>Insertion under a key: in place when the key is present, at the end otherwise.\<close>

definition zarr_insert :: "zkey \<Rightarrow> 'v \<Rightarrow> (zkey \<times> 'v) list \<Rightarrow> (zkey \<times> 'v) list" where
  "zarr_insert k v a = AList.update k v a"

text \<open>A qualified class name, by its parts.\<close>

definition class_path :: "string list \<Rightarrow> string" where
  "class_path parts = join [CHR 0x5C] parts"

text \<open>
  Errors a method raises: a string that is not UTF-8, an argument of the wrong type
  (\<open>expect_z_str\<close> and its kin), a missing argument, or an error with a text of the extension.
\<close>

datatype php_error = Utf8Error | TypeMismatch | ArgumentCount | BoxedError string

definition expect_str :: "'f zval \<Rightarrow> (php_error, bytes) result" where
  "expect_str v = (case v of ZStr b \<Rightarrow> Ok b | _ \<Rightarrow> Err TypeMismatch)"

definition expect_utf8 :: "'f zval \<Rightarrow> (php_error, string) result" where
  "expect_utf8 v =
     result_bind (expect_str v) (\<lambda>b. case to_str b of Some t \<Rightarrow> Ok t | None \<Rightarrow> Err Utf8Error)"

text \<open>Positional access to the arguments of a handler, and the other expectations on a value.\<close>

definition arg_at :: "'f zval list \<Rightarrow> nat \<Rightarrow> (php_error, 'f zval) result" where
  "arg_at args i = (if i < length args then Ok (args ! i) else Err ArgumentCount)"

definition expect_arr :: "'f zval \<Rightarrow> (php_error, (zkey \<times> 'f zval) list) result" where
  "expect_arr v = (case v of ZArr a \<Rightarrow> Ok a | _ \<Rightarrow> Err TypeMismatch)"

definition expect_obj :: "'f zval \<Rightarrow> (php_error, nat) result" where
  "expect_obj v = (case v of ZObj h \<Rightarrow> Ok h | _ \<Rightarrow> Err TypeMismatch)"

definition expect_long :: "'f zval \<Rightarrow> (php_error, int) result" where
  "expect_long v = (case v of ZLong i \<Rightarrow> Ok i | _ \<Rightarrow> Err TypeMismatch)"

definition is_obj :: "'f zval \<Rightarrow> bool" where
  "is_obj v \<longleftrightarrow> (case v of ZObj _ \<Rightarrow> True | _ \<Rightarrow> False)"

definition as_long :: "'f zval \<Rightarrow> int option" where
  "as_long v = (case v of ZLong i \<Rightarrow> Some i | _ \<Rightarrow> None)"

definition as_bool :: "'f zval \<Rightarrow> bool option" where
  "as_bool v = (case v of ZBool b \<Rightarrow> Some b | _ \<Rightarrow> None)"

text \<open>An optional argument that is an object, as in \<open>get(i).filter(as_z_obj)\<close>.\<close>

definition object_arg :: "'f zval list \<Rightarrow> nat \<Rightarrow> 'f zval option" where
  "object_arg args i = (if i < length args \<and> is_obj (args ! i) then Some (args ! i) else None)"

text \<open>
  \<open>zval_iterable_to_array\<close>: arrays as they are, anything else through PHP's \<open>iterator_to_array\<close>
  (\<open>iter\<close>).
\<close>

definition zval_iterable_to_array ::
  "('f zval \<Rightarrow> (php_error, 'f zval) result) \<Rightarrow> 'f zval \<Rightarrow> (php_error, 'f zval) result" where
  "zval_iterable_to_array iter v = (case v of ZArr _ \<Rightarrow> Ok v | _ \<Rightarrow> iter v)"

text \<open>
  An object kept in a static property of its class and made on first use. \<open>create\<close> makes it in the
  world of PHP objects; the slot holds null before.
\<close>

definition static_instance ::
  "('w \<Rightarrow> (php_error, 'f zval) result \<times> 'w) \<Rightarrow> 'f zval \<Rightarrow> 'w \<Rightarrow> (php_error, 'f zval) result \<times> 'f zval \<times> 'w" where
  "static_instance create slot w =
     (if is_obj slot then (Ok slot, slot, w)
      else case create w of
          (Inr v, w') \<Rightarrow> (Ok v, v, w')
        | (Inl e, w') \<Rightarrow> (Err e, slot, w'))"

lemma static_instance_stable:
  "static_instance create slot w = (Ok v, slot', w') \<Longrightarrow> is_obj v \<Longrightarrow>
     static_instance create' slot' w'' = (Ok v, slot', w'')"
  by (auto simp: static_instance_def split: if_splits prod.splits sum.splits)

lemma expect_simps [simp]:
  "expect_arr (ZArr a) = Ok a" "expect_obj (ZObj h) = Ok h" "expect_long (ZLong i) = Ok i"
  "expect_str (ZStr b) = Ok b" "is_obj (ZObj h)" "as_long (ZLong i) = Some i" "as_bool (ZBool x) = Some x"
  by (simp_all add: expect_arr_def expect_obj_def expect_long_def expect_str_def is_obj_def as_long_def as_bool_def)

section \<open>The text of a key is preserved\<close>

lemma digits_value_Some: "list_all is_ascii_digit s \<Longrightarrow> \<exists>v. digits_value acc s = Some v"
  by (induction s arbitrary: acc) auto

lemma digits_value_snoc:
  "is_ascii_digit c \<Longrightarrow> digits_value acc (s @ [c]) = map_option (\<lambda>v. 10 * v + (ord c - 48)) (digits_value acc s)"
  by (cases "digits_value acc s") (simp_all add: digits_value_append)

lemma ord_digit_char: "is_ascii_digit c \<Longrightarrow> char_of (48 + (ord c - 48)) = c"
  by (simp add: is_ascii_digit_def)

lemma char_48: "char_of (48 :: nat) = CHR ''0''"
  by code_simp

lemma show_nat_digits_value:
  assumes "canonical_digits s" and "digits_value 0 s = Some v"
  shows "show_nat v = s \<and> 0 < v"
  using assms
proof (induction s arbitrary: v rule: rev_induct)
  case (snoc c s)
  then have c: "is_ascii_digit c" by (simp add: canonical_digits_def)
  then have d: "48 \<le> ord c" "ord c \<le> 57" by (simp_all add: is_ascii_digit_def)
  show ?case
  proof (cases "s = []")
    case True
    with snoc.prems c have v: "v = ord c - 48" by (simp add: is_ascii_digit_def)
    have "c \<noteq> CHR ''0''" using snoc.prems(1) True by (simp add: canonical_digits_def)
    then have "ord c \<noteq> 48" using char_48 by (metis char_of_char)
    with v d show ?thesis using ord_digit_char [OF c] True by (subst show_nat.simps) simp
  next
    case False
    with snoc.prems(1) have cs: "canonical_digits s" by (simp add: canonical_digits_def)
    then obtain u where u: "digits_value 0 s = Some u"
      using digits_value_Some by (auto simp: canonical_digits_def)
    from snoc.IH [OF cs u] have IH: "show_nat u = s" "0 < u" by auto
    from snoc.prems(2) u c have v: "v = 10 * u + (ord c - 48)" by (simp add: digits_value_snoc)
    have r: "ord c - 48 < 10" using d by simp
    then have "v div 10 = u" "v mod 10 = ord c - 48" unfolding v by (simp_all add: div_mult_self4)
    moreover have "\<not> v < 10" using v IH(2) by simp
    ultimately show ?thesis using IH ord_digit_char [OF c] v by (subst show_nat.simps) simp
  qed
qed (simp add: canonical_digits_def)

lemma key_bytes_symtable [simp]: "key_bytes (symtable_key s) = s"
proof -
  have z: "show_nat 0 = ''0''" by (simp add: show_nat.simps char_48)
  show ?thesis
    using show_nat_digits_value [of "if s \<noteq> [] \<and> hd s = CHR ''-'' then tl s else s"]
    by (auto simp: symtable_key_def Let_def z show_int_def neq_Nil_conv split: option.splits if_splits)
qed

lemma symtable_key_inj: "symtable_key s = symtable_key t \<longleftrightarrow> s = t"
  by (metis key_bytes_symtable)

lemma symtable_key_name:
  "\<not> is_ascii_digit c \<Longrightarrow> c \<noteq> CHR ''-'' \<Longrightarrow> symtable_key (c # s) = KStr (c # s)"
  by (auto simp: symtable_key_def canonical_digits_def is_ascii_digit_def Let_def)

lemma map_of_zarr_insert [store_simps]: "map_of (zarr_insert k v a) = (map_of a)(k \<mapsto> v)"
  by (simp add: zarr_insert_def update_conv')

definition zarr_remove :: "zkey \<Rightarrow> (zkey \<times> 'v) list \<Rightarrow> (zkey \<times> 'v) list" where
  "zarr_remove k a = filter (\<lambda>kv. fst kv \<noteq> k) a"

lemma zarr_insert_new: "k \<notin> fst ` set a \<Longrightarrow> zarr_insert k v a = a @ [(k, v)]"
  unfolding zarr_insert_def by (induction a) auto

end
