(* ===== verification/Span_Context.thy ===== *)
theory Span_Context
  imports Trace_State Php_Values
begin

text \<open>
  The identity of a span (\<open>trace/span_context.rs\<close>): the check of hexadecimal ids, construction from PHP
  arguments, the getters, and the conversion between PHP objects and the \<open>SpanContext\<close> of the SDK.

  Ids, flags and states of the SDK are opaque; what the code asks of them is the record \<open>trace_sdk\<close>, and
  what it relies on is \<open>sdk_laws\<close>: \<open>from_hex\<close> reads the text that \<open>to_string\<close> prints, a context returns
  what it was made of, and it is valid when both ids are. Methods of user-defined objects are \<open>call\<close>.
\<close>

section \<open>The SDK's part\<close>

record ('t, 's, 'ts, 'sc) trace_sdk =
  trace_from_hex :: "string \<Rightarrow> 't option"
  trace_to_string :: "'t \<Rightarrow> string"
  TRACE_INVALID :: 't
  span_from_hex :: "string \<Rightarrow> 's option"
  span_to_string :: "'s \<Rightarrow> string"
  SPAN_INVALID :: 's
  state_from_str :: "string \<Rightarrow> 'ts option"
  state_default :: 'ts
  state_header :: "'ts \<Rightarrow> string"
  sc_new :: "'t \<Rightarrow> 's \<Rightarrow> u8 \<Rightarrow> bool \<Rightarrow> 'ts \<Rightarrow> 'sc"
  sc_empty :: 'sc
  sc_trace_id :: "'sc \<Rightarrow> 't"
  sc_span_id :: "'sc \<Rightarrow> 's"
  sc_flags :: "'sc \<Rightarrow> u8"
  sc_remote :: "'sc \<Rightarrow> bool"
  sc_state :: "'sc \<Rightarrow> 'ts"
  sc_valid :: "'sc \<Rightarrow> bool"
  sc_sampled :: "'sc \<Rightarrow> bool"

section \<open>Hexadecimal ids\<close>

definition is_hex_byte :: "char \<Rightarrow> bool" where
  "is_hex_byte c \<longleftrightarrow> is_ascii_digit c \<or> (97 \<le> ord c \<and> ord c \<le> 102)"

definition valid_hex_id :: "string \<Rightarrow> nat \<Rightarrow> bool" where
  "valid_hex_id v n \<longleftrightarrow> length v = n \<and> list_all is_hex_byte v \<and> list_ex (\<lambda>c. c \<noteq> CHR ''0'') v"

text \<open>\<open>decode_hex\<close> works on bytes: a digit that is none counts as zero, a last odd byte is left out.\<close>

definition hex_nibble :: "char \<Rightarrow> u8" where
  "hex_nibble c =
     (if is_ascii_digit c then of_char c - 48
      else if 97 \<le> ord c \<and> ord c \<le> 102 then of_char c - 97 + 10
      else 0)"

fun decode_hex :: "string \<Rightarrow> u8 list" where
  "decode_hex (high # low # s) = (push_bit 4 (hex_nibble high) OR hex_nibble low) # decode_hex s"
| "decode_hex _ = []"

section \<open>The state of a SpanContext object\<close>

record ('sc, 'f) span_context_state =
  sdk_context :: 'sc
  php_trace_state :: "'f zval option"
  php_trace_flags :: int

definition span_context_default :: "('t, 's, 'ts, 'sc, 'm) trace_sdk_scheme \<Rightarrow> ('sc, 'f) span_context_state" where
  "span_context_default sdk = \<lparr>sdk_context = sc_empty sdk, php_trace_state = None, php_trace_flags = 0\<rparr>"

definition otel_trace_state_from_header :: "('t, 's, 'ts, 'sc, 'm) trace_sdk_scheme \<Rightarrow> string \<Rightarrow> 'ts" where
  "otel_trace_state_from_header sdk hdr =
     (case state_from_str sdk hdr of Some ts \<Rightarrow> ts | None \<Rightarrow> state_default sdk)"

type_synonym 'f method_call = "nat \<Rightarrow> string \<Rightarrow> (php_error, 'f zval) result"

definition trace_state_from_value ::
  "('t, 's, 'ts, 'sc, 'm) trace_sdk_scheme \<Rightarrow> 'f method_call \<Rightarrow> 'f zval option \<Rightarrow>
     (php_error, 'ts \<times> 'f zval option) result" where
  "trace_state_from_value sdk call v =
     (case v of
        Some (ZObj h) \<Rightarrow>
          result_bind (call h ''toString'') (\<lambda>text.
          result_bind (expect_utf8 text) (\<lambda>hdr.
          Ok (otel_trace_state_from_header sdk hdr, Some (ZObj h))))
      | _ \<Rightarrow> Ok (state_default sdk, None))"

definition checked_ids ::
  "('t, 's, 'ts, 'sc, 'm) trace_sdk_scheme \<Rightarrow> string \<Rightarrow> string \<Rightarrow> 't \<times> 's" where
  "checked_ids sdk trace_id span_id =
     (let valid = valid_hex_id trace_id 32 \<and> valid_hex_id span_id 16 in
      (if valid then (case trace_from_hex sdk trace_id of Some t \<Rightarrow> t | None \<Rightarrow> TRACE_INVALID sdk)
         else TRACE_INVALID sdk,
       if valid then (case span_from_hex sdk span_id of Some s \<Rightarrow> s | None \<Rightarrow> SPAN_INVALID sdk)
         else SPAN_INVALID sdk))"

text \<open>\<open>create\<close> and \<open>createFromRemoteParent\<close>; \<open>flags as u8\<close> keeps the low eight bits.\<close>

definition create_context ::
  "('t, 's, 'ts, 'sc, 'm) trace_sdk_scheme \<Rightarrow> 'f method_call \<Rightarrow> 'f zval list \<Rightarrow> bool \<Rightarrow>
     (php_error, ('sc, 'f) span_context_state) result" where
  "create_context sdk call args remote =
     result_bind (result_bind (arg_at args 0) expect_utf8) (\<lambda>trace_id.
     result_bind (result_bind (arg_at args 1) expect_utf8) (\<lambda>span_id.
     let (t, s) = checked_ids sdk trace_id span_id;
         flags = (if 2 < length args then (case as_long (args ! 2) of Some i \<Rightarrow> i | None \<Rightarrow> 0) else 0) in
     result_bind (trace_state_from_value sdk call (if 3 < length args then Some (args ! 3) else None))
       (\<lambda>(ts, php_ts).
     Ok \<lparr>sdk_context = sc_new sdk t s (word_of_int flags) remote ts, php_trace_state = php_ts,
         php_trace_flags = flags\<rparr>)))"

text \<open>
  \<open>span_context_from_object\<close>: the state of a native object (\<open>native\<close>), the answers of the interface's
  methods for any other.
\<close>

definition span_context_from_object ::
  "('t, 's, 'ts, 'sc, 'm) trace_sdk_scheme \<Rightarrow> (nat \<Rightarrow> ('sc, 'f) span_context_state option) \<Rightarrow> 'f method_call \<Rightarrow>
     nat \<Rightarrow> (php_error, 'sc) result" where
  "span_context_from_object sdk native call h =
     (case native h of
        Some st \<Rightarrow> Ok (sdk_context st)
      | None \<Rightarrow>
          result_bind (result_bind (call h ''getTraceId'') expect_utf8) (\<lambda>trace_id.
          result_bind (result_bind (call h ''getSpanId'') expect_utf8) (\<lambda>span_id.
          result_bind (call h ''getTraceFlags'') (\<lambda>flags.
          result_bind (call h ''isRemote'') (\<lambda>remote.
          result_bind (call h ''getTraceState'') (\<lambda>state.
          result_bind (trace_state_from_value sdk call (Some state)) (\<lambda>(ts, _).
          let (t, s) = checked_ids sdk trace_id span_id in
          Ok (sc_new sdk t s (word_of_int (case as_long flags of Some i \<Rightarrow> i | None \<Rightarrow> 0))
                (case as_bool remote of Some b \<Rightarrow> b | None \<Rightarrow> False) ts))))))))"

text \<open>
  \<open>init_span_context_object\<close>. \<open>state_class\<close> makes a \<open>TraceState\<close> object; without it, or with an empty
  header, the object has none.
\<close>

definition init_span_context_object ::
  "('t, 's, 'ts, 'sc, 'm) trace_sdk_scheme \<Rightarrow> (trace_state \<Rightarrow> (php_error, 'f zval) result) option \<Rightarrow> 'sc \<Rightarrow>
     (php_error, ('sc, 'f) span_context_state) result" where
  "init_span_context_object sdk state_class c =
     result_bind
       (if state_header sdk (sc_state sdk c) = [] then Ok None
        else case state_class of
            Some mk \<Rightarrow> map_sum id Some (mk (parse (state_header sdk (sc_state sdk c))))
          | None \<Rightarrow> Ok None)
       (\<lambda>php_ts. Ok \<lparr>sdk_context = c, php_trace_state = php_ts, php_trace_flags = int (unat (sc_flags sdk c))\<rparr>)"

text \<open>\<open>getInvalid\<close>: one object, kept in a static property. \<open>alloc\<close> makes a \<open>SpanContext\<close> object.\<close>

definition get_invalid_context ::
  "('t, 's, 'ts, 'sc, 'm) trace_sdk_scheme \<Rightarrow>
   (('sc, 'f) span_context_state \<Rightarrow> 'w \<Rightarrow> (php_error, 'f zval) result \<times> 'w) \<Rightarrow> 'f zval \<Rightarrow> 'w \<Rightarrow>
     (php_error, 'f zval) result \<times> 'f zval \<times> 'w" where
  "get_invalid_context sdk alloc slot w = static_instance (alloc (span_context_default sdk)) slot w"

section \<open>The getters\<close>

definition get_trace_id :: "('t, 's, 'ts, 'sc, 'm) trace_sdk_scheme \<Rightarrow> ('sc, 'f) span_context_state \<Rightarrow> string" where
  "get_trace_id sdk st = trace_to_string sdk (sc_trace_id sdk (sdk_context st))"

definition get_trace_id_binary :: "('t, 's, 'ts, 'sc, 'm) trace_sdk_scheme \<Rightarrow> ('sc, 'f) span_context_state \<Rightarrow> u8 list" where
  "get_trace_id_binary sdk st = decode_hex (trace_to_string sdk (sc_trace_id sdk (sdk_context st)))"

definition get_span_id :: "('t, 's, 'ts, 'sc, 'm) trace_sdk_scheme \<Rightarrow> ('sc, 'f) span_context_state \<Rightarrow> string" where
  "get_span_id sdk st = span_to_string sdk (sc_span_id sdk (sdk_context st))"

definition get_span_id_binary :: "('t, 's, 'ts, 'sc, 'm) trace_sdk_scheme \<Rightarrow> ('sc, 'f) span_context_state \<Rightarrow> u8 list" where
  "get_span_id_binary sdk st = decode_hex (span_to_string sdk (sc_span_id sdk (sdk_context st)))"

definition get_trace_flags :: "('sc, 'f) span_context_state \<Rightarrow> int" where
  "get_trace_flags st = php_trace_flags st"

definition get_trace_state :: "('sc, 'f) span_context_state \<Rightarrow> 'f zval option" where
  "get_trace_state st = php_trace_state st"

definition context_is_valid :: "('t, 's, 'ts, 'sc, 'm) trace_sdk_scheme \<Rightarrow> ('sc, 'f) span_context_state \<Rightarrow> bool" where
  "context_is_valid sdk st = sc_valid sdk (sdk_context st)"

definition context_is_remote :: "('t, 's, 'ts, 'sc, 'm) trace_sdk_scheme \<Rightarrow> ('sc, 'f) span_context_state \<Rightarrow> bool" where
  "context_is_remote sdk st = sc_remote sdk (sdk_context st)"

definition context_is_sampled :: "('t, 's, 'ts, 'sc, 'm) trace_sdk_scheme \<Rightarrow> ('sc, 'f) span_context_state \<Rightarrow> bool" where
  "context_is_sampled sdk st = sc_sampled sdk (sdk_context st)"

section \<open>What the code relies on\<close>

definition sdk_laws :: "('t, 's, 'ts, 'sc, 'm) trace_sdk_scheme \<Rightarrow> bool" where
  "sdk_laws sdk \<longleftrightarrow>
     (\<forall>x. valid_hex_id x 32 \<longrightarrow>
        (\<exists>t. trace_from_hex sdk x = Some t \<and> trace_to_string sdk t = x \<and> t \<noteq> TRACE_INVALID sdk))
   \<and> (\<forall>x. valid_hex_id x 16 \<longrightarrow>
        (\<exists>s. span_from_hex sdk x = Some s \<and> span_to_string sdk s = x \<and> s \<noteq> SPAN_INVALID sdk))
   \<and> trace_to_string sdk (TRACE_INVALID sdk) = replicate 32 (CHR ''0'')
   \<and> span_to_string sdk (SPAN_INVALID sdk) = replicate 16 (CHR ''0'')
   \<and> (\<forall>t s f r ts.
        sc_trace_id sdk (sc_new sdk t s f r ts) = t \<and> sc_span_id sdk (sc_new sdk t s f r ts) = s
      \<and> sc_flags sdk (sc_new sdk t s f r ts) = f \<and> sc_remote sdk (sc_new sdk t s f r ts) = r
      \<and> sc_state sdk (sc_new sdk t s f r ts) = ts)
   \<and> (\<forall>c. sc_valid sdk c \<longleftrightarrow> sc_trace_id sdk c \<noteq> TRACE_INVALID sdk \<and> sc_span_id sdk c \<noteq> SPAN_INVALID sdk)
   \<and> (\<forall>c. sc_sampled sdk c \<longleftrightarrow> bit (sc_flags sdk c) 0)"

section \<open>Hexadecimal text\<close>

text \<open>The text of a sequence of bytes, two lower-case digits each.\<close>

definition nibble_char :: "nat \<Rightarrow> char" where
  "nibble_char n = (if n < 10 then char_of (48 + n) else char_of (87 + n))"

definition hex_text :: "u8 list \<Rightarrow> string" where
  "hex_text bs = concat (map (\<lambda>b. [nibble_char (unat b div 16), nibble_char (unat b mod 16)]) bs)"

lemma ord_nibble_char: "n < 16 \<Longrightarrow> ord (nibble_char n) = (if n < 10 then 48 + n else 87 + n)"
  by (simp add: nibble_char_def)

lemma is_hex_nibble_char: "n < 16 \<Longrightarrow> is_hex_byte (nibble_char n)"
  by (auto simp: is_hex_byte_def is_ascii_digit_def ord_nibble_char)

lemma hex_nibble_of_nat:
  "is_hex_byte c \<Longrightarrow> hex_nibble c = of_nat (if is_ascii_digit c then ord c - 48 else ord c - 87)"
  by (auto simp: is_hex_byte_def hex_nibble_def is_ascii_digit_def of_nat_diff of_nat_of_char)

lemma hex_nibble_char: "n < 16 \<Longrightarrow> hex_nibble (nibble_char n) = of_nat n"
  using hex_nibble_of_nat [OF is_hex_nibble_char, of n] by (auto simp: ord_nibble_char is_ascii_digit_def)

lemma nibble_char_hex:
  assumes "is_hex_byte c"
  shows "nibble_char (unat (hex_nibble c)) = c \<and> unat (hex_nibble c) < 16"
proof -
  let ?n = "if is_ascii_digit c then ord c - 48 else ord c - 87"
  have n: "?n < 16" using assms by (auto simp: is_hex_byte_def is_ascii_digit_def)
  then have "unat (hex_nibble c) = ?n"
    unfolding hex_nibble_of_nat [OF assms] by (simp add: unat_of_nat take_bit_nat_eq_self)
  moreover have "nibble_char ?n = c"
    using assms by (auto simp: nibble_char_def is_hex_byte_def is_ascii_digit_def)
  ultimately show ?thesis using n by simp
qed

lemma join_nibbles:
  assumes "a < 16" and "b < 16"
  shows "push_bit 4 (of_nat a :: u8) OR of_nat b = of_nat (16 * a + b)"
proof -
  have "\<not> bit (of_nat b :: u8) n" if "4 \<le> n" for n
  proof -
    have "b < 2 ^ n" using assms(2) power_increasing [OF that, of "2 :: nat"] by simp
    then have "\<not> bit b n" by (simp add: bit_iff_odd)
    then show ?thesis by (simp add: bit_simps)
  qed
  then have "\<not> bit (push_bit 4 (of_nat a :: u8)) n \<or> \<not> bit (of_nat b :: u8) n" for n
    by (cases "4 \<le> n") (auto simp: bit_push_bit_iff)
  then have "push_bit 4 (of_nat a :: u8) OR of_nat b = push_bit 4 (of_nat a) + of_nat b"
    using disjunctive_add [of "push_bit 4 (of_nat a :: u8)" "of_nat b"] by simp
  then show ?thesis by (simp add: push_bit_eq_mult mult.commute)
qed

lemma split_byte: "unat (b :: u8) div 16 < 16" "unat b mod 16 < 16" "16 * (unat b div 16) + unat b mod 16 = unat b"
  using unsigned_less [where 'a = nat, of b] by (auto simp: less_mult_imp_div_less)

lemma decode_hex_text [simp]: "decode_hex (hex_text bs) = bs"
  by (induction bs) (simp_all add: hex_text_def hex_nibble_char join_nibbles split_byte)

interpretation hex_codec: codec hex_text decode_hex "\<lambda>_. True"
  by unfold_locales simp

lemma hex_text_decode: "even (length s) \<Longrightarrow> list_all is_hex_byte s \<Longrightarrow> hex_text (decode_hex s) = s"
proof (induction s rule: decode_hex.induct)
  case (1 high low s)
  from 1 have h: "is_hex_byte high" "is_hex_byte low" by simp_all
  let ?h = "unat (hex_nibble high)" and ?l = "unat (hex_nibble low)"
  have "push_bit 4 (hex_nibble high) OR hex_nibble low = of_nat (16 * ?h + ?l)"
    using join_nibbles [of ?h ?l] nibble_char_hex [OF h(1)] nibble_char_hex [OF h(2)] by simp
  moreover have "unat (of_nat (16 * ?h + ?l) :: u8) = 16 * ?h + ?l"
    using nibble_char_hex [OF h(1)] nibble_char_hex [OF h(2)]
    unfolding unat_of_nat by (intro mod_less) simp
  ultimately have b: "unat (push_bit 4 (hex_nibble high) OR hex_nibble low) = 16 * ?h + ?l" by simp
  have "(16 * ?h + ?l) div 16 = ?h" "(16 * ?h + ?l) mod 16 = ?l"
    using nibble_char_hex [OF h(2)] by auto
  with b 1 nibble_char_hex [OF h(1)] nibble_char_hex [OF h(2)] show ?case by (simp add: hex_text_def)
qed (auto simp: hex_text_def)

lemma valid_hex_text: "valid_hex_id s n \<Longrightarrow> even n \<Longrightarrow> hex_text (decode_hex s) = s"
  by (auto simp: valid_hex_id_def hex_text_decode)

lemma length_hex_text: "length (hex_text bs) = 2 * length bs"
  by (induction bs) (simp_all add: hex_text_def)

lemma valid_hex_id_utf8: "valid_hex_id s n \<Longrightarrow> valid_utf8 s"
  by (rule valid_utf8_ascii)
    (auto simp: valid_hex_id_def list_all_iff is_hex_byte_def is_ascii_digit_def)

lemma zeros_not_valid: "\<not> valid_hex_id (replicate m (CHR ''0'')) n"
  by (auto simp: valid_hex_id_def list_ex_iff)

text \<open>
  An instance of the SDK's part: an id is the list of its bytes, a context the tuple of its parts, and
  a state its header.
\<close>

definition byte_id :: "nat \<Rightarrow> string \<Rightarrow> u8 list option" where
  "byte_id n x = (if length x = 2 * n \<and> list_all is_hex_byte x then Some (decode_hex x) else None)"

definition byte_sdk ::
  "(u8 list, u8 list, string, u8 list \<times> u8 list \<times> u8 \<times> bool \<times> string) trace_sdk" where
  "byte_sdk =
     \<lparr>trace_from_hex = byte_id 16, trace_to_string = hex_text, TRACE_INVALID = replicate 16 0,
      span_from_hex = byte_id 8, span_to_string = hex_text, SPAN_INVALID = replicate 8 0,
      state_from_str = Some, state_default = [], state_header = (\<lambda>x. x),
      sc_new = (\<lambda>t s f r ts. (t, s, f, r, ts)),
      sc_empty = (replicate 16 0, replicate 8 0, 0, False, []),
      sc_trace_id = fst, sc_span_id = (\<lambda>c. fst (snd c)), sc_flags = (\<lambda>c. fst (snd (snd c))),
      sc_remote = (\<lambda>c. fst (snd (snd (snd c)))), sc_state = (\<lambda>c. snd (snd (snd (snd c)))),
      sc_valid = (\<lambda>c. fst c \<noteq> replicate 16 0 \<and> fst (snd c) \<noteq> replicate 8 0),
      sc_sampled = (\<lambda>c. bit (fst (snd (snd c))) 0)\<rparr>"

lemma hex_text_zeros: "hex_text (replicate n 0) = replicate (2 * n) (CHR ''0'')"
  by (induction n) (simp_all add: hex_text_def nibble_char_def char_48)

lemma byte_id_valid:
  assumes "valid_hex_id x (2 * n)"
  shows "\<exists>b. byte_id n x = Some b \<and> hex_text b = x \<and> b \<noteq> replicate n 0"
proof -
  have h: "hex_text (decode_hex x) = x" using assms by (rule valid_hex_text) simp
  then have "decode_hex x \<noteq> replicate n 0" using assms zeros_not_valid hex_text_zeros by metis
  with h assms show ?thesis by (simp add: byte_id_def valid_hex_id_def)
qed

lemma byte_sdk_laws: "sdk_laws byte_sdk"
  using byte_id_valid [of _ 16] byte_id_valid [of _ 8] hex_text_zeros [of 16] hex_text_zeros [of 8]
  by (simp add: sdk_laws_def byte_sdk_def)

section \<open>Construction and copying\<close>

lemma checked_ids_valid:
  assumes "sdk_laws sdk" and "valid_hex_id tid 32" and "valid_hex_id sid 16"
  obtains t s where "checked_ids sdk tid sid = (t, s)" and "trace_to_string sdk t = tid"
    and "span_to_string sdk s = sid" and "t \<noteq> TRACE_INVALID sdk" and "s \<noteq> SPAN_INVALID sdk"
proof -
  from assms obtain t s where "trace_from_hex sdk tid = Some t" "trace_to_string sdk t = tid" "t \<noteq> TRACE_INVALID sdk"
    "span_from_hex sdk sid = Some s" "span_to_string sdk s = sid" "s \<noteq> SPAN_INVALID sdk"
    unfolding sdk_laws_def by blast
  with assms(2,3) show thesis by (intro that [of t s]) (simp_all add: checked_ids_def)
qed

lemma checked_ids_invalid:
  "\<not> (valid_hex_id tid 32 \<and> valid_hex_id sid 16) \<Longrightarrow> checked_ids sdk tid sid = (TRACE_INVALID sdk, SPAN_INVALID sdk)"
  by (auto simp: checked_ids_def)

lemma checked_ids_again:
  assumes laws: "sdk_laws sdk" and "checked_ids sdk tid sid = (t, s)"
  shows "checked_ids sdk (trace_to_string sdk t) (span_to_string sdk s) = (t, s)"
proof (cases "valid_hex_id tid 32 \<and> valid_hex_id sid 16")
  case True
  then obtain t' s' where "checked_ids sdk tid sid = (t', s')" "trace_to_string sdk t' = tid"
    "span_to_string sdk s' = sid" using checked_ids_valid [OF laws] by metis
  with assms(2) show ?thesis by simp
next
  case False
  with assms(2) have "t = TRACE_INVALID sdk" "s = SPAN_INVALID sdk" by (simp_all add: checked_ids_invalid)
  with laws show ?thesis by (simp add: sdk_laws_def checked_ids_invalid zeros_not_valid)
qed

lemma sdk_new_simps:
  assumes "sdk_laws sdk"
  shows "sc_trace_id sdk (sc_new sdk t s f r ts) = t" "sc_span_id sdk (sc_new sdk t s f r ts) = s"
    "sc_flags sdk (sc_new sdk t s f r ts) = f" "sc_remote sdk (sc_new sdk t s f r ts) = r"
    "sc_valid sdk (sc_new sdk t s f r ts) \<longleftrightarrow> t \<noteq> TRACE_INVALID sdk \<and> s \<noteq> SPAN_INVALID sdk"
    "sc_sampled sdk (sc_new sdk t s f r ts) \<longleftrightarrow> bit f 0"
  using assms by (simp_all add: sdk_laws_def)

lemma bit_word_of_int_0: "bit (word_of_int i :: u8) 0 \<longleftrightarrow> odd i"
  unfolding bit_word_of_int_iff by (simp add: bit_0)

lemma create_context_Ok:
  assumes "create_context sdk call args remote = Ok st"
  obtains tid sid t s ts php_ts where "checked_ids sdk tid sid = (t, s)"
    and "st = \<lparr>sdk_context = sc_new sdk t s (word_of_int (php_trace_flags st)) remote ts,
              php_trace_state = php_ts, php_trace_flags = php_trace_flags st\<rparr>"
    and "trace_state_from_value sdk call (if 3 < length args then Some (args ! 3) else None) = Ok (ts, php_ts)"
proof -
  from assms obtain tid sid where ids: "result_bind (arg_at args 0) expect_utf8 = Ok tid"
    "result_bind (arg_at args 1) expect_utf8 = Ok sid"
    by (auto simp: create_context_def result_bind_Inr_conv)
  obtain t s where ts: "checked_ids sdk tid sid = (t, s)" by fastforce
  from assms obtain st' php_ts where
    "trace_state_from_value sdk call (if 3 < length args then Some (args ! 3) else None) = Ok (st', php_ts)"
    "st = \<lparr>sdk_context = sc_new sdk t s (word_of_int (php_trace_flags st)) remote st',
              php_trace_state = php_ts, php_trace_flags = php_trace_flags st\<rparr>"
    unfolding create_context_def ids result_bind_simps ts Let_def prod.case by (auto simp: result_bind_Inr_conv)
  with ts show thesis by (intro that)
qed

text \<open>A user-defined object that answers the getters as a native one does.\<close>

definition answers_as ::
  "('t, 's, 'ts, 'sc, 'm) trace_sdk_scheme \<Rightarrow> 'f method_call \<Rightarrow> nat \<Rightarrow> ('sc, 'f) span_context_state \<Rightarrow> bool" where
  "answers_as sdk call h st \<longleftrightarrow>
     call h ''getTraceId'' = Ok (ZStr (get_trace_id sdk st)) \<and> call h ''getSpanId'' = Ok (ZStr (get_span_id sdk st))
   \<and> call h ''getTraceFlags'' = Ok (ZLong (get_trace_flags st)) \<and> call h ''isRemote'' = Ok (ZBool (context_is_remote sdk st))
   \<and> call h ''getTraceState'' = Ok (case get_trace_state st of Some v \<Rightarrow> v | None \<Rightarrow> ZNull)"

lemma checked_ids_utf8:
  assumes laws: "sdk_laws sdk" and "checked_ids sdk tid sid = (t, s)"
  shows "valid_utf8 (trace_to_string sdk t) \<and> valid_utf8 (span_to_string sdk s)"
proof (cases "valid_hex_id tid 32 \<and> valid_hex_id sid 16")
  case True
  then obtain t' s' where "checked_ids sdk tid sid = (t', s')" "trace_to_string sdk t' = tid"
    "span_to_string sdk s' = sid" using checked_ids_valid [OF laws] by metis
  with True assms(2) show ?thesis by (auto intro: valid_hex_id_utf8)
next
  case False
  with assms have "trace_to_string sdk t = replicate 32 (CHR ''0'')" "span_to_string sdk s = replicate 16 (CHR ''0'')"
    by (simp_all add: checked_ids_invalid sdk_laws_def)
  then show ?thesis by (auto intro!: valid_utf8_ascii)
qed

lemma trace_state_again:
  "trace_state_from_value sdk call v = Ok (ts, php_ts) \<Longrightarrow>
     trace_state_from_value sdk call (Some (case php_ts of Some x \<Rightarrow> x | None \<Rightarrow> ZNull)) = Ok (ts, php_ts)"
  by (auto simp: trace_state_from_value_def result_bind_Inr_conv split: option.splits zval.splits)

text \<open>
  The context made from two valid ids shows exactly these ids, in text and in binary, and is valid;
  from any other pair it is the invalid context with ids of zeros. Flags come back unchanged, the
  sampling decision is their lowest bit, and the context is remote when it was made so.
\<close>

lemma span_context_create:
  assumes laws: "sdk_laws sdk" and "valid_utf8 tid" and "valid_utf8 sid"
  shows "\<exists>st. create_context sdk call [ZStr tid, ZStr sid, ZLong flags] remote = Ok st
    \<and> get_trace_flags st = flags \<and> context_is_sampled sdk st = odd flags \<and> context_is_remote sdk st = remote
    \<and> (if valid_hex_id tid 32 \<and> valid_hex_id sid 16
       then context_is_valid sdk st \<and> get_trace_id sdk st = tid \<and> get_span_id sdk st = sid
         \<and> hex_text (get_trace_id_binary sdk st) = tid \<and> hex_text (get_span_id_binary sdk st) = sid
       else \<not> context_is_valid sdk st \<and> get_trace_id sdk st = replicate 32 (CHR ''0'')
         \<and> get_span_id sdk st = replicate 16 (CHR ''0''))"
proof -
  obtain t s where ts: "checked_ids sdk tid sid = (t, s)" by fastforce
  let ?st = "\<lparr>sdk_context = sc_new sdk t s (word_of_int flags) remote (state_default sdk),
    php_trace_state = None, php_trace_flags = flags\<rparr>"
  note defs = get_trace_flags_def context_is_sampled_def context_is_remote_def context_is_valid_def get_trace_id_def
    get_span_id_def get_trace_id_binary_def get_span_id_binary_def sdk_new_simps [OF laws] bit_word_of_int_0
  have "create_context sdk call [ZStr tid, ZStr sid, ZLong flags] remote = Ok ?st"
    using assms(2,3) ts
    by (simp add: create_context_def arg_at_def expect_utf8_def to_str_def trace_state_from_value_def)
  moreover have "get_trace_flags ?st = flags \<and> context_is_sampled sdk ?st = odd flags \<and> context_is_remote sdk ?st = remote"
    by (simp add: defs)
  moreover have "context_is_valid sdk ?st \<and> get_trace_id sdk ?st = tid \<and> get_span_id sdk ?st = sid
      \<and> hex_text (get_trace_id_binary sdk ?st) = tid \<and> hex_text (get_span_id_binary sdk ?st) = sid"
    if v: "valid_hex_id tid 32" "valid_hex_id sid 16"
  proof -
    obtain t' s' where "checked_ids sdk tid sid = (t', s')" "trace_to_string sdk t' = tid"
      "span_to_string sdk s' = sid" "t' \<noteq> TRACE_INVALID sdk" "s' \<noteq> SPAN_INVALID sdk"
      by (rule checked_ids_valid [OF laws v])
    with ts v show ?thesis by (simp add: defs valid_hex_text)
  qed
  moreover have "\<not> context_is_valid sdk ?st \<and> get_trace_id sdk ?st = replicate 32 (CHR ''0'')
      \<and> get_span_id sdk ?st = replicate 16 (CHR ''0'')"
    if "\<not> (valid_hex_id tid 32 \<and> valid_hex_id sid 16)"
    using ts laws checked_ids_invalid [OF that, of sdk] by (simp add: defs sdk_laws_def)
  ultimately show ?thesis
    by (intro exI [of _ ?st] conjI) (simp_all only: split: if_split, blast+)
qed

text \<open>
  Nothing is lost when a span context goes through the PHP interface: an object of another class
  that answers the getters as the native one does is read as the same context of the SDK.
\<close>

lemma span_context_copy:
  assumes laws: "sdk_laws sdk" and created: "create_context sdk call args remote = Ok st"
    and "native h = None" and answers: "answers_as sdk call h st"
  shows "span_context_from_object sdk native call h = Ok (sdk_context st)"
proof -
  from created obtain tid sid t s ts php_ts where ids: "checked_ids sdk tid sid = (t, s)"
    and st: "st = \<lparr>sdk_context = sc_new sdk t s (word_of_int (php_trace_flags st)) remote ts,
              php_trace_state = php_ts, php_trace_flags = php_trace_flags st\<rparr>"
    and state: "trace_state_from_value sdk call (if 3 < length args then Some (args ! 3) else None) = Ok (ts, php_ts)"
    by (rule create_context_Ok)
  have "get_trace_id sdk st = trace_to_string sdk t" "get_span_id sdk st = span_to_string sdk s"
    "context_is_remote sdk st = remote" "get_trace_state st = php_ts" "get_trace_flags st = php_trace_flags st"
    by (subst st, simp add: get_trace_id_def get_span_id_def context_is_remote_def get_trace_state_def
      get_trace_flags_def sdk_new_simps [OF laws])+
  note calls = answers [unfolded answers_as_def this]
  have "span_context_from_object sdk native call h
      = Ok (sc_new sdk t s (word_of_int (php_trace_flags st)) remote ts)"
    using assms(3) calls checked_ids_utf8 [OF laws ids]
    by (simp add: span_context_from_object_def expect_utf8_def to_str_def trace_state_again [OF state]
        checked_ids_again [OF laws ids])
  then show ?thesis by (subst st) simp
qed

end
