(* ===== verification/Context_Storage.thy ===== *)
theory Context_Storage
  imports Php_Values
begin

text \<open>
  Context propagation inside a request (\<open>context/storage.rs\<close>, \<open>scope.rs\<close>, \<open>native_context.rs\<close>,
  \<open>context_class.rs\<close> and the local root span of \<open>trace/local_root_span.rs\<close>): immutable contexts with
  PHP values, the store of context instances, the stack of attached contexts of the main execution
  and of each forked one, and scopes that detach them.

  The OpenTelemetry \<open>Context\<close> of the SDK is opaque (type variable \<open>'c\<close>); what the code asks of it is
  the record \<open>otel_api\<close>. Stacks have their top at the head. A \<open>ContextGuard\<close> is the context it
  attached; dropping the top guard makes the one below it current again. The thread-local cells
  together are the record \<open>ctx_storage\<close>; its field \<open>attached\<close> is the SDK's own stack of the thread, the
  contexts attached by PHP scopes and by the hooks of auto-instrumentation in the order they were attached:
  the owner of an entry is \<open>None\<close> for a guard of \<open>GUARD_STACK\<close> and the call for one in \<open>CONTEXT_GUARD_MAP\<close>.
\<close>

section \<open>Contexts with PHP values\<close>

record ('c, 'sc) otel_api =
  ctx_new :: "'c"
  ctx_span_context :: "'c \<Rightarrow> 'sc"
  span_context_valid :: "'sc \<Rightarrow> bool"
  ctx_recording :: "'c \<Rightarrow> bool"

record ('c, 'f) native_context =
  otel_context :: "'c"
  context_values :: "nat \<Rightarrow> ('f zval \<times> 'f zval) option"

definition native_new :: "'c \<Rightarrow> ('c, 'f) native_context" where
  "native_new c = \<lparr>otel_context = c, context_values = (\<lambda>_. None)\<rparr>"

definition native_default :: "('c, 'sc) otel_api \<Rightarrow> ('c, 'f) native_context" where
  "native_default api = native_new (ctx_new api)"

definition with_context :: "'c \<Rightarrow> ('c, 'f) native_context \<Rightarrow> ('c, 'f) native_context" where
  "with_context c n = n\<lparr>otel_context := c\<rparr>"

text \<open>\<open>with_value\<close>: a null value removes the key. The key object is kept beside the value.\<close>

definition with_value ::
  "nat \<Rightarrow> 'f zval \<Rightarrow> 'f zval \<Rightarrow> ('c, 'f) native_context \<Rightarrow> ('c, 'f) native_context" where
  "with_value handle key_value v n =
     (if v = ZNull then n\<lparr>context_values := (context_values n)(handle := None)\<rparr>
      else n\<lparr>context_values := (context_values n)(handle \<mapsto> (key_value, v))\<rparr>)"

definition context_value :: "('c, 'f) native_context \<Rightarrow> nat \<Rightarrow> 'f zval option" where
  "context_value n handle = map_option snd (context_values n handle)"

section \<open>The thread-local store\<close>

type_synonym ('c, 'f) context_stack = "(nat \<times> ('c, 'f) native_context) list"

record ('c, 'f) ctx_storage =
  contexts :: "nat \<Rightarrow> ('c, 'f) native_context option"
  detached_spans :: "nat \<Rightarrow> ('c, 'f) native_context option"
  guard_stack :: "(nat \<times> 'c) list"
  attached :: "(nat option \<times> 'c) list"
  main_stack :: "('c, 'f) context_stack"
  fork_stacks :: "string \<Rightarrow> ('c, 'f) context_stack option"
  current_execution :: "string option"
  instance_counter :: nat
  local_root_span_id :: "nat option"

definition storage_init :: "nat \<Rightarrow> ('c, 'f) ctx_storage" where
  "storage_init n =
     \<lparr>contexts = (\<lambda>_. None), detached_spans = (\<lambda>_. None), guard_stack = [], attached = [], main_stack = [],
      fork_stacks = (\<lambda>_. None), current_execution = None, instance_counter = n,
      local_root_span_id = None\<rparr>"

definition DETACHED :: int where "DETACHED = - (2 ^ 63)"
definition INACTIVE :: int where "INACTIVE = 2 ^ 62"
definition MISMATCH :: int where "MISMATCH = 2 ^ 61"

text \<open>\<open>with_active_stack\<close>: an unknown fork gets an empty stack.\<close>

definition with_active_stack ::
  "(('c, 'f) context_stack \<Rightarrow> 'r \<times> ('c, 'f) context_stack) \<Rightarrow> ('c, 'f) ctx_storage \<Rightarrow>
     'r \<times> ('c, 'f) ctx_storage" where
  "with_active_stack f s =
     (case current_execution s of
        Some xid \<Rightarrow>
          (case f (case fork_stacks s xid of Some st \<Rightarrow> st | None \<Rightarrow> []) of
             (r, st) \<Rightarrow> (r, s\<lparr>fork_stacks := (fork_stacks s)(xid \<mapsto> st)\<rparr>))
      | None \<Rightarrow> (case f (main_stack s) of (r, st) \<Rightarrow> (r, s\<lparr>main_stack := st\<rparr>)))"

text \<open>
  \<open>Context::current()\<close>: the context whose guard was attached last and still lives, whoever attached it,
  or the ambient one of the thread. Dropping a guard below the top leaves the current context as it is.
\<close>

definition otel_current :: "'c \<Rightarrow> ('c, 'f) ctx_storage \<Rightarrow> 'c" where
  "otel_current ambient s = (case attached s of [] \<Rightarrow> ambient | (_, c) # _ \<Rightarrow> c)"

text \<open>Dropping the top guard of \<open>GUARD_STACK\<close>, and all of them.\<close>

fun pop_php :: "(nat option \<times> 'c) list \<Rightarrow> (nat option \<times> 'c) list" where
  "pop_php [] = []"
| "pop_php ((None, c) # a) = a"
| "pop_php ((Some ed, c) # a) = (Some ed, c) # pop_php a"

definition drop_php :: "(nat option \<times> 'c) list \<Rightarrow> (nat option \<times> 'c) list" where
  "drop_php a = filter (\<lambda>(owner, _). owner \<noteq> None) a"

text \<open>
  What hooks do: \<open>ctx.attach()\<close> with \<open>store_guard\<close>, which drops a guard kept before for the same call, and
  \<open>take_guard\<close> with the drop of what it returns.
\<close>

definition drop_hook :: "nat \<Rightarrow> (nat option \<times> 'c) list \<Rightarrow> (nat option \<times> 'c) list" where
  "drop_hook ed a = filter (\<lambda>(owner, _). owner \<noteq> Some ed) a"

definition hook_attach :: "nat \<Rightarrow> 'c \<Rightarrow> ('c, 'f) ctx_storage \<Rightarrow> ('c, 'f) ctx_storage" where
  "hook_attach ed c s = s\<lparr>attached := (Some ed, c) # drop_hook ed (attached s)\<rparr>"

definition hook_release :: "nat \<Rightarrow> ('c, 'f) ctx_storage \<Rightarrow> ('c, 'f) ctx_storage" where
  "hook_release ed s = s\<lparr>attached := drop_hook ed (attached s)\<rparr>"

definition current_context ::
  "'c \<Rightarrow> ('c, 'f) ctx_storage \<Rightarrow> ('c, 'f) native_context \<times> ('c, 'f) ctx_storage" where
  "current_context ambient s =
     (case with_active_stack (\<lambda>st. (case st of [] \<Rightarrow> None | (_, n) # _ \<Rightarrow> Some n, st)) s of
        (Some n, s') \<Rightarrow> (n, s')
      | (None, s') \<Rightarrow> (native_new (otel_current ambient s'), s'))"

definition current_context_instance_id :: "('c, 'f) ctx_storage \<Rightarrow> nat option \<times> ('c, 'f) ctx_storage" where
  "current_context_instance_id s =
     with_active_stack (\<lambda>st. (case st of [] \<Rightarrow> None | (xid, _) # _ \<Rightarrow> Some xid, st)) s"

definition get_context_instance :: "nat option \<Rightarrow> ('c, 'f) ctx_storage \<Rightarrow> ('c, 'f) native_context option" where
  "get_context_instance instance_id s =
     (case instance_id of
        None \<Rightarrow> None
      | Some xid \<Rightarrow> (case contexts s xid of Some n \<Rightarrow> Some n | None \<Rightarrow> detached_spans s xid))"

definition resolve_context :: "'c \<Rightarrow> nat option \<Rightarrow> ('c, 'f) ctx_storage \<Rightarrow> ('c, 'f) native_context" where
  "resolve_context ambient instance_id s =
     (case get_context_instance instance_id s of
        Some n \<Rightarrow> n
      | None \<Rightarrow> native_new (otel_current ambient s))"

definition store_context_instance ::
  "('c, 'f) native_context \<Rightarrow> ('c, 'f) ctx_storage \<Rightarrow> nat option \<times> ('c, 'f) ctx_storage" where
  "store_context_instance n s =
     (let xid = instance_counter s
      in (Some xid, s\<lparr>instance_counter := xid + 1, contexts := (contexts s)(xid \<mapsto> n)\<rparr>))"

text \<open>\<open>unowned\<close> tells whether the store holds the only reference (\<open>Rc::strong_count == 1\<close>).\<close>

definition maybe_remove_context_instance ::
  "(('c, 'f) native_context \<Rightarrow> bool) \<Rightarrow> nat option \<Rightarrow> ('c, 'f) ctx_storage \<Rightarrow> ('c, 'f) ctx_storage" where
  "maybe_remove_context_instance unowned instance_id s =
     (case instance_id of
        None \<Rightarrow> s
      | Some xid \<Rightarrow>
          let remove_if_unowned = (\<lambda>m. case m xid of
                Some n \<Rightarrow> if unowned n then m(xid := None) else m
              | None \<Rightarrow> m)
          in s\<lparr>contexts := remove_if_unowned (contexts s),
               detached_spans := remove_if_unowned (detached_spans s)\<rparr>)"

definition remove_context_instance :: "nat \<Rightarrow> ('c, 'f) ctx_storage \<Rightarrow> ('c, 'f) ctx_storage" where
  "remove_context_instance xid s =
     s\<lparr>contexts := (contexts s)(xid := None), detached_spans := (detached_spans s)(xid := None)\<rparr>"

text \<open>An active recording span stays reachable by its instance id after its scope is detached.\<close>

definition move_detached_span_context ::
  "('c, 'sc) otel_api \<Rightarrow> nat \<Rightarrow> ('c, 'f) ctx_storage \<Rightarrow> ('c, 'f) ctx_storage" where
  "move_detached_span_context api xid s =
     (case contexts s xid of
        None \<Rightarrow> s
      | Some n \<Rightarrow>
          let s1 = s\<lparr>contexts := (contexts s)(xid := None)\<rparr> in
          if span_context_valid api (ctx_span_context api (otel_context n))
             \<and> ctx_recording api (otel_context n)
          then s1\<lparr>detached_spans := (detached_spans s1)(xid \<mapsto> n)\<rparr>
          else s1)"

definition remove_detached_span_context ::
  "('c, 'sc) otel_api \<Rightarrow> 'sc \<Rightarrow> ('c, 'f) ctx_storage \<Rightarrow> ('c, 'f) ctx_storage" where
  "remove_detached_span_context api sc s =
     s\<lparr>detached_spans := (\<lambda>xid. case detached_spans s xid of
          Some n \<Rightarrow> if ctx_span_context api (otel_context n) \<noteq> sc then Some n else None
        | None \<Rightarrow> None)\<rparr>"

section \<open>Attaching and detaching\<close>

definition attach_context ::
  "nat option \<Rightarrow> ('c, 'f) ctx_storage \<Rightarrow> (string, unit) result \<times> ('c, 'f) ctx_storage" where
  "attach_context instance_id s =
     (case instance_id of
        None \<Rightarrow> (Err ''No context id provided'', s)
      | Some xid \<Rightarrow>
          (case get_context_instance (Some xid) s of
             None \<Rightarrow> (Err ''Context not found'', s)
           | Some n \<Rightarrow>
               let s1 = snd (with_active_stack (\<lambda>st. ((), (xid, n) # st)) s)
               in (Ok (), s1\<lparr>guard_stack := (xid, otel_context n) # guard_stack s1,
                                attached := (None, otel_context n) # attached s1\<rparr>)))"

definition detach_context ::
  "('c, 'sc) otel_api \<Rightarrow> nat option \<Rightarrow> string option \<Rightarrow> ('c, 'f) ctx_storage \<Rightarrow> int \<times> ('c, 'f) ctx_storage" where
  "detach_context api instance_id execution_id s =
     (case instance_id of
        None \<Rightarrow> (DETACHED, s)
      | Some xid \<Rightarrow>
          if current_execution s \<noteq> execution_id then (INACTIVE, s)
          else (case guard_stack s of
              [] \<Rightarrow> (INACTIVE, s)
            | (stack_id, _) # guards \<Rightarrow>
                if stack_id \<noteq> xid then (MISMATCH, s)
                else
                  let s1 = s\<lparr>guard_stack := guards, attached := pop_php (attached s)\<rparr>;
                      s2 = snd (with_active_stack
                        (\<lambda>st. ((), case st of
                             (top_id, n) # rest \<Rightarrow> if top_id = xid then rest else st
                           | [] \<Rightarrow> [])) s1)
                  in (0, move_detached_span_context api xid s2)))"

section \<open>Execution contexts\<close>

definition fork_execution :: "string \<Rightarrow> ('c, 'f) ctx_storage \<Rightarrow> ('c, 'f) ctx_storage" where
  "fork_execution xid s =
     (case with_active_stack (\<lambda>st. (st, st)) s of
        (st, s1) \<Rightarrow> s1\<lparr>fork_stacks := (fork_stacks s1)(xid \<mapsto> st)\<rparr>)"

definition switch_execution :: "string \<Rightarrow> ('c, 'f) ctx_storage \<Rightarrow> ('c, 'f) ctx_storage" where
  "switch_execution xid s =
     (case (case fork_stacks s xid of Some st \<Rightarrow> (Some xid, st) | None \<Rightarrow> (None, main_stack s)) of
        (execution, st) \<Rightarrow>
          s\<lparr>guard_stack := map (\<lambda>(i, n). (i, otel_context n)) st,
            attached := map (\<lambda>(i, n). (None, otel_context n)) st @ drop_php (attached s),
            current_execution := execution\<rparr>)"

definition destroy_execution :: "string \<Rightarrow> ('c, 'f) ctx_storage \<Rightarrow> ('c, 'f) ctx_storage" where
  "destroy_execution xid s =
     (if current_execution s \<noteq> Some xid then s\<lparr>fork_stacks := (fork_stacks s)(xid := None)\<rparr> else s)"

definition execution_id :: "'f zval \<Rightarrow> (php_error, string) result" where
  "execution_id v =
     (case v of
        ZLong i \<Rightarrow> Ok (show_int i)
      | ZStr b \<Rightarrow> (case to_str b of Some t \<Rightarrow> Ok t | None \<Rightarrow> Err Utf8Error)
      | _ \<Rightarrow> Err (BoxedError ''execution context id must be int|string''))"

definition clear_context_storage :: "('c, 'f) ctx_storage \<Rightarrow> ('c, 'f) ctx_storage" where
  "clear_context_storage s =
     s\<lparr>contexts := (\<lambda>_. None), detached_spans := (\<lambda>_. None), guard_stack := [], attached := [], main_stack := [],
       fork_stacks := (\<lambda>_. None), current_execution := None\<rparr>"

section \<open>PHP objects: contexts and scopes\<close>

text \<open>
  A \<open>Context\<close> object: its native state, which a user-defined implementation of the interface does
  not have, and its \<open>context_id\<close> property, 0 for none. An id is cast between \<open>u64\<close> and \<open>i64\<close>.
\<close>

record ('c, 'f) context_obj =
  is_native :: bool
  obj_state :: "('c, 'f) native_context option"
  obj_context_id :: int

record ('c, 'f) scope =
  scope_context :: "('c, 'f) native_context option"
  scope_execution :: "string option"
  scope_detached :: bool
  scope_context_id :: int

definition u64_to_i64 :: "nat \<Rightarrow> int" where
  "u64_to_i64 n = (if n < 2 ^ 63 then int n else int n - 2 ^ 64)"

definition property_of_id :: "nat option \<Rightarrow> int" where
  "property_of_id instance_id = u64_to_i64 (case instance_id of Some i \<Rightarrow> i | None \<Rightarrow> 0)"

definition get_instance_id :: "int \<Rightarrow> nat option" where
  "get_instance_id context_id = (if context_id > 0 then Some (nat context_id) else None)"

definition native_context_from_object ::
  "('c, 'f) context_obj \<Rightarrow> ('c, 'f) ctx_storage \<Rightarrow> ('c, 'f) native_context option" where
  "native_context_from_object ob s =
     (if \<not> is_native ob then None
      else case obj_state ob of
          Some n \<Rightarrow> Some n
        | None \<Rightarrow> get_context_instance (get_instance_id (obj_context_id ob)) s)"

definition init_context_object ::
  "('c, 'f) native_context \<Rightarrow> nat option \<Rightarrow> ('c, 'f) context_obj" where
  "init_context_object n instance_id =
     \<lparr>is_native = True, obj_state = Some n, obj_context_id = property_of_id instance_id\<rparr>"

text \<open>\<open>Context::with\<close> and \<open>Context::get\<close>.\<close>

definition context_with ::
  "('c, 'f) context_obj \<Rightarrow> nat \<Rightarrow> 'f zval \<Rightarrow> 'f zval \<Rightarrow> ('c, 'f) ctx_storage \<Rightarrow>
     (php_error, ('c, 'f) context_obj) result" where
  "context_with ob handle key_value v s =
     (case (case obj_state ob of
              Some n \<Rightarrow> Some n
            | None \<Rightarrow> get_context_instance (get_instance_id (obj_context_id ob)) s) of
        None \<Rightarrow> Err (BoxedError ''Context object has no native context state'')
      | Some n \<Rightarrow> Ok (init_context_object (with_value handle key_value v n) None))"

definition context_get ::
  "('c, 'f) context_obj \<Rightarrow> nat \<Rightarrow> ('c, 'f) ctx_storage \<Rightarrow> (php_error, 'f zval) result" where
  "context_get ob handle s =
     (case (case obj_state ob of
              Some n \<Rightarrow> Some n
            | None \<Rightarrow> get_context_instance (get_instance_id (obj_context_id ob)) s) of
        None \<Rightarrow> Err (BoxedError ''Context object has no native context state'')
      | Some n \<Rightarrow> Ok (case context_value n handle of Some v \<Rightarrow> v | None \<Rightarrow> ZNull))"

text \<open>\<open>Context::activate\<close> with the native storage, and \<open>Storage::attach\<close>.\<close>

definition context_activate ::
  "('c, 'f) context_obj \<Rightarrow> ('c, 'f) ctx_storage \<Rightarrow>
     (php_error, ('c, 'f) scope \<times> ('c, 'f) context_obj) result \<times> ('c, 'f) ctx_storage" where
  "context_activate ob s =
     (case obj_state ob of
        None \<Rightarrow> (Err (BoxedError ''Context object has no native context state''), s)
      | Some n \<Rightarrow>
          (case store_context_instance n s of (instance_id, s1) \<Rightarrow>
             let ob' = ob\<lparr>obj_context_id := property_of_id instance_id\<rparr> in
             case attach_context instance_id s1 of
               (Inl e, s2) \<Rightarrow> (Err (BoxedError e), s2)
             | (Inr _, s2) \<Rightarrow>
                 (Ok (\<lparr>scope_context = Some n, scope_execution = current_execution s2,
                       scope_detached = False, scope_context_id = property_of_id instance_id\<rparr>, ob'), s2)))"

definition storage_attach ::
  "('c, 'f) context_obj \<Rightarrow> ('c, 'f) ctx_storage \<Rightarrow>
     (php_error, ('c, 'f) scope \<times> ('c, 'f) context_obj) result \<times> ('c, 'f) ctx_storage" where
  "storage_attach ob s =
     (let instance_id = get_instance_id (obj_context_id ob);
          attached = (\<lambda>iid ob' s1.
            case attach_context iid s1 of
              (Inl e, s2) \<Rightarrow> (Err (BoxedError e), s2)
            | (Inr _, s2) \<Rightarrow>
                (Ok (\<lparr>scope_context = get_context_instance iid s2, scope_execution = current_execution s2,
                      scope_detached = False, scope_context_id = property_of_id iid\<rparr>, ob'), s2)) in
      if get_context_instance instance_id s = None then
        (case native_context_from_object ob s of
           None \<Rightarrow> (Err (BoxedError ''unsupported ContextInterface implementation''), s)
         | Some n \<Rightarrow>
             (case store_context_instance n s of (iid, s1) \<Rightarrow>
                attached iid (ob\<lparr>obj_context_id := property_of_id iid\<rparr>) s1))
      else attached instance_id ob s)"

text \<open>\<open>Storage::scope\<close>: the scope of the current context, if any is attached.\<close>

definition storage_scope :: "('c, 'f) ctx_storage \<Rightarrow> ('c, 'f) scope option \<times> ('c, 'f) ctx_storage" where
  "storage_scope s =
     (case current_context_instance_id s of
        (None, s1) \<Rightarrow> (None, s1)
      | (Some i, s1) \<Rightarrow>
          (Some \<lparr>scope_context = get_context_instance (Some i) s1, scope_execution = current_execution s1,
                 scope_detached = False, scope_context_id = u64_to_i64 i\<rparr>, s1))"

section \<open>The local root span\<close>

definition store_local_root_span :: "nat option \<Rightarrow> ('c, 'f) ctx_storage \<Rightarrow> ('c, 'f) ctx_storage" where
  "store_local_root_span context_id s = s\<lparr>local_root_span_id := context_id\<rparr>"

definition get_local_root_span_context :: "('c, 'f) ctx_storage \<Rightarrow> ('c, 'f) native_context option" where
  "get_local_root_span_context s =
     (case local_root_span_id s of None \<Rightarrow> None | Some i \<Rightarrow> get_context_instance (Some i) s)"

definition maybe_remove_local_root_span ::
  "(('c, 'f) native_context \<Rightarrow> bool) \<Rightarrow> nat option \<Rightarrow> ('c, 'f) ctx_storage \<Rightarrow> ('c, 'f) ctx_storage" where
  "maybe_remove_local_root_span unowned context_id s =
     (case (context_id, local_root_span_id s) of
        (Some i, Some current_id) \<Rightarrow>
          if i = current_id
          then maybe_remove_context_instance unowned (Some i) (s\<lparr>local_root_span_id := None\<rparr>)
          else s
      | (None, Some current_id) \<Rightarrow>
          maybe_remove_context_instance unowned (Some current_id) (s\<lparr>local_root_span_id := None\<rparr>)
      | _ \<Rightarrow> s)"

definition clear_request_state :: "('c, 'f) ctx_storage \<Rightarrow> ('c, 'f) ctx_storage" where
  "clear_request_state s = s\<lparr>local_root_span_id := None\<rparr>"

text \<open>\<open>Scope::detach\<close>: a scope that has detached stays detached.\<close>

definition scope_detach ::
  "('c, 'sc) otel_api \<Rightarrow> (('c, 'f) native_context \<Rightarrow> bool) \<Rightarrow> ('c, 'f) scope \<Rightarrow> ('c, 'f) ctx_storage \<Rightarrow>
     int \<times> ('c, 'f) scope \<times> ('c, 'f) ctx_storage" where
  "scope_detach api unowned sc s =
     (if scope_detached sc then (DETACHED, sc, s)
      else
        let instance_id = get_instance_id (scope_context_id sc) in
        case detach_context api instance_id (scope_execution sc) s of
          (status, s1) \<Rightarrow>
            if status = 0
            then (status, sc\<lparr>scope_detached := True\<rparr>, maybe_remove_local_root_span unowned instance_id s1)
            else (status, sc, s1))"

section \<open>Values attached to a scope\<close>

text \<open>
  The \<open>ArrayAccess\<close> values of a scope. \<open>dbg\<close> is the debug text of a value that is neither string,
  integer nor null; such a value is used as a key by that text.
\<close>

record 'f scope_offsets =
  offsets :: "string \<Rightarrow> 'f zval option"
  next_offset :: nat

definition offset_key :: "('f zval \<Rightarrow> string) \<Rightarrow> 'f zval \<Rightarrow> string option" where
  "offset_key dbg v =
     (case v of
        ZStr b \<Rightarrow> to_str b
      | ZLong i \<Rightarrow> Some (show_int i)
      | ZNull \<Rightarrow> None
      | _ \<Rightarrow> Some (dbg v))"

definition offset_exists :: "('f zval \<Rightarrow> string) \<Rightarrow> 'f zval \<Rightarrow> 'f scope_offsets \<Rightarrow> bool" where
  "offset_exists dbg k so =
     (case offset_key dbg k of None \<Rightarrow> False | Some key \<Rightarrow> offsets so key \<noteq> None)"

definition offset_get :: "('f zval \<Rightarrow> string) \<Rightarrow> 'f zval \<Rightarrow> 'f scope_offsets \<Rightarrow> 'f zval" where
  "offset_get dbg k so =
     (case offset_key dbg k of
        None \<Rightarrow> ZNull
      | Some key \<Rightarrow> (case offsets so key of None \<Rightarrow> ZNull | Some v \<Rightarrow> v))"

definition offset_set :: "('f zval \<Rightarrow> string) \<Rightarrow> 'f zval \<Rightarrow> 'f zval \<Rightarrow> 'f scope_offsets \<Rightarrow> 'f scope_offsets" where
  "offset_set dbg k v so =
     (case offset_key dbg k of
        Some key \<Rightarrow> so\<lparr>offsets := (offsets so)(key \<mapsto> v)\<rparr>
      | None \<Rightarrow>
          let key = show_nat (next_offset so);
              so1 = so\<lparr>next_offset := next_offset so + 1\<rparr>
          in so1\<lparr>offsets := (offsets so1)(key \<mapsto> v)\<rparr>)"

definition offset_unset :: "('f zval \<Rightarrow> string) \<Rightarrow> 'f zval \<Rightarrow> 'f scope_offsets \<Rightarrow> 'f scope_offsets" where
  "offset_unset dbg k so =
     (case offset_key dbg k of None \<Rightarrow> so | Some key \<Rightarrow> so\<lparr>offsets := (offsets so)(key := None)\<rparr>)"

section \<open>Contexts are keyed stores\<close>

interpretation context_store: keyed_store context_value
  "\<lambda>handle v. with_value handle (ZObj handle) v" "\<lambda>handle. with_value handle (ZObj handle) ZNull"
  "\<lambda>_. True" "\<lambda>_ _ v. v \<noteq> ZNull"
  by unfold_locales (auto simp: context_value_def with_value_def fun_eq_iff)

interpretation offset_store: keyed_store offsets
  "\<lambda>k v. offset_set (\<lambda>_. []) (ZStr k) v" "\<lambda>k. offset_unset (\<lambda>_. []) (ZStr k)"
  "\<lambda>so. \<forall>k. offsets so k \<noteq> None \<longrightarrow> valid_utf8 k" "\<lambda>_ k _. valid_utf8 k"
  by unfold_locales
    (auto simp: offset_set_def offset_unset_def offset_key_def to_str_def fun_eq_iff split: option.splits if_splits)

section \<open>Invariant\<close>

definition active_stack :: "('c, 'f) ctx_storage \<Rightarrow> ('c, 'f) context_stack" where
  "active_stack s =
     (case current_execution s of
        None \<Rightarrow> main_stack s
      | Some e \<Rightarrow> (case fork_stacks s e of Some st \<Rightarrow> st | None \<Rightarrow> []))"

text \<open>
  The guards mirror the active stack, and so do the contexts PHP has attached to the SDK; the current
  execution is known; instance ids are positive and below the counter.
\<close>

definition php_attached :: "(nat option \<times> 'c) list \<Rightarrow> 'c list" where
  "php_attached a = map snd (filter (\<lambda>(owner, _). owner = None) a)"

lemma php_attached_simps [simp]:
  "php_attached [] = []"
  "php_attached ((None, c) # a) = c # php_attached a"
  "php_attached ((Some ed, c) # a) = php_attached a"
  "php_attached (drop_php a) = []"
  "php_attached (drop_hook ed a) = php_attached a"
  "php_attached (pop_php a) = tl (php_attached a)"
  "php_attached (a @ b) = php_attached a @ php_attached b"
  "php_attached (map (\<lambda>(i, n). (None, f n)) st) = map (f \<circ> snd) st"
proof -
  show "php_attached (pop_php a) = tl (php_attached a)"
    by (induction a rule: pop_php.induct) (simp_all add: php_attached_def)
  show "php_attached (map (\<lambda>(i, n). (None, f n)) st) = map (f \<circ> snd) st"
    by (induction st) (auto simp: php_attached_def)
  show "php_attached (drop_php a) = []" "php_attached (drop_hook ed a) = php_attached a"
    by (induction a) (auto simp: php_attached_def drop_php_def drop_hook_def)
qed (simp_all add: php_attached_def)

definition storage_inv :: "('c, 'f) ctx_storage \<Rightarrow> bool" where
  "storage_inv s \<longleftrightarrow>
     guard_stack s = map (\<lambda>(i, n). (i, otel_context n)) (active_stack s)
     \<and> php_attached (attached s) = map (otel_context \<circ> snd) (active_stack s)
     \<and> (\<forall>e. current_execution s = Some e \<longrightarrow> fork_stacks s e \<noteq> None)
     \<and> 0 < instance_counter s
     \<and> (\<forall>i. contexts s i \<noteq> None \<or> detached_spans s i \<noteq> None \<longrightarrow> 0 < i \<and> i < instance_counter s)"

datatype ('c, 'f) storage_op =
  Attach "nat option"
| Detach "nat option" "string option"
| Fork string
| Switch string
| Destroy string
| StoreInstance "('c, 'f) native_context"
| RemoveInstance nat
| Current
| HookAttach nat 'c
| HookRelease nat
| ClearStorage

fun apply_storage_op ::
  "('c, 'sc) otel_api \<Rightarrow> ('c, 'f) storage_op \<Rightarrow> ('c, 'f) ctx_storage \<Rightarrow> ('c, 'f) ctx_storage" where
  "apply_storage_op api (Attach i) s = snd (attach_context i s)"
| "apply_storage_op api (Detach i e) s = snd (detach_context api i e s)"
| "apply_storage_op api (Fork e) s = fork_execution e s"
| "apply_storage_op api (Switch e) s = switch_execution e s"
| "apply_storage_op api (Destroy e) s = destroy_execution e s"
| "apply_storage_op api (StoreInstance n) s = snd (store_context_instance n s)"
| "apply_storage_op api (RemoveInstance i) s = remove_context_instance i s"
| "apply_storage_op api Current s = snd (current_context_instance_id s)"
| "apply_storage_op api (HookAttach ed c) s = hook_attach ed c s"
| "apply_storage_op api (HookRelease ed) s = hook_release ed s"
| "apply_storage_op api ClearStorage s = clear_context_storage s"

text \<open>Under the invariant \<open>with_active_stack\<close> is a lens on the active stack.\<close>

definition set_active_stack :: "('c, 'f) context_stack \<Rightarrow> ('c, 'f) ctx_storage \<Rightarrow> ('c, 'f) ctx_storage" where
  "set_active_stack st s =
     (case current_execution s of
        None \<Rightarrow> s\<lparr>main_stack := st\<rparr>
      | Some e \<Rightarrow> s\<lparr>fork_stacks := (fork_stacks s)(e \<mapsto> st)\<rparr>)"

lemma with_active_stack_lens:
  "with_active_stack f s = (fst (f (active_stack s)), set_active_stack (snd (f (active_stack s))) s)"
  by (simp add: with_active_stack_def active_stack_def set_active_stack_def split: option.splits prod.splits)

lemma set_active_stack_simps [simp]:
  "active_stack (set_active_stack st s) = st"
  "guard_stack (set_active_stack st s) = guard_stack s"
  "attached (set_active_stack st s) = attached s"
  "current_execution (set_active_stack st s) = current_execution s"
  "contexts (set_active_stack st s) = contexts s"
  "detached_spans (set_active_stack st s) = detached_spans s"
  "instance_counter (set_active_stack st s) = instance_counter s"
  "local_root_span_id (set_active_stack st s) = local_root_span_id s"
  by (auto simp: active_stack_def set_active_stack_def split: option.splits)

lemma set_active_stack_fork:
  "current_execution s = Some e \<Longrightarrow> fork_stacks (set_active_stack st s) e = Some st"
  by (simp add: set_active_stack_def)

lemma set_active_stack_id: "storage_inv s \<Longrightarrow> set_active_stack (active_stack s) s = s"
  by (auto simp: storage_inv_def active_stack_def set_active_stack_def fun_upd_idem split: option.splits)

lemma active_stack_upd [simp]:
  "active_stack (s\<lparr>guard_stack := g\<rparr>) = active_stack s"
  "active_stack (s\<lparr>attached := a\<rparr>) = active_stack s"
  "active_stack (s\<lparr>contexts := c\<rparr>) = active_stack s"
  "active_stack (s\<lparr>detached_spans := c\<rparr>) = active_stack s"
  "active_stack (s\<lparr>instance_counter := n\<rparr>) = active_stack s"
  "active_stack (s\<lparr>local_root_span_id := l\<rparr>) = active_stack s"
  "active_stack (move_detached_span_context api i s) = active_stack s"
  by (simp_all add: active_stack_def move_detached_span_context_def Let_def split: option.splits)

lemma move_detached_frame [simp]:
  "guard_stack (move_detached_span_context api i s) = guard_stack s"
  "attached (move_detached_span_context api i s) = attached s"
  "main_stack (move_detached_span_context api i s) = main_stack s"
  "fork_stacks (move_detached_span_context api i s) = fork_stacks s"
  "current_execution (move_detached_span_context api i s) = current_execution s"
  "instance_counter (move_detached_span_context api i s) = instance_counter s"
  "local_root_span_id (move_detached_span_context api i s) = local_root_span_id s"
  by (simp_all add: move_detached_span_context_def Let_def split: option.splits)

lemma move_detached_ids:
  "contexts (move_detached_span_context api i s) j \<noteq> None
     \<or> detached_spans (move_detached_span_context api i s) j \<noteq> None \<Longrightarrow>
   contexts s j \<noteq> None \<or> detached_spans s j \<noteq> None"
  by (auto simp: move_detached_span_context_def Let_def split: option.splits if_splits)

lemma attach_context_Ok:
  "get_context_instance (Some i) s = Some n \<Longrightarrow>
     attach_context (Some i) s =
       (Ok (), (set_active_stack ((i, n) # active_stack s) s)
         \<lparr>guard_stack := (i, otel_context n) # guard_stack s, attached := (None, otel_context n) # attached s\<rparr>)"
  by (simp add: attach_context_def with_active_stack_lens Let_def)

lemma attach_context_Err:
  "fst (attach_context i s) \<noteq> Ok () \<Longrightarrow> snd (attach_context i s) = s"
  by (auto simp: attach_context_def Let_def split: option.splits)

lemma detach_context_cases:
  assumes inv: "storage_inv s"
  obtains (refused) st where "detach_context api i e s = (st, s)" "st \<in> {DETACHED, INACTIVE, MISMATCH}"
  | (popped) x n rest where "i = Some x" "current_execution s = e" "active_stack s = (x, n) # rest"
      "detach_context api i e s =
         (0, move_detached_span_context api x
               ((set_active_stack rest s)\<lparr>guard_stack := tl (guard_stack s), attached := pop_php (attached s)\<rparr>))"
proof (cases "\<exists>x n rest. i = Some x \<and> current_execution s = e \<and> active_stack s = (x, n) # rest")
  case True
  then obtain x n rest where x: "i = Some x" "current_execution s = e" "active_stack s = (x, n) # rest" by blast
  have g: "guard_stack s = (x, otel_context n) # map (\<lambda>(i, n). (i, otel_context n)) rest"
    using inv x(3) by (simp add: storage_inv_def)
  have c: "set_active_stack rest (s\<lparr>guard_stack := g', attached := a'\<rparr>) =
      (set_active_stack rest s)\<lparr>guard_stack := g', attached := a'\<rparr>" for g' a'
    by (simp add: set_active_stack_def split: option.splits)
  show ?thesis
    by (rule popped [OF x]) (use x g in \<open>simp add: detach_context_def with_active_stack_lens Let_def c\<close>)
next
  case False
  have "\<exists>st. detach_context api i e s = (st, s) \<and> st \<in> {DETACHED, INACTIVE, MISMATCH}"
    using inv False
    by (cases "active_stack s") (auto simp: detach_context_def storage_inv_def split: option.splits)
  then show ?thesis using refused by blast
qed

lemma attach_inv [inv_intros]: "storage_inv s \<Longrightarrow> storage_inv (snd (attach_context i s))"
proof (cases "\<exists>x n. i = Some x \<and> get_context_instance (Some x) s = Some n")
  case True
  assume inv: "storage_inv s"
  from True obtain x n where "i = Some x" "get_context_instance (Some x) s = Some n" by blast
  with inv show ?thesis by (auto simp: attach_context_Ok storage_inv_def set_active_stack_fork)
next
  case False
  assume "storage_inv s"
  with False show ?thesis by (auto simp: attach_context_def split: option.splits)
qed

lemma detach_inv [inv_intros]:
  assumes inv: "storage_inv s"
  shows "storage_inv (snd (detach_context api i e s))"
  using inv
proof (cases rule: detach_context_cases [of s api i e])
  case (popped x n rest)
  let ?s = "(set_active_stack rest s)\<lparr>guard_stack := tl (guard_stack s), attached := pop_php (attached s)\<rparr>"
  have "storage_inv ?s" using inv popped(3) by (auto simp: storage_inv_def set_active_stack_fork)
  then have "storage_inv (move_detached_span_context api x ?s)"
    using move_detached_ids [of api x ?s] unfolding storage_inv_def by simp blast
  then show ?thesis using popped(4) by simp
qed (use inv in auto)

lemma fork_execution_eq:
  "storage_inv s \<Longrightarrow> fork_execution e s = s\<lparr>fork_stacks := (fork_stacks s)(e \<mapsto> active_stack s)\<rparr>"
  by (simp add: fork_execution_def with_active_stack_lens set_active_stack_id)

lemma fork_inv [inv_intros]: "storage_inv s \<Longrightarrow> storage_inv (fork_execution e s)"
  by (simp add: fork_execution_eq) (auto simp: storage_inv_def active_stack_def split: option.splits)

lemma switch_inv [inv_intros]: "storage_inv s \<Longrightarrow> storage_inv (switch_execution e s)"
  by (auto simp: storage_inv_def switch_execution_def active_stack_def split: option.splits)

lemma destroy_inv [inv_intros]: "storage_inv s \<Longrightarrow> storage_inv (destroy_execution e s)"
  by (auto simp: storage_inv_def destroy_execution_def active_stack_def split: option.splits)

lemma store_inv [inv_intros]: "storage_inv s \<Longrightarrow> storage_inv (snd (store_context_instance n s))"
  by (auto simp: storage_inv_def store_context_instance_def less_SucI Let_def)

lemma remove_inv [inv_intros]: "storage_inv s \<Longrightarrow> storage_inv (remove_context_instance i s)"
  by (auto simp: storage_inv_def remove_context_instance_def)

lemma current_id_state: "storage_inv s \<Longrightarrow> snd (current_context_instance_id s) = s"
  by (simp add: current_context_instance_id_def with_active_stack_lens set_active_stack_id)

lemma clear_inv [inv_intros]: "storage_inv s \<Longrightarrow> storage_inv (clear_context_storage s)"
  by (simp add: storage_inv_def clear_context_storage_def active_stack_def)

lemma hook_inv [inv_intros]:
  "storage_inv s \<Longrightarrow> storage_inv (hook_attach ed c s)" "storage_inv s \<Longrightarrow> storage_inv (hook_release ed s)"
  by (auto simp: storage_inv_def hook_attach_def hook_release_def)

lemma apply_storage_op_inv: "storage_inv s \<Longrightarrow> storage_inv (apply_storage_op api opr s)"
  by (cases opr) (simp_all add: inv_intros current_id_state)

lemma storage_init_inv: "0 < n \<Longrightarrow> storage_inv (storage_init n)"
  by (simp add: storage_inv_def storage_init_def active_stack_def)

interpretation context_system: safe_system "\<lambda>s. \<exists>n>0. s = storage_init n"
  "\<lambda>s t. \<exists>opr. t = apply_storage_op api opr s" storage_inv for api
  by unfold_locales (auto intro: storage_init_inv apply_storage_op_inv)

section \<open>Abstract specification\<close>

text \<open>A stack of instance ids for the main execution (key \<open>None\<close>) and for each fork.\<close>

type_synonym stacks_spec = "(string option \<Rightarrow> nat list option) \<times> string option"

definition abs_storage :: "('c, 'f) ctx_storage \<Rightarrow> stacks_spec" where
  "abs_storage s =
     (\<lambda>e. case e of
        None \<Rightarrow> Some (map fst (main_stack s))
      | Some x \<Rightarrow> map_option (map fst) (fork_stacks s x),
      current_execution s)"

definition spec_update :: "(nat list \<Rightarrow> nat list) \<Rightarrow> stacks_spec \<Rightarrow> stacks_spec" where
  "spec_update f sp =
     (case sp of (stacks, cur) \<Rightarrow> (stacks(cur := map_option f (stacks cur)), cur))"

definition spec_fork :: "string \<Rightarrow> stacks_spec \<Rightarrow> stacks_spec" where
  "spec_fork e sp = (case sp of (stacks, cur) \<Rightarrow> (stacks(Some e := stacks cur), cur))"

definition spec_switch :: "string \<Rightarrow> stacks_spec \<Rightarrow> stacks_spec" where
  "spec_switch e sp =
     (case sp of (stacks, cur) \<Rightarrow> (stacks, if stacks (Some e) = None then None else Some e))"

definition spec_destroy :: "string \<Rightarrow> stacks_spec \<Rightarrow> stacks_spec" where
  "spec_destroy e sp =
     (case sp of (stacks, cur) \<Rightarrow> (if cur = Some e then stacks else stacks(Some e := None), cur))"

lemma abs_set_active:
  assumes "storage_inv s" and "map fst st = f (map fst (active_stack s))"
  shows "abs_storage (set_active_stack st s) = spec_update f (abs_storage s)"
  using assms
  by (auto simp: abs_storage_def spec_update_def set_active_stack_def active_stack_def storage_inv_def fun_eq_iff
      split: option.splits)

lemma abs_frame [simp]:
  "abs_storage (s\<lparr>guard_stack := g\<rparr>) = abs_storage s"
  "abs_storage (s\<lparr>attached := a\<rparr>) = abs_storage s"
  "abs_storage (move_detached_span_context api i s) = abs_storage s"
  by (simp_all add: abs_storage_def cong: option.case_cong)

lemma abs_attach:
  assumes "storage_inv s" and "fst (attach_context (Some i) s) = Ok ()"
  shows "abs_storage (snd (attach_context (Some i) s)) = spec_update ((#) i) (abs_storage s)"
proof -
  obtain n where "get_context_instance (Some i) s = Some n"
    using assms(2) by (auto simp: attach_context_def split: option.splits)
  then show ?thesis using abs_set_active [OF assms(1), of "(i, n) # active_stack s" "(#) i"]
    by (simp add: attach_context_Ok)
qed

lemma abs_detach:
  assumes "storage_inv s"
  shows "case detach_context api i e s of (status, t) \<Rightarrow>
    if status = 0 then abs_storage t = spec_update tl (abs_storage s)
    else t = s \<and> status \<in> {DETACHED, INACTIVE, MISMATCH}"
  using assms
proof (cases rule: detach_context_cases [of s api i e])
  case (refused st)
  then show ?thesis by (auto simp: DETACHED_def INACTIVE_def MISMATCH_def)
next
  case (popped x n rest)
  with abs_set_active [OF assms, of rest tl] show ?thesis by simp
qed

lemma abs_fork: "storage_inv s \<Longrightarrow> abs_storage (fork_execution e s) = spec_fork e (abs_storage s)"
  by (simp add: fork_execution_eq)
    (auto simp: abs_storage_def spec_fork_def active_stack_def storage_inv_def fun_eq_iff split: option.splits)

lemma abs_switch: "abs_storage (switch_execution e s) = spec_switch e (abs_storage s)"
  by (simp add: abs_storage_def spec_switch_def switch_execution_def split: option.splits)

lemma abs_destroy: "abs_storage (destroy_execution e s) = spec_destroy e (abs_storage s)"
  by (auto simp: abs_storage_def spec_destroy_def destroy_execution_def fun_eq_iff split: option.splits)

section \<open>Scopes\<close>

text \<open>The part of the state that decides which context is current.\<close>

definition stack_view ::
  "('c, 'f) ctx_storage \<Rightarrow> (nat \<times> 'c) list \<times> (nat option \<times> 'c) list \<times> ('c, 'f) context_stack
     \<times> (string \<Rightarrow> ('c, 'f) context_stack option) \<times> string option" where
  "stack_view s = (guard_stack s, attached s, main_stack s, fork_stacks s, current_execution s)"

lemma active_stack_view: "stack_view s = stack_view t \<Longrightarrow> active_stack s = active_stack t"
  by (simp add: stack_view_def active_stack_def cong: option.case_cong)

lemma maybe_remove_frame [simp]:
  "stack_view (maybe_remove_local_root_span u i s) = stack_view s"
  "instance_counter (maybe_remove_local_root_span u i s) = instance_counter s"
  by (auto simp: stack_view_def maybe_remove_local_root_span_def maybe_remove_context_instance_def Let_def
      split: option.splits)

lemma maybe_remove_ids:
  "contexts (maybe_remove_local_root_span u i s) j \<noteq> None
     \<or> detached_spans (maybe_remove_local_root_span u i s) j \<noteq> None \<Longrightarrow>
   contexts s j \<noteq> None \<or> detached_spans s j \<noteq> None"
  by (auto simp: maybe_remove_local_root_span_def maybe_remove_context_instance_def Let_def
      split: option.splits if_splits)

lemma maybe_remove_inv [inv_intros]: "storage_inv s \<Longrightarrow> storage_inv (maybe_remove_local_root_span u i s)"
proof -
  assume inv: "storage_inv s"
  let ?t = "maybe_remove_local_root_span u i s"
  have "guard_stack ?t = guard_stack s" "attached ?t = attached s" "current_execution ?t = current_execution s"
    "fork_stacks ?t = fork_stacks s" "active_stack ?t = active_stack s" "instance_counter ?t = instance_counter s"
    using maybe_remove_frame(1) [of u i s] active_stack_view [of ?t s] by (simp_all add: stack_view_def)
  with inv show ?thesis using maybe_remove_ids [of u i s] unfolding storage_inv_def by metis
qed

lemma property_of_id_inverse:
  "0 < i \<Longrightarrow> i < 2 ^ 63 \<Longrightarrow> get_instance_id (property_of_id (Some i)) = Some i"
  by (simp add: property_of_id_def u64_to_i64_def get_instance_id_def)

text \<open>What activating a context does: a fresh instance on top of the active stack and of the guards.\<close>

lemma context_activate_Ok:
  assumes "obj_state ob = Some n" and "storage_inv s"
  defines "i \<equiv> instance_counter s"
  obtains ob' t where
    "context_activate ob s = (Ok (\<lparr>scope_context = Some n, scope_execution = current_execution s,
       scope_detached = False, scope_context_id = property_of_id (Some i)\<rparr>, ob'), t)"
    and "storage_inv t" and "active_stack t = (i, n) # active_stack s"
    and "stack_view (set_active_stack (active_stack s) t\<lparr>guard_stack := guard_stack s, attached := attached s\<rparr>)
      = stack_view s"
    and "instance_counter t = i + 1" and "current_execution t = current_execution s"
    and "guard_stack t = (i, otel_context n) # guard_stack s"
    and "attached t = (None, otel_context n) # attached s"
proof -
  define s1 where "s1 = snd (store_context_instance n s)"
  have inv1: "storage_inv s1" unfolding s1_def using assms(2) by (rule inv_intros)
  have s1: "get_context_instance (Some i) s1 = Some n" "active_stack s1 = active_stack s"
    "guard_stack s1 = guard_stack s" "attached s1 = attached s" "instance_counter s1 = i + 1" "current_execution s1 = current_execution s"
    "main_stack s1 = main_stack s" "fork_stacks s1 = fork_stacks s"
    by (simp_all add: s1_def store_context_instance_def get_context_instance_def i_def Let_def)
  let ?t = "(set_active_stack ((i, n) # active_stack s) s1)\<lparr>guard_stack := (i, otel_context n) # guard_stack s,
      attached := (None, otel_context n) # attached s\<rparr>"
  have at: "attach_context (Some i) s1 = (Ok (), ?t)" using attach_context_Ok [OF s1(1)] s1(2-4) by simp
  have st: "store_context_instance n s = (Some i, s1)" by (simp add: s1_def store_context_instance_def i_def Let_def)
  have fork: "fork_stacks s e \<noteq> None" if "current_execution s = Some e" for e
    using assms(2) that by (simp add: storage_inv_def)
  have view: "stack_view (set_active_stack (active_stack s) ?t\<lparr>guard_stack := guard_stack s, attached := attached s\<rparr>)
      = stack_view s"
    using s1 fork by (auto simp: stack_view_def set_active_stack_def active_stack_def fun_upd_idem split: option.splits)
  have "storage_inv ?t" using attach_inv [OF inv1, of "Some i"] at by simp
  moreover have "context_activate ob s = (Ok (\<lparr>scope_context = Some n, scope_execution = current_execution s,
      scope_detached = False, scope_context_id = property_of_id (Some i)\<rparr>,
      ob\<lparr>obj_context_id := property_of_id (Some i)\<rparr>), ?t)"
    unfolding context_activate_def assms(1) option.case st prod.case Let_def at by (simp add: s1)
  ultimately show ?thesis using that view s1 by simp
qed

text \<open>
  Detaching the scope of the context that is on top: if the stacks are as they were right after the
  activation, they become what they were before it.
\<close>

lemma scope_detach_top:
  assumes "storage_inv t" and "active_stack t = (i, n) # rest" and "0 < i" and "i < 2 ^ 63"
    and "sc = \<lparr>scope_context = Some n, scope_execution = current_execution t, scope_detached = False,
      scope_context_id = property_of_id (Some i)\<rparr>"
  obtains u where "scope_detach api unowned sc t = (0, sc\<lparr>scope_detached := True\<rparr>, u)" and "storage_inv u"
    and "stack_view u = stack_view ((set_active_stack rest t)\<lparr>guard_stack := tl (guard_stack t), attached := pop_php (attached t)\<rparr>)"
    and "instance_counter u = instance_counter t"
proof -
  note gid = property_of_id_inverse [OF assms(3,4)]
  let ?w = "move_detached_span_context api i ((set_active_stack rest t)\<lparr>guard_stack := tl (guard_stack t), attached := pop_php (attached t)\<rparr>)"
  have d: "detach_context api (Some i) (current_execution t) t = (0, ?w)"
    using assms(1)
  proof (cases rule: detach_context_cases [of t api "Some i" "current_execution t"])
    case (refused st)
    have "guard_stack t = (i, otel_context n) # map (\<lambda>(i, n). (i, otel_context n)) rest"
      using assms(1,2) by (simp add: storage_inv_def)
    with refused show ?thesis by (auto simp: detach_context_def Let_def DETACHED_def INACTIVE_def MISMATCH_def)
  qed (use assms(2) in auto)
  let ?u = "maybe_remove_local_root_span unowned (Some i) ?w"
  have "storage_inv ?w" using detach_inv [OF assms(1), of api "Some i" "current_execution t"] d by simp
  then have "storage_inv ?u" by (rule inv_intros)
  moreover have "scope_detach api unowned sc t = (0, sc\<lparr>scope_detached := True\<rparr>, ?u)"
    using d gid by (simp add: scope_detach_def assms(5) Let_def)
  moreover have "stack_view ?u = stack_view ((set_active_stack rest t)\<lparr>guard_stack := tl (guard_stack t), attached := pop_php (attached t)\<rparr>)"
    by (simp only: maybe_remove_frame) (simp add: stack_view_def)
  moreover have "instance_counter ?u = instance_counter t" by simp
  ultimately show ?thesis using that by blast
qed

text \<open>Contexts activated inside one another and detached in reverse order, with the statuses returned.\<close>

fun nested ::
  "('c, 'sc) otel_api \<Rightarrow> (('c, 'f) native_context \<Rightarrow> bool) \<Rightarrow> ('c, 'f) context_obj list \<Rightarrow>
     ('c, 'f) ctx_storage \<Rightarrow> int list \<times> ('c, 'f) ctx_storage" where
  "nested api unowned [] s = ([], s)"
| "nested api unowned (ob # obs) s =
     (case context_activate ob s of
        (Inl _, s1) \<Rightarrow> ([], s1)
      | (Inr (sc, _), s1) \<Rightarrow>
          (case nested api unowned obs s1 of (statuses, s2) \<Rightarrow>
             case scope_detach api unowned sc s2 of (status, _, s3) \<Rightarrow> (statuses @ [status], s3)))"

lemma set_active_stack_view:
  "stack_view s = stack_view t \<Longrightarrow>
     stack_view ((set_active_stack st s)\<lparr>guard_stack := g, attached := a\<rparr>) =
     stack_view ((set_active_stack st t)\<lparr>guard_stack := g, attached := a\<rparr>)"
  by (auto simp: stack_view_def set_active_stack_def split: option.splits)

lemma nested_restores:
  assumes "\<forall>ob\<in>set obs. obj_state ob \<noteq> None" and "storage_inv s"
    and "instance_counter s + length obs < 2 ^ 63"
  shows "case nested api unowned obs s of (statuses, t) \<Rightarrow>
    statuses = replicate (length obs) 0 \<and> stack_view t = stack_view s \<and> storage_inv t
    \<and> instance_counter t = instance_counter s + length obs"
  using assms
proof (induction obs arbitrary: s)
  case (Cons ob obs)
  then obtain n where n: "obj_state ob = Some n" by auto
  let ?i = "instance_counter s"
  from context_activate_Ok [OF n Cons.prems(2)] obtain ob' s1 sc where
    act: "context_activate ob s = (Ok (sc, ob'), s1)"
    and sc: "sc = \<lparr>scope_context = Some n, scope_execution = current_execution s, scope_detached = False,
      scope_context_id = property_of_id (Some ?i)\<rparr>"
    and s1: "storage_inv s1" "active_stack s1 = (?i, n) # active_stack s"
      "stack_view (set_active_stack (active_stack s) s1\<lparr>guard_stack := guard_stack s, attached := attached s\<rparr>)
        = stack_view s"
      "instance_counter s1 = ?i + 1" "current_execution s1 = current_execution s"
      "guard_stack s1 = (?i, otel_context n) # guard_stack s" "attached s1 = (None, otel_context n) # attached s" by metis
  obtain sts s2 where rest: "nested api unowned obs s1 = (sts, s2)" by (cases "nested api unowned obs s1")
  have IH: "sts = replicate (length obs) 0" "stack_view s2 = stack_view s1" "storage_inv s2"
    "instance_counter s2 = ?i + 1 + length obs"
    using Cons.IH [of s1] Cons.prems s1 rest by auto
  have s2: "active_stack s2 = (?i, n) # active_stack s" "current_execution s2 = current_execution s"
    "guard_stack s2 = (?i, otel_context n) # guard_stack s" "attached s2 = (None, otel_context n) # attached s"
    using active_stack_view [OF IH(2)] IH(2) s1 by (simp_all add: stack_view_def)
  have "0 < ?i" "?i < 2 ^ 63" using Cons.prems by (auto simp: storage_inv_def)
  from scope_detach_top [OF IH(3) s2(1) this, of sc api unowned] sc s2(2) obtain u where
    u: "scope_detach api unowned sc s2 = (0, sc\<lparr>scope_detached := True\<rparr>, u)" "storage_inv u"
      "stack_view u = stack_view ((set_active_stack (active_stack s) s2)\<lparr>guard_stack := guard_stack s, attached := attached s\<rparr>)"
      "instance_counter u = instance_counter s2"
    using s2(3,4) by auto
  have "stack_view u = stack_view s"
    using u(3) set_active_stack_view [OF IH(2)] s1(3) by simp
  with act rest u IH show ?case by (simp add: replicate_append_same)
qed simp

section \<open>Properties\<close>

lemma current_context_cong:
  assumes "active_stack t = active_stack s" and "attached t = attached s"
  shows "fst (current_context ambient t) = fst (current_context ambient s)"
  using assms by (cases "active_stack s")
    (simp_all add: current_context_def with_active_stack_lens otel_current_def case_prod_beta')

text \<open>An SDK without spans, for concrete runs.\<close>

definition plain_api :: "(nat, nat) otel_api" where
  "plain_api = \<lparr>ctx_new = 0, ctx_span_context = (\<lambda>c. c), span_context_valid = (\<lambda>_. False),
     ctx_recording = (\<lambda>_. False)\<rparr>"

definition hook_on_top :: "('c, 'f) ctx_storage \<Rightarrow> bool" where
  "hook_on_top s \<longleftrightarrow> (case attached s of (Some ed, c) # rest \<Rightarrow> True | _ \<Rightarrow> False)"

text \<open>
  C13. The PHP view (with the extension's own storage) and the SDK view of the current context, in every state that attach, detach, fork,
  switch, destroy, store, remove and clear by PHP code and attaching and releasing contexts by the hooks of
  auto-instrumentation can reach, in any order. The contexts PHP has attached to the SDK are those of
  the PHP stack of the current execution, in its order, and the guards carry its ids. With no scope
  active, or when the context attached last is one of PHP, the context PHP code gets as current wraps
  the one the SDK has as current. The only other case is an active scope with a context of a hook
  attached on top of it: then the SDK has the hook's context, and PHP code gets the context of its own
  innermost scope. Reading the current context changes nothing.
\<close>

theorem current_context_consistent:
  assumes "reachable (\<lambda>s. \<exists>n>0. s = storage_init n) (\<lambda>s t. \<exists>opr. t = apply_storage_op api opr s) s"
  shows "php_attached (attached s) = map (otel_context \<circ> snd) (active_stack s)
    \<and> map fst (guard_stack s) = map fst (active_stack s)
    \<and> (active_stack s = [] \<or> \<not> hook_on_top s \<longrightarrow>
        otel_context (fst (current_context ambient s)) = otel_current ambient s)
    \<and> (active_stack s \<noteq> [] \<and> hook_on_top s \<longrightarrow>
        otel_current ambient s = snd (hd (attached s))
        \<and> fst (current_context ambient s) = snd (hd (active_stack s)))
    \<and> snd (current_context ambient s) = s"
proof -
  from context_system.reachable_safe [OF assms] have inv: "storage_inv s" .
  then have g: "guard_stack s = map (\<lambda>(i, n). (i, otel_context n)) (active_stack s)"
    and p: "php_attached (attached s) = map (otel_context \<circ> snd) (active_stack s)"
    by (simp_all add: storage_inv_def)
  have cur: "current_context ambient s = (case active_stack s of
      [] \<Rightarrow> (native_new (otel_current ambient s), s) | (_, n) # _ \<Rightarrow> (n, s))"
    using set_active_stack_id [OF inv]
    by (cases "active_stack s") (auto simp: current_context_def with_active_stack_lens)
  have "otel_current ambient s = otel_context n" if "active_stack s = (i, n) # st" "\<not> hook_on_top s" for i n st
    using that p by (auto simp: hook_on_top_def otel_current_def split: list.splits option.splits)
  moreover have "otel_current ambient s = snd (hd (attached s))" if "hook_on_top s"
    using that by (auto simp: hook_on_top_def otel_current_def split: list.splits)
  ultimately show ?thesis
    using g p by (cases "active_stack s") (auto simp: cur native_new_def)
qed

text \<open>A scope with a context around the SDK's context 5 is active, and a hook attaches the context 7 inside it.\<close>

definition scope_then_hook :: "(nat, unit) ctx_storage" where
  "scope_then_hook = hook_attach 9 7 (snd (attach_context (Some 1)
     (snd (store_context_instance (native_new 5) (storage_init 1)))))"

lemma scope_then_hook_reachable:
  "reachable (\<lambda>s. \<exists>n>0. s = storage_init n) (\<lambda>s t. \<exists>opr. t = apply_storage_op plain_api opr s) scope_then_hook"
proof -
  let ?r = "reachable (\<lambda>s. \<exists>n>0. s = storage_init n) (\<lambda>s t. \<exists>opr. t = apply_storage_op plain_api opr s)"
  have step: "?r (apply_storage_op plain_api opr s)" if "?r s" for opr s
    using that by (rule reach_step) blast
  have "?r (storage_init 1 :: (nat, unit) ctx_storage)" by (rule reach_init) (auto intro: exI [of _ 1])
  from step [OF step [OF step [OF this, of "StoreInstance (native_new 5)"], of "Attach (Some 1)"], of "HookAttach 9 7"]
  show ?thesis by (simp add: scope_then_hook_def)
qed

lemma scope_then_hook_simps:
  "attached scope_then_hook = [(Some 9, 7), (None, 5)]"
  "active_stack scope_then_hook = [(1, native_new 5)]"
  by (simp_all add: scope_then_hook_def hook_attach_def attach_context_def get_context_instance_def
      store_context_instance_def storage_init_def with_active_stack_lens drop_hook_def native_new_def
      active_stack_def set_active_stack_def)

theorem current_context_consistent_witness:
  "otel_current 0 scope_then_hook = 7 \<and> fst (current_context 0 scope_then_hook) = native_new 5
   \<and> otel_context (fst (current_context 0 (hook_release 9 scope_then_hook))) =
       otel_current 0 (hook_release 9 scope_then_hook)"
proof -
  have "reachable (\<lambda>s. \<exists>n>0. s = storage_init n) (\<lambda>s t. \<exists>opr. t = apply_storage_op plain_api opr s)
      (apply_storage_op plain_api (HookRelease 9) scope_then_hook)"
    using scope_then_hook_reachable by (rule reach_step) blast
  from current_context_consistent [OF this, of 0]
    current_context_consistent [OF scope_then_hook_reachable, of 0] show ?thesis
    by (simp add: scope_then_hook_simps hook_on_top_def hook_release_def drop_hook_def)
qed

text \<open>
  So inside a hooked call under a PHP scope the two differ: what PHP code reads as current is the
  context of its scope, and what the hook has attached is only seen by code that asks the SDK.
\<close>

lemma hook_context_hidden:
  "otel_context (fst (current_context 0 scope_then_hook)) \<noteq> otel_current 0 scope_then_hook"
  by (simp add: otel_current_def current_context_def with_active_stack_lens scope_then_hook_simps native_new_def)

text \<open>
  C14. The storage implements a stack of ids per execution: a successful attach pushes on the stack of
  the current execution and a successful detach pops it, a refused call changes nothing, fork copies
  the current stack, switch selects a known fork or else the main stack, destroy forgets a fork that
  is not current. No operation touches the stack of another execution.
\<close>

theorem context_storage_refines_stacks:
  assumes "storage_inv s"
  shows "(case attach_context (Some i) s of (r, t) \<Rightarrow>
      if r = Ok () then abs_storage t = spec_update ((#) i) (abs_storage s) else t = s)
    \<and> (case detach_context api (Some i) e s of (status, t) \<Rightarrow>
      if status = 0 then abs_storage t = spec_update tl (abs_storage s)
      else t = s \<and> status \<in> {DETACHED, INACTIVE, MISMATCH})
    \<and> abs_storage (fork_execution x s) = spec_fork x (abs_storage s)
    \<and> abs_storage (switch_execution x s) = spec_switch x (abs_storage s)
    \<and> abs_storage (destroy_execution x s) = spec_destroy x (abs_storage s)"
  using abs_attach [OF assms, of i] attach_context_Err [of "Some i" s] abs_detach [OF assms, of api "Some i" e]
    abs_fork [OF assms, of x] abs_switch [of x s] abs_destroy [of x s]
  by (cases "attach_context (Some i) s") auto

theorem context_storage_refines_stacks_witness:
  "abs_storage (fork_execution ''f'' (storage_init 1 :: (nat, unit) ctx_storage))
     = spec_fork ''f'' (abs_storage (storage_init 1 :: (nat, unit) ctx_storage))"
proof -
  have "storage_inv (storage_init 1 :: (nat, unit) ctx_storage)" by (rule storage_init_inv) simp
  from context_storage_refines_stacks [OF this, of 0 plain_api None "''f''"] show ?thesis by blast
qed

text \<open>
  Scopes nest: contexts activated inside one another and detached in reverse order all detach with
  status 0, and afterwards every stack, the guards and the current execution are what they were
  before, so the context that was current is current again.
\<close>

lemma scopes_nest:
  assumes "\<forall>ob\<in>set obs. obj_state ob \<noteq> None" and "storage_inv s"
    and "instance_counter s + length obs < 2 ^ 63"
  shows "case nested api unowned obs s of (statuses, t) \<Rightarrow>
    statuses = replicate (length obs) 0
    \<and> guard_stack t = guard_stack s \<and> main_stack t = main_stack s \<and> fork_stacks t = fork_stacks s
    \<and> current_execution t = current_execution s
    \<and> fst (current_context ambient t) = fst (current_context ambient s)"
proof -
  obtain sts t where nst: "nested api unowned obs s = (sts, t)" by (cases "nested api unowned obs s")
  with nested_restores [OF assms, of api unowned] have v: "sts = replicate (length obs) 0" "stack_view t = stack_view s"
    "storage_inv t" by auto
  have "fst (current_context ambient t) = fst (current_context ambient s)"
    using active_stack_view [OF v(2)] v(2) by (intro current_context_cong) (simp_all add: stack_view_def)
  with v nst show ?thesis by (simp add: stack_view_def)
qed

text \<open>
  Detaching out of order is reported and harmless: without an id the answer is DETACHED, from
  another execution or with nothing attached INACTIVE, below the top of the stack MISMATCH, and none
  of these changes the state; a scope that has detached answers DETACHED from then on.
\<close>

lemma detach_refusals:
  "detach_context api None e s = (DETACHED, s)
   \<and> (current_execution s \<noteq> e \<or> guard_stack s = [] \<longrightarrow> detach_context api (Some i) e s = (INACTIVE, s))
   \<and> (current_execution s = e \<and> guard_stack s \<noteq> [] \<and> fst (hd (guard_stack s)) \<noteq> i \<longrightarrow>
        detach_context api (Some i) e s = (MISMATCH, s))
   \<and> (case scope_detach api unowned sc s of (status, sc', s') \<Rightarrow>
        status = 0 \<longrightarrow> scope_detach api unowned sc' t = (DETACHED, sc', t))"
  by (auto simp: detach_context_def scope_detach_def Let_def neq_Nil_conv DETACHED_def split: prod.splits)

text \<open>
  Contexts are immutable keyed stores: \<open>with\<close> returns a new object that reads the new value under
  its key, null included, and every other key as before; the object it was called on still reads as
  it did.
\<close>

lemma context_with_get:
  assumes "context_with ob h kv v s = Ok ob'"
  shows "context_get ob' l s = (if l = h then Ok v else context_get ob l s)"
proof -
  from assms obtain n where n: "(case obj_state ob of Some n \<Rightarrow> Some n
      | None \<Rightarrow> get_context_instance (get_instance_id (obj_context_id ob)) s) = Some n"
    "ob' = init_context_object (with_value h kv v n) None"
    by (auto simp: context_with_def split: option.splits)
  show ?thesis unfolding context_get_def n
    by (auto simp: init_context_object_def with_value_def context_value_def split: option.splits)
qed

text \<open>
  Appending to a scope without an offset uses a counter of its own that starts at zero: after a
  value was stored under the integer offset 0, the first append replaces it.
\<close>

lemma scope_append_overwrites:
  "offset_get dbg (ZLong 0)
     (offset_set dbg ZNull b (offset_set dbg (ZLong 0) a \<lparr>offsets = (\<lambda>_. None), next_offset = 0\<rparr>)) = b"
  by (simp add: offset_get_def offset_set_def offset_key_def show_int_def Let_def)

end
