(* ===== verification/Attributes.thy ===== *)
theory Attributes
  imports Php_Values
begin

text \<open>
  Attribute conversion and limits (\<open>util.rs\<close>): the limits read from the environment and cached for
  the request, interned keys, the conversion of PHP values and arrays to attributes, truncation by
  code points, and the limits applied to attributes made inside the extension.

  The code counts characters, not bytes: a string is cut before the code point that exceeds the
  limit. The conversion of an integer to a float (\<open>as f64\<close>) is the argument \<open>to_f64\<close>, and the
  conversions take the configuration that \<open>attribute_limits\<close> reads from the cache of the request. The warning
  about an invalid setting is logged once and has no other effect.
\<close>

section \<open>Limits\<close>

definition DEFAULT_ATTRIBUTE_COUNT_LIMIT :: nat where "DEFAULT_ATTRIBUTE_COUNT_LIMIT = 128"
definition DEFAULT_ATTRIBUTE_KEY_LENGTH_LIMIT :: nat where "DEFAULT_ATTRIBUTE_KEY_LENGTH_LIMIT = 256"
definition DEFAULT_ATTRIBUTE_ARRAY_LENGTH_LIMIT :: nat where "DEFAULT_ATTRIBUTE_ARRAY_LENGTH_LIMIT = 128"
definition MAX_CONFIGURED_LIMIT :: nat where "MAX_CONFIGURED_LIMIT = 1000000"
definition MAX_INTERNED_ATTRIBUTE_KEYS :: nat where "MAX_INTERNED_ATTRIBUTE_KEYS = 4096"

datatype attribute_destination = Span | Event | Link | Log | Metric | Scope

record attr_limits =
  limit_count :: nat
  limit_key_length :: nat
  limit_value_length :: nat
  limit_array_length :: nat

record attr_limit_config =
  span_limits :: attr_limits
  event_limits :: attr_limits
  link_limits :: attr_limits
  log_limits :: attr_limits
  metric_limits :: attr_limits
  scope_limits :: attr_limits
  max_events_per_span :: nat
  max_links_per_span :: nat

definition configured_limit :: "os_env \<Rightarrow> string \<Rightarrow> nat \<Rightarrow> nat" where
  "configured_limit env name fallback =
     (case env_var env name of
        VarOk value \<Rightarrow>
          if trim value = [] then fallback
          else (case parse_unsigned usize_max (trim value) of
              Some v \<Rightarrow> if v \<le> MAX_CONFIGURED_LIMIT then v else fallback
            | None \<Rightarrow> fallback)
      | NotPresent \<Rightarrow> fallback
      | NotUnicode \<Rightarrow> fallback)"

definition attribute_limits_from_env :: "os_env \<Rightarrow> attr_limit_config" where
  "attribute_limits_from_env env =
     (let general_count = configured_limit env ''OTEL_ATTRIBUTE_COUNT_LIMIT'' DEFAULT_ATTRIBUTE_COUNT_LIMIT;
          general_value = configured_limit env ''OTEL_ATTRIBUTE_VALUE_LENGTH_LIMIT'' usize_max;
          key_length = configured_limit env ''OTEL_PHP_ATTRIBUTE_KEY_LENGTH_LIMIT''
            DEFAULT_ATTRIBUTE_KEY_LENGTH_LIMIT;
          array_length = configured_limit env ''OTEL_PHP_ATTRIBUTE_ARRAY_LENGTH_LIMIT''
            DEFAULT_ATTRIBUTE_ARRAY_LENGTH_LIMIT;
          span_value = configured_limit env ''OTEL_SPAN_ATTRIBUTE_VALUE_LENGTH_LIMIT'' general_value;
          limits = (\<lambda>count_name value_length.
            \<lparr>limit_count = configured_limit env count_name general_count, limit_key_length = key_length,
             limit_value_length = value_length, limit_array_length = array_length\<rparr>)
      in \<lparr>span_limits = limits ''OTEL_SPAN_ATTRIBUTE_COUNT_LIMIT'' span_value,
          event_limits = limits ''OTEL_EVENT_ATTRIBUTE_COUNT_LIMIT'' span_value,
          link_limits = limits ''OTEL_LINK_ATTRIBUTE_COUNT_LIMIT'' span_value,
          log_limits = limits ''OTEL_LOGRECORD_ATTRIBUTE_COUNT_LIMIT''
            (configured_limit env ''OTEL_LOGRECORD_ATTRIBUTE_VALUE_LENGTH_LIMIT'' general_value),
          metric_limits =
            \<lparr>limit_count = usize_max, limit_key_length = usize_max, limit_value_length = usize_max,
             limit_array_length = usize_max\<rparr>,
          scope_limits =
            \<lparr>limit_count = general_count, limit_key_length = key_length,
             limit_value_length = general_value, limit_array_length = array_length\<rparr>,
          max_events_per_span = configured_limit env ''OTEL_SPAN_EVENT_COUNT_LIMIT'' 128,
          max_links_per_span = configured_limit env ''OTEL_SPAN_LINK_COUNT_LIMIT'' 128\<rparr>)"

fun for_destination :: "attr_limit_config \<Rightarrow> attribute_destination \<Rightarrow> attr_limits" where
  "for_destination c Span = span_limits c"
| "for_destination c Event = event_limits c"
| "for_destination c Link = link_limits c"
| "for_destination c Log = log_limits c"
| "for_destination c Metric = metric_limits c"
| "for_destination c Scope = scope_limits c"

text \<open>The cache of the request: resolved at its start, dropped at its end, filled on demand otherwise.\<close>

type_synonym limits_cache = "attr_limit_config option"

definition attribute_limit_config ::
  "os_env \<Rightarrow> limits_cache \<Rightarrow> attr_limit_config \<times> limits_cache" where
  "attribute_limit_config env cache =
     (case cache of
        Some config \<Rightarrow> (config, cache)
      | None \<Rightarrow> let config = attribute_limits_from_env env in (config, Some config))"

definition begin_request_attribute_limits :: "os_env \<Rightarrow> limits_cache \<Rightarrow> limits_cache" where
  "begin_request_attribute_limits env cache = Some (attribute_limits_from_env env)"

definition end_request_attribute_limits :: "limits_cache \<Rightarrow> limits_cache" where
  "end_request_attribute_limits cache = None"

definition attribute_limits ::
  "os_env \<Rightarrow> attribute_destination \<Rightarrow> limits_cache \<Rightarrow> attr_limits \<times> limits_cache" where
  "attribute_limits env destination cache =
     (let (config, cache') = attribute_limit_config env cache in (for_destination config destination, cache'))"

text \<open>\<open>SpanLimits\<close> of the SDK; the casts to \<open>u32\<close> keep the low 32 bits.\<close>

record span_sdk_limits =
  sdk_events_per_span :: "32 word"
  sdk_attributes_per_span :: "32 word"
  sdk_links_per_span :: "32 word"
  sdk_attributes_per_event :: "32 word"
  sdk_attributes_per_link :: "32 word"

definition trace_span_limits :: "attr_limit_config \<Rightarrow> span_sdk_limits" where
  "trace_span_limits config =
     \<lparr>sdk_events_per_span = of_nat (max_events_per_span config),
      sdk_attributes_per_span = of_nat (limit_count (span_limits config)),
      sdk_links_per_span = of_nat (max_links_per_span config),
      sdk_attributes_per_event = of_nat (limit_count (event_limits config)),
      sdk_attributes_per_link = of_nat (limit_count (link_limits config))\<rparr>"

text \<open>Interned keys: the table of the thread is bounded; the text of the key is the same either way.\<close>

definition intern_attribute_key :: "nat \<Rightarrow> string \<Rightarrow> string set \<Rightarrow> string \<times> string set" where
  "intern_attribute_key capacity name table =
     (if name \<in> table then (name, table)
      else if card table \<ge> capacity then (name, table)
      else (name, insert name table))"

definition attribute_key :: "string \<Rightarrow> string set \<Rightarrow> string \<times> string set" where
  "attribute_key name table = intern_attribute_key MAX_INTERNED_ATTRIBUTE_KEYS name table"

text \<open>The process-wide table of scope names, which only grows.\<close>

definition intern :: "string \<Rightarrow> string set \<Rightarrow> string \<times> string set" where
  "intern value interned = (if value \<in> interned then (value, interned) else (value, insert value interned))"

section \<open>Arguments of a handler\<close>

text \<open>Positional access; the error carries the number of the argument that is missing.\<close>

definition missing_argument :: "nat \<Rightarrow> nat \<Rightarrow> nat \<times> nat" where
  "missing_argument index given = (index + 1, given)"

definition arg :: "'a list \<Rightarrow> nat \<Rightarrow> (nat \<times> nat) + 'a" where
  "arg arguments index =
     (if index < length arguments then Inr (arguments ! index)
      else Inl (missing_argument index (length arguments)))"

section \<open>Conversion\<close>

datatype 'f otel_array = ABool "bool list" | AI64 "int list" | AF64 "'f list" | AString "string list"

datatype 'f otel_value = VBool bool | VI64 int | VF64 'f | VString string | VArray "'f otel_array"

type_synonym 'f key_value = "string \<times> 'f otel_value"

definition char_count :: "string \<Rightarrow> nat" where
  "char_count s = length (utf8_chars s)"

definition valid_attribute_key :: "string \<Rightarrow> attr_limits \<Rightarrow> bool" where
  "valid_attribute_key key limits \<longleftrightarrow> key \<noteq> [] \<and> char_count key \<le> limit_key_length limits"

definition truncate_string :: "string \<Rightarrow> nat \<Rightarrow> string" where
  "truncate_string value max_chars =
     (if max_chars = usize_max then value
      else if length (utf8_chars value) \<le> max_chars then value
      else concat (take max_chars (utf8_chars value)))"

datatype 'f array_kind =
  KEmpty
| KString "string list"
| KInteger "int list"
| KNumeric "'f list"
| KBoolean "bool list"

definition push_if :: "bool \<Rightarrow> 'a \<Rightarrow> 'a list \<Rightarrow> 'a list" where
  "push_if room x xs = (if room then xs @ [x] else xs)"

text \<open>One element of the loop of \<open>zval_to_vec\<close>; \<open>None\<close> drops the whole attribute.\<close>

definition array_step ::
  "(int \<Rightarrow> 'f) \<Rightarrow> attr_limits \<Rightarrow> nat \<Rightarrow> 'f array_kind \<Rightarrow> 'f zval \<Rightarrow> 'f array_kind option" where
  "array_step to_f64 limits seen kind v =
     (let room = (seen \<le> limit_array_length limits) in
      case v of
        ZStr b \<Rightarrow>
          (case to_str b of
             None \<Rightarrow> None
           | Some s \<Rightarrow>
               let t = truncate_string s (limit_value_length limits) in
               (case kind of
                  KEmpty \<Rightarrow> Some (KString (push_if room t []))
                | KString values \<Rightarrow> Some (KString (push_if room t values))
                | _ \<Rightarrow> None))
      | ZLong i \<Rightarrow>
          (case kind of
             KEmpty \<Rightarrow> Some (KInteger (push_if room i []))
           | KInteger values \<Rightarrow> Some (KInteger (push_if room i values))
           | KNumeric values \<Rightarrow> Some (KNumeric (push_if room (to_f64 i) values))
           | _ \<Rightarrow> None)
      | ZDouble d \<Rightarrow>
          (case kind of
             KEmpty \<Rightarrow> Some (KNumeric (push_if room d []))
           | KInteger values \<Rightarrow> Some (KNumeric (push_if room d (map to_f64 values)))
           | KNumeric values \<Rightarrow> Some (KNumeric (push_if room d values))
           | _ \<Rightarrow> None)
      | ZBool b \<Rightarrow>
          (case kind of
             KEmpty \<Rightarrow> Some (KBoolean (push_if room b []))
           | KBoolean values \<Rightarrow> Some (KBoolean (push_if room b values))
           | _ \<Rightarrow> None)
      | _ \<Rightarrow> None)"

fun array_loop ::
  "(int \<Rightarrow> 'f) \<Rightarrow> attr_limits \<Rightarrow> nat \<Rightarrow> 'f array_kind \<Rightarrow> 'f zval list \<Rightarrow> 'f array_kind option" where
  "array_loop to_f64 limits seen kind [] = Some kind"
| "array_loop to_f64 limits seen kind (v # vs) =
     (case array_step to_f64 limits (seen + 1) kind v of
        None \<Rightarrow> None
      | Some kind' \<Rightarrow> array_loop to_f64 limits (seen + 1) kind' vs)"

fun array_of_kind :: "'f array_kind \<Rightarrow> 'f otel_array" where
  "array_of_kind KEmpty = AString []"
| "array_of_kind (KString values) = AString values"
| "array_of_kind (KInteger values) = AI64 values"
| "array_of_kind (KNumeric values) = AF64 values"
| "array_of_kind (KBoolean values) = ABool values"

definition zval_to_vec ::
  "(int \<Rightarrow> 'f) \<Rightarrow> string \<Rightarrow> (zkey \<times> 'f zval) list \<Rightarrow> attr_limits \<Rightarrow> 'f key_value option" where
  "zval_to_vec to_f64 key arr limits =
     map_option (\<lambda>kind. (key, VArray (array_of_kind kind)))
       (array_loop to_f64 limits 0 KEmpty (map snd arr))"

definition zval_to_key_value ::
  "(int \<Rightarrow> 'f) \<Rightarrow> attr_limit_config \<Rightarrow> attribute_destination \<Rightarrow> string \<Rightarrow> 'f zval \<Rightarrow> 'f key_value option" where
  "zval_to_key_value to_f64 config destination key v =
     (let limits = for_destination config destination in
      if \<not> valid_attribute_key key limits then None
      else case v of
          ZStr b \<Rightarrow> map_option (\<lambda>s. (key, VString (truncate_string s (limit_value_length limits)))) (to_str b)
        | ZLong i \<Rightarrow> Some (key, VI64 i)
        | ZDouble d \<Rightarrow> Some (key, VF64 d)
        | ZBool b \<Rightarrow> Some (key, VBool b)
        | ZArr arr \<Rightarrow> zval_to_vec to_f64 key arr limits
        | _ \<Rightarrow> None)"

text \<open>The loop over a PHP array; \<open>acc\<close> holds the attributes made so far. Integer keys are skipped.\<close>

fun key_value_loop ::
  "(int \<Rightarrow> 'f) \<Rightarrow> attr_limit_config \<Rightarrow> attribute_destination \<Rightarrow> 'f key_value list \<Rightarrow>
     (zkey \<times> 'f zval) list \<Rightarrow> 'f key_value list" where
  "key_value_loop to_f64 config destination acc [] = acc"
| "key_value_loop to_f64 config destination acc ((KIndex i, v) # rest) =
     key_value_loop to_f64 config destination acc rest"
| "key_value_loop to_f64 config destination acc ((KStr b, v) # rest) =
     (case to_str b of
        None \<Rightarrow> key_value_loop to_f64 config destination acc rest
      | Some key \<Rightarrow>
          (case zval_to_key_value to_f64 config destination key v of
             None \<Rightarrow> key_value_loop to_f64 config destination acc rest
           | Some kv \<Rightarrow>
               let acc' = acc @ [kv] in
               if length acc' = limit_count (for_destination config destination) then acc'
               else key_value_loop to_f64 config destination acc' rest))"

definition zval_arr_to_key_value_vec ::
  "(int \<Rightarrow> 'f) \<Rightarrow> attr_limit_config \<Rightarrow> (zkey \<times> 'f zval) list \<Rightarrow> attribute_destination \<Rightarrow> 'f key_value list" where
  "zval_arr_to_key_value_vec to_f64 config arr destination =
     (if limit_count (for_destination config destination) = 0 then []
      else key_value_loop to_f64 config destination [] arr)"

text \<open>Attributes that do not come from PHP values.\<close>

fun limit_value :: "'f otel_value \<Rightarrow> attr_limits \<Rightarrow> 'f otel_value" where
  "limit_value (VString s) limits = VString (truncate_string s (limit_value_length limits))"
| "limit_value (VArray (AString ss)) limits =
     VArray (AString (map (\<lambda>s. truncate_string s (limit_value_length limits)) (take (limit_array_length limits) ss)))"
| "limit_value (VArray (ABool bs)) limits = VArray (ABool (take (limit_array_length limits) bs))"
| "limit_value (VArray (AI64 ints)) limits = VArray (AI64 (take (limit_array_length limits) ints))"
| "limit_value (VArray (AF64 fs)) limits = VArray (AF64 (take (limit_array_length limits) fs))"
| "limit_value v limits = v"

definition limit_key_values ::
  "attr_limit_config \<Rightarrow> 'f key_value list \<Rightarrow> attribute_destination \<Rightarrow> 'f key_value list" where
  "limit_key_values config kvs destination =
     (let limits = for_destination config destination in
      take (limit_count limits)
        (List.map_filter (\<lambda>(k, v). if valid_attribute_key k limits then Some (k, limit_value v limits) else None) kvs))"

section \<open>Truncation\<close>

definition fits :: "nat \<Rightarrow> string \<Rightarrow> bool" where
  "fits n s \<longleftrightarrow> n = usize_max \<or> char_count s \<le> n"

lemma truncate_fits: "fits n (truncate_string s n)"
  by (auto simp: fits_def truncate_string_def char_count_def utf8_chars_concat_take)

lemma truncate_id: "fits n s \<Longrightarrow> truncate_string s n = s"
  by (auto simp: fits_def truncate_string_def char_count_def)

lemma truncate_prefix: "prefix (truncate_string s n) s"
proof -
  have "prefix (concat (take n (utf8_chars s))) (concat (take n (utf8_chars s)) @ concat (drop n (utf8_chars s)))"
    by (rule prefixI) (rule refl)
  then have "prefix (concat (take n (utf8_chars s))) (concat (utf8_chars s))"
    unfolding concat_append [symmetric] append_take_drop_id .
  then show ?thesis by (simp add: truncate_string_def)
qed

lemma truncate_valid: "valid_utf8 s \<Longrightarrow> valid_utf8 (truncate_string s n)"
  by (simp add: truncate_string_def valid_utf8_take)

section \<open>Array conversion against a reference\<close>

fun utf8_text :: "'f zval \<Rightarrow> string option" where
  "utf8_text (ZStr b) = to_str b"
| "utf8_text v = None"

fun long_of :: "'f zval \<Rightarrow> int option" where
  "long_of (ZLong i) = Some i"
| "long_of v = None"

fun number_of :: "(int \<Rightarrow> 'f) \<Rightarrow> 'f zval \<Rightarrow> 'f option" where
  "number_of to_f64 (ZLong i) = Some (to_f64 i)"
| "number_of to_f64 (ZDouble d) = Some d"
| "number_of to_f64 v = None"

fun bool_of :: "'f zval \<Rightarrow> bool option" where
  "bool_of (ZBool b) = Some b"
| "bool_of v = None"

definition all_of :: "('a \<Rightarrow> 'b option) \<Rightarrow> 'a list \<Rightarrow> 'b list option" where
  "all_of f xs = (if \<forall>x\<in>set xs. f x \<noteq> None then Some (map (\<lambda>x. the (f x)) xs) else None)"

text \<open>
  The reference: an array is converted when all its values are strings, all integers, all numbers, or
  all booleans, in this order, and is then cut to the array limit.
\<close>

definition reference_kind :: "(int \<Rightarrow> 'f) \<Rightarrow> attr_limits \<Rightarrow> 'f zval list \<Rightarrow> 'f array_kind option" where
  "reference_kind to_f64 limits vs =
     (let n = limit_array_length limits in
      if vs = [] then Some KEmpty
      else case all_of utf8_text vs of
          Some ss \<Rightarrow> Some (KString (take n (map (\<lambda>s. truncate_string s (limit_value_length limits)) ss)))
        | None \<Rightarrow>
        (case all_of long_of vs of
           Some ints \<Rightarrow> Some (KInteger (take n ints))
         | None \<Rightarrow>
         (case all_of (number_of to_f64) vs of
            Some fs \<Rightarrow> Some (KNumeric (take n fs))
          | None \<Rightarrow> map_option (\<lambda>bs. KBoolean (take n bs)) (all_of bool_of vs))))"

lemma push_if_take: "push_if (length xs + 1 \<le> n) x (take n xs) = take n (xs @ [x])"
  by (auto simp: push_if_def)

lemma all_of_snoc:
  "all_of f (xs @ [x]) =
     (case all_of f xs of None \<Rightarrow> None | Some ys \<Rightarrow> map_option (\<lambda>y. ys @ [y]) (f x))"
  by (auto simp: all_of_def)

lemma all_of_Some_length: "all_of f xs = Some ys \<Longrightarrow> length ys = length xs"
  by (auto simp: all_of_def split: if_splits)

lemma all_of_Nil [simp]: "all_of f [] = Some []"
  by (simp add: all_of_def)

lemma all_of_exclusive:
  "xs \<noteq> [] \<Longrightarrow> all_of f xs = Some ys \<Longrightarrow> (\<And>x. f x \<noteq> None \<Longrightarrow> g x = None) \<Longrightarrow> all_of g xs = None"
  by (cases xs) (auto simp: all_of_def split: if_splits)

lemma all_of_longs_numbers:
  "all_of long_of xs = Some ints \<Longrightarrow> all_of (number_of t) xs = Some (map t ints)"
proof -
  assume a: "all_of long_of xs = Some ints"
  have *: "long_of x \<noteq> None \<Longrightarrow> number_of t x = Some (t (the (long_of x)))" for x :: "'a zval" by (cases x) auto
  from a have all: "\<forall>x\<in>set xs. long_of x \<noteq> None" and eq: "ints = map (\<lambda>x. the (long_of x)) xs"
    by (auto simp: all_of_def split: if_splits)
  with * show ?thesis by (auto simp: all_of_def)
qed

lemma reference_kind_None: "reference_kind t l vs = None \<Longrightarrow> reference_kind t l (vs @ ws) = None"
proof -
  assume "reference_kind t l vs = None"
  then have "vs \<noteq> []" and "all_of utf8_text vs = None" and "all_of long_of vs = None"
    and "all_of (number_of t) vs = None" and "all_of bool_of vs = None"
    by (auto simp: reference_kind_def Let_def split: if_splits option.splits)
  then have "all_of utf8_text (vs @ ws) = None" "all_of long_of (vs @ ws) = None"
    "all_of (number_of t) (vs @ ws) = None" "all_of bool_of (vs @ ws) = None"
    by (auto simp: all_of_def split: if_splits)
  then show ?thesis using \<open>vs \<noteq> []\<close> by (simp add: reference_kind_def)
qed

lemma array_step_start: "array_step t l (Suc 0) KEmpty v = reference_kind t l [v]"
  by (cases v) (auto simp: array_step_def reference_kind_def all_of_def push_if_def Let_def to_str_def)

lemma array_step_reference:
  assumes "reference_kind t l ps = Some kind"
  shows "array_step t l (length ps + 1) kind v = reference_kind t l (ps @ [v])"
proof (cases "ps = []")
  case True
  then show ?thesis using assms array_step_start by (simp add: reference_kind_def)
next
  case False
  let ?n = "limit_array_length l" and ?cut = "\<lambda>s. truncate_string s (limit_value_length l)"
  consider (S) ss where "all_of utf8_text ps = Some ss" | (I) ints where "all_of long_of ps = Some ints"
    | (N) fs where "all_of (number_of t) ps = Some fs" "all_of long_of ps = None"
    | (B) bs where "all_of bool_of ps = Some bs"
    using assms False by (auto simp: reference_kind_def Let_def split: if_splits option.splits)
  then show ?thesis
  proof cases
    case S
    have none: "all_of long_of ps = None" "all_of (number_of t) ps = None" "all_of bool_of ps = None"
      by (rule all_of_exclusive [OF False S], case_tac x; simp)+
    have kind: "kind = KString (take ?n (map ?cut ss))" using assms False S by (simp add: reference_kind_def)
    have len: "length (map ?cut ss) = length ps" using all_of_Some_length [OF S] by simp
    show ?thesis
      by (cases v) (simp_all add: kind Let_def to_str_def array_step_def reference_kind_def all_of_snoc S none False
          push_if_take [of "map ?cut ss", unfolded len, simplified] split: option.split)
  next
    case I
    have none: "all_of utf8_text ps = None" "all_of bool_of ps = None"
      by (rule all_of_exclusive [OF False I], case_tac x; simp)+
    have kind: "kind = KInteger (take ?n ints)" using assms False I none by (simp add: reference_kind_def)
    have len: "length ints = length ps" using all_of_Some_length [OF I] by simp
    have nums: "all_of (number_of t) ps = Some (map t ints)" by (rule all_of_longs_numbers [OF I])
    show ?thesis
      by (cases v) (simp_all add: kind Let_def array_step_def reference_kind_def all_of_snoc I none nums False take_map [symmetric]
          push_if_take [of ints, unfolded len, simplified]
          push_if_take [of "map t ints", unfolded length_map len, simplified] split: option.split)
  next
    case N
    have none: "all_of utf8_text ps = None" "all_of bool_of ps = None"
      by (rule all_of_exclusive [OF False N(1)], case_tac x; simp)+
    have kind: "kind = KNumeric (take ?n fs)" using assms False N none by (simp add: reference_kind_def)
    have len: "length fs = length ps" using all_of_Some_length [OF N(1)] by simp
    show ?thesis
      by (cases v) (simp_all add: kind Let_def array_step_def reference_kind_def all_of_snoc N none False
          push_if_take [of fs, unfolded len, simplified] split: option.split)
  next
    case B
    have none: "all_of utf8_text ps = None" "all_of long_of ps = None" "all_of (number_of t) ps = None"
      by (rule all_of_exclusive [OF False B], case_tac x; simp)+
    have kind: "kind = KBoolean (take ?n bs)" using assms False B none by (simp add: reference_kind_def)
    have len: "length bs = length ps" using all_of_Some_length [OF B] by simp
    show ?thesis
      by (cases v) (simp_all add: kind Let_def array_step_def reference_kind_def all_of_snoc B none False
          push_if_take [of bs, unfolded len, simplified] split: option.split)
  qed
qed

lemma array_loop_reference:
  "reference_kind t l ps = Some kind \<Longrightarrow> array_loop t l (length ps) kind vs = reference_kind t l (ps @ vs)"
proof (induction vs arbitrary: ps kind)
  case (Cons v vs)
  have step: "array_step t l (length ps + 1) kind v = reference_kind t l (ps @ [v])"
    by (rule array_step_reference [OF Cons.prems])
  show ?case
  proof (cases "reference_kind t l (ps @ [v])")
    case None
    with step reference_kind_None [OF None, of vs] show ?thesis by simp
  next
    case (Some kind')
    with step Cons.IH [OF Some] show ?thesis by simp
  qed
qed simp

section \<open>Conversion of a PHP array\<close>

text \<open>The attribute an entry gives, if any.\<close>

fun convert_entry ::
  "(int \<Rightarrow> 'f) \<Rightarrow> attr_limit_config \<Rightarrow> attribute_destination \<Rightarrow> zkey \<times> 'f zval \<Rightarrow> 'f key_value option" where
  "convert_entry to_f64 config destination (KIndex i, v) = None"
| "convert_entry to_f64 config destination (KStr b, v) =
     Option.bind (to_str b) (\<lambda>key. zval_to_key_value to_f64 config destination key v)"

lemma key_value_loop_take:
  assumes "length acc < limit_count (for_destination c d)"
  shows "key_value_loop t c d acc arr =
    acc @ take (limit_count (for_destination c d) - length acc) (List.map_filter (convert_entry t c d) arr)"
  using assms
proof (induction t c d acc arr rule: key_value_loop.induct)
  case (1 t c d acc)
  show ?case by (simp add: map_filter_simps)
next
  case (2 t c d acc i v rest)
  then show ?case by (simp add: map_filter_simps)
next
  case (3 t c d acc b v rest)
  let ?n = "limit_count (for_destination c d)"
  show ?case
  proof (cases "to_str b")
    case None
    with 3 show ?thesis by (simp add: map_filter_simps)
  next
    case key: (Some key)
    show ?thesis
    proof (cases "zval_to_key_value t c d key v")
      case None
      with 3 key show ?thesis by (simp add: map_filter_simps to_str_def)
    next
      case (Some kv)
      show ?thesis
      proof (cases "Suc (length acc) = ?n")
        case True
        then have "?n - length acc = Suc 0" by simp
        with True key Some show ?thesis by (simp add: map_filter_simps to_str_def)
      next
        case False
        with "3.prems" have "Suc (length acc) < ?n" by simp
        moreover obtain m where "?n - length acc = Suc m" and "?n - Suc (length acc) = m"
          using "3.prems" by (metis Suc_diff_Suc)
        ultimately show ?thesis using "3.IH"(3) [OF key Some refl] False key Some by (simp add: map_filter_simps to_str_def)
      qed
    qed
  qed
qed

lemma zval_arr_to_key_value_vec_take:
  "zval_arr_to_key_value_vec t c arr d =
     take (limit_count (for_destination c d)) (List.map_filter (convert_entry t c d) arr)"
  by (simp add: zval_arr_to_key_value_vec_def key_value_loop_take)

fun value_within :: "attr_limits \<Rightarrow> 'f otel_value \<Rightarrow> bool" where
  "value_within l (VString s) \<longleftrightarrow> fits (limit_value_length l) s \<and> valid_utf8 s"
| "value_within l (VArray (AString ss)) \<longleftrightarrow>
     length ss \<le> limit_array_length l \<and> list_all (\<lambda>s. fits (limit_value_length l) s \<and> valid_utf8 s) ss"
| "value_within l (VArray (ABool bs)) \<longleftrightarrow> length bs \<le> limit_array_length l"
| "value_within l (VArray (AI64 ints)) \<longleftrightarrow> length ints \<le> limit_array_length l"
| "value_within l (VArray (AF64 fs)) \<longleftrightarrow> length fs \<le> limit_array_length l"
| "value_within l v \<longleftrightarrow> True"

definition within_limits :: "attr_limits \<Rightarrow> 'f key_value \<Rightarrow> bool" where
  "within_limits l kv \<longleftrightarrow> valid_attribute_key (fst kv) l \<and> valid_utf8 (fst kv) \<and> value_within l (snd kv)"

lemma limit_value_within: "value_within l v \<Longrightarrow> limit_value v l = v"
  by (induction v l rule: limit_value.induct) (auto simp: truncate_id list_all_iff intro!: map_idI)

lemma reference_kind_within:
  assumes "reference_kind t l vs = Some kind"
  shows "value_within l (VArray (array_of_kind kind))"
proof -
  have strings: "all_of utf8_text vs = Some ss \<Longrightarrow> \<forall>s\<in>set ss. valid_utf8 s" for ss
  proof -
    have "utf8_text v = Some s \<Longrightarrow> valid_utf8 s" for v :: "'a zval" and s
      by (cases v) (auto simp: to_str_def split: if_splits)
    then show "all_of utf8_text vs = Some ss \<Longrightarrow> \<forall>s\<in>set ss. valid_utf8 s"
      by (fastforce simp: all_of_def split: if_splits)
  qed
  from assms show ?thesis
    by (auto simp: reference_kind_def Let_def list_all_iff truncate_fits truncate_valid
        dest!: in_set_takeD strings split: if_splits option.splits)
qed

lemma zval_to_vec_kind: 
  "zval_to_vec t key arr l = map_option (\<lambda>kind. (key, VArray (array_of_kind kind))) (reference_kind t l (map snd arr))"
  using array_loop_reference [of t l "[]" KEmpty "map snd arr"]
  by (simp add: zval_to_vec_def reference_kind_def)

lemma convert_entry_within:
  assumes "convert_entry t c d e = Some kv"
  shows "within_limits (for_destination c d) kv"
proof -
  obtain k v where e: "e = (k, v)" by (cases e)
  obtain b where k: "k = KStr b" using assms e by (cases k) auto
  from assms e k have b: "valid_utf8 b" and kv: "zval_to_key_value t c d b v = Some kv"
    by (auto simp: to_str_def split: if_splits)
  from kv have valid: "valid_attribute_key b (for_destination c d)"
    by (auto simp: zval_to_key_value_def Let_def split: if_splits)
  show ?thesis using kv valid b
    by (cases v) (auto simp: zval_to_key_value_def Let_def within_limits_def zval_to_vec_kind to_str_def
        truncate_fits truncate_valid reference_kind_within split: if_splits)
qed

lemma converted_within:
  "kv \<in> set (zval_arr_to_key_value_vec t c arr d) \<Longrightarrow> within_limits (for_destination c d) kv"
  unfolding zval_arr_to_key_value_vec_take
  by (drule in_set_takeD) (auto simp: List.map_filter_def dest: convert_entry_within)

lemma limit_key_values_within:
  assumes "\<forall>kv\<in>set kvs. within_limits (for_destination c d) kv" "length kvs \<le> limit_count (for_destination c d)"
  shows "limit_key_values c kvs d = kvs"
proof -
  let ?l = "for_destination c d"
  have "List.map_filter (\<lambda>(k, v). if valid_attribute_key k ?l then Some (k, limit_value v ?l) else None) kvs = kvs"
    using assms(1) by (induction kvs) (auto simp: map_filter_simps within_limits_def limit_value_within)
  with assms(2) show ?thesis by (simp add: limit_key_values_def)
qed

text \<open>Attributes of well-formed texts are within the limits once these have been applied.\<close>

fun value_utf8 :: "'f otel_value \<Rightarrow> bool" where
  "value_utf8 (VString s) \<longleftrightarrow> valid_utf8 s"
| "value_utf8 (VArray (AString ss)) \<longleftrightarrow> list_all valid_utf8 ss"
| "value_utf8 v \<longleftrightarrow> True"

lemma value_within_utf8: "value_within l v \<Longrightarrow> value_utf8 v"
  by (induction l v rule: value_within.induct) (auto simp: list_all_iff)

lemma limit_value_sound: "value_utf8 v \<Longrightarrow> value_within l (limit_value v l)"
  by (induction v l rule: limit_value.induct) (auto simp: list_all_iff truncate_fits truncate_valid dest: in_set_takeD)

lemma limit_key_values_sound:
  assumes "\<And>k v. (k, v) \<in> set kvs \<Longrightarrow> valid_utf8 k \<and> value_utf8 v"
  shows "list_all (within_limits (for_destination c d)) (limit_key_values c kvs d)
    \<and> length (limit_key_values c kvs d) \<le> limit_count (for_destination c d)"
  using assms
  by (auto simp: limit_key_values_def Let_def list_all_iff List.map_filter_def within_limits_def limit_value_sound
      dest!: in_set_takeD split: if_splits)

lemma zval_to_key_value_within:
  "zval_to_key_value t c d key v = Some kv \<Longrightarrow> valid_utf8 key \<Longrightarrow> within_limits (for_destination c d) kv"
  using convert_entry_within [of t c d "(KStr key, v)" kv] by (simp add: to_str_def)

lemma converted_length: "length (zval_arr_to_key_value_vec t c arr d) \<le> limit_count (for_destination c d)"
  by (simp add: zval_arr_to_key_value_vec_take)

section \<open>Limits of a request\<close>

lemma configured_limit_cases: "configured_limit env name fallback = fallback \<or> configured_limit env name fallback \<le> MAX_CONFIGURED_LIMIT"
  by (simp add: configured_limit_def split: var_result.splits option.splits)

lemma configured_limit_le: "fallback \<le> MAX_CONFIGURED_LIMIT \<Longrightarrow> configured_limit env name fallback \<le> MAX_CONFIGURED_LIMIT"
  using configured_limit_cases [of env name fallback] by auto

lemma unat_of_nat_u32: "n \<le> MAX_CONFIGURED_LIMIT \<Longrightarrow> unat (of_nat n :: 32 word) = n"
  by (simp add: MAX_CONFIGURED_LIMIT_def unat_of_nat take_bit_nat_eq_self)

interpretation limits_cache: request_cache
  begin_request_attribute_limits end_request_attribute_limits attribute_limit_config attribute_limits_from_env
  by unfold_locales
    (simp_all add: begin_request_attribute_limits_def end_request_attribute_limits_def attribute_limit_config_def Let_def)

lemma default_limits_le:
  "DEFAULT_ATTRIBUTE_COUNT_LIMIT \<le> MAX_CONFIGURED_LIMIT" "128 \<le> MAX_CONFIGURED_LIMIT"
  by (simp_all add: DEFAULT_ATTRIBUTE_COUNT_LIMIT_def MAX_CONFIGURED_LIMIT_def)

lemma limits_from_env_le:
  "limit_count (span_limits (attribute_limits_from_env env)) \<le> MAX_CONFIGURED_LIMIT"
  "limit_count (event_limits (attribute_limits_from_env env)) \<le> MAX_CONFIGURED_LIMIT"
  "limit_count (link_limits (attribute_limits_from_env env)) \<le> MAX_CONFIGURED_LIMIT"
  "max_events_per_span (attribute_limits_from_env env) \<le> MAX_CONFIGURED_LIMIT"
  "max_links_per_span (attribute_limits_from_env env) \<le> MAX_CONFIGURED_LIMIT"
  by (simp_all add: attribute_limits_from_env_def Let_def configured_limit_le default_limits_le)

lemma intern_attribute_key_bounded:
  "finite table \<Longrightarrow> card table \<le> capacity \<Longrightarrow>
     fst (intern_attribute_key capacity name table) = name
     \<and> card (snd (intern_attribute_key capacity name table)) \<le> capacity"
  by (auto simp: intern_attribute_key_def card_insert_if)

section \<open>Properties\<close>

text \<open>
  C19. An array of values is converted as its reference says: when all its values are well-formed
  strings, all integers, all numbers (then every integer is converted to a float), or all booleans,
  the attribute holds the first \<open>array_length\<close> of them, in order, with each string cut to
  \<open>value_length\<close> characters; every other array gives no attribute at all, even if the value that
  does not fit stands after the limit.
\<close>

theorem zval_to_vec_reference:
  "zval_to_vec to_f64 key arr limits =
     map_option (\<lambda>kind. (key, VArray (array_of_kind kind))) (reference_kind to_f64 limits (map snd arr))"
  by (rule zval_to_vec_kind)

text \<open>
  C18. Whatever array PHP code passes as attributes, the result is the first \<open>count\<close> attributes its
  convertible entries give, in order; each has a nonempty key of at most \<open>key_length\<close> characters and
  a value within the value and array limits, every string is well-formed UTF-8 (a cut never splits a
  code point), and applying the limits a second time changes nothing.
\<close>

theorem attributes_within_limits:
  "zval_arr_to_key_value_vec to_f64 config arr destination =
     take (limit_count (for_destination config destination)) (List.map_filter (convert_entry to_f64 config destination) arr)
   \<and> list_all (within_limits (for_destination config destination))
       (zval_arr_to_key_value_vec to_f64 config arr destination)
   \<and> limit_key_values config (zval_arr_to_key_value_vec to_f64 config arr destination) destination =
       zval_arr_to_key_value_vec to_f64 config arr destination"
proof -
  have "length (zval_arr_to_key_value_vec to_f64 config arr destination) \<le> limit_count (for_destination config destination)"
    by (simp add: zval_arr_to_key_value_vec_take)
  then show ?thesis
    by (intro conjI limit_key_values_within zval_arr_to_key_value_vec_take)
      (auto simp: list_all_iff converted_within)
qed

text \<open>
  The limits of a request are resolved once: however the environment changes while the request
  runs, every read gives the limits of the environment it began with, and the numbers handed to the
  SDK's \<open>SpanLimits\<close> are those limits exactly, since no configured count exceeds 1,000,000 and the
  casts to \<open>u32\<close> lose nothing.
\<close>

lemma request_limits_stable:
  "limits_cache.reads envs (begin_request_attribute_limits env cache) =
     (replicate (length envs) (attribute_limits_from_env env), begin_request_attribute_limits env cache)
   \<and> unat (sdk_attributes_per_span (trace_span_limits (attribute_limits_from_env env))) =
       limit_count (for_destination (attribute_limits_from_env env) Span)
   \<and> unat (sdk_attributes_per_event (trace_span_limits (attribute_limits_from_env env))) =
       limit_count (for_destination (attribute_limits_from_env env) Event)
   \<and> unat (sdk_attributes_per_link (trace_span_limits (attribute_limits_from_env env))) =
       limit_count (for_destination (attribute_limits_from_env env) Link)
   \<and> unat (sdk_events_per_span (trace_span_limits (attribute_limits_from_env env))) =
       max_events_per_span (attribute_limits_from_env env)
   \<and> unat (sdk_links_per_span (trace_span_limits (attribute_limits_from_env env))) =
       max_links_per_span (attribute_limits_from_env env)"
  by (intro conjI limits_cache.reads_begin)
    (simp_all add: trace_span_limits_def unat_of_nat_u32 limits_from_env_le)

end
