(* ===== verification/Diagnostics.thy ===== *)
theory Diagnostics
  imports Attributes
begin

text \<open>
  What the extension records about failures: contained panics (\<open>panic.rs\<close>), exceptions and fatal errors
  as attributes (\<open>error.rs\<close>), and the switch that keeps messages, stack traces and the private parts of
  URLs out of telemetry (\<open>config/sensitive_data.rs\<close>).

  The \<open>url\<close> crate is an argument (record \<open>url_api\<close>); an exception is given by what its methods return.
\<close>

section \<open>The sensitive-data switch\<close>

record capture_state =
  request_capture :: "bool option"
  invalid_value_warned :: bool

definition CAPTURE_SENSITIVE_DATA :: string where
  "CAPTURE_SENSITIVE_DATA = ''OTEL_PHP_CAPTURE_SENSITIVE_DATA''"

text \<open>\<open>from_env\<close>: the value, and whether a warning about an invalid value is due.\<close>

definition capture_from_env :: "os_env \<Rightarrow> bool \<times> bool" where
  "capture_from_env env =
     (case env_var env CAPTURE_SENSITIVE_DATA of
        VarOk v \<Rightarrow>
          if eq_ignore_ascii_case v ''true'' then (True, False)
          else if v = [] \<or> eq_ignore_ascii_case v ''false'' then (False, False)
          else (False, True)
      | NotPresent \<Rightarrow> (False, False)
      | NotUnicode \<Rightarrow> (False, True))"

definition read_capture :: "os_env \<Rightarrow> capture_state \<Rightarrow> bool \<times> capture_state" where
  "read_capture env s =
     (let (v, warn) = capture_from_env env
      in (v, s\<lparr>invalid_value_warned := invalid_value_warned s \<or> warn\<rparr>))"

definition capture_begin_request :: "os_env \<Rightarrow> capture_state \<Rightarrow> capture_state" where
  "capture_begin_request env s = (let (v, s') = read_capture env s in s'\<lparr>request_capture := Some v\<rparr>)"

definition capture_end_request :: "capture_state \<Rightarrow> capture_state" where
  "capture_end_request s = s\<lparr>request_capture := None\<rparr>"

definition capture :: "os_env \<Rightarrow> capture_state \<Rightarrow> bool \<times> capture_state" where
  "capture env s =
     (case request_capture s of
        Some v \<Rightarrow> (v, s)
      | None \<Rightarrow> let (v, s') = read_capture env s in (v, s'\<lparr>request_capture := Some v\<rparr>))"

section \<open>URLs\<close>

text \<open>\<open>url::Url\<close>; the setters of user name and password fail on a URL that cannot have them.\<close>

record 'u url_api =
  url_parse :: "string \<Rightarrow> 'u option"
  url_set_username :: "string \<Rightarrow> 'u \<Rightarrow> 'u option"
  url_set_password :: "string option \<Rightarrow> 'u \<Rightarrow> 'u option"
  url_set_query :: "string option \<Rightarrow> 'u \<Rightarrow> 'u"
  url_set_fragment :: "string option \<Rightarrow> 'u \<Rightarrow> 'u"
  url_to_string :: "'u \<Rightarrow> string"

definition sanitize_url_value :: "('u, 'm) url_api_scheme \<Rightarrow> string \<Rightarrow> bool \<Rightarrow> string" where
  "sanitize_url_value api v cap =
     (if cap then v
      else case url_parse api v of
          Some url \<Rightarrow>
            let url = (case url_set_username api [] url of Some u \<Rightarrow> u | None \<Rightarrow> url);
                url = (case url_set_password api None url of Some u \<Rightarrow> u | None \<Rightarrow> url)
            in url_to_string api (url_set_fragment api None (url_set_query api None url))
        | None \<Rightarrow> hd (split_by (\<lambda>c. c = CHR ''?'' \<or> c = CHR ''#'') v))"

definition sanitize_url ::
  "('u, 'm) url_api_scheme \<Rightarrow> os_env \<Rightarrow> string \<Rightarrow> capture_state \<Rightarrow> string \<times> capture_state" where
  "sanitize_url api env v s = (let (cap, s') = capture env s in (sanitize_url_value api v cap, s'))"

section \<open>Exceptions and errors as attributes\<close>

record 'f throwable =
  get_message :: "(php_error, 'f zval) result"
  class_name :: bytes
  get_trace_as_string :: "(php_error, 'f zval) result"

definition text_result :: "(php_error, 'f zval) result \<Rightarrow> string option" where
  "text_result r = (case r of Inr (ZStr b) \<Rightarrow> to_str b | _ \<Rightarrow> None)"

definition exception_type :: "'f throwable \<Rightarrow> string" where
  "exception_type e = (case to_str (class_name e) of Some t \<Rightarrow> t | None \<Rightarrow> ''Unknown'')"

definition php_exception_to_attributes :: "'f throwable \<Rightarrow> 'f key_value list" where
  "php_exception_to_attributes e =
     (case text_result (get_message e) of Some m \<Rightarrow> [(''exception.message'', VString m)] | None \<Rightarrow> [])
     @ [(''exception.type'', VString (exception_type e))]
     @ (case text_result (get_trace_as_string e) of
          Some t \<Rightarrow> [(''exception.stacktrace'', VString t)] | None \<Rightarrow> [])"

definition php_exception_to_auto_attributes ::
  "os_env \<Rightarrow> 'f throwable \<Rightarrow> capture_state \<Rightarrow> 'f key_value list \<times> capture_state" where
  "php_exception_to_auto_attributes env e s =
     (let (cap, s') = capture env s in
      (if cap then php_exception_to_attributes e
       else [(''exception.type'', VString (exception_type e))], s'))"

definition arr_text :: "(zkey \<times> 'f zval) list \<Rightarrow> string \<Rightarrow> string option" where
  "arr_text a name = (case map_of a (symtable_key name) of Some (ZStr b) \<Rightarrow> to_str b | _ \<Rightarrow> None)"

definition php_error_to_attributes :: "'f zval \<Rightarrow> 'f key_value list" where
  "php_error_to_attributes err =
     (case err of
        ZArr a \<Rightarrow>
          [(''exception.type'', VString ''PHP fatal error'')]
          @ (case arr_text a ''message'' of Some m \<Rightarrow> [(''exception.message'', VString m)] | None \<Rightarrow> [])
          @ (case (arr_text a ''file'', Option.bind (map_of a (symtable_key ''line'')) as_long) of
               (Some f, Some l) \<Rightarrow> [(''exception.stacktrace'', VString (f @ '':'' @ show_int l))]
             | _ \<Rightarrow> [])
      | _ \<Rightarrow> [])"

definition php_error_to_auto_attributes ::
  "os_env \<Rightarrow> 'f zval \<Rightarrow> capture_state \<Rightarrow> 'f key_value list \<times> capture_state" where
  "php_error_to_auto_attributes env err s =
     (let (cap, s') = capture env s in
      (if cap then php_error_to_attributes err else [(''exception.type'', VString ''PHP fatal error'')], s'))"

section \<open>Panics\<close>

datatype log_decision_kind = LogPanic | Announce | Silent

definition PANIC_LOG_LIMIT :: "64 word" where
  "PANIC_LOG_LIMIT = 10"

definition log_decision :: "64 word \<Rightarrow> 64 word \<Rightarrow> log_decision_kind" where
  "log_decision count limit =
     (if count \<le> limit then LogPanic else if count = limit + 1 then Announce else Silent)"

datatype payload = StaticStr string | OwnedString string | OtherPayload

record panic_info =
  panic_payload :: payload
  panic_location :: "(string \<times> nat \<times> nat) option"

fun payload_message :: "payload \<Rightarrow> string" where
  "payload_message (StaticStr m) = m"
| "payload_message (OwnedString m) = m"
| "payload_message OtherPayload = ''non-string panic payload''"

definition location_text :: "panic_info \<Rightarrow> string" where
  "location_text info =
     (case panic_location info of
        Some (f, l, c) \<Rightarrow> f @ '':'' @ show_nat l @ '':'' @ show_nat c
      | None \<Rightarrow> ''<unknown>'')"

definition panic_line :: "panic_info \<Rightarrow> string" where
  "panic_line info =
     ''internal panic contained: '' @ payload_message (panic_payload info) @ '' at '' @ location_text info"

definition announce_line :: string where
  "announce_line =
     ''internal panic contained; further panic diagnostics are suppressed for this process (limit ''
       @ show_nat (unat PANIC_LOG_LIMIT) @ '')''"

fun record_panic :: "log_decision_kind \<Rightarrow> panic_info \<Rightarrow> string option" where
  "record_panic LogPanic info = Some (panic_line info)"
| "record_panic Announce info = Some announce_line"
| "record_panic Silent info = None"

text \<open>
  The hook of the process: the counter, the flag of the thread and the entries that reached the log.
  \<open>sink\<close> tells whether an entry is written; when writing panics, the nested run of the hook returns at
  once because the flag is set, and the panic is caught.
\<close>

record panic_state =
  panic_count :: "64 word"
  in_hook :: bool
  panic_log :: "string list"

definition panic_init :: panic_state where
  "panic_init = \<lparr>panic_count = 0, in_hook = False, panic_log = []\<rparr>"

definition on_panic :: "(string \<Rightarrow> bool) \<Rightarrow> panic_info \<Rightarrow> panic_state \<Rightarrow> panic_state" where
  "on_panic sink info s =
     (if in_hook s then s
      else
        let s1 = s\<lparr>in_hook := True, panic_count := panic_count s + 1\<rparr>;
            s2 = (case record_panic (log_decision (panic_count s1) PANIC_LOG_LIMIT) info of
                    Some e \<Rightarrow> if sink e then s1\<lparr>panic_log := panic_log s1 @ [e]\<rparr> else s1
                  | None \<Rightarrow> s1)
        in s2\<lparr>in_hook := False\<rparr>)"

text \<open>\<open>contain\<close>: a closure returns or panics.\<close>

datatype 'a outcome = Returned 'a | Panicked panic_info

definition contain :: "(string \<Rightarrow> bool) \<Rightarrow> 'a outcome \<Rightarrow> panic_state \<Rightarrow> 'a option \<times> panic_state" where
  "contain sink r s = (case r of Returned x \<Rightarrow> (Some x, s) | Panicked info \<Rightarrow> (None, on_panic sink info s))"

section \<open>The switch is fixed for a request\<close>

interpretation capture_cache: request_cache capture_begin_request capture_end_request
  capture "\<lambda>env. fst (capture_from_env env)"
  by unfold_locales
    (simp_all add: capture_begin_request_def capture_end_request_def capture_def read_capture_def Let_def
      split: prod.splits)

lemma capture_from_env_true:
  "fst (capture_from_env env) \<longleftrightarrow> (\<exists>v. env_var env CAPTURE_SENSITIVE_DATA = VarOk v \<and> eq_ignore_ascii_case v ''true'')"
  by (auto simp: capture_from_env_def split: var_result.splits)

section \<open>Panic log\<close>

lemma log_decision_nat:
  "n < 2 ^ 64 \<Longrightarrow> log_decision (of_nat n) PANIC_LOG_LIMIT = (if n \<le> 10 then LogPanic else if n = 11 then Announce else Silent)"
proof -
  assume n: "n < 2 ^ 64"
  then have u: "unat (of_nat n :: 64 word) = n" by (rule unat_of_nat_usize)
  have "(of_nat n :: 64 word) \<le> 10 \<longleftrightarrow> n \<le> 10" using u by (simp add: word_le_nat_alt)
  moreover have "(of_nat n :: 64 word) = 11 \<longleftrightarrow> n = 11"
    using u by (simp add: word_unat_eq_iff)
  ultimately show ?thesis by (simp add: log_decision_def PANIC_LOG_LIMIT_def)
qed

lemma panics_log:
  assumes "length infos < 2 ^ 64"
  shows "fold (on_panic sink) infos panic_init =
    \<lparr>panic_count = of_nat (length infos), in_hook = False,
     panic_log = filter sink (map panic_line (take 10 infos) @ (if 10 < length infos then [announce_line] else []))\<rparr>"
  using assms
proof (induction infos rule: rev_induct)
  case (snoc info infos)
  let ?n = "Suc (length infos)"
  have IH: "fold (on_panic sink) infos panic_init =
    \<lparr>panic_count = of_nat (length infos), in_hook = False,
     panic_log = filter sink (map panic_line (take 10 infos) @ (if 10 < length infos then [announce_line] else []))\<rparr>"
    using snoc by simp
  have d: "log_decision (of_nat (length infos) + 1) PANIC_LOG_LIMIT
      = (if ?n \<le> 10 then LogPanic else if ?n = 11 then Announce else Silent)"
    using log_decision_nat [of ?n] snoc.prems by (simp add: add.commute)
  have "fold (on_panic sink) (infos @ [info]) panic_init = on_panic sink info (fold (on_panic sink) infos panic_init)"
    by simp
  also note IH
  finally have step: "fold (on_panic sink) (infos @ [info]) panic_init = on_panic sink info
    \<lparr>panic_count = of_nat (length infos), in_hook = False,
     panic_log = filter sink (map panic_line (take 10 infos) @ (if 10 < length infos then [announce_line] else []))\<rparr>" .
  consider "?n \<le> 10" | "?n = 11" | "11 < ?n" by linarith
  then show ?case
    unfolding step by cases (simp_all add: on_panic_def Let_def d log_decision_nat [of 11, simplified])
qed (simp add: panic_init_def)

section \<open>Properties\<close>

text \<open>
  However many panics a process contains (fewer than the counter can count), the log receives at
  most eleven entries: the message and place of the first ten, then one announcement that the rest is
  suppressed. Every panic is counted, the hook is free again after each, and an entry that cannot be
  written is lost alone.
\<close>

lemma panic_log_bounded:
  assumes "length infos < 2 ^ 64"
  shows "let s = fold (on_panic sink) infos panic_init in
    panic_log s = filter sink (map panic_line (take 10 infos) @ (if 10 < length infos then [announce_line] else []))
    \<and> length (panic_log s) \<le> unat PANIC_LOG_LIMIT + 1
    \<and> unat (panic_count s) = length infos \<and> \<not> in_hook s
    \<and> contain sink (Panicked info :: unit outcome) s = (None, on_panic sink info s)"
proof -
  let ?l = "map panic_line (take 10 infos) @ (if 10 < length infos then [announce_line] else [])"
  have "length (filter sink ?l) \<le> length ?l" by (rule length_filter_le)
  also have "\<dots> \<le> 11" by simp
  finally show ?thesis
    unfolding panics_log [OF assms]
    using assms by (simp add: Let_def PANIC_LOG_LIMIT_def contain_def unat_of_nat_usize)
qed

text \<open>The law of the \<open>url\<close> crate the code relies on: without query and fragment, neither sign is printed.\<close>

definition url_laws :: "('u, 'm) url_api_scheme \<Rightarrow> bool" where
  "url_laws api \<longleftrightarrow>
     (\<forall>u. CHR ''?'' \<notin> set (url_to_string api (url_set_fragment api None (url_set_query api None u)))
        \<and> CHR ''#'' \<notin> set (url_to_string api (url_set_fragment api None (url_set_query api None u))))"

lemma hd_split_clean: "\<not> p x \<or> x \<notin> set (hd (split_by p v))"
  using split_by_pieces_clean [of "hd (split_by p v)" p v x] by (cases "split_by p v") auto

lemma sanitized_clean:
  "url_laws api \<Longrightarrow> CHR ''?'' \<notin> set (sanitize_url_value api v False) \<and> CHR ''#'' \<notin> set (sanitize_url_value api v False)"
  using hd_split_clean [of "\<lambda>c. c = CHR ''?'' \<or> c = CHR ''#''" "CHR ''?''" v]
    hd_split_clean [of "\<lambda>c. c = CHR ''?'' \<or> c = CHR ''#''" "CHR ''#''" v]
  by (auto simp: sanitize_url_value_def url_laws_def Let_def split: option.splits)

text \<open>A text the parser refuses, such as a URL without scheme, keeps its user name and password.\<close>

lemma sanitize_keeps_userinfo:
  "url_parse api ''//user:pass@host/p?q'' = None \<Longrightarrow>
     sanitize_url_value api ''//user:pass@host/p?q'' False = ''//user:pass@host/p''"
  by (simp add: sanitize_url_value_def)

text \<open>
  Unless the variable of the request says true, automatically recorded failures show nothing but
  types: the attributes of an exception depend on its class alone, those of a fatal error on nothing,
  and a recorded URL has no query and no fragment. The answer stays the same throughout the request,
  whatever happens to the environment.
\<close>

lemma no_sensitive_data_by_default:
  assumes "url_laws api" and off: "\<not> fst (capture_from_env env)"
  shows "let s = capture_begin_request env s0 in
    (class_name e = class_name e' \<longrightarrow>
       php_exception_to_auto_attributes env' e s = php_exception_to_auto_attributes env' e' s)
    \<and> php_error_to_auto_attributes env' err s = php_error_to_auto_attributes env' err' s
    \<and> CHR ''?'' \<notin> set (fst (sanitize_url api env' v s)) \<and> CHR ''#'' \<notin> set (fst (sanitize_url api env' v s))
    \<and> snd (sanitize_url api env' v s) = s"
proof -
  have "capture env' (capture_begin_request env s0) = (False, capture_begin_request env s0)"
    using capture_cache.read_begin [of env' env s0] off by simp
  then show ?thesis
    using sanitized_clean [OF assms(1), of v]
    by (simp add: Let_def php_exception_to_auto_attributes_def php_error_to_auto_attributes_def sanitize_url_def
        exception_type_def)
qed

text \<open>An instance: a URL is its text, cut at the signs.\<close>

definition text_url_api :: "string url_api" where
  "text_url_api =
     \<lparr>url_parse = (\<lambda>v. if contains_str v ''://'' then Some v else None),
      url_set_username = (\<lambda>_. Some), url_set_password = (\<lambda>_. Some),
      url_set_query = (\<lambda>_. takeWhile (\<lambda>c. c \<noteq> CHR ''?'')), url_set_fragment = (\<lambda>_. takeWhile (\<lambda>c. c \<noteq> CHR ''#'')),
      url_to_string = (\<lambda>u. u)\<rparr>"

lemma text_url_laws: "url_laws text_url_api"
  by (auto simp: url_laws_def text_url_api_def dest!: set_takeWhileD)

end
