(* ===== verification/Native_Span.thy ===== *)
theory Native_Span
  imports Span_Context Context_Storage Diagnostics
begin

text \<open>
  The methods of spans (\<open>trace/span.rs\<close>) and of the span builder (\<open>trace/span_builder.rs\<close>): how their PHP
  arguments become calls on a span of the SDK. A span object owns its SDK span, or is bound to a stored
  context whose span it stands for.

  SDK spans are given by numbers, and what has been asked of each is the list of \<open>span_call\<close>s it has
  received. What PHP code answers, the laws of the SDK's ids and the limits of the request are the
  record \<open>span_env\<close>.
\<close>

section \<open>Calls on a span of the SDK\<close>

datatype span_status = StatusUnset | StatusOk | StatusError string

datatype ('f, 'sc) span_call =
  CallEnd "nat option"
| CallSetStatus span_status
| CallSetAttribute "'f key_value"
| CallSetAttributes "'f key_value list"
| CallAddLink 'sc "'f key_value list"
| CallAddEvent string "nat option" "'f key_value list"
| CallUpdateName string

type_synonym ('f, 'sc) span_calls = "nat \<Rightarrow> ('f, 'sc) span_call list"

record ('t, 's, 'ts, 'sc, 'f) span_env =
  env_sdk :: "('t, 's, 'ts, 'sc) trace_sdk"
  env_native :: "nat \<Rightarrow> ('sc, 'f) span_context_state option"
  env_call :: "'f method_call"
  env_class :: "nat \<Rightarrow> bytes"
  env_iter :: "'f zval \<Rightarrow> (php_error, 'f zval) result"
  env_to_f64 :: "int \<Rightarrow> 'f"
  env_limits :: attr_limit_config

text \<open>
  The span of a context, the identity of a span, and contexts that carry a given identity
  (\<open>with_remote_span_context\<close>) or none (\<open>with_span(NoopSpan)\<close>), on top of what contexts offer.
\<close>

record ('c, 'sc) span_api =
  base_api :: "('c, 'sc) otel_api"
  ctx_span :: "'c \<Rightarrow> nat"
  span_identity :: "nat \<Rightarrow> 'sc"
  ctx_with_remote :: "'sc \<Rightarrow> 'c \<Rightarrow> 'c"
  ctx_with_noop :: "'c \<Rightarrow> 'c"

record native_span =
  own_span :: "nat option"
  span_context_id :: int

section \<open>Arguments\<close>

definition timestamp :: "'f zval option \<Rightarrow> nat option" where
  "timestamp v = (case Option.bind v as_long of
     Some nanos \<Rightarrow> if nanos \<ge> 0 then Some (nat nanos) else None
   | None \<Rightarrow> None)"

definition nth_arg :: "'f zval list \<Rightarrow> nat \<Rightarrow> 'f zval option" where
  "nth_arg args i = (if i < length args then Some (args ! i) else None)"

definition iterable_attributes ::
  "('t, 's, 'ts, 'sc, 'f) span_env \<Rightarrow> 'f zval \<Rightarrow> attribute_destination \<Rightarrow> (php_error, 'f key_value list) result" where
  "iterable_attributes env v destination =
     result_bind (zval_iterable_to_array (env_iter env) v) (\<lambda>arr.
     result_bind (expect_arr arr) (\<lambda>a.
     Ok (zval_arr_to_key_value_vec (env_to_f64 env) (env_limits env) a destination)))"

definition optional_iterable_attributes ::
  "('t, 's, 'ts, 'sc, 'f) span_env \<Rightarrow> 'f zval option \<Rightarrow> attribute_destination \<Rightarrow> (php_error, 'f key_value list) result" where
  "optional_iterable_attributes env v destination =
     (case v of Some x \<Rightarrow> iterable_attributes env x destination | None \<Rightarrow> Ok [])"

definition throwable_of :: "('t, 's, 'ts, 'sc, 'f) span_env \<Rightarrow> nat \<Rightarrow> 'f throwable" where
  "throwable_of env h =
     \<lparr>get_message = env_call env h ''getMessage'', class_name = env_class env h,
      get_trace_as_string = env_call env h ''getTraceAsString''\<rparr>"

section \<open>What each method asks of the span\<close>

type_synonym ('f, 'sc) span_request = "(php_error, ('f, 'sc) span_call option) result"

definition end_request_call :: "'f zval list \<Rightarrow> ('f, 'sc) span_request" where
  "end_request_call args = Ok (Some (CallEnd (timestamp (nth_arg args 0))))"

definition status_of_code :: "string \<Rightarrow> string \<Rightarrow> span_status" where
  "status_of_code code description =
     (if code = ''Ok'' then StatusOk else if code = ''Error'' then StatusError description else StatusUnset)"

definition set_status_call :: "'f zval list \<Rightarrow> ('f, 'sc) span_request" where
  "set_status_call args =
     result_bind (result_bind (arg_at args 0) expect_utf8) (\<lambda>code.
     let description = (case nth_arg args 1 of
           Some (ZStr b) \<Rightarrow> (case to_str b of Some t \<Rightarrow> t | None \<Rightarrow> []) | _ \<Rightarrow> [])
     in Ok (Some (CallSetStatus (status_of_code code description))))"

definition set_attribute_call :: "('t, 's, 'ts, 'sc, 'f) span_env \<Rightarrow> 'f zval list \<Rightarrow> ('f, 'sc) span_request" where
  "set_attribute_call env args =
     result_bind (result_bind (arg_at args 0) expect_utf8) (\<lambda>key.
     result_bind (arg_at args 1) (\<lambda>v.
     Ok (map_option CallSetAttribute
       (zval_to_key_value (env_to_f64 env) (env_limits env) Span key v))))"

definition set_attributes_call :: "('t, 's, 'ts, 'sc, 'f) span_env \<Rightarrow> 'f zval list \<Rightarrow> ('f, 'sc) span_request" where
  "set_attributes_call env args =
     result_bind (arg_at args 0) (\<lambda>v.
     result_bind (iterable_attributes env v Span) (\<lambda>kvs. Ok (Some (CallSetAttributes kvs))))"

definition add_link_call :: "('t, 's, 'ts, 'sc, 'f) span_env \<Rightarrow> 'f zval list \<Rightarrow> ('f, 'sc) span_request" where
  "add_link_call env args =
     result_bind (result_bind (arg_at args 0) expect_obj) (\<lambda>h.
     result_bind (span_context_from_object (env_sdk env) (env_native env) (env_call env) h) (\<lambda>sc.
     result_bind (optional_iterable_attributes env (nth_arg args 1) Link) (\<lambda>kvs.
     Ok (Some (CallAddLink sc kvs)))))"

definition add_event_call :: "('t, 's, 'ts, 'sc, 'f) span_env \<Rightarrow> 'f zval list \<Rightarrow> ('f, 'sc) span_request" where
  "add_event_call env args =
     result_bind (result_bind (arg_at args 0) expect_utf8) (\<lambda>name.
     result_bind (optional_iterable_attributes env (nth_arg args 1) Event) (\<lambda>kvs.
     Ok (Some (CallAddEvent name (timestamp (nth_arg args 2)) kvs))))"

definition record_exception_call :: "('t, 's, 'ts, 'sc, 'f) span_env \<Rightarrow> 'f zval list \<Rightarrow> ('f, 'sc) span_request" where
  "record_exception_call env args =
     result_bind (result_bind (arg_at args 0) expect_obj) (\<lambda>h.
     result_bind (optional_iterable_attributes env (nth_arg args 1) Event) (\<lambda>kvs.
     Ok (Some (CallAddEvent ''exception'' None
       (limit_key_values (env_limits env) (php_exception_to_attributes (throwable_of env h) @ kvs) Event)))))"

definition update_name_call :: "'f zval list \<Rightarrow> ('f, 'sc) span_request" where
  "update_name_call args =
     result_bind (result_bind (arg_at args 0) expect_utf8) (\<lambda>name. Ok (Some (CallUpdateName name)))"

datatype span_method =
  MEnd | MSetStatus | MSetAttribute | MSetAttributes | MAddLink | MAddEvent | MRecordException | MUpdateName

fun method_request ::
  "('t, 's, 'ts, 'sc, 'f) span_env \<Rightarrow> span_method \<Rightarrow> 'f zval list \<Rightarrow> ('f, 'sc) span_request" where
  "method_request env MEnd args = end_request_call args"
| "method_request env MSetStatus args = set_status_call args"
| "method_request env MSetAttribute args = set_attribute_call env args"
| "method_request env MSetAttributes args = set_attributes_call env args"
| "method_request env MAddLink args = add_link_call env args"
| "method_request env MAddEvent args = add_event_call env args"
| "method_request env MRecordException args = record_exception_call env args"
| "method_request env MUpdateName args = update_name_call args"

section \<open>Which span is asked\<close>

definition target_span ::
  "('c, 'sc) span_api \<Rightarrow> native_span \<Rightarrow> ('c, 'f) ctx_storage \<Rightarrow> nat option" where
  "target_span api sp st =
     (case own_span sp of
        Some i \<Rightarrow> Some i
      | None \<Rightarrow> map_option (\<lambda>n. ctx_span api (otel_context n))
          (get_context_instance (get_instance_id (span_context_id sp)) st))"

definition deliver :: "nat option \<Rightarrow> ('f, 'sc) span_call option \<Rightarrow> ('f, 'sc) span_calls \<Rightarrow> ('f, 'sc) span_calls" where
  "deliver target c calls =
     (case (target, c) of (Some i, Some x) \<Rightarrow> calls(i := calls i @ [x]) | _ \<Rightarrow> calls)"

text \<open>
  A method of a span object. \<open>end\<close> of a span that is owned also drops the contexts kept for it after
  their scopes were detached.
\<close>

definition run_span_method ::
  "('t, 's, 'ts, 'sc, 'f) span_env \<Rightarrow> ('c, 'sc) span_api \<Rightarrow> native_span \<Rightarrow> span_method \<Rightarrow> 'f zval list \<Rightarrow>
     ('f, 'sc) span_calls \<times> ('c, 'f) ctx_storage \<Rightarrow>
     (php_error, unit) result \<times> ('f, 'sc) span_calls \<times> ('c, 'f) ctx_storage" where
  "run_span_method env api sp m args w =
     (case method_request env m args of
        Inl e \<Rightarrow> (Err e, w)
      | Inr c \<Rightarrow>
          (Ok (), deliver (target_span api sp (snd w)) c (fst w),
           case (m, own_span sp) of
             (MEnd, Some i) \<Rightarrow> remove_detached_span_context (base_api api) (span_identity api i) (snd w)
           | _ \<Rightarrow> snd w))"

definition span_is_recording ::
  "('c, 'sc) span_api \<Rightarrow> (nat \<Rightarrow> bool) \<Rightarrow> native_span \<Rightarrow> ('c, 'f) ctx_storage \<Rightarrow> bool" where
  "span_is_recording api recording sp st =
     (case own_span sp of
        Some i \<Rightarrow> recording i
      | None \<Rightarrow>
          (case get_context_instance (get_instance_id (span_context_id sp)) st of
             Some n \<Rightarrow> ctx_recording (base_api api) (otel_context n) | None \<Rightarrow> False))"

definition span_get_context ::
  "('c, 'sc) span_api \<Rightarrow> ('t, 's, 'ts, 'sc) trace_sdk \<Rightarrow> (trace_state \<Rightarrow> (php_error, 'f zval) result) \<Rightarrow>
     native_span \<Rightarrow> ('c, 'f) ctx_storage \<Rightarrow> (php_error, ('sc, 'f) span_context_state) result" where
  "span_get_context api sdk state_class sp st =
     init_span_context_object sdk (Some state_class)
       (case own_span sp of
          Some i \<Rightarrow> span_identity api i
        | None \<Rightarrow>
            (case get_context_instance (get_instance_id (span_context_id sp)) st of
               Some n \<Rightarrow> ctx_span_context (base_api api) (otel_context n) | None \<Rightarrow> sc_empty sdk))"

definition context_bound_span :: "nat \<Rightarrow> native_span" where
  "context_bound_span instance_id = \<lparr>own_span = None, span_context_id = u64_to_i64 instance_id\<rparr>"

section \<open>The span builder\<close>

datatype span_kind = Internal | Client | Server | Producer | Consumer

record ('f, 'sc) span_builder =
  builder_name :: string
  builder_attributes :: "'f key_value list option"
  builder_start :: "nat option"
  builder_links :: "('sc \<times> 'f key_value list) list option"
  builder_kind :: "span_kind option"

datatype 'c parent_context = ParentCurrent | ParentRoot | ParentExplicit 'c

record ('c, 'f, 'sc, 'tr) span_builder_state =
  state_builder :: "('f, 'sc) span_builder option"
  state_tracer :: "'tr option"
  state_parent :: "'c parent_context"

definition builder_new :: "('f, 'sc) span_builder \<Rightarrow> 'tr \<Rightarrow> ('c, 'f, 'sc, 'tr) span_builder_state" where
  "builder_new b tr = \<lparr>state_builder = Some b, state_tracer = Some tr, state_parent = ParentCurrent\<rparr>"

definition builder_empty :: "('c, 'f, 'sc, 'tr) span_builder_state" where
  "builder_empty = \<lparr>state_builder = None, state_tracer = None, state_parent = ParentCurrent\<rparr>"

definition on_builder ::
  "(('f, 'sc) span_builder \<Rightarrow> ('f, 'sc) span_builder) \<Rightarrow> ('c, 'f, 'sc, 'tr) span_builder_state \<Rightarrow>
     ('c, 'f, 'sc, 'tr) span_builder_state" where
  "on_builder f st = st\<lparr>state_builder := map_option f (state_builder st)\<rparr>"

definition builder_set_attribute ::
  "('t, 's, 'ts, 'sc, 'f) span_env \<Rightarrow> 'f zval list \<Rightarrow> ('c, 'f, 'sc, 'tr) span_builder_state \<Rightarrow>
     (php_error, ('c, 'f, 'sc, 'tr) span_builder_state) result" where
  "builder_set_attribute env args st =
     result_bind (result_bind (arg_at args 0) expect_utf8) (\<lambda>key.
     result_bind (arg_at args 1) (\<lambda>v.
     Ok (case zval_to_key_value (env_to_f64 env) (env_limits env) Span key v of
           None \<Rightarrow> st
         | Some kv \<Rightarrow> on_builder (\<lambda>b. b\<lparr>builder_attributes :=
             Some ((case builder_attributes b of Some kvs \<Rightarrow> kvs | None \<Rightarrow> []) @ [kv])\<rparr>) st)))"

definition builder_set_attributes ::
  "('t, 's, 'ts, 'sc, 'f) span_env \<Rightarrow> 'f zval list \<Rightarrow> ('c, 'f, 'sc, 'tr) span_builder_state \<Rightarrow>
     (php_error, ('c, 'f, 'sc, 'tr) span_builder_state) result" where
  "builder_set_attributes env args st =
     result_bind (arg_at args 0) (\<lambda>v.
     result_bind (iterable_attributes env v Span) (\<lambda>kvs.
     Ok (on_builder (\<lambda>b. b\<lparr>builder_attributes :=
       (case builder_attributes b of Some existing \<Rightarrow> Some (existing @ kvs) | None \<Rightarrow> Some kvs)\<rparr>) st)))"

definition builder_set_start_timestamp ::
  "'f zval list \<Rightarrow> ('c, 'f, 'sc, 'tr) span_builder_state \<Rightarrow> (php_error, ('c, 'f, 'sc, 'tr) span_builder_state) result" where
  "builder_set_start_timestamp args st =
     result_bind (result_bind (arg_at args 0) expect_long) (\<lambda>nanos.
     Ok (if nanos < 0 then st else on_builder (\<lambda>b. b\<lparr>builder_start := Some (nat nanos)\<rparr>) st))"

definition builder_add_link ::
  "('t, 's, 'ts, 'sc, 'f) span_env \<Rightarrow> 'f zval list \<Rightarrow> ('c, 'f, 'sc, 'tr) span_builder_state \<Rightarrow>
     (php_error, ('c, 'f, 'sc, 'tr) span_builder_state) result" where
  "builder_add_link env args st =
     result_bind (result_bind (arg_at args 0) expect_obj) (\<lambda>h.
     result_bind (span_context_from_object (env_sdk env) (env_native env) (env_call env) h) (\<lambda>sc.
     result_bind (optional_iterable_attributes env (nth_arg args 1) Link) (\<lambda>kvs.
     Ok (on_builder (\<lambda>b. b\<lparr>builder_links :=
       Some ((case builder_links b of Some ls \<Rightarrow> ls | None \<Rightarrow> []) @ [(sc, kvs)])\<rparr>) st))))"

text \<open>\<open>php_context\<close> is \<open>otel_context_from_php\<close> on the object that is passed.\<close>

definition builder_set_parent ::
  "(nat \<Rightarrow> (php_error, 'c) result) \<Rightarrow> 'f zval list \<Rightarrow> ('c, 'f, 'sc, 'tr) span_builder_state \<Rightarrow>
     (php_error, ('c, 'f, 'sc, 'tr) span_builder_state) result" where
  "builder_set_parent php_context args st =
     result_bind (arg_at args 0) (\<lambda>v.
     case v of
       ZBool False \<Rightarrow> Ok (st\<lparr>state_parent := ParentRoot\<rparr>)
     | ZNull \<Rightarrow> Ok (st\<lparr>state_parent := ParentCurrent\<rparr>)
     | _ \<Rightarrow> result_bind (expect_obj v) (\<lambda>h.
         result_bind (php_context h) (\<lambda>c. Ok (st\<lparr>state_parent := ParentExplicit c\<rparr>))))"

definition kind_of_code :: "int \<Rightarrow> span_kind" where
  "kind_of_code i =
     (if i = 0 then Internal else if i = 1 then Client else if i = 2 then Server
      else if i = 3 then Producer else if i = 4 then Consumer else Internal)"

definition builder_set_span_kind ::
  "'f zval list \<Rightarrow> ('c, 'f, 'sc, 'tr) span_builder_state \<Rightarrow> (php_error, ('c, 'f, 'sc, 'tr) span_builder_state) result" where
  "builder_set_span_kind args st =
     result_bind (result_bind (arg_at args 0) expect_long) (\<lambda>i.
     Ok (on_builder (\<lambda>b. b\<lparr>builder_kind := Some (kind_of_code i)\<rparr>) st))"

text \<open>
  \<open>startSpan\<close>: a span that records nothing when there is no tracer. \<open>current\<close> is the SDK context of the
  context that is current when the span starts, \<open>root\<close> the empty one, \<open>build\<close> the tracer's
  \<open>build_with_context\<close>.
\<close>

definition builder_start_span ::
  "(php_error, 'c) result \<Rightarrow> 'c \<Rightarrow> ('tr \<Rightarrow> ('f, 'sc) span_builder \<Rightarrow> 'c \<Rightarrow> nat) \<Rightarrow>
     ('c, 'f, 'sc, 'tr) span_builder_state \<Rightarrow> (php_error, native_span option) result" where
  "builder_start_span current root build st =
     (case (state_builder st, state_tracer st) of
        (Some b, Some tr) \<Rightarrow>
          result_bind (case state_parent st of
              ParentCurrent \<Rightarrow> current | ParentRoot \<Rightarrow> Ok root | ParentExplicit c \<Rightarrow> Ok c) (\<lambda>parent.
          Ok (Some \<lparr>own_span = Some (build tr b parent), span_context_id = 0\<rparr>))
      | _ \<Rightarrow> Ok None)"

section \<open>Calls are within the limits of the request\<close>

definition attributes_within :: "attr_limit_config \<Rightarrow> attribute_destination \<Rightarrow> 'f key_value list \<Rightarrow> bool" where
  "attributes_within config d kvs \<longleftrightarrow>
     list_all (within_limits (for_destination config d)) kvs \<and> length kvs \<le> limit_count (for_destination config d)"

fun call_within :: "attr_limit_config \<Rightarrow> ('f, 'sc) span_call \<Rightarrow> bool" where
  "call_within config (CallSetAttribute kv) \<longleftrightarrow> within_limits (for_destination config Span) kv"
| "call_within config (CallSetAttributes kvs) \<longleftrightarrow> attributes_within config Span kvs"
| "call_within config (CallAddLink sc kvs) \<longleftrightarrow> attributes_within config Link kvs"
| "call_within config (CallAddEvent name at kvs) \<longleftrightarrow> valid_utf8 name \<and> attributes_within config Event kvs"
| "call_within config (CallUpdateName name) \<longleftrightarrow> valid_utf8 name"
| "call_within config (CallSetStatus (StatusError description)) \<longleftrightarrow> valid_utf8 description"
| "call_within config _ \<longleftrightarrow> True"

lemma expect_utf8_valid: "expect_utf8 v = Ok t \<Longrightarrow> valid_utf8 t"
  by (cases v) (auto simp: expect_utf8_def expect_str_def to_str_def split: if_splits)

lemma iterable_attributes_within:
  "iterable_attributes env v d = Ok kvs \<Longrightarrow> attributes_within (env_limits env) d kvs"
  by (auto simp: iterable_attributes_def result_bind_Inr_conv attributes_within_def list_all_iff
      intro: converted_within converted_length)

lemma optional_attributes_within:
  "optional_iterable_attributes env v d = Ok kvs \<Longrightarrow> attributes_within (env_limits env) d kvs"
  by (auto simp: optional_iterable_attributes_def attributes_within_def
      dest!: iterable_attributes_within split: option.splits)

lemma exception_attributes_utf8:
  "(k, v) \<in> set (php_exception_to_attributes e) \<Longrightarrow> valid_utf8 k \<and> value_utf8 v"
proof -
  have "valid_utf8 ''Unknown''" "valid_utf8 ''exception.message''" "valid_utf8 ''exception.type''"
    "valid_utf8 ''exception.stacktrace''"
    by (simp_all add: byte_in_def)
  then show "(k, v) \<in> set (php_exception_to_attributes e) \<Longrightarrow> ?thesis"
    by (auto simp: php_exception_to_attributes_def exception_type_def text_result_def to_str_def
        split: option.splits sum.splits zval.splits if_splits simp del: valid_utf8.simps)
qed

lemma method_request_within:
  assumes "method_request env m args = Ok (Some c)"
  shows "call_within (env_limits env) c"
proof (cases m)
  case MSetStatus
  with assms show ?thesis
    by (auto simp: set_status_call_def result_bind_Inr_conv Let_def status_of_code_def to_str_def
        split: option.splits zval.splits if_splits)
next
  case MSetAttribute
  with assms obtain key v kv where "valid_utf8 key" "c = CallSetAttribute kv"
    "zval_to_key_value (env_to_f64 env) (env_limits env) Span key v = Some kv"
    by (auto simp: set_attribute_call_def result_bind_Inr_conv dest: expect_utf8_valid)
  then show ?thesis using zval_to_key_value_within by fastforce
next
  case MRecordException
  with assms obtain h kvs where kvs: "optional_iterable_attributes env (nth_arg args 1) Event = Ok kvs"
    and c: "c = CallAddEvent ''exception'' None
       (limit_key_values (env_limits env) (php_exception_to_attributes (throwable_of env h) @ kvs) Event)"
    by (auto simp: record_exception_call_def result_bind_Inr_conv)
  have "valid_utf8 k \<and> value_utf8 v" if "(k, v) \<in> set (php_exception_to_attributes (throwable_of env h) @ kvs)" for k v
    using that optional_attributes_within [OF kvs]
      value_within_utf8 [of "for_destination (env_limits env) Event" v]
    by (auto simp: attributes_within_def list_all_iff within_limits_def dest!: exception_attributes_utf8)
  then have "attributes_within (env_limits env) Event
      (limit_key_values (env_limits env) (php_exception_to_attributes (throwable_of env h) @ kvs) Event)"
    unfolding attributes_within_def by (rule limit_key_values_sound)
  with c show ?thesis by (simp add: byte_in_def)
qed (use assms in \<open>auto simp: end_request_call_def set_attributes_call_def add_link_call_def
      add_event_call_def update_name_call_def result_bind_Inr_conv
    intro: iterable_attributes_within optional_attributes_within expect_utf8_valid\<close>)

definition run_span_methods ::
  "('t, 's, 'ts, 'sc, 'f) span_env \<Rightarrow> ('c, 'sc) span_api \<Rightarrow> (native_span \<times> span_method \<times> 'f zval list) list \<Rightarrow>
     ('f, 'sc) span_calls \<times> ('c, 'f) ctx_storage \<Rightarrow> ('f, 'sc) span_calls \<times> ('c, 'f) ctx_storage" where
  "run_span_methods env api steps w =
     fold (\<lambda>(sp, m, args) w. snd (run_span_method env api sp m args w)) steps w"

lemma run_span_method_within:
  assumes "\<forall>i. list_all (call_within (env_limits env)) (fst w i)"
  shows "list_all (call_within (env_limits env)) (fst (snd (run_span_method env api sp m args w)) i)"
  using assms method_request_within [of env m args]
  by (auto simp: run_span_method_def deliver_def split: sum.splits option.splits)

text \<open>Ending an owned span leaves no context kept for it behind, and touches no attached one.\<close>

lemma end_drops_detached:
  assumes "own_span sp = Some i"
    and "run_span_method env api sp MEnd args w = (r, w')"
  shows "r = Ok () \<and> contexts (snd w') = contexts (snd w)
    \<and> (\<forall>xid n. detached_spans (snd w') xid = Some n \<longrightarrow>
         detached_spans (snd w) xid = Some n \<and> ctx_span_context (base_api api) (otel_context n) \<noteq> span_identity api i)"
  using assms
  by (auto simp: run_span_method_def end_request_call_def remove_detached_span_context_def
      split: option.splits if_splits)

section \<open>What a builder hands to the tracer\<close>

datatype builder_method = BSetAttribute | BSetAttributes | BSetStart | BAddLink | BSetParent | BSetKind

fun builder_call ::
  "('t, 's, 'ts, 'sc, 'f) span_env \<Rightarrow> (nat \<Rightarrow> (php_error, 'c) result) \<Rightarrow> builder_method \<Rightarrow> 'f zval list \<Rightarrow>
     ('c, 'f, 'sc, 'tr) span_builder_state \<Rightarrow> (php_error, ('c, 'f, 'sc, 'tr) span_builder_state) result" where
  "builder_call env php_context BSetAttribute args st = builder_set_attribute env args st"
| "builder_call env php_context BSetAttributes args st = builder_set_attributes env args st"
| "builder_call env php_context BSetStart args st = builder_set_start_timestamp args st"
| "builder_call env php_context BAddLink args st = builder_add_link env args st"
| "builder_call env php_context BSetParent args st = builder_set_parent php_context args st"
| "builder_call env php_context BSetKind args st = builder_set_span_kind args st"

text \<open>A call that raises leaves the builder as it was.\<close>

definition run_builder ::
  "('t, 's, 'ts, 'sc, 'f) span_env \<Rightarrow> (nat \<Rightarrow> (php_error, 'c) result) \<Rightarrow> (builder_method \<times> 'f zval list) list \<Rightarrow>
     ('c, 'f, 'sc, 'tr) span_builder_state \<Rightarrow> ('c, 'f, 'sc, 'tr) span_builder_state" where
  "run_builder env php_context steps st =
     fold (\<lambda>(m, args) st. case builder_call env php_context m args st of Inl _ \<Rightarrow> st | Inr st' \<Rightarrow> st') steps st"

definition builder_within :: "attr_limit_config \<Rightarrow> ('f, 'sc) span_builder \<Rightarrow> bool" where
  "builder_within config b \<longleftrightarrow>
     (\<forall>kvs. builder_attributes b = Some kvs \<longrightarrow> list_all (within_limits (for_destination config Span)) kvs)
   \<and> (\<forall>ls. builder_links b = Some ls \<longrightarrow> list_all (\<lambda>l. attributes_within config Link (snd l)) ls)"

definition builder_inv :: "attr_limit_config \<Rightarrow> 'tr option \<Rightarrow> string option \<Rightarrow> ('c, 'f, 'sc, 'tr) span_builder_state \<Rightarrow> bool" where
  "builder_inv config tr name st \<longleftrightarrow>
     state_tracer st = tr \<and> map_option builder_name (state_builder st) = name
   \<and> (\<forall>b. state_builder st = Some b \<longrightarrow> builder_within config b)"

lemma builder_inv_on_builder:
  assumes "builder_inv config tr name st"
    and "\<And>b. builder_within config b \<Longrightarrow> builder_within config (f b) \<and> builder_name (f b) = builder_name b"
  shows "builder_inv config tr name (on_builder f st)"
  using assms by (cases "state_builder st") (auto simp: builder_inv_def on_builder_def)

lemma builder_call_inv:
  assumes inv: "builder_inv (env_limits env) tr name st"
    and "builder_call env php_context m args st = Ok st'"
  shows "builder_inv (env_limits env) tr name st'"
proof (cases m)
  case BSetAttribute
  with assms obtain key v where key: "valid_utf8 key"
    and st': "st' = (case zval_to_key_value (env_to_f64 env) (env_limits env) Span key v of
           None \<Rightarrow> st
         | Some kv \<Rightarrow> on_builder (\<lambda>b. b\<lparr>builder_attributes :=
             Some ((case builder_attributes b of Some kvs \<Rightarrow> kvs | None \<Rightarrow> []) @ [kv])\<rparr>) st)"
    by (auto simp: builder_set_attribute_def result_bind_Inr_conv dest: expect_utf8_valid)
  show ?thesis
  proof (cases "zval_to_key_value (env_to_f64 env) (env_limits env) Span key v")
    case (Some kv)
    from zval_to_key_value_within [OF Some key] Some show ?thesis
      unfolding st' by (auto simp: builder_within_def intro!: builder_inv_on_builder [OF inv] split: option.splits)
  qed (use inv st' in simp)
next
  case BSetAttributes
  with assms obtain v kvs where kvs: "iterable_attributes env v Span = Ok kvs"
    and st': "st' = on_builder (\<lambda>b. b\<lparr>builder_attributes :=
       (case builder_attributes b of Some existing \<Rightarrow> Some (existing @ kvs) | None \<Rightarrow> Some kvs)\<rparr>) st"
    by (auto simp: builder_set_attributes_def result_bind_Inr_conv)
  from iterable_attributes_within [OF kvs] show ?thesis
    unfolding st' by (auto simp: builder_within_def attributes_within_def intro!: builder_inv_on_builder [OF inv] split: option.splits)
next
  case BAddLink
  with assms obtain sc kvs where kvs: "optional_iterable_attributes env (nth_arg args 1) Link = Ok kvs"
    and st': "st' = on_builder (\<lambda>b. b\<lparr>builder_links :=
       Some ((case builder_links b of Some ls \<Rightarrow> ls | None \<Rightarrow> []) @ [(sc, kvs)])\<rparr>) st"
    by (auto simp: builder_add_link_def result_bind_Inr_conv)
  from optional_attributes_within [OF kvs] show ?thesis
    unfolding st' by (auto simp: builder_within_def intro!: builder_inv_on_builder [OF inv] split: option.splits)
next
  case BSetParent
  with assms obtain p where "st' = st\<lparr>state_parent := p\<rparr>"
    by (cases "arg_at args 0"; cases "projr (arg_at args 0)")
      (auto simp: builder_set_parent_def result_bind_Inr_conv expect_obj_def split: bool.splits)
  with inv show ?thesis by (simp add: builder_inv_def)
qed (use assms in \<open>auto simp: builder_set_start_timestamp_def builder_set_span_kind_def result_bind_Inr_conv
      builder_within_def intro!: builder_inv_on_builder [OF inv]\<close>)

lemma run_builder_inv: "builder_inv (env_limits env) tr name st \<Longrightarrow> builder_inv (env_limits env) tr name (run_builder env php_context steps st)"
  unfolding run_builder_def
proof (induction steps arbitrary: st)
  case (Cons step steps)
  obtain m args where step: "step = (m, args)" by (cases step)
  show ?case
  proof (cases "builder_call env php_context m args st")
    case (Inr st')
    with builder_call_inv [OF Cons.prems Inr] Cons.IH [of st'] step show ?thesis by simp
  qed (use Cons step in simp)
qed simp

text \<open>The builder of a disabled tracer stays empty, and starts a span that records nothing.\<close>

lemma empty_builder_starts_nothing:
  "builder_start_span current root build (run_builder env php_context steps builder_empty) = Ok None"
  (is "builder_start_span _ _ _ ?st = _")
proof -
  have "builder_inv (env_limits env) None None ?st"
    by (rule run_builder_inv) (simp add: builder_inv_def builder_empty_def)
  then show ?thesis by (simp add: builder_inv_def builder_start_span_def)
qed

text \<open>
  C17. Whatever methods PHP code calls on whatever span objects, with whatever arguments, every call that
  reaches a span of the SDK is within the limits of the request: attributes of spans, links and events
  have well-formed keys and values of limited length and number, recorded exceptions included, and names
  and descriptions are well-formed UTF-8.
\<close>

theorem span_calls_within_limits:
  "list_all (call_within (env_limits env)) (fst (run_span_methods env api steps (\<lambda>_. [], st)) i)"
proof -
  have "\<forall>i. list_all (call_within (env_limits env)) (fst (run_span_methods env api steps w) i)"
    if "\<forall>i. list_all (call_within (env_limits env)) (fst w i)" for w
    using that unfolding run_span_methods_def
  proof (induction steps arbitrary: w)
    case (Cons step steps)
    obtain sp m args where step: "step = (sp, m, args)" by (cases step)
    have "\<forall>i. list_all (call_within (env_limits env)) (fst (snd (run_span_method env api sp m args w)) i)"
      using run_span_method_within [OF Cons.prems] by blast
    from Cons.IH [OF this] step show ?case by simp
  qed simp
  then show ?thesis by simp
qed

end
