(* ===== verification/Span_Binding.thy ===== *)
theory Span_Binding
  imports Native_Span
begin

text \<open>
  Spans in contexts: \<open>Span::storeInContext\<close>, \<open>fromContext\<close>, \<open>getCurrent\<close>, \<open>activate\<close> and \<open>wrap\<close> of
  \<open>trace/span.rs\<close>, spans that record nothing (\<open>trace/non_recording_span.rs\<close>), context keys
  (\<open>context/context_key.rs\<close>) and the local root span (\<open>trace/local_root_span.rs\<close>).

  A span is stored under the span key; a span that enters a context without a local parent is stored
  under the local root key too. Contexts may be objects of a user's class (\<open>foreign\<close>), whose methods
  are arguments, and so may be the storage that knows the current context.
\<close>

section \<open>Contexts as PHP code sees them\<close>

record ('c, 'f) foreign_api =
  foreign_get :: "('c, 'f) context_obj \<Rightarrow> nat \<Rightarrow> (php_error, 'f zval) result"
  foreign_with :: "('c, 'f) context_obj \<Rightarrow> nat \<Rightarrow> 'f zval \<Rightarrow> (php_error, ('c, 'f) context_obj) result"

definition call_get ::
  "('c, 'f) foreign_api \<Rightarrow> ('c, 'f) context_obj \<Rightarrow> nat \<Rightarrow> ('c, 'f) ctx_storage \<Rightarrow> (php_error, 'f zval) result" where
  "call_get fa ob key st = (if is_native ob then context_get ob key st else foreign_get fa ob key)"

definition call_with ::
  "('c, 'f) foreign_api \<Rightarrow> ('c, 'f) context_obj \<Rightarrow> nat \<Rightarrow> 'f zval \<Rightarrow> ('c, 'f) ctx_storage \<Rightarrow>
     (php_error, ('c, 'f) context_obj) result" where
  "call_with fa ob key v st =
     (if is_native ob then context_with ob key (ZObj key) v st else foreign_with fa ob key v)"

text \<open>
  \<open>current_context_value\<close>: the answer of a storage object the user has set, or the current context of
  the native storage.
\<close>

definition current_context_value ::
  "(php_error, ('c, 'f) context_obj) result option \<Rightarrow> 'c \<Rightarrow> ('c, 'f) ctx_storage \<Rightarrow>
     (php_error, ('c, 'f) context_obj) result \<times> ('c, 'f) ctx_storage" where
  "current_context_value custom ambient st =
     (case custom of
        Some r \<Rightarrow> (r, st)
      | None \<Rightarrow>
          (case current_context ambient st of (n, st1) \<Rightarrow>
           case current_context_instance_id st1 of (iid, st2) \<Rightarrow> (Ok (init_context_object n iid), st2)))"

definition context_get_root :: "('c, 'sc) otel_api \<Rightarrow> ('c, 'f) context_obj" where
  "context_get_root api = init_context_object (native_default api) None"

text \<open>\<open>get_or_create_context_key\<close>: one key object per name, kept in a static property.\<close>

definition get_or_create_context_key ::
  "(string \<Rightarrow> 'w \<Rightarrow> (php_error, 'f zval) result \<times> 'w) \<Rightarrow> string \<Rightarrow> 'f zval \<Rightarrow> 'w \<Rightarrow>
     (php_error, 'f zval) result \<times> 'f zval \<times> 'w" where
  "get_or_create_context_key new_key name slot w = static_instance (new_key name) slot w"

section \<open>The span of a context\<close>

definition context_of_span :: "('t, 's, 'ts, 'sc, 'f) span_env \<Rightarrow> nat \<Rightarrow> (php_error, 'sc) result" where
  "context_of_span env h =
     result_bind (env_call env h ''getContext'') (\<lambda>v.
     result_bind (expect_obj v) (span_context_from_object (env_sdk env) (env_native env) (env_call env)))"

definition otel_context_from_php ::
  "('t, 's, 'ts, 'sc, 'f) span_env \<Rightarrow> ('c, 'sc) span_api \<Rightarrow> ('c, 'f) foreign_api \<Rightarrow> nat \<Rightarrow> ('c, 'f) context_obj \<Rightarrow>
     ('c, 'f) ctx_storage \<Rightarrow> (php_error, 'c) result" where
  "otel_context_from_php env api fa span_key ob st =
     (case native_context_from_object ob st of
        Some n \<Rightarrow> Ok (otel_context n)
      | None \<Rightarrow>
          result_bind (call_get fa ob span_key st) (\<lambda>v.
          case v of
            ZObj h \<Rightarrow> result_bind (context_of_span env h) (\<lambda>sc.
              Ok (if sc_valid (env_sdk env) sc then ctx_with_remote api sc (ctx_new (base_api api))
                  else ctx_new (base_api api)))
          | _ \<Rightarrow> Ok (ctx_new (base_api api))))"

definition context_is_local_root ::
  "('t, 's, 'ts, 'sc, 'f) span_env \<Rightarrow> ('c, 'f) foreign_api \<Rightarrow> nat \<Rightarrow> ('c, 'f) context_obj \<Rightarrow>
     ('c, 'f) ctx_storage \<Rightarrow> (php_error, bool) result" where
  "context_is_local_root env fa span_key ob st =
     result_bind (call_get fa ob span_key st) (\<lambda>v.
     case v of
       ZObj h \<Rightarrow> result_bind (context_of_span env h) (\<lambda>sc.
         Ok (\<not> sc_valid (env_sdk env) sc \<or> sc_remote (env_sdk env) sc))
     | _ \<Rightarrow> Ok True)"

text \<open>
  What \<open>fromContext\<close> finds: the span object stored in the context, a new span that records nothing and
  carries the identity of the SDK's span, or the shared invalid span.
\<close>

datatype ('sc, 'f) found_span =
  SpanObject "'f zval"
| NonRecordingOf "('sc, 'f) span_context_state"
| SharedInvalid

definition span_from_context ::
  "('t, 's, 'ts, 'sc, 'f) span_env \<Rightarrow> ('c, 'sc) span_api \<Rightarrow> ('c, 'f) foreign_api \<Rightarrow>
     (trace_state \<Rightarrow> (php_error, 'f zval) result) \<Rightarrow> nat \<Rightarrow> ('c, 'f) context_obj \<Rightarrow> ('c, 'f) ctx_storage \<Rightarrow>
     (php_error, ('sc, 'f) found_span) result" where
  "span_from_context env api fa state_class span_key ob st =
     result_bind (call_get fa ob span_key st) (\<lambda>v.
     if is_obj v then Ok (SpanObject v)
     else case native_context_from_object ob st of
         Some n \<Rightarrow>
           let sc = ctx_span_context (base_api api) (otel_context n) in
           if sc_valid (env_sdk env) sc
           then result_bind (init_span_context_object (env_sdk env) (Some state_class) sc) (\<lambda>s. Ok (NonRecordingOf s))
           else Ok SharedInvalid
       | None \<Rightarrow> Ok SharedInvalid)"

text \<open>\<open>Span::wrap\<close>; \<open>valid\<close> is the answer of the object's \<open>isValid\<close>.\<close>

definition wrap_span :: "(php_error, 'f zval) result \<Rightarrow> 'f zval \<Rightarrow> (php_error, 'f zval option) result" where
  "wrap_span valid ctx =
     result_bind (expect_obj ctx) (\<lambda>_.
     result_bind valid (\<lambda>v. Ok (case as_bool v of Some True \<Rightarrow> Some ctx | _ \<Rightarrow> None)))"

text \<open>\<open>storeInContext\<close> of the span object \<open>h\<close>.\<close>

definition store_in_native ::
  "('t, 's, 'ts, 'sc, 'f) span_env \<Rightarrow> ('c, 'sc) span_api \<Rightarrow> nat \<Rightarrow> nat \<Rightarrow> nat \<Rightarrow> bool \<Rightarrow> 'sc \<Rightarrow>
     ('c, 'f) native_context \<Rightarrow> ('c, 'f) context_obj" where
  "store_in_native env api span_key root_key h local_root sc parent =
     (let otel = (if sc_valid (env_sdk env) sc then ctx_with_remote api sc (otel_context parent)
                  else ctx_with_noop api (otel_context parent));
          next1 = with_value span_key (ZObj span_key) (ZObj h) (with_context otel parent);
          next2 = (if local_root then with_value root_key (ZObj root_key) (ZObj h) next1 else next1)
      in init_context_object next2 None)"

definition store_in_context ::
  "('t, 's, 'ts, 'sc, 'f) span_env \<Rightarrow> ('c, 'sc) span_api \<Rightarrow> ('c, 'f) foreign_api \<Rightarrow> nat \<Rightarrow> nat \<Rightarrow> nat \<Rightarrow>
     ('c, 'f) context_obj \<Rightarrow> ('c, 'f) ctx_storage \<Rightarrow> (php_error, ('c, 'f) context_obj) result" where
  "store_in_context env api fa span_key root_key h ob st =
     result_bind (context_is_local_root env fa span_key ob st) (\<lambda>local_root.
     case native_context_from_object ob st of
       Some parent \<Rightarrow>
         result_bind (context_of_span env h) (\<lambda>sc.
         Ok (store_in_native env api span_key root_key h local_root sc parent))
     | None \<Rightarrow>
         result_bind (if local_root then call_with fa ob root_key (ZObj h) st else Ok ob) (\<lambda>ob1.
         call_with fa ob1 span_key (ZObj h) st))"

text \<open>\<open>activate\<close> with the native storage: store the span in the current context and attach the result.\<close>

definition span_activate ::
  "('t, 's, 'ts, 'sc, 'f) span_env \<Rightarrow> ('c, 'sc) span_api \<Rightarrow> ('c, 'f) foreign_api \<Rightarrow> nat \<Rightarrow> nat \<Rightarrow> 'c \<Rightarrow> nat \<Rightarrow>
     ('c, 'f) ctx_storage \<Rightarrow> (php_error, ('c, 'f) scope) result \<times> ('c, 'f) ctx_storage" where
  "span_activate env api fa span_key root_key ambient h st =
     (case current_context_value None ambient st of
        (Inl e, st1) \<Rightarrow> (Err e, st1)
      | (Inr ob, st1) \<Rightarrow>
          (case store_in_context env api fa span_key root_key h ob st1 of
             Inl e \<Rightarrow> (Err e, st1)
           | Inr ob1 \<Rightarrow>
               (case context_activate ob1 st1 of
                  (Inl e, st2) \<Rightarrow> (Err e, st2)
                | (Inr (sc, _), st2) \<Rightarrow> (Ok sc, st2))))"

section \<open>Spans that record nothing\<close>

text \<open>The state is the span context object given to the constructor; without it the context is empty.\<close>

definition non_recording_get_context ::
  "('t, 's, 'ts, 'sc) trace_sdk \<Rightarrow> 'f zval option \<Rightarrow> (php_error, 'f zval + ('sc, 'f) span_context_state) result" where
  "non_recording_get_context sdk state =
     (case state of
        Some v \<Rightarrow> Ok (Inl v)
      | None \<Rightarrow> result_bind (init_span_context_object sdk None (sc_empty sdk)) (\<lambda>s. Ok (Inr s)))"

section \<open>The local root span\<close>

datatype 'f root_span = RootObject "'f zval" | RootBound nat | RootInvalid

definition local_root_from_context ::
  "('c, 'sc) span_api \<Rightarrow> ('c, 'f) foreign_api \<Rightarrow> nat \<Rightarrow> ('c, 'f) context_obj \<Rightarrow> ('c, 'f) ctx_storage \<Rightarrow>
     (php_error, 'f root_span) result" where
  "local_root_from_context api fa root_key ob st =
     result_bind (call_get fa ob root_key st) (\<lambda>v.
     if is_obj v then Ok (RootObject v)
     else case local_root_span_id st of
         Some i \<Rightarrow>
           let is_local_root = (get_instance_id (obj_context_id ob) = Some i
             \<or> (case (native_context_from_object ob st, get_context_instance (Some i) st) of
                  (Some current, Some root) \<Rightarrow>
                    ctx_span_context (base_api api) (otel_context current)
                      = ctx_span_context (base_api api) (otel_context root)
                | _ \<Rightarrow> False))
           in Ok (if is_local_root then RootBound i else RootInvalid)
       | None \<Rightarrow> Ok RootInvalid)"

definition local_root_store ::
  "('c, 'f) foreign_api \<Rightarrow> nat \<Rightarrow> ('c, 'f) context_obj \<Rightarrow> 'f zval \<Rightarrow> ('c, 'f) ctx_storage \<Rightarrow>
     (php_error, ('c, 'f) context_obj) result" where
  "local_root_store fa root_key ob span st = call_with fa ob root_key span st"

definition is_local_root ::
  "('t, 's, 'ts, 'sc, 'f) span_env \<Rightarrow> ('c, 'f) foreign_api \<Rightarrow> nat \<Rightarrow> ('c, 'f) context_obj \<Rightarrow>
     ('c, 'f) ctx_storage \<Rightarrow> (php_error, bool) result" where
  "is_local_root env fa span_key ob st =
     result_bind (call_get fa ob span_key st) (\<lambda>v.
     case v of
       ZObj h \<Rightarrow> result_bind (context_of_span env h) (\<lambda>sc.
         Ok (\<not> sc_valid (env_sdk env) sc \<or> sc_remote (env_sdk env) sc))
     | _ \<Rightarrow> Ok True)"

section \<open>Reading back what was stored\<close>

lemma native_get:
  assumes "is_native ob" and "native_context_from_object ob st = Some n"
  shows "call_get fa ob key st = Ok (case context_value n key of Some v \<Rightarrow> v | None \<Rightarrow> ZNull)"
  using assms by (auto simp: call_get_def context_get_def native_context_from_object_def split: option.splits)

lemma init_object_native [simp]:
  "is_native (init_context_object n i)" "native_context_from_object (init_context_object n i) st = Some n"
  "obj_state (init_context_object n i) = Some n"
  by (simp_all add: init_context_object_def native_context_from_object_def)

lemma init_object_inj [simp]: "init_context_object n i = init_context_object m i \<longleftrightarrow> n = m"
  by (simp add: init_context_object_def)

lemma store_in_native_spec:
  assumes "span_key \<noteq> root_key"
  obtains n' where "store_in_native env api span_key root_key h local_root sc n = init_context_object n' None"
    and "context_value n' span_key = Some (ZObj h)"
    and "context_value n' root_key = (if local_root then Some (ZObj h) else context_value n root_key)"
    and "otel_context n' = (if sc_valid (env_sdk env) sc then ctx_with_remote api sc (otel_context n)
           else ctx_with_noop api (otel_context n))"
  using assms
  by (intro that [OF store_in_native_def [unfolded Let_def]])
    (auto simp: with_value_def with_context_def context_value_def)

text \<open>Storing a span with a local identity in a native context.\<close>

lemma store_in_context_native:
  assumes keys: "span_key \<noteq> root_key" and ob: "is_native ob" "native_context_from_object ob st = Some n"
    and root: "context_is_local_root env fa span_key ob st = Ok lr"
    and h: "context_of_span env h = Ok sc"
  obtains n' where "store_in_context env api fa span_key root_key h ob st = Ok (init_context_object n' None)"
    and "context_value n' span_key = Some (ZObj h)"
    and "context_value n' root_key = (if lr then Some (ZObj h) else context_value n root_key)"
    and "otel_context n' = (if sc_valid (env_sdk env) sc then ctx_with_remote api sc (otel_context n)
           else ctx_with_noop api (otel_context n))"
proof -
  obtain n' where n': "store_in_native env api span_key root_key h lr sc n = init_context_object n' None"
    "context_value n' span_key = Some (ZObj h)"
    "context_value n' root_key = (if lr then Some (ZObj h) else context_value n root_key)"
    "otel_context n' = (if sc_valid (env_sdk env) sc then ctx_with_remote api sc (otel_context n)
           else ctx_with_noop api (otel_context n))"
    by (rule store_in_native_spec [OF keys])
  have "store_in_context env api fa span_key root_key h ob st = Ok (init_context_object n' None)"
    unfolding store_in_context_def root result_bind_simps ob(2) option.case h n'(1) ..
  then show thesis using n'(2-4) by (rule that)
qed

fun store_spans ::
  "('t, 's, 'ts, 'sc, 'f) span_env \<Rightarrow> ('c, 'sc) span_api \<Rightarrow> ('c, 'f) foreign_api \<Rightarrow> nat \<Rightarrow> nat \<Rightarrow> nat list \<Rightarrow>
     ('c, 'f) context_obj \<Rightarrow> ('c, 'f) ctx_storage \<Rightarrow> (php_error, ('c, 'f) context_obj) result" where
  "store_spans env api fa span_key root_key [] ob st = Ok ob"
| "store_spans env api fa span_key root_key (h # hs) ob st =
     result_bind (store_in_context env api fa span_key root_key h ob st) (\<lambda>ob'.
       store_spans env api fa span_key root_key hs ob' st)"

definition local_span :: "('t, 's, 'ts, 'sc, 'f) span_env \<Rightarrow> nat \<Rightarrow> 'sc \<Rightarrow> bool" where
  "local_span env h sc \<longleftrightarrow>
     context_of_span env h = Ok sc \<and> sc_valid (env_sdk env) sc \<and> \<not> sc_remote (env_sdk env) sc"

lemma stored_not_local_root:
  assumes "context_value n span_key = Some (ZObj h)" and "local_span env h sc"
  shows "context_is_local_root env fa span_key (init_context_object n i) st = Ok False"
  using assms
  by (simp add: context_is_local_root_def local_span_def native_get [OF init_object_native(1,2)])

lemma store_spans_below:
  assumes "span_key \<noteq> root_key" and "context_value n span_key = Some (ZObj p)" and "local_span env p psc"
    and "\<forall>h\<in>set hs. \<exists>sc. local_span env h sc"
  shows "\<exists>n'. store_spans env api fa span_key root_key hs (init_context_object n None) st = Ok (init_context_object n' None)
    \<and> context_value n' span_key = Some (ZObj (last (p # hs))) \<and> context_value n' root_key = context_value n root_key
    \<and> (hs \<noteq> [] \<longrightarrow> (\<exists>sc c. local_span env (last hs) sc \<and> otel_context n' = ctx_with_remote api sc c))"
  using assms
proof (induction hs arbitrary: n p psc)
  case (Cons h hs)
  from Cons.prems(4) obtain sc where sc: "local_span env h sc" by auto
  then have h: "context_of_span env h = Ok sc" by (simp add: local_span_def)
  obtain n1 where n1: "store_in_context env api fa span_key root_key h (init_context_object n None) st = Ok (init_context_object n1 None)"
    "context_value n1 span_key = Some (ZObj h)" "context_value n1 root_key = context_value n root_key"
    "otel_context n1 = ctx_with_remote api sc (otel_context n)"
    using store_in_context_native [OF Cons.prems(1) init_object_native(1,2) stored_not_local_root [OF Cons.prems(2,3)] h]
      sc by (metis local_span_def)
  from Cons.IH [OF Cons.prems(1) n1(2) sc] Cons.prems(4) obtain n' where
    "store_spans env api fa span_key root_key hs (init_context_object n1 None) st = Ok (init_context_object n' None)"
    "context_value n' span_key = Some (ZObj (last (h # hs)))" "context_value n' root_key = context_value n1 root_key"
    "hs \<noteq> [] \<longrightarrow> (\<exists>sc c. local_span env (last hs) sc \<and> otel_context n' = ctx_with_remote api sc c)" by auto
  with n1 sc show ?case by (cases "hs = []") auto
qed simp

lemma current_value_native:
  assumes "storage_inv st"
  shows "current_context_value None ambient st
    = (Ok (init_context_object (fst (current_context ambient st)) (fst (current_context_instance_id st))), st)"
proof -
  have "snd (current_context ambient st) = st"
    using set_active_stack_id [OF assms]
    by (auto simp: current_context_def with_active_stack_lens split: list.splits prod.splits option.splits)
  then show ?thesis
    using current_id_state [OF assms]
    by (simp add: current_context_value_def case_prod_beta')
qed

section \<open>Properties\<close>

text \<open>The SDK's law: a context that was given an identity has it.\<close>

definition binding_laws :: "('c, 'sc) span_api \<Rightarrow> bool" where
  "binding_laws api \<longleftrightarrow> (\<forall>sc c. ctx_span_context (base_api api) (ctx_with_remote api sc c) = sc)"

text \<open>
  An instance: a context of the SDK is the identity it carries; the span objects 5 and 6 answer with the
  span context objects 9 and 10.
\<close>

type_synonym byte_context = "u8 list \<times> u8 list \<times> u8 \<times> bool \<times> string"

definition example_identity :: "u8 \<Rightarrow> byte_context" where
  "example_identity k = (replicate 16 1, replicate 8 k, 1, False, [])"

definition example_env :: "(u8 list, u8 list, string, byte_context, unit) span_env" where
  "example_env =
     \<lparr>env_sdk = byte_sdk,
      env_native = (\<lambda>h. if h = 9 then Some \<lparr>sdk_context = example_identity 1, php_trace_state = None, php_trace_flags = 1\<rparr>
        else if h = 10 then Some \<lparr>sdk_context = example_identity 2, php_trace_state = None, php_trace_flags = 1\<rparr>
        else None),
      env_call = (\<lambda>h m. if m = ''getContext'' then Ok (ZObj (h + 4)) else Err TypeMismatch),
      env_class = (\<lambda>_. []), env_iter = (\<lambda>_. Err TypeMismatch), env_to_f64 = (\<lambda>_. ()),
      env_limits = attribute_limits_from_env []\<rparr>"

definition example_api :: "(byte_context, byte_context) span_api" where
  "example_api =
     \<lparr>base_api = \<lparr>ctx_new = sc_empty byte_sdk, ctx_span_context = (\<lambda>c. c), span_context_valid = sc_valid byte_sdk,
        ctx_recording = (\<lambda>_. False)\<rparr>,
      ctx_span = (\<lambda>_. 0), span_identity = (\<lambda>_. sc_empty byte_sdk), ctx_with_remote = (\<lambda>sc _. sc),
      ctx_with_noop = (\<lambda>_. sc_empty byte_sdk)\<rparr>"

definition example_foreign :: "(byte_context, unit) foreign_api" where
  "example_foreign = \<lparr>foreign_get = (\<lambda>_ _. Err TypeMismatch), foreign_with = (\<lambda>_ _ _. Err TypeMismatch)\<rparr>"

lemma example_spans:
  "local_span example_env 5 (example_identity 1)" "local_span example_env 6 (example_identity 2)"
  by (simp_all add: local_span_def context_of_span_def span_context_from_object_def example_env_def
      example_identity_def byte_sdk_def)

lemma example_laws: "binding_laws example_api"
  by (simp add: binding_laws_def example_api_def)

lemma example_root:
  "context_is_local_root example_env example_foreign 1 (init_context_object (native_new c) i) st = Ok True"
  by (simp add: context_is_local_root_def native_get [OF init_object_native(1,2)] native_new_def context_value_def)

text \<open>
  Spans of the process that are stored one inside the other, starting from a context without a
  local span, leave a context whose span is the last one and whose local root is the first one; the
  SDK sees the identity of the last, and the context is no longer a local root.
\<close>

lemma local_root_is_entry_span:
  assumes laws: "binding_laws api" and keys: "span_key \<noteq> root_key"
    and ob: "is_native ob" "native_context_from_object ob st = Some n"
    and root: "context_is_local_root env fa span_key ob st = Ok True"
    and hs: "hs \<noteq> []" "\<forall>h\<in>set hs. \<exists>sc. local_span env h sc"
  shows "\<exists>ob' c sc. store_spans env api fa span_key root_key hs ob st = Ok ob'
    \<and> span_from_context env api fa state_class span_key ob' st = Ok (SpanObject (ZObj (last hs)))
    \<and> local_root_from_context api fa root_key ob' st = Ok (RootObject (ZObj (hd hs)))
    \<and> is_local_root env fa span_key ob' st = Ok False
    \<and> otel_context_from_php env api fa span_key ob' st = Ok c
    \<and> local_span env (last hs) sc \<and> ctx_span_context (base_api api) c = sc"
proof -
  from hs obtain h hs' sc0 where hs': "hs = h # hs'" and sc0: "local_span env h sc0" by (cases hs) auto
  then have h: "context_of_span env h = Ok sc0" by (simp add: local_span_def)
  obtain n1 where n1: "store_in_context env api fa span_key root_key h ob st = Ok (init_context_object n1 None)"
    "context_value n1 span_key = Some (ZObj h)" "context_value n1 root_key = Some (ZObj h)"
    "otel_context n1 = ctx_with_remote api sc0 (otel_context n)"
    using store_in_context_native [OF keys ob root h] sc0 by (metis local_span_def)
  from store_spans_below [OF keys n1(2) sc0, of hs' api fa st] hs(2) hs' obtain n' where
    n': "store_spans env api fa span_key root_key hs' (init_context_object n1 None) st = Ok (init_context_object n' None)"
      "context_value n' span_key = Some (ZObj (last hs))" "context_value n' root_key = Some (ZObj h)"
      "hs' \<noteq> [] \<longrightarrow> (\<exists>sc c. local_span env (last hs') sc \<and> otel_context n' = ctx_with_remote api sc c)"
    using n1(3) by auto
  obtain sc c where sc: "local_span env (last hs) sc" "otel_context n' = ctx_with_remote api sc c"
  proof (cases "hs' = []")
    case True
    with n'(1) have "n' = n1" by simp
    with True hs' sc0 n1(4) that show thesis by auto
  next
    case False
    with n'(4) hs' that show thesis by auto
  qed
  note get = native_get [OF init_object_native(1,2)]
  have "is_local_root env fa span_key (init_context_object n' None) st = Ok False"
    using stored_not_local_root [OF n'(2) sc(1)] by (simp add: is_local_root_def context_is_local_root_def)
  moreover have "store_spans env api fa span_key root_key hs ob st = Ok (init_context_object n' None)"
    using n1(1) n'(1) hs' by simp
  ultimately show ?thesis
    using laws n'(2,3) sc hs'
    by (intro exI [of _ "init_context_object n' None"] exI [of _ "otel_context n'"] exI [of _ sc] conjI)
      (simp_all add: span_from_context_def local_root_from_context_def otel_context_from_php_def get binding_laws_def)
qed

text \<open>
  C15. Activating a span makes it the current one, for PHP code and for the SDK alike, and detaching the
  scope it returns succeeds and makes the context current that was current before.
\<close>

theorem span_activation:
  assumes laws: "binding_laws api" and keys: "span_key \<noteq> root_key" and inv: "storage_inv st"
    and small: "instance_counter st < 2 ^ 63"
    and root: "context_is_local_root env fa span_key
        (init_context_object (fst (current_context ambient st)) (fst (current_context_instance_id st))) st = Ok lr"
    and h: "context_of_span env h = Ok sc" "sc_valid (env_sdk env) sc"
  shows "\<exists>scp st1 scp' st2 ob. span_activate env api fa span_key root_key ambient h st = (Ok scp, st1)
    \<and> current_context_value None ambient st1 = (Ok ob, st1)
    \<and> span_from_context env api fa state_class span_key ob st1 = Ok (SpanObject (ZObj h))
    \<and> ctx_span_context (base_api api) (otel_current ambient st1) = sc
    \<and> scope_detach (base_api api) unowned scp st1 = (0, scp', st2)
    \<and> fst (current_context ambient st2) = fst (current_context ambient st)
    \<and> guard_stack st2 = guard_stack st"
proof -
  let ?cur = "fst (current_context ambient st)" and ?i = "instance_counter st"
  let ?ob = "init_context_object ?cur (fst (current_context_instance_id st))"
  obtain n' where n': "store_in_context env api fa span_key root_key h ?ob st = Ok (init_context_object n' None)"
    "context_value n' span_key = Some (ZObj h)" "otel_context n' = ctx_with_remote api sc (otel_context ?cur)"
    using store_in_context_native [OF keys init_object_native(1,2) root h(1)] h(2) by metis
  from context_activate_Ok [OF init_object_native(3) inv, of n' None] obtain ob' st1 scp where
    act: "context_activate (init_context_object n' None) st = (Ok (scp, ob'), st1)"
    and scp: "scp = \<lparr>scope_context = Some n', scope_execution = current_execution st, scope_detached = False,
      scope_context_id = property_of_id (Some ?i)\<rparr>"
    and st1: "storage_inv st1" "active_stack st1 = (?i, n') # active_stack st"
      "stack_view (set_active_stack (active_stack st) st1\<lparr>guard_stack := guard_stack st, attached := attached st\<rparr>) = stack_view st"
      "current_execution st1 = current_execution st" "guard_stack st1 = (?i, otel_context n') # guard_stack st"
      "attached st1 = (None, otel_context n') # attached st" by metis
  have activated: "span_activate env api fa span_key root_key ambient h st = (Ok scp, st1)"
    by (simp add: span_activate_def current_value_native [OF inv] n'(1) act)
  have cur: "fst (current_context ambient st1) = n'"
    using st1(2) by (simp add: current_context_def with_active_stack_lens)
  have "0 < ?i" using inv by (simp add: storage_inv_def)
  from scope_detach_top [OF st1(1,2) this small, of scp "base_api api" unowned] scp st1(4) obtain st2 where
    st2: "scope_detach (base_api api) unowned scp st1 = (0, scp\<lparr>scope_detached := True\<rparr>, st2)"
      "stack_view st2 = stack_view st"
    using st1(3,5,6) by auto
  then have "fst (current_context ambient st2) = fst (current_context ambient st)" "guard_stack st2 = guard_stack st"
    using active_stack_view [OF st2(2)] by (auto simp: stack_view_def intro: current_context_cong)
  moreover have "ctx_span_context (base_api api) (otel_current ambient st1) = sc"
    using laws by (simp add: otel_current_def st1(6) n'(3) binding_laws_def)
  moreover have "span_from_context env api fa state_class span_key
      (init_context_object n' (fst (current_context_instance_id st1))) st1 = Ok (SpanObject (ZObj h))"
    by (simp add: span_from_context_def native_get [OF init_object_native(1,2)] n'(2))
  ultimately show ?thesis
    using activated current_value_native [OF st1(1), of ambient] st2(1) cur by auto
qed

theorem span_activation_witness:
  "\<exists>scp st1 scp' st2. span_activate example_env example_api example_foreign 1 2 (sc_empty byte_sdk) 5 (storage_init 1) = (Ok scp, st1)
     \<and> ctx_span_context (base_api example_api) (otel_current (sc_empty byte_sdk) st1) = example_identity 1
     \<and> scope_detach (base_api example_api) (\<lambda>_. True) scp st1 = (0, scp', st2) \<and> guard_stack st2 = []"
proof -
  let ?st = "storage_init 1 :: (byte_context, unit) ctx_storage"
  have inv: "storage_inv ?st" by (rule storage_init_inv) simp
  have cur: "fst (current_context (sc_empty byte_sdk) ?st) = native_new (sc_empty byte_sdk)"
    by (simp add: current_context_def with_active_stack_lens active_stack_def storage_init_def otel_current_def
        set_active_stack_def)
  have root: "context_is_local_root example_env example_foreign 1
      (init_context_object (fst (current_context (sc_empty byte_sdk) ?st)) (fst (current_context_instance_id ?st))) ?st = Ok True"
    unfolding cur by (rule example_root)
  have "instance_counter ?st < 2 ^ 63" "guard_stack ?st = []" by (simp_all add: storage_init_def)
  with span_activation [OF example_laws _ inv _ root, where root_key = 2 and h = 5 and sc = "example_identity 1"
      and unowned = "\<lambda>_. True"] example_spans(1)
  show ?thesis unfolding local_span_def by fastforce
qed

end
