(* ===== verification/Carrier.thy ===== *)
theory Carrier
  imports Php_Values
begin

text \<open>
  Carriers of propagated headers: \<open>ArrayAccessGetterSetter\<close>
  (\<open>context/propagation/array_access_getter_setter.rs\<close>), which reads and writes the entries of a PHP array
  or of an \<open>ArrayAccess\<close> object without regard to the case of the key, and \<open>MultiTextMapPropagator\<close>
  (\<open>multi_text_map_propagator.rs\<close>), which runs a list of propagators.

  Arrays are lists of entries in their order. Iterating an object and calling its methods is PHP code:
  \<open>iter\<close> and \<open>invoke\<close>, over a state \<open>'w\<close> of the PHP world. The carrier of \<open>set\<close> is the value behind the
  reference that is passed.
\<close>

section \<open>Looking a key up\<close>

type_synonym 'f zarr = "(zkey \<times> 'f zval) list"

definition carrier_array ::
  "('f zval \<Rightarrow> (php_error, 'f zval) result) \<Rightarrow> 'f zval \<Rightarrow> (php_error, 'f zval) result" where
  "carrier_array iter carrier =
     (case zval_iterable_to_array iter carrier of
        Inr v \<Rightarrow> Ok v
      | Inl _ \<Rightarrow> Err (BoxedError ''Unsupported carrier type''))"

definition key_matches :: "zkey \<Rightarrow> string \<Rightarrow> bool" where
  "key_matches candidate key =
     (case candidate of
        KIndex i \<Rightarrow> eq_ignore_ascii_case (show_int i) key
      | KStr s \<Rightarrow> (case to_str s of Some t \<Rightarrow> eq_ignore_ascii_case t key | None \<Rightarrow> False))"

fun resolve_key :: "'f zarr \<Rightarrow> string \<Rightarrow> string option" where
  "resolve_key [] key = None"
| "resolve_key ((candidate, _) # a) key =
     (if key_matches candidate key then Some (key_bytes candidate) else resolve_key a key)"

fun find_value :: "'f zarr \<Rightarrow> string \<Rightarrow> 'f zval option" where
  "find_value [] key = None"
| "find_value ((candidate, v) # a) key = (if key_matches candidate key then Some v else find_value a key)"

fun first_text :: "'f zarr \<Rightarrow> string option" where
  "first_text [] = None"
| "first_text ((_, v) # a) =
     (case v of
        ZStr b \<Rightarrow> (case to_str b of Some t \<Rightarrow> Some t | None \<Rightarrow> first_text a)
      | _ \<Rightarrow> first_text a)"

definition first_string :: "'f zval option \<Rightarrow> string option" where
  "first_string found =
     (case found of
        Some (ZStr b) \<Rightarrow> to_str b
      | Some (ZArr a) \<Rightarrow> first_text a
      | _ \<Rightarrow> None)"

section \<open>The methods of the getter and setter\<close>

definition key_text :: "zkey \<Rightarrow> (php_error, string) result" where
  "key_text k =
     (case k of
        KIndex i \<Rightarrow> Ok (show_int i)
      | KStr s \<Rightarrow> (case to_str s of Some t \<Rightarrow> Ok t | None \<Rightarrow> Err Utf8Error))"

fun key_texts :: "'f zarr \<Rightarrow> (php_error, string list) result" where
  "key_texts [] = Ok []"
| "key_texts ((k, _) # a) =
     result_bind (key_text k) (\<lambda>t. result_bind (key_texts a) (\<lambda>ts. Ok (t # ts)))"

definition carrier_keys ::
  "('f zval \<Rightarrow> (php_error, 'f zval) result) \<Rightarrow> 'f zval list \<Rightarrow> (php_error, string list) result" where
  "carrier_keys iter args =
     result_bind (arg_at args 0) (\<lambda>c.
     result_bind (carrier_array iter c) (\<lambda>arr.
     result_bind (expect_arr arr) key_texts))"

definition carrier_get ::
  "('f zval \<Rightarrow> (php_error, 'f zval) result) \<Rightarrow> 'f zval list \<Rightarrow> (php_error, string option) result" where
  "carrier_get iter args =
     result_bind (arg_at args 0) (\<lambda>c.
     result_bind (carrier_array iter c) (\<lambda>arr.
     result_bind (arg_at args 1) (\<lambda>k.
     result_bind (expect_utf8 k) (\<lambda>key.
     result_bind (expect_arr arr) (\<lambda>a.
     Ok (first_string (find_value a key)))))))"

fun all_texts :: "'f zarr \<Rightarrow> (php_error, string list) result" where
  "all_texts [] = Ok []"
| "all_texts ((_, v) # a) =
     (case v of
        ZStr b \<Rightarrow> result_bind (expect_utf8 v) (\<lambda>t. result_bind (all_texts a) (\<lambda>ts. Ok (t # ts)))
      | _ \<Rightarrow> all_texts a)"

definition carrier_get_all ::
  "('f zval \<Rightarrow> (php_error, 'f zval) result) \<Rightarrow> 'f zval list \<Rightarrow> (php_error, string list) result" where
  "carrier_get_all iter args =
     result_bind (arg_at args 0) (\<lambda>c.
     result_bind (carrier_array iter c) (\<lambda>arr.
     result_bind (arg_at args 1) (\<lambda>k.
     result_bind (expect_utf8 k) (\<lambda>key.
     result_bind (expect_arr arr) (\<lambda>a.
     case find_value a key of
       Some (ZStr b) \<Rightarrow> result_bind (expect_utf8 (ZStr b)) (\<lambda>t. Ok [t])
     | Some (ZArr vs) \<Rightarrow> all_texts vs
     | _ \<Rightarrow> Ok [])))))"

definition array_set :: "string \<Rightarrow> string \<Rightarrow> 'f zarr \<Rightarrow> 'f zarr" where
  "array_set key v a =
     zarr_insert (symtable_key key) (ZStr v)
       (case resolve_key a key of
          Some existing \<Rightarrow> if existing \<noteq> key then zarr_remove (symtable_key existing) a else a
        | None \<Rightarrow> a)"

definition object_set ::
  "(nat \<Rightarrow> string \<Rightarrow> 'f zval list \<Rightarrow> 'w \<Rightarrow> (php_error, 'f zval) result \<times> 'w) \<Rightarrow> nat \<Rightarrow> string option \<Rightarrow>
     string \<Rightarrow> string \<Rightarrow> 'w \<Rightarrow> (php_error, 'f zval) result \<times> 'w" where
  "object_set invoke h resolved key v w =
     (let store = (\<lambda>w. case invoke h ''offsetSet'' [ZStr key, ZStr v] w of
            (Inl e, w') \<Rightarrow> (Err e, w') | (Inr _, w') \<Rightarrow> (Ok (ZObj h), w')) in
      case resolved of
        Some existing \<Rightarrow>
          if existing \<noteq> key then
            (case invoke h ''offsetUnset'' [ZStr existing] w of
               (Inl e, w') \<Rightarrow> (Err e, w') | (Inr _, w') \<Rightarrow> store w')
          else store w
      | None \<Rightarrow> store w)"

definition set_target ::
  "('w \<Rightarrow> 'f zval \<Rightarrow> (php_error, 'f zval) result) \<Rightarrow>
   (nat \<Rightarrow> string \<Rightarrow> 'f zval list \<Rightarrow> 'w \<Rightarrow> (php_error, 'f zval) result \<times> 'w) \<Rightarrow>
   'f zval \<Rightarrow> string \<Rightarrow> string \<Rightarrow> 'w \<Rightarrow> (php_error, 'f zval) result \<times> 'w" where
  "set_target iter invoke target key v w =
     (case target of
        ZArr a \<Rightarrow> (Ok (ZArr (array_set key v a)), w)
      | _ \<Rightarrow>
          (case zval_iterable_to_array (iter w) target of
             Inl _ \<Rightarrow> (Err (BoxedError ''Unsupported carrier type''), w)
           | Inr arr \<Rightarrow>
               (case expect_arr arr of
                  Inl e \<Rightarrow> (Err e, w)
                | Inr a \<Rightarrow>
                    (case target of
                       ZObj h \<Rightarrow> object_set invoke h (resolve_key a key) key v w
                     | _ \<Rightarrow> (Err (BoxedError ''Unsupported carrier type''), w)))))"

text \<open>\<open>set\<close>: the carrier after the call and the state of the world, or the error.\<close>

definition carrier_set ::
  "('w \<Rightarrow> 'f zval \<Rightarrow> (php_error, 'f zval) result) \<Rightarrow>
   (nat \<Rightarrow> string \<Rightarrow> 'f zval list \<Rightarrow> 'w \<Rightarrow> (php_error, 'f zval) result \<times> 'w) \<Rightarrow>
   'f zval list \<Rightarrow> 'w \<Rightarrow> (php_error, 'f zval) result \<times> 'w" where
  "carrier_set iter invoke args w =
     (case result_bind (arg_at args 1) expect_utf8 of
        Inl e \<Rightarrow> (Err e, w)
      | Inr key \<Rightarrow>
          if key = [] then (Err (BoxedError ''Unable to set value with an empty key''), w)
          else
            (case result_bind (arg_at args 2) expect_utf8 of
               Inl e \<Rightarrow> (Err e, w)
             | Inr v \<Rightarrow>
                 (case arg_at args 0 of
                    Inl e \<Rightarrow> (Err e, w)
                  | Inr target \<Rightarrow> set_target iter invoke target key v w)))"

section \<open>What set stores, get finds\<close>

text \<open>
  A PHP array has distinct keys in their canonical form. A carrier is unambiguous when no two of its
  keys differ only in case.
\<close>

definition key_utf8 :: "zkey \<Rightarrow> bool" where
  "key_utf8 k \<longleftrightarrow> (case k of KIndex _ \<Rightarrow> True | KStr s \<Rightarrow> valid_utf8 s)"

definition php_array :: "'f zarr \<Rightarrow> bool" where
  "php_array a \<longleftrightarrow> distinct (map fst a) \<and> (\<forall>k\<in>fst ` set a. symtable_key (key_bytes k) = k)"

definition unambiguous :: "'f zarr \<Rightarrow> bool" where
  "unambiguous a \<longleftrightarrow>
     (\<forall>k\<in>fst ` set a. \<forall>l\<in>fst ` set a. key_utf8 k \<and> key_utf8 l
        \<and> eq_ignore_ascii_case (key_bytes k) (key_bytes l) \<longrightarrow> k = l)"

lemma key_matches_iff: "key_matches k key \<longleftrightarrow> key_utf8 k \<and> eq_ignore_ascii_case (key_bytes k) key"
  by (cases k) (auto simp: key_matches_def key_utf8_def to_str_def)

lemma key_matches_symtable: "valid_utf8 key \<Longrightarrow> key_matches (symtable_key key) k' \<longleftrightarrow> eq_ignore_ascii_case key k'"
proof -
  assume u: "valid_utf8 key"
  have "key_utf8 (symtable_key key)"
    using u key_bytes_symtable [of key] by (cases "symtable_key key") (auto simp: key_utf8_def)
  then show ?thesis by (simp add: key_matches_iff)
qed

lemma unambiguousD:
  assumes "unambiguous a" and "key_matches k key" and "key_matches l key"
    and "k \<in> fst ` set a" and "l \<in> fst ` set a"
  shows "k = l"
proof -
  have "eq_ignore_ascii_case (key_bytes k) (key_bytes l)" "key_utf8 k" "key_utf8 l"
    using assms(2,3) by (simp_all add: key_matches_iff eq_ignore_ascii_case_def)
  then show ?thesis using assms(1,4,5) unfolding unambiguous_def by blast
qed

lemma find_value_map_of:
  assumes "distinct (map fst a)" and "unambiguous a"
  shows "find_value a key = Some v \<longleftrightarrow> (\<exists>k. map_of a k = Some v \<and> key_matches k key)"
  using assms
proof (induction a)
  case (Cons kv a)
  obtain k u where kv: "kv = (k, u)" by (cases kv)
  from Cons.prems kv have IH: "find_value a key = Some v \<longleftrightarrow> (\<exists>l. map_of a l = Some v \<and> key_matches l key)"
    by (intro Cons.IH) (auto simp: unambiguous_def)
  have other: "l = k" if "key_matches k key" "key_matches l key" "map_of (kv # a) l \<noteq> None" for l
  proof -
    have "l \<in> fst ` set (kv # a)" "k \<in> fst ` set (kv # a)"
      using that(3) kv by (auto split: if_splits dest: map_of_Some_key)
    with that Cons.prems(2) show ?thesis by (blast intro: unambiguousD)
  qed
  show ?case
  proof (cases "key_matches k key")
    case True
    then show ?thesis using other kv by (auto simp del: map_of_eq_None_iff)
  next
    case False
    with IH kv show ?thesis using Cons.prems(1)
      by (auto simp: map_of_eq_None_iff dest: map_of_SomeD)
  qed
qed simp

lemma resolve_key_find:
  "resolve_key a key = map_option (\<lambda>kv. key_bytes (fst kv)) (List.find (\<lambda>kv. key_matches (fst kv) key) a)"
  by (induction a) auto

lemma resolve_key_cases:
  assumes "php_array a" and "unambiguous a"
  shows "(resolve_key a key = None \<and> (\<forall>k\<in>fst ` set a. \<not> key_matches k key))
    \<or> (\<exists>k\<in>fst ` set a. resolve_key a key = Some (key_bytes k)
         \<and> (\<forall>l\<in>fst ` set a. key_matches l key \<longleftrightarrow> l = k))"
proof -
  have "(resolve_key a key = None \<and> (\<forall>k\<in>fst ` set a. \<not> key_matches k key))
    \<or> (\<exists>k\<in>fst ` set a. resolve_key a key = Some (key_bytes k) \<and> key_matches k key)"
    unfolding resolve_key_find
    by (cases "List.find (\<lambda>kv. key_matches (fst kv) key) a") (auto simp: find_None_iff dest: find_Some_in)
  then show ?thesis
  proof
    assume "\<exists>k\<in>fst ` set a. resolve_key a key = Some (key_bytes k) \<and> key_matches k key"
    then obtain k where k: "k \<in> fst ` set a" "resolve_key a key = Some (key_bytes k)" "key_matches k key"
      by blast
    then have "\<forall>l\<in>fst ` set a. key_matches l key \<longleftrightarrow> l = k" using unambiguousD [OF assms(2)] by blast
    with k show ?thesis by blast
  qed simp
qed

lemma zarr_remove_simps [simp]:
  "fst ` set (zarr_remove k a) = fst ` set a - {k}"
  "distinct (map fst a) \<Longrightarrow> distinct (map fst (zarr_remove k a))"
  "map_of (zarr_remove k a) = (map_of a)(k := None)"
  by (auto simp: zarr_remove_def map_of_filter_neq distinct_fst_filter)

lemma zarr_insert_simps [simp]:
  "fst ` set (zarr_insert k v a) = insert k (fst ` set a)"
  "distinct (map fst a) \<Longrightarrow> distinct (map fst (zarr_insert k v a))"
  by (simp_all add: zarr_insert_def dom_update distinct_update)

lemma map_of_array_set:
  assumes a: "php_array a" "unambiguous a" and key: "valid_utf8 key"
  shows "map_of (array_set key v a) k =
    (if k = symtable_key key then Some (ZStr v) else if key_matches k key then None else map_of a k)"
proof -
  have self: "key_matches (symtable_key key) key"
    using key by (simp add: key_matches_symtable eq_ignore_ascii_case_def)
  from resolve_key_cases [OF a, of key] show ?thesis
  proof
    assume "resolve_key a key = None \<and> (\<forall>k\<in>fst ` set a. \<not> key_matches k key)"
    then show ?thesis by (auto simp: array_set_def store_simps map_of_eq_None_iff)
  next
    assume "\<exists>l\<in>fst ` set a. resolve_key a key = Some (key_bytes l)
      \<and> (\<forall>m\<in>fst ` set a. key_matches m key \<longleftrightarrow> m = l)"
    then obtain l where l: "l \<in> fst ` set a" "resolve_key a key = Some (key_bytes l)"
      "\<And>m. m \<in> fst ` set a \<Longrightarrow> key_matches m key \<longleftrightarrow> m = l" by blast
    with a(1) have sl: "symtable_key (key_bytes l) = l" by (auto simp: php_array_def)
    have none: "map_of a k = None" if "key_matches k key" "k \<noteq> l"
      using that l(3) by (auto simp: map_of_eq_None_iff)
    from l(1) l(3) have "key_matches l key" by blast
    with l(2) sl none show ?thesis
      by (cases "key_bytes l = key") (auto simp: array_set_def store_simps)
  qed
qed

lemma array_set_ok:
  assumes a: "php_array a" "unambiguous a" and key: "valid_utf8 key"
  shows "php_array (array_set key v a)" "unambiguous (array_set key v a)"
proof -
  have keys: "k = symtable_key key \<or> k \<in> fst ` set a \<and> \<not> key_matches k key"
    if "k \<in> fst ` set (array_set key v a)" for k
  proof -
    have "map_of (array_set key v a) k \<noteq> None" using that by (simp add: map_of_eq_None_iff)
    then show ?thesis unfolding map_of_array_set [OF a key]
      by (auto split: if_splits dest: map_of_Some_key)
  qed
  have "distinct (map fst (array_set key v a))"
    using a(1) by (auto simp: array_set_def php_array_def split: option.splits)
  then show "php_array (array_set key v a)"
    using a(1) keys unfolding php_array_def by (metis key_bytes_symtable)
  have other: "\<not> eq_ignore_ascii_case (key_bytes k) key" "\<not> eq_ignore_ascii_case key (key_bytes k)"
    if "key_utf8 k" "\<not> key_matches k key" for k
    using that by (auto simp: key_matches_iff eq_ignore_ascii_case_def)
  show "unambiguous (array_set key v a)"
    unfolding unambiguous_def
  proof (intro ballI impI)
    fix k l
    assume kl: "k \<in> fst ` set (array_set key v a)" "l \<in> fst ` set (array_set key v a)"
      and eq: "key_utf8 k \<and> key_utf8 l \<and> eq_ignore_ascii_case (key_bytes k) (key_bytes l)"
    from keys [OF kl(1)] keys [OF kl(2)] eq other [of k] other [of l] a(2) show "k = l"
      unfolding unambiguous_def by (auto simp del: fst_conv)
  qed
qed

lemma find_value_array_set:
  assumes a: "php_array a" "unambiguous a" and key: "valid_utf8 key"
  shows "find_value (array_set key v a) k = (if eq_ignore_ascii_case key k then Some (ZStr v) else find_value a k)"
proof -
  have d: "distinct (map fst a)" "distinct (map fst (array_set key v a))"
    using a(1) array_set_ok(1) [OF a key] by (simp_all add: php_array_def)
  note iff = find_value_map_of [OF d(1) a(2)] find_value_map_of [OF d(2) array_set_ok(2) [OF a key]]
  have same: "key_matches l key \<longleftrightarrow> key_matches l k" if "eq_ignore_ascii_case key k" for l
    using that by (simp add: key_matches_iff eq_ignore_ascii_case_def)
  have "find_value (array_set key v a) k = Some u \<longleftrightarrow>
      (if eq_ignore_ascii_case key k then Some (ZStr v) else find_value a k) = Some u" for u
  proof (cases "eq_ignore_ascii_case key k")
    case True
    then show ?thesis unfolding iff map_of_array_set [OF a key]
      using same [OF True] key_matches_symtable [OF key] by auto
  next
    case False
    have "\<not> key_matches l key" if "key_matches l k" for l
      using that False by (auto simp: key_matches_iff eq_ignore_ascii_case_def)
    with False show ?thesis unfolding iff map_of_array_set [OF a key]
      using key_matches_symtable [OF key] iff(1) by auto
  qed
  then show ?thesis by (metis not_None_eq)
qed

text \<open>The texts \<open>get\<close> returns are those of the entry found; an array of texts counts by its first.\<close>

definition array_get :: "'f zarr \<Rightarrow> string \<Rightarrow> string option" where
  "array_get a key = first_string (find_value a key)"

interpretation array_carrier: header_carrier array_set array_get "\<lambda>a. php_array a \<and> unambiguous a"
  eq_ignore_ascii_case valid_utf8 valid_utf8
  by unfold_locales
    (auto simp: array_get_def array_set_ok find_value_array_set first_string_def to_str_def)

lemma carrier_get_array [simp]:
  "valid_utf8 key \<Longrightarrow> carrier_get iter [ZArr a, ZStr key] = Ok (array_get a key)"
  by (simp add: carrier_get_def arg_at_def carrier_array_def zval_iterable_to_array_def expect_utf8_def
      array_get_def to_str_def)

lemma carrier_set_array [simp]:
  "valid_utf8 key \<Longrightarrow> valid_utf8 v \<Longrightarrow> key \<noteq> [] \<Longrightarrow>
     carrier_set iter invoke [ZArr a, ZStr key, ZStr v] w = (Ok (ZArr (array_set key v a)), w)"
  by (simp add: carrier_set_def arg_at_def expect_utf8_def to_str_def set_target_def)

text \<open>Two keys that differ in case only: the entry that is left over hides the one just written.\<close>

lemma ambiguous_carrier_stale:
  "let a = [(KStr ''Foo'', ZStr ''1''), (KStr ''FOO'', ZStr ''2'')] in
   carrier_set iter invoke [ZArr a, ZStr ''foo'', ZStr ''3''] w
     = (Ok (ZArr [(KStr ''FOO'', ZStr ''2''), (KStr ''foo'', ZStr ''3'')]), w)
   \<and> carrier_get iter' [ZArr [(KStr ''FOO'', ZStr ''2''), (KStr ''foo'', ZStr ''3'')], ZStr ''foo''] = Ok (Some ''2'')"
proof -
  have c: "symtable_key ''foo'' = KStr ''foo''" "symtable_key ''Foo'' = KStr ''Foo''"
    by (simp_all add: symtable_key_name is_ascii_digit_def)
  have e: "eq_ignore_ascii_case ''Foo'' ''foo''" "eq_ignore_ascii_case ''FOO'' ''foo''"
    by (simp_all add: ascii_case_simps)
  have u: "valid_utf8 ''foo''" "valid_utf8 ''Foo''" "valid_utf8 ''FOO''" "valid_utf8 ''2''" "valid_utf8 ''3''"
    by (simp_all add: byte_in_def)
  show ?thesis
    by (simp add: Let_def array_set_def array_get_def key_matches_iff key_utf8_def c e u zarr_remove_def
        zarr_insert_def first_string_def to_str_def del: valid_utf8.simps)
qed

section \<open>Several propagators\<close>

text \<open>
  \<open>MultiTextMapPropagator\<close>. The propagators are PHP objects. \<open>fields\<close> keeps every field name once, in
  the order of first occurrence; a name that is not UTF-8 or no string is skipped.
\<close>

record 'f multi_text_map =
  propagators :: "'f zval list"
  multi_fields :: "string list"

definition multi_default :: "'f multi_text_map" where
  "multi_default = \<lparr>propagators = [], multi_fields = []\<rparr>"

fun add_fields :: "'f zarr \<Rightarrow> string list \<Rightarrow> string list" where
  "add_fields [] fs = fs"
| "add_fields ((_, v) # a) fs =
     add_fields a (case v of
        ZStr b \<Rightarrow> (case to_str b of Some t \<Rightarrow> if t \<in> set fs then fs else fs @ [t] | None \<Rightarrow> fs)
      | _ \<Rightarrow> fs)"

fun multi_construct ::
  "(nat \<Rightarrow> string \<Rightarrow> 'f zval list \<Rightarrow> 'w \<Rightarrow> (php_error, 'f zval) result \<times> 'w) \<Rightarrow> 'f zarr \<Rightarrow>
     'f multi_text_map \<Rightarrow> 'w \<Rightarrow> (php_error, 'f multi_text_map) result \<times> 'w" where
  "multi_construct invoke [] st w = (Ok st, w)"
| "multi_construct invoke ((_, p) # ps) st w =
     (case expect_obj p of
        Inl e \<Rightarrow> (Err e, w)
      | Inr h \<Rightarrow>
          (case invoke h ''fields'' [] w of
             (Inl e, w') \<Rightarrow> (Err e, w')
           | (Inr fs, w') \<Rightarrow>
               (case expect_arr fs of
                  Inl e \<Rightarrow> (Err e, w')
                | Inr a \<Rightarrow>
                    multi_construct invoke ps
                      (st\<lparr>multi_fields := add_fields a (multi_fields st), propagators := propagators st @ [p]\<rparr>) w')))"

text \<open>\<open>inject\<close> runs them in order and stops at the first error; \<open>extract\<close> threads the context.\<close>

definition optional_arg :: "'f zval list \<Rightarrow> nat \<Rightarrow> 'f zval" where
  "optional_arg args i = (if i < length args then args ! i else ZNull)"

fun multi_inject ::
  "(nat \<Rightarrow> string \<Rightarrow> 'f zval list \<Rightarrow> 'w \<Rightarrow> (php_error, 'f zval) result \<times> 'w) \<Rightarrow> 'f zval list \<Rightarrow>
     'f zval list \<Rightarrow> 'w \<Rightarrow> (php_error, unit) result \<times> 'w" where
  "multi_inject invoke [] args w = (Ok (), w)"
| "multi_inject invoke (p # ps) args w =
     (case result_bind (expect_obj p) (\<lambda>h. result_bind (arg_at args 0) (\<lambda>c. Ok (h, c))) of
        Inl e \<Rightarrow> (Err e, w)
      | Inr (h, c) \<Rightarrow>
          (case invoke h ''inject'' [c, optional_arg args 1, optional_arg args 2] w of
             (Inl e, w') \<Rightarrow> (Err e, w')
           | (Inr _, w') \<Rightarrow> multi_inject invoke ps args w'))"

fun multi_extract_loop ::
  "(nat \<Rightarrow> string \<Rightarrow> 'f zval list \<Rightarrow> 'w \<Rightarrow> (php_error, 'f zval) result \<times> 'w) \<Rightarrow> 'f zval list \<Rightarrow>
     'f zval list \<Rightarrow> 'f zval \<Rightarrow> 'w \<Rightarrow> (php_error, 'f zval) result \<times> 'w" where
  "multi_extract_loop invoke [] args ctx w = (Ok ctx, w)"
| "multi_extract_loop invoke (p # ps) args ctx w =
     (case result_bind (expect_obj p) (\<lambda>h. result_bind (arg_at args 0) (\<lambda>c. Ok (h, c))) of
        Inl e \<Rightarrow> (Err e, w)
      | Inr (h, c) \<Rightarrow>
          (case invoke h ''extract'' [c, optional_arg args 1, ctx] w of
             (Inl e, w') \<Rightarrow> (Err e, w')
           | (Inr ctx', w') \<Rightarrow> multi_extract_loop invoke ps args ctx' w'))"

text \<open>\<open>current\<close> makes the PHP object of the current context.\<close>

definition multi_extract ::
  "(nat \<Rightarrow> string \<Rightarrow> 'f zval list \<Rightarrow> 'w \<Rightarrow> (php_error, 'f zval) result \<times> 'w) \<Rightarrow>
   ('w \<Rightarrow> (php_error, 'f zval) result \<times> 'w) \<Rightarrow> 'f multi_text_map \<Rightarrow> 'f zval list \<Rightarrow> 'w \<Rightarrow>
   (php_error, 'f zval) result \<times> 'w" where
  "multi_extract invoke current st args w =
     (case (case object_arg args 2 of Some c \<Rightarrow> (Ok c, w) | None \<Rightarrow> current w) of
        (Inl e, w') \<Rightarrow> (Err e, w')
      | (Inr ctx, w') \<Rightarrow> multi_extract_loop invoke (propagators st) args ctx w')"

lemma add_fields_distinct: "distinct fs \<Longrightarrow> distinct (add_fields a fs)"
  by (induction a fs rule: add_fields.induct) (auto simp: to_str_def split: zval.splits option.splits)

lemma add_fields_keeps: "\<exists>gs. add_fields a fs = fs @ gs"
proof (induction a fs rule: add_fields.induct)
  case (2 k v a fs)
  then show ?case by (cases v) (auto simp: to_str_def split: option.splits if_splits)
qed simp

lemma multi_construct_fields:
  "multi_construct invoke ps st w = (Ok st', w') \<Longrightarrow> distinct (multi_fields st) \<Longrightarrow>
     distinct (multi_fields st') \<and> propagators st' = propagators st @ map snd ps"
proof (induction invoke ps st w rule: multi_construct.induct)
  case (2 invoke k p ps st w)
  then show ?case by (auto simp: add_fields_distinct split: sum.splits prod.splits)
qed simp

lemma multi_extract_loop_append:
  "multi_extract_loop invoke (ps @ qs) args ctx w =
     (case multi_extract_loop invoke ps args ctx w of
        (Inl e, w') \<Rightarrow> (Inl e, w')
      | (Inr ctx', w') \<Rightarrow> multi_extract_loop invoke qs args ctx' w')"
  by (induction invoke ps args ctx w rule: multi_extract_loop.induct) (auto split: sum.splits prod.splits)

text \<open>
  A header set on an array carrier is the one read back under its name in any case, the other
  headers are untouched, and the carrier stays unambiguous.
\<close>

lemma carrier_set_get:
  assumes "php_array a" and "unambiguous a" and "key \<noteq> []" and "valid_utf8 key" and "valid_utf8 v"
  shows "\<exists>b. carrier_set iter invoke [ZArr a, ZStr key, ZStr v] w = (Ok (ZArr b), w)
    \<and> php_array b \<and> unambiguous b
    \<and> (\<forall>k. valid_utf8 k \<longrightarrow> carrier_get iter' [ZArr b, ZStr k]
         = (if eq_ignore_ascii_case key k then Ok (Some v) else carrier_get iter' [ZArr a, ZStr k]))"
  using assms array_carrier.get_put [of a key v] array_set_ok [OF assms(1,2,4)] by simp

end
