(* ===== verification/Baggage.thy ===== *)
theory Baggage
  imports Php_Values
begin

text \<open>
  W3C baggage (\<open>baggage/\<close>): the builder and the immutable \<open>Baggage\<close> object, the parser of the
  \<open>baggage\<close> header with its limits, URL encoding and decoding, and the header the propagator writes.

  The state of a \<open>Baggage\<close> or a builder is the list of its entries by key. A metadata object is the
  string its \<open>getValue\<close> returns. PHP's \<open>strval\<close> is an argument of the header.
\<close>

section \<open>Entries, builder and baggage\<close>

record 'f entry =
  entry_value :: "'f zval"
  entry_metadata :: bytes

type_synonym 'f entries = "(bytes \<times> 'f entry) list"

definition empty_metadata :: bytes where
  "empty_metadata = []"

definition entries_to_array :: "'f entries \<Rightarrow> (zkey \<times> 'f entry) list" where
  "entries_to_array es = fold (\<lambda>(key, e). zarr_insert (symtable_key key) e) es []"

definition entries_from_array :: "(zkey \<times> 'f entry) list \<Rightarrow> 'f entries" where
  "entries_from_array a = map (\<lambda>(key, e). (key_bytes key, e)) a"

text \<open>\<open>BaggageBuilder::set\<close>: an empty key is ignored, a null metadata argument is the empty one.\<close>

definition builder_set :: "bytes \<Rightarrow> 'f zval \<Rightarrow> bytes option \<Rightarrow> 'f entries \<Rightarrow> 'f entries" where
  "builder_set key v md es =
     (if key = [] then es
      else
        let e = \<lparr>entry_value = v,
                 entry_metadata = (case md of Some m \<Rightarrow> m | None \<Rightarrow> empty_metadata)\<rparr>
        in AList.update key e es)"

definition builder_remove :: "bytes \<Rightarrow> 'f entries \<Rightarrow> 'f entries" where
  "builder_remove key es = filter (\<lambda>(candidate, _). candidate \<noteq> key) es"

text \<open>\<open>build\<close> hands the entries to the constructor of \<open>Baggage\<close> as a PHP array; \<open>toBuilder\<close> goes back.\<close>

definition builder_build :: "'f entries \<Rightarrow> 'f entries" where
  "builder_build es = entries_from_array (entries_to_array es)"

definition to_builder :: "'f entries \<Rightarrow> 'f entries" where
  "to_builder es = entries_from_array (entries_to_array es)"

definition get_entry :: "'f entries \<Rightarrow> bytes \<Rightarrow> 'f entry option" where
  "get_entry es key = map_option snd (List.find (\<lambda>(candidate, _). candidate = key) es)"

definition get_value :: "'f entries \<Rightarrow> bytes \<Rightarrow> 'f zval" where
  "get_value es key = (case get_entry es key of None \<Rightarrow> ZNull | Some e \<Rightarrow> entry_value e)"

definition baggage_is_empty :: "'f entries \<Rightarrow> bool" where
  "baggage_is_empty es \<longleftrightarrow> es = []"

section \<open>Parsing the header\<close>

definition MAX_BAGGAGE_BYTES :: nat where "MAX_BAGGAGE_BYTES = 8192"
definition MAX_BAGGAGE_ENTRIES :: nat where "MAX_BAGGAGE_ENTRIES = 180"

definition php_space :: "char \<Rightarrow> bool" where
  "php_space b \<longleftrightarrow> b \<in> {CHR '' '', CHR 0x0A, CHR 0x0D, CHR 0x09, CHR 0x0B, CHR 0x00}"

definition trim_php :: "bytes \<Rightarrow> bytes" where
  "trim_php v = trim_matches php_space v"

definition is_php_empty :: "bytes \<Rightarrow> bool" where
  "is_php_empty v \<longleftrightarrow> v = [] \<or> v = ''0''"

definition hex_value :: "char \<Rightarrow> nat option" where
  "hex_value b =
     (if is_ascii_digit b then Some (ord b - 48)
      else if 97 \<le> ord b \<and> ord b \<le> 102 then Some (ord b - 97 + 10)
      else if 65 \<le> ord b \<and> ord b \<le> 70 then Some (ord b - 65 + 10)
      else None)"

definition hex_pair :: "char \<Rightarrow> char \<Rightarrow> char option" where
  "hex_pair h l =
     (case (hex_value h, hex_value l) of
        (Some high, Some low) \<Rightarrow> Some (char_of (16 * high + low))
      | _ \<Rightarrow> None)"

fun url_decode :: "bytes \<Rightarrow> bytes" where
  "url_decode [] = []"
| "url_decode (b # rest) =
     (if b = CHR ''+'' then CHR '' '' # url_decode rest
      else if b = CHR ''%'' then
        (case rest of
           h # l # rest' \<Rightarrow>
             (case hex_pair h l of
                Some c \<Rightarrow> c # url_decode rest'
              | None \<Rightarrow> b # url_decode rest)
         | _ \<Rightarrow> b # url_decode rest)
      else b # url_decode rest)"

definition key_excluded :: "bytes" where
  "key_excluded = '' ()<>@,;:'' @ [CHR 0x5C, CHR 0x22] @ ''/[]?={}''"

definition value_excluded :: "bytes" where
  "value_excluded = [CHR '' '', CHR 0x22, CHR '','', CHR '';'', CHR 0x5C]"

definition key_has_excluded_character :: "bytes \<Rightarrow> bool" where
  "key_has_excluded_character v = list_ex (\<lambda>b. b \<in> set key_excluded) v"

definition value_has_excluded_character :: "bytes \<Rightarrow> bool" where
  "value_has_excluded_character v = list_ex (\<lambda>b. b \<in> set value_excluded) v"

text \<open>One list member: its key, value and metadata, or nothing when the loop skips it.\<close>

definition parse_member :: "bytes \<Rightarrow> (bytes \<times> bytes \<times> bytes option) option" where
  "parse_member raw =
     (let member = trim_php raw in
      if is_php_empty member then None
      else
        let semicolon = position (\<lambda>b. b = CHR '';'') member;
            pair = trim_php (case semicolon of Some i \<Rightarrow> take i member | None \<Rightarrow> member) in
        if is_php_empty pair then None
        else case position (\<lambda>b. b = CHR ''='') pair of
            None \<Rightarrow> None
          | Some eq \<Rightarrow>
              let key = trim_php (url_decode (trim_php (take eq pair)));
                  v = trim_php (url_decode (trim_php (drop (eq + 1) pair))) in
              if is_php_empty key \<or> key_has_excluded_character key then None
              else if is_php_empty v \<or> value_has_excluded_character v then None
              else
                let md = (case semicolon of
                            None \<Rightarrow> None
                          | Some i \<Rightarrow>
                              let m = trim_php (drop (i + 1) member)
                              in if is_php_empty m then None else Some m)
                in Some (key, v, md))"

fun parse_loop :: "nat \<Rightarrow> bytes list \<Rightarrow> 'f entries \<Rightarrow> 'f entries" where
  "parse_loop accepted [] es = es"
| "parse_loop accepted (raw # rest) es =
     (if accepted \<ge> MAX_BAGGAGE_ENTRIES then es
      else case parse_member raw of
          None \<Rightarrow> parse_loop accepted rest es
        | Some (key, v, md) \<Rightarrow> parse_loop (accepted + 1) rest (builder_set key (ZStr v) md es))"

definition parse_into_builder :: "bytes \<Rightarrow> 'f entries \<Rightarrow> 'f entries" where
  "parse_into_builder header es =
     (if length header > MAX_BAGGAGE_BYTES then es
      else parse_loop 0 (split_on (CHR '','') header) es)"

section \<open>The propagator\<close>

definition hex_digit :: "nat \<Rightarrow> char" where
  "hex_digit v = (if v \<le> 9 then char_of (48 + v) else char_of (65 + (v - 10)))"

definition unreserved :: "char \<Rightarrow> bool" where
  "unreserved b \<longleftrightarrow>
     is_ascii_uppercase b \<or> is_ascii_lowercase b \<or> is_ascii_digit b
     \<or> b \<in> {CHR ''-'', CHR ''_'', CHR ''.''}"

definition encode_byte :: "char \<Rightarrow> bytes" where
  "encode_byte b =
     (if unreserved b then [b]
      else if b = CHR '' '' then ''+''
      else [CHR ''%'', hex_digit (ord b div 16), hex_digit (ord b mod 16)])"

definition url_encode :: "bytes \<Rightarrow> bytes" where
  "url_encode v = concat (map encode_byte v)"

definition header_entry :: "('f zval \<Rightarrow> bytes) \<Rightarrow> bytes \<times> 'f entry \<Rightarrow> bytes" where
  "header_entry strval ke =
     fst ke @ CHR ''='' # url_encode (strval (entry_value (snd ke)))
       @ (let md = entry_metadata (snd ke) in if md \<noteq> [] \<and> md \<noteq> ''0'' then CHR '';'' # md else [])"

definition append_entry :: "('f zval \<Rightarrow> bytes) \<Rightarrow> bytes \<times> 'f entry \<Rightarrow> bytes \<Rightarrow> bytes" where
  "append_entry strval ke hdr =
     (if hdr \<noteq> [] then hdr @ '','' else hdr) @ header_entry strval ke"

definition baggage_header :: "('f zval \<Rightarrow> bytes) \<Rightarrow> 'f entries \<Rightarrow> bytes" where
  "baggage_header strval es =
     (if baggage_is_empty es then []
      else fold (append_entry strval) (entries_from_array (entries_to_array es)) [])"

text \<open>
  \<open>inject\<close> writes the header to the carrier under \<open>baggage\<close> unless it is empty or the string zero;
  \<open>extract\<close> gives the baggage to store in the context, or nothing when the context stays as it is.
\<close>

definition baggage_inject :: "('f zval \<Rightarrow> bytes) \<Rightarrow> 'f entries \<Rightarrow> bytes option" where
  "baggage_inject strval es =
     (let header = baggage_header strval es
      in if header = [] \<or> header = ''0'' then None else Some header)"

definition baggage_extract :: "'f zval \<Rightarrow> 'f entries option" where
  "baggage_extract carried =
     (case carried of
        ZStr header \<Rightarrow>
          if header = [] \<or> header = ''0'' then None
          else Some (builder_build (parse_into_builder header []))
      | _ \<Rightarrow> None)"

section \<open>URL encoding\<close>

lemma hex_value_digit: "n < 16 \<Longrightarrow> hex_value (hex_digit n) = Some n"
  by (auto simp: hex_value_def hex_digit_def is_ascii_digit_def)

lemma high_nibble: "ord b div 16 < 16"
  by (rule less_mult_imp_div_less) simp

lemma hex_pair_digits [simp]:
  "hex_pair (hex_digit (ord b div 16)) (hex_digit (ord b mod 16)) = Some b"
  by (simp add: hex_pair_def hex_value_digit high_nibble)

lemma unreserved_not_special: "unreserved b \<Longrightarrow> b \<noteq> CHR ''+'' \<and> b \<noteq> CHR ''%''"
  by (auto simp: unreserved_def is_ascii_digit_def is_ascii_uppercase_def is_ascii_lowercase_def)

lemma url_decode_encode_byte: "url_decode (encode_byte b @ s) = b # url_decode s"
proof -
  consider "unreserved b" | "\<not> unreserved b" "b = CHR '' ''" | "\<not> unreserved b" "b \<noteq> CHR '' ''" by blast
  then show ?thesis
  proof cases
    case 3
    then have "encode_byte b @ s = CHR ''%'' # hex_digit (ord b div 16) # hex_digit (ord b mod 16) # s"
      by (simp add: encode_byte_def)
    then show ?thesis by (simp only: url_decode.simps list.case hex_pair_digits option.case) simp
  qed (auto simp: encode_byte_def dest: unreserved_not_special)
qed

lemma url_decode_url_encode [simp]: "url_decode (url_encode v) = v"
  by (induction v) (simp_all add: url_encode_def url_decode_encode_byte)

definition encoded_char :: "char \<Rightarrow> bool" where
  "encoded_char c \<longleftrightarrow> unreserved c \<or> c = CHR ''+'' \<or> c = CHR ''%''"

lemma hex_digit_unreserved: "n < 16 \<Longrightarrow> unreserved (hex_digit n)"
  by (auto simp: unreserved_def hex_digit_def is_ascii_digit_def is_ascii_uppercase_def)

lemma encode_byte_chars: "c \<in> set (encode_byte b) \<Longrightarrow> encoded_char c"
  by (auto simp: encode_byte_def encoded_char_def hex_digit_unreserved high_nibble split: if_splits)

lemma url_encode_chars: "c \<in> set (url_encode v) \<Longrightarrow> encoded_char c"
  by (auto simp: url_encode_def dest: encode_byte_chars)

lemma encoded_char_clean:
  "encoded_char c \<Longrightarrow> c \<noteq> CHR '','' \<and> c \<noteq> CHR '';'' \<and> c \<noteq> CHR ''='' \<and> \<not> php_space c"
  by (auto simp: encoded_char_def unreserved_def php_space_def is_ascii_digit_def
      is_ascii_uppercase_def is_ascii_lowercase_def)

lemma url_encode_Nil [simp]: "url_encode v = [] \<longleftrightarrow> v = []"
  by (cases v) (simp_all add: url_encode_def encode_byte_def)

interpretation url_codec: separable_codec url_encode url_decode "\<lambda>_. True" "CHR '',''"
proof unfold_locales
  fix x show "CHR '','' \<notin> set (url_encode x)"
    using url_encode_chars [of "CHR '',''" x] encoded_char_clean [of "CHR '',''"] by blast
qed (rule url_decode_url_encode)

section \<open>The builder as a keyed store\<close>

definition wf_entries :: "'f entries \<Rightarrow> bool" where
  "wf_entries es \<longleftrightarrow> distinct (map fst es)"

lemma get_entry_map_of: "get_entry es = map_of es"
proof
  fix k
  have "(\<lambda>(candidate, _). candidate = k) = (\<lambda>ke :: bytes \<times> 'a entry. fst ke = k)" by auto
  then show "get_entry es k = map_of es k" by (simp add: get_entry_def find_key_map_of)
qed

lemma builder_remove_filter: "builder_remove k es = filter (\<lambda>ke. fst ke \<noteq> k) es"
  by (simp add: builder_remove_def case_prod_beta')

lemma wf_builder_set [inv_intros]: "wf_entries es \<Longrightarrow> wf_entries (builder_set k v md es)"
  by (simp add: wf_entries_def builder_set_def Let_def distinct_update)

lemma wf_builder_remove [inv_intros]: "wf_entries es \<Longrightarrow> wf_entries (builder_remove k es)"
  by (simp add: wf_entries_def builder_remove_filter distinct_fst_filter)

definition entry_of :: "'f zval \<times> bytes option \<Rightarrow> 'f entry" where
  "entry_of vm = \<lparr>entry_value = fst vm,
     entry_metadata = (case snd vm of Some m \<Rightarrow> m | None \<Rightarrow> empty_metadata)\<rparr>"

lemma builder_set_update: "k \<noteq> [] \<Longrightarrow> builder_set k v md es = AList.update k (entry_of (v, md)) es"
  by (simp add: builder_set_def entry_of_def Let_def)

lemma entry_eta [simp]: "\<lparr>entry_value = entry_value e, entry_metadata = entry_metadata e\<rparr> = (e :: 'f entry)"
  by (cases e) simp

lemma get_builder_set: "k \<noteq> [] \<Longrightarrow> get_entry (builder_set k v md es) = (get_entry es)(k \<mapsto> entry_of (v, md))"
  by (simp add: get_entry_map_of builder_set_update update_conv')

lemma get_builder_remove: "get_entry (builder_remove k es) = (get_entry es)(k := None)"
  by (simp add: get_entry_map_of builder_remove_filter map_of_filter_neq)

interpretation builder_store: keyed_store get_entry
  "\<lambda>k e. builder_set k (entry_value e) (Some (entry_metadata e))" builder_remove wf_entries "\<lambda>_ k _. k \<noteq> []"
  by unfold_locales (simp_all add: get_builder_set get_builder_remove entry_of_def inv_intros)

section \<open>Entries survive the PHP array\<close>

lemma fold_zarr_insert:
  "distinct (map fst es) \<Longrightarrow> (\<forall>k\<in>fst ` set es. symtable_key k \<notin> fst ` set acc) \<Longrightarrow>
     fold (\<lambda>(k, e). zarr_insert (symtable_key k) e) es acc = acc @ map (\<lambda>(k, e). (symtable_key k, e)) es"
proof (induction es arbitrary: acc)
  case (Cons ke es)
  obtain k e where ke: "ke = (k, e)" by (cases ke)
  have new: "zarr_insert (symtable_key k) e acc = acc @ [(symtable_key k, e)]"
    using Cons.prems(2) ke by (intro zarr_insert_new) auto
  have "\<forall>l\<in>fst ` set es. symtable_key l \<notin> fst ` set (acc @ [(symtable_key k, e)])"
    using Cons.prems ke by (auto simp: symtable_key_inj image_iff)
  with Cons ke show ?case by (simp add: new)
qed simp

lemma builder_build_id: "wf_entries es \<Longrightarrow> builder_build es = es"
  using fold_zarr_insert [of es "[]"]
  by (simp add: builder_build_def entries_to_array_def entries_from_array_def wf_entries_def)
    (simp add: comp_def case_prod_beta')

lemma to_builder_id: "wf_entries es \<Longrightarrow> to_builder es = es"
  using builder_build_id [of es] by (simp add: to_builder_def builder_build_def)

lemma fold_append_entry:
  "h \<noteq> [] \<Longrightarrow> fold (append_entry strval) es h = join '','' (h # map (header_entry strval) es)"
proof (induction es arbitrary: h)
  case (Cons ke es)
  have "h @ '','' @ header_entry strval ke \<noteq> []" using Cons.prems by simp
  from Cons.IH [OF this] Cons.prems show ?case
    by (cases es) (simp_all add: append_entry_def)
qed simp

lemma header_entry_not_Nil [simp]: "header_entry strval ke \<noteq> []"
  by (simp add: header_entry_def)

lemma baggage_header_join:
  assumes "wf_entries es"
  shows "baggage_header strval es = join '','' (map (header_entry strval) es)"
proof (cases es)
  case (Cons ke rest)
  have "fold (append_entry strval) rest (header_entry strval ke)
      = join '','' (header_entry strval ke # map (header_entry strval) rest)"
    by (rule fold_append_entry) simp
  with Cons builder_build_id [OF assms] show ?thesis
    by (simp add: baggage_header_def baggage_is_empty_def builder_build_def append_entry_def)
qed (simp add: baggage_header_def baggage_is_empty_def)

section \<open>Reading a written header\<close>

text \<open>
  The entries that survive a round trip: keys are written as they are, so a key must not hold a
  character that is special in the header or that decoding changes; a value is encoded, but the
  parser refuses some decoded characters, the empty string and the string zero.
\<close>

definition clean_key :: "bytes \<Rightarrow> bool" where
  "clean_key k \<longleftrightarrow>
     \<not> is_php_empty k \<and> \<not> key_has_excluded_character k
     \<and> list_all (\<lambda>c. \<not> php_space c \<and> c \<noteq> CHR ''%'' \<and> c \<noteq> CHR ''+'') k"

definition clean_text :: "bytes \<Rightarrow> bool" where
  "clean_text v \<longleftrightarrow> \<not> is_php_empty v \<and> \<not> php_space (hd v) \<and> \<not> php_space (last v)"

definition clean_entry :: "('f zval \<Rightarrow> bytes) \<Rightarrow> bytes \<times> 'f entry \<Rightarrow> bool" where
  "clean_entry strval ke \<longleftrightarrow>
     (case ke of (k, e) \<Rightarrow>
       clean_key k
       \<and> (\<exists>v. entry_value e = ZStr v \<and> strval (ZStr v) = v \<and> clean_text v \<and> \<not> value_has_excluded_character v)
       \<and> (entry_metadata e = [] \<or> clean_text (entry_metadata e) \<and> CHR '','' \<notin> set (entry_metadata e)))"

lemma trim_php_id: "s = [] \<or> \<not> php_space (hd s) \<and> \<not> php_space (last s) \<Longrightarrow> trim_php s = s"
  unfolding trim_php_def by (rule trim_matches_id)

lemma url_decode_plain:
  "CHR ''%'' \<notin> set k \<Longrightarrow> CHR ''+'' \<notin> set k \<Longrightarrow> url_decode k = k"
  by (induction k) auto

lemma clean_key_facts:
  assumes "clean_key k"
  shows "trim_php k = k" "url_decode k = k" "CHR '';'' \<notin> set k" "CHR ''='' \<notin> set k" "CHR '','' \<notin> set k"
    "k \<noteq> []" "\<not> php_space (hd k)"
proof -
  show k: "k \<noteq> []" using assms by (auto simp: clean_key_def is_php_empty_def)
  then have "hd k \<in> set k" "last k \<in> set k" by auto
  then show "\<not> php_space (hd k)" "trim_php k = k"
    using assms by (auto simp: clean_key_def list_all_iff intro!: trim_php_id)
  show "url_decode k = k" using assms by (intro url_decode_plain) (auto simp: clean_key_def list_all_iff)
  have "c \<notin> set k" if "c \<in> set key_excluded" for c
    using assms that by (auto simp: clean_key_def key_has_excluded_character_def list_ex_iff)
  then show "CHR '';'' \<notin> set k" "CHR ''='' \<notin> set k" "CHR '','' \<notin> set k" by (simp_all add: key_excluded_def)
qed

lemma url_encode_ends:
  assumes "v \<noteq> []"
  shows "trim_php (url_encode v) = url_encode v" "\<not> php_space (last (url_encode v))"
    "CHR '';'' \<notin> set (url_encode v)" "CHR '','' \<notin> set (url_encode v)"
proof -
  have clean: "c \<noteq> CHR '','' \<and> c \<noteq> CHR '';'' \<and> \<not> php_space c" if "c \<in> set (url_encode v)" for c
    using encoded_char_clean [OF url_encode_chars [OF that]] by blast
  have "hd (url_encode v) \<in> set (url_encode v)" "last (url_encode v) \<in> set (url_encode v)"
    using assms by simp_all
  with clean show "trim_php (url_encode v) = url_encode v" "\<not> php_space (last (url_encode v))"
    by (auto intro: trim_php_id)
  from clean show "CHR '';'' \<notin> set (url_encode v)" "CHR '','' \<notin> set (url_encode v)" by blast+
qed

lemma parse_member_pair:
  assumes k: "clean_key k" and v: "clean_text v" "\<not> value_has_excluded_character v"
    and tail: "tail = [] \<and> md = None \<or> (\<exists>m. tail = CHR '';'' # m \<and> md = Some m \<and> clean_text m)"
  shows "parse_member (k @ CHR ''='' # url_encode v @ tail) = Some (k, v, md)"
proof -
  let ?pair = "k @ CHR ''='' # url_encode v" and ?mem = "k @ CHR ''='' # url_encode v @ tail"
  note kf = clean_key_facts [OF k]
  have vne: "v \<noteq> []" using v(1) by (auto simp: clean_text_def is_php_empty_def)
  note vf = url_encode_ends [OF vne]
  have last_tail: "tail \<noteq> [] \<Longrightarrow> \<not> php_space (last tail)"
    using tail by (auto simp: clean_text_def is_php_empty_def)
  have "\<not> php_space (last ?mem)" using last_tail vf(2) vne by (cases "tail = []") (auto simp: last_append)
  then have trim_mem: "trim_php ?mem = ?mem" using kf(6,7) by (intro trim_php_id) auto
  have "\<not> php_space (last ?pair)" using vf(2) vne by simp
  then have trim_pair: "trim_php ?pair = ?pair" using kf(6,7) by (intro trim_php_id) auto
  have nonempty: "\<not> is_php_empty ?mem" "\<not> is_php_empty ?pair"
    using kf(6) vne by (auto simp: is_php_empty_def append_eq_Cons_conv)
  have eq: "position (\<lambda>b. b = CHR ''='') ?pair = Some (length k)" using kf(4) by (intro position_append) auto
  have no_semi: "\<forall>x\<in>set ?pair. x \<noteq> CHR '';''" using kf(3) vf(3) by auto
  have key: "\<not> (is_php_empty k \<or> key_has_excluded_character k)" using k by (simp add: clean_key_def)
  have vtrim: "trim_php v = v" using v(1) by (intro trim_php_id) (auto simp: clean_text_def)
  have val: "\<not> (is_php_empty v \<or> value_has_excluded_character v)" using v by (simp add: clean_text_def)
  note eval = trim_mem trim_pair nonempty eq kf(1,2) vf(1) url_decode_url_encode vtrim key val
  from tail show ?thesis
  proof
    assume t: "tail = [] \<and> md = None"
    have "position (\<lambda>b. b = CHR '';'') ?pair = None" using no_semi by (simp add: position_None)
    with t eval show ?thesis by (simp add: parse_member_def Let_def)
  next
    assume "\<exists>m. tail = CHR '';'' # m \<and> md = Some m \<and> clean_text m"
    then obtain m where t: "tail = CHR '';'' # m" "md = Some m" and m: "clean_text m" by blast
    have "position (\<lambda>b. b = CHR '';'') (?pair @ CHR '';'' # m) = Some (length ?pair)"
      using no_semi by (intro position_append) auto
    moreover have "trim_php m = m" "\<not> is_php_empty m" using m by (auto simp: clean_text_def intro: trim_php_id)
    ultimately show ?thesis using t eval by (simp add: parse_member_def Let_def)
  qed
qed

lemma parse_member_header_entry:
  assumes "clean_entry strval (k, e)"
  obtains v md where "parse_member (header_entry strval (k, e)) = Some (k, v, md)"
    and "entry_of (ZStr v, md) = e" and "CHR '','' \<notin> set (header_entry strval (k, e))"
proof -
  from assms obtain v where k: "clean_key k" and v: "entry_value e = ZStr v" "strval (ZStr v) = v"
    "clean_text v" "\<not> value_has_excluded_character v"
    and m: "entry_metadata e = [] \<or> clean_text (entry_metadata e) \<and> CHR '','' \<notin> set (entry_metadata e)"
    by (auto simp: clean_entry_def)
  have vne: "v \<noteq> []" using v(3) by (auto simp: clean_text_def is_php_empty_def)
  let ?md = "if entry_metadata e = [] then None else Some (entry_metadata e)"
  let ?tail = "if entry_metadata e = [] then [] else CHR '';'' # entry_metadata e"
  have h: "header_entry strval (k, e) = k @ CHR ''='' # url_encode v @ ?tail"
    using m v(1,2) by (auto simp: header_entry_def Let_def clean_text_def is_php_empty_def)
  have "parse_member (k @ CHR ''='' # url_encode v @ ?tail) = Some (k, v, ?md)"
    by (rule parse_member_pair [OF k v(3,4)]) (use m in auto)
  moreover have "entry_of (ZStr v, ?md) = e" using v(1) by (cases e) (auto simp: entry_of_def empty_metadata_def)
  moreover have "CHR '','' \<notin> set (header_entry strval (k, e))"
    using m clean_key_facts(5) [OF k] url_encode_ends(4) [OF vne] unfolding h by auto
  ultimately show ?thesis using that h by simp
qed

lemma header_entry_no_comma: "clean_entry strval ke \<Longrightarrow> CHR '','' \<notin> set (header_entry strval ke)"
  by (cases ke) (rule parse_member_header_entry [of strval "fst ke" "snd ke"]; simp)

lemma parse_loop_header:
  assumes "\<forall>ke\<in>set es. clean_entry strval ke" and "distinct (map fst (acc @ es))"
    and "accepted + length es \<le> MAX_BAGGAGE_ENTRIES"
  shows "parse_loop accepted (map (header_entry strval) es) acc = acc @ es"
  using assms
proof (induction es arbitrary: acc accepted)
  case (Cons ke es)
  obtain k e where ke: "ke = (k, e)" by (cases ke)
  have "clean_entry strval (k, e)" using Cons.prems(1) ke by simp
  then obtain v md where p: "parse_member (header_entry strval ke) = Some (k, v, md)"
      "entry_of (ZStr v, md) = e"
    unfolding ke by (rule parse_member_header_entry)
  have "k \<noteq> []" using Cons.prems(1) ke clean_key_facts(6) [of k] by (simp add: clean_entry_def)
  then have "builder_set k (ZStr v) md acc = acc @ [ke]"
    using Cons.prems(2) ke p(2) by (simp add: builder_set_update update_new)
  moreover have "parse_loop (accepted + 1) (map (header_entry strval) es) (acc @ [ke]) = (acc @ [ke]) @ es"
    by (rule Cons.IH) (use Cons.prems in auto)
  ultimately show ?case using p(1) Cons.prems(3) by simp
qed simp

lemma wf_parse_loop: "wf_entries es \<Longrightarrow> wf_entries (parse_loop n raws es)"
  by (induction n raws es rule: parse_loop.induct) (auto simp: wf_builder_set split: option.splits prod.splits)

lemma length_builder_set: "length (builder_set k v md es) \<le> length es + 1"
proof -
  have "length (AList.update k e es) \<le> length es + 1" for e by (induction es) auto
  then show ?thesis by (simp add: builder_set_def Let_def)
qed

text \<open>What the parser accepts from any header, well formed or not.\<close>

definition accepted_entry :: "bytes \<times> 'f entry \<Rightarrow> bool" where
  "accepted_entry ke \<longleftrightarrow>
     (case ke of (k, e) \<Rightarrow>
       \<not> is_php_empty k \<and> \<not> key_has_excluded_character k
       \<and> (\<exists>v. entry_value e = ZStr v \<and> \<not> is_php_empty v \<and> \<not> value_has_excluded_character v)
       \<and> entry_metadata e \<noteq> ''0'')"

lemma parse_member_accepted:
  "parse_member raw = Some (k, v, md) \<Longrightarrow> accepted_entry (k, entry_of (ZStr v, md))"
  by (auto simp: parse_member_def accepted_entry_def entry_of_def empty_metadata_def is_php_empty_def Let_def
      split: if_splits option.splits)

lemma builder_set_accepted:
  "accepted_entry (k, entry_of (v, md)) \<Longrightarrow> \<forall>ke\<in>set es. accepted_entry ke \<Longrightarrow>
     \<forall>ke\<in>set (builder_set k v md es). accepted_entry ke"
proof -
  assume a: "accepted_entry (k, entry_of (v, md))" "\<forall>ke\<in>set es. accepted_entry ke"
  have "set (AList.update k e es) \<subseteq> insert (k, e) (set es)" for e by (induction es) auto
  from this [of "entry_of (v, md)"] a show ?thesis
    by (cases "k = []") (auto simp: builder_set_update, simp add: builder_set_def)
qed

lemma parse_loop_accepted:
  "\<forall>ke\<in>set es. accepted_entry ke \<Longrightarrow> \<forall>ke\<in>set (parse_loop n raws es). accepted_entry ke"
proof (induction n raws es rule: parse_loop.induct)
  case (2 n raw rest es)
  show ?case
  proof (cases "parse_member raw")
    case (Some kvm)
    then obtain k v md where p: "parse_member raw = Some (k, v, md)" by (cases kvm) auto
    show ?thesis
    proof (cases "n \<ge> MAX_BAGGAGE_ENTRIES")
      case False
      from builder_set_accepted [OF parse_member_accepted [OF p] "2.prems"] "2.IH"(2) [OF False p refl refl]
      show ?thesis using False p by simp
    qed (use 2 in simp)
  qed (use 2 in auto)
qed simp

lemma parse_loop_length: "n \<le> MAX_BAGGAGE_ENTRIES \<Longrightarrow> length (parse_loop n raws es) + n \<le> length es + MAX_BAGGAGE_ENTRIES"
proof (induction n raws es rule: parse_loop.induct)
  case (2 n raw rest es)
  show ?case
  proof (cases "n \<ge> MAX_BAGGAGE_ENTRIES \<or> parse_member raw = None")
    case False
    then obtain k v md where p: "parse_member raw = Some (k, v, md)" by auto
    from "2.IH"(2) [OF _ p refl refl] False length_builder_set [of k "ZStr v" md es]
    show ?thesis using p by simp
  qed (use 2 in auto)
qed simp

section \<open>Properties\<close>

text \<open>
  C10. Percent encoding is lossless for every byte string, and what it writes holds no comma,
  semicolon, equals sign or white space, so that encoded values can be joined with commas and cut
  apart again.
\<close>

theorem url_encoding_lossless:
  "url_decode (url_encode v) = v
   \<and> (vs \<noteq> [] \<longrightarrow> map url_decode (split_on (CHR '','') (join '','' (map url_encode vs))) = vs)
   \<and> list_all (\<lambda>c. c \<noteq> CHR '','' \<and> c \<noteq> CHR '';'' \<and> c \<noteq> CHR ''='' \<and> \<not> php_space c) (url_encode v)"
proof (intro conjI)
  show "vs \<noteq> [] \<longrightarrow> map url_decode (split_on (CHR '','') (join '','' (map url_encode vs))) = vs"
    using url_codec.decode_joined [of vs] by blast
  show "list_all (\<lambda>c. c \<noteq> CHR '','' \<and> c \<noteq> CHR '';'' \<and> c \<noteq> CHR ''='' \<and> \<not> php_space c) (url_encode v)"
    unfolding list_all_iff by (intro ballI) (rule encoded_char_clean [OF url_encode_chars])
qed (rule url_decode_url_encode)

theorem url_encoding_lossless_witness:
  "map url_decode (split_on (CHR '','') (join '','' (map url_encode [''a,b'', ''c d'']))) = [''a,b'', ''c d'']"
  using url_encoding_lossless [of "[]" "[''a,b'', ''c d'']"] by simp

lemma baggage_roundtrip:
  assumes "es \<noteq> []" and "wf_entries es" and "list_all (clean_entry strval) es"
    and "length es \<le> 180" and "length (baggage_header strval es) \<le> 8192"
  shows "baggage_inject strval es = Some (baggage_header strval es) \<and> baggage_extract (ZStr (baggage_header strval es)) = Some es"
proof -
  let ?h = "baggage_header strval es"
  have h: "?h = join '','' (map (header_entry strval) es)" by (rule baggage_header_join [OF assms(2)])
  have "\<forall>w\<in>set (map (header_entry strval) es). CHR '','' \<notin> set w"
    using assms(3) by (simp add: list_all_iff header_entry_no_comma)
  then have split: "split_on (CHR '','') ?h = map (header_entry strval) es"
    unfolding h using assms(1) by (intro split_on_join) auto
  have "CHR ''='' \<in> set ?h" unfolding h using assms(1)
    by (cases es rule: remdups_adj.cases) (auto simp: header_entry_def)
  then have ne: "?h \<noteq> []" "?h \<noteq> ''0''" by auto
  have "parse_into_builder ?h [] = es"
    unfolding parse_into_builder_def split using assms
    by (simp add: MAX_BAGGAGE_BYTES_def)
      (subst parse_loop_header; simp add: list_all_iff wf_entries_def MAX_BAGGAGE_ENTRIES_def)
  then show ?thesis
    using ne builder_build_id [OF assms(2)] by (simp add: baggage_inject_def baggage_extract_def)
qed

text \<open>
  Propagation round trip: extracting the header that was injected gives back the same entries in
  the same order, with their metadata, for distinct clean keys and values within the limits of 8192
  bytes and 180 entries. (Keys are not encoded, and the parser refuses some decoded values; those are
  the entries \<open>clean_entry\<close> excludes.)
\<close>

lemma baggage_propagation_roundtrip:
  assumes "es \<noteq> []" and "wf_entries es" and "list_all (clean_entry strval) es"
    and "length es \<le> 180" and "length (baggage_header strval es) \<le> 8192"
  shows "\<exists>header. baggage_inject strval es = Some header \<and> baggage_extract (ZStr header) = Some es"
  using baggage_roundtrip [OF assms] by blast

text \<open>
  Whatever bytes a peer sends as \<open>baggage\<close> header, the extracted baggage is within bounds: at most
  180 entries with distinct keys, every key and value non-empty and free of the excluded characters;
  a header of more than 8192 bytes yields no entry at all.
\<close>

lemma baggage_extract_bounded:
  "case baggage_extract carried of
     None \<Rightarrow> (\<forall>h. carried = ZStr h \<longrightarrow> h = [] \<or> h = ''0'')
   | Some es \<Rightarrow>
       length es \<le> 180 \<and> wf_entries es \<and> list_all accepted_entry es
       \<and> (\<forall>h. carried = ZStr h \<and> length h > 8192 \<longrightarrow> es = [])"
proof -
  have "length es \<le> 180 \<and> wf_entries es \<and> list_all accepted_entry es"
    if "es = builder_build (parse_into_builder h [])" for es :: "'a entries" and h
  proof -
    have wf: "wf_entries (parse_into_builder h [] :: 'a entries)"
      using wf_parse_loop [of "[] :: 'a entries"] by (simp add: parse_into_builder_def wf_entries_def)
    with that have "es = parse_into_builder h []" by (simp add: builder_build_id)
    with wf show ?thesis
      using parse_loop_length [of 0 "split_on (CHR '','') h" "[] :: 'a entries"]
        parse_loop_accepted [of "[] :: 'a entries" 0 "split_on (CHR '','') h"]
      by (auto simp: parse_into_builder_def MAX_BAGGAGE_ENTRIES_def list_all_iff)
  qed
  moreover have "builder_build (parse_into_builder h []) = ([] :: 'a entries)" if "length h > 8192" for h
    using that by (simp add: parse_into_builder_def MAX_BAGGAGE_BYTES_def builder_build_def
        entries_to_array_def entries_from_array_def)
  ultimately show ?thesis
    by (auto simp: baggage_extract_def split: zval.splits)
qed

text \<open>
  The builder is a keyed store and the baggage it builds keeps its contents: \<open>set\<close> with a
  non-empty key makes exactly that key read the new value, \<open>remove\<close> clears exactly its key, keys stay
  distinct, and \<open>build\<close> and \<open>toBuilder\<close>, which pass the entries through a PHP array with its numeric
  keys, change nothing.
\<close>

lemma baggage_builder_store:
  assumes "wf_entries es" and "k \<noteq> []"
  shows "get_value (builder_build (builder_set k v md es)) l = (if l = k then v else get_value es l)
    \<and> get_entry (builder_build (builder_remove k es)) l = (if l = k then None else get_entry es l)
    \<and> wf_entries (builder_set k v md es) \<and> wf_entries (builder_remove k es)
    \<and> to_builder (builder_build es) = es"
proof -
  have set: "builder_build (builder_set k v md es) = builder_set k v md es"
    and rem: "builder_build (builder_remove k es) = builder_remove k es"
    by (rule builder_build_id, rule inv_intros, rule assms(1))+
  show ?thesis
    using get_builder_set [OF assms(2), of v md es] builder_store.get_del [OF assms(1), of k]
    unfolding set rem by (auto simp: get_value_def entry_of_def builder_build_id assms(1) to_builder_id inv_intros)
qed

end
