(* ===== verification/Propagation.thy ===== *)
theory Propagation
  imports Span_Binding Carrier Baggage
begin

text \<open>
  Propagation of the current span and of baggage through carriers:
  \<open>trace/propagation/trace_context_propagator.rs\<close> and the methods of
  \<open>baggage/propagation/baggage_propagator.rs\<close>. What is written into headers, and read from them, is the
  business of the SDK's global propagator (\<open>text_map_api\<close>; the laws of \<open>W3C\<close> trace context that the code
  relies on are \<open>propagator_laws\<close>) and of the theory \<open>Baggage\<close>.

  A carrier is the first argument of a method, passed by reference: the arguments after the call are part
  of the result. \<open>'w\<close> is the state of the PHP world.
\<close>

section \<open>Setters and getters\<close>

text \<open>The constants of the propagator classes.\<close>

definition TRACEPARENT :: string where "TRACEPARENT = ''traceparent''"
definition TRACESTATE :: string where "TRACESTATE = ''tracestate''"
definition BAGGAGE :: string where "BAGGAGE = ''baggage''"

record 'c text_map_api =
  map_inject :: "'c \<Rightarrow> (string \<times> string) list"
  map_extract :: "'c \<Rightarrow> (string \<times> string) list \<Rightarrow> 'c"

type_synonym ('f, 'w) setter =
  "'f zval list \<Rightarrow> string \<Rightarrow> string \<Rightarrow> 'w \<Rightarrow> (php_error, unit) result \<times> 'f zval list \<times> 'w"

type_synonym ('f, 'w) getter = "'f zval list \<Rightarrow> string \<Rightarrow> 'w \<Rightarrow> (php_error, 'f zval) result \<times> 'w"

type_synonym ('f, 'w) invoker = "nat \<Rightarrow> string \<Rightarrow> 'f zval list \<Rightarrow> 'w \<Rightarrow> (php_error, 'f zval) result \<times> 'w"

text \<open>The shared \<open>ArrayAccessGetterSetter\<close>.\<close>

definition native_setter ::
  "('w \<Rightarrow> 'f zval \<Rightarrow> (php_error, 'f zval) result) \<Rightarrow> ('f, 'w) invoker \<Rightarrow> ('f, 'w) setter" where
  "native_setter iter invoke args k v w =
     (case arg_at args 0 of
        Inl e \<Rightarrow> (Err e, args, w)
      | Inr c \<Rightarrow>
          (case carrier_set iter invoke [c, ZStr k, ZStr v] w of
             (Inl e, w') \<Rightarrow> (Err e, args, w')
           | (Inr c', w') \<Rightarrow> (Ok (), args[0 := c'], w')))"

definition native_getter :: "('w \<Rightarrow> 'f zval \<Rightarrow> (php_error, 'f zval) result) \<Rightarrow> ('f, 'w) getter" where
  "native_getter iter args k w =
     (result_bind (arg_at args 0) (\<lambda>c.
      result_bind (carrier_get (iter w) [c, ZStr k]) (\<lambda>found.
      Ok (case found of Some t \<Rightarrow> ZStr t | None \<Rightarrow> ZNull))), w)"

text \<open>\<open>selected_accessor\<close>: the object that was passed, or the shared instance.\<close>

definition selected_accessor :: "'f zval list \<Rightarrow> (nat \<Rightarrow> 'acc) \<Rightarrow> 'acc \<Rightarrow> 'acc" where
  "selected_accessor args user native = (case object_arg args 1 of Some (ZObj h) \<Rightarrow> user h | _ \<Rightarrow> native)"

text \<open>\<open>selected_context\<close>: the context object that was passed, or the current one.\<close>

definition selected_context ::
  "(nat \<Rightarrow> ('c, 'f) context_obj) \<Rightarrow> (php_error, ('c, 'f) context_obj) result option \<Rightarrow> 'c \<Rightarrow> 'f zval list \<Rightarrow>
     ('c, 'f) ctx_storage \<Rightarrow> (php_error, ('c, 'f) context_obj) result \<times> ('c, 'f) ctx_storage" where
  "selected_context obj_of custom ambient args st =
     (case object_arg args 2 of
        Some (ZObj h) \<Rightarrow> (Ok (obj_of h), st)
      | _ \<Rightarrow> current_context_value custom ambient st)"

section \<open>Trace context\<close>

fun write_headers ::
  "('f, 'w) setter \<Rightarrow> (string \<times> string) list \<Rightarrow> 'f zval list \<Rightarrow> 'w \<Rightarrow>
     (php_error, unit) result \<times> 'f zval list \<times> 'w" where
  "write_headers put [] args w = (Ok (), args, w)"
| "write_headers put ((k, v) # hs) args w =
     (case put args k v w of
        (Inl e, args', w') \<Rightarrow> (Err e, args', w')
      | (Inr _, args', w') \<Rightarrow> write_headers put hs args' w')"

definition trace_inject ::
  "('t, 's, 'ts, 'sc, 'f) span_env \<Rightarrow> ('c, 'sc) span_api \<Rightarrow> ('c, 'f) foreign_api \<Rightarrow> nat \<Rightarrow> 'c text_map_api \<Rightarrow>
     (nat \<Rightarrow> ('f, 'w) setter) \<Rightarrow> ('f, 'w) setter \<Rightarrow> (nat \<Rightarrow> ('c, 'f) context_obj) \<Rightarrow>
     (php_error, ('c, 'f) context_obj) result option \<Rightarrow> 'c \<Rightarrow> 'f zval list \<Rightarrow> ('c, 'f) ctx_storage \<Rightarrow> 'w \<Rightarrow>
     (php_error, unit) result \<times> 'f zval list \<times> ('c, 'f) ctx_storage \<times> 'w" where
  "trace_inject env api fa span_key glob user native obj_of custom ambient args st w =
     (case selected_context obj_of custom ambient args st of
        (Inl e, st1) \<Rightarrow> (Err e, args, st1, w)
      | (Inr ob, st1) \<Rightarrow>
          (case otel_context_from_php env api fa span_key ob st1 of
             Inl e \<Rightarrow> (Err e, args, st1, w)
           | Inr c \<Rightarrow>
               (case write_headers (selected_accessor args user native) (map_inject glob c) args w of
                  (r, args', w') \<Rightarrow> (r, args', st1, w'))))"

fun read_headers ::
  "('f, 'w) getter \<Rightarrow> 'f zval list \<Rightarrow> string list \<Rightarrow> (string \<times> string) list \<Rightarrow> 'w \<Rightarrow>
     (php_error, (string \<times> string) list) result \<times> 'w" where
  "read_headers get args [] m w = (Ok m, w)"
| "read_headers get args (k # ks) m w =
     (case get args k w of
        (Inl e, w') \<Rightarrow> (Err e, w')
      | (Inr v, w') \<Rightarrow>
          (case v of
             ZStr b \<Rightarrow>
               (case to_str b of
                  None \<Rightarrow> (Err Utf8Error, w')
                | Some t \<Rightarrow> read_headers get args ks (AList.update k t m) w')
           | _ \<Rightarrow> read_headers get args ks m w'))"

text \<open>
  The context \<open>extract\<close> returns: the parent as it was, or a new one with the remote span. \<open>new_span\<close>
  makes the objects of a span context and of a span that records nothing; \<open>foreign_store\<close> is
  \<open>withContextValue\<close> of a user's context class.
\<close>

definition trace_extract ::
  "('t, 's, 'ts, 'sc, 'f) span_env \<Rightarrow> ('c, 'sc) span_api \<Rightarrow> ('c, 'f) foreign_api \<Rightarrow> nat \<Rightarrow> 'c text_map_api \<Rightarrow>
     (trace_state \<Rightarrow> (php_error, 'f zval) result) \<Rightarrow>
     (('sc, 'f) span_context_state \<Rightarrow> 'w \<Rightarrow> (php_error, nat) result \<times> 'w) \<Rightarrow>
     (('c, 'f) context_obj \<Rightarrow> nat \<Rightarrow> 'w \<Rightarrow> (php_error, ('c, 'f) context_obj) result \<times> 'w) \<Rightarrow>
     (nat \<Rightarrow> ('f, 'w) getter) \<Rightarrow> ('f, 'w) getter \<Rightarrow> (nat \<Rightarrow> ('c, 'f) context_obj) \<Rightarrow>
     (php_error, ('c, 'f) context_obj) result option \<Rightarrow> 'c \<Rightarrow> 'f zval list \<Rightarrow> ('c, 'f) ctx_storage \<Rightarrow> 'w \<Rightarrow>
     (php_error, ('c, 'f) context_obj) result \<times> ('c, 'f) ctx_storage \<times> 'w" where
  "trace_extract env api fa span_key glob state_class new_span foreign_store user native obj_of custom ambient args st w =
     (case read_headers (selected_accessor args user native) args [TRACEPARENT, TRACESTATE] [] w of
        (Inl e, w1) \<Rightarrow> (Err e, st, w1)
      | (Inr m, w1) \<Rightarrow>
          (case selected_context obj_of custom ambient args st of
             (Inl e, st1) \<Rightarrow> (Err e, st1, w1)
           | (Inr parent, st1) \<Rightarrow>
               (case otel_context_from_php env api fa span_key parent st1 of
                  Inl e \<Rightarrow> (Err e, st1, w1)
                | Inr parent_cx \<Rightarrow>
                    let new_cx = map_extract glob parent_cx m;
                        sc = ctx_span_context (base_api api) new_cx
                    in if \<not> sc_valid (env_sdk env) sc then (Ok parent, st1, w1)
                       else (case init_span_context_object (env_sdk env) (Some state_class) sc of
                           Inl e \<Rightarrow> (Err e, st1, w1)
                         | Inr php_sc \<Rightarrow>
                             (case new_span php_sc w1 of
                                (Inl e, w2) \<Rightarrow> (Err e, st1, w2)
                              | (Inr h, w2) \<Rightarrow>
                                  (case native_context_from_object parent st1 of
                                     None \<Rightarrow> (case foreign_store parent h w2 of (r, w3) \<Rightarrow> (r, st1, w3))
                                   | Some n \<Rightarrow>
                                       (Ok (init_context_object
                                          (with_value span_key (ZObj span_key) (ZObj h) (with_context new_cx n)) None),
                                        st1, w2)))))))"

definition trace_fields :: "string list" where
  "trace_fields = [TRACEPARENT, TRACESTATE]"

section \<open>Baggage\<close>

text \<open>The methods of the baggage propagator once the baggage of the context is known, and before the
  new baggage is stored in it.\<close>

definition baggage_inject_header ::
  "(nat \<Rightarrow> ('f, 'w) setter) \<Rightarrow> ('f, 'w) setter \<Rightarrow> ('f zval \<Rightarrow> bytes) \<Rightarrow> 'f entries \<Rightarrow> 'f zval list \<Rightarrow> 'w \<Rightarrow>
     (php_error, unit) result \<times> 'f zval list \<times> 'w" where
  "baggage_inject_header user native strval es args w =
     (case baggage_inject strval es of
        None \<Rightarrow> (Ok (), args, w)
      | Some hdr \<Rightarrow> selected_accessor args user native args BAGGAGE hdr w)"

definition baggage_extract_header ::
  "(nat \<Rightarrow> ('f, 'w) getter) \<Rightarrow> ('f, 'w) getter \<Rightarrow> 'f zval list \<Rightarrow> 'w \<Rightarrow>
     (php_error, 'f entries option) result \<times> 'w" where
  "baggage_extract_header user native args w =
     (case selected_accessor args user native args BAGGAGE w of
        (Inl e, w') \<Rightarrow> (Err e, w')
      | (Inr carried, w') \<Rightarrow> (Ok (baggage_extract carried), w'))"

section \<open>Array carriers\<close>

lemma native_setter_array:
  "valid_utf8 k \<Longrightarrow> valid_utf8 v \<Longrightarrow> k \<noteq> [] \<Longrightarrow>
     native_setter iter invoke (ZArr a # args) k v w = (Ok (), ZArr (array_set k v a) # args, w)"
  by (simp add: native_setter_def arg_at_def)

lemma native_getter_array:
  "valid_utf8 k \<Longrightarrow>
     native_getter iter (ZArr a # args) k w = (Ok (case array_get a k of Some t \<Rightarrow> ZStr t | None \<Rightarrow> ZNull), w)"
  by (simp add: native_getter_def arg_at_def)

lemma write_headers_array:
  assumes "\<forall>(k, v)\<in>set hs. valid_utf8 k \<and> valid_utf8 v" and "[] \<notin> fst ` set hs"
  shows "write_headers (native_setter iter invoke) hs (ZArr a # args) w
    = (Ok (), ZArr (array_carrier.put_all hs a) # args, w)"
  using assms
proof (induction hs arbitrary: a)
  case (Cons h hs)
  then show ?case
    by (cases h) (auto simp: native_setter_array array_carrier.put_all_def)
qed (simp add: array_carrier.put_all_def)

lemma array_get_utf8: "array_get a k = Some t \<Longrightarrow> valid_utf8 t"
proof -
  have "first_text vs = Some t \<Longrightarrow> valid_utf8 t" for vs :: "'f zarr"
    by (induction vs rule: first_text.induct) (auto simp: to_str_def split: zval.splits option.splits if_splits)
  then show "array_get a k = Some t \<Longrightarrow> valid_utf8 t"
    by (auto simp: array_get_def first_string_def to_str_def split: option.splits zval.splits if_splits)
qed

definition carried :: "'f zarr \<Rightarrow> string list \<Rightarrow> (string \<times> string) list \<Rightarrow> (string \<times> string) list" where
  "carried a ks m = fold (\<lambda>k m. case array_get a k of Some t \<Rightarrow> AList.update k t m | None \<Rightarrow> m) ks m"

lemma read_headers_array:
  assumes "\<forall>k\<in>set ks. valid_utf8 k"
  shows "read_headers (native_getter iter) (ZArr a # args) ks m w = (Ok (carried a ks m), w)"
  using assms
proof (induction ks arbitrary: m)
  case (Cons k ks)
  then show ?case
    using array_get_utf8 [of a k]
    by (cases "array_get a k") (simp_all add: native_getter_array carried_def to_str_def)
qed (simp add: carried_def)

lemma trace_names [simp]:
  "valid_utf8 TRACEPARENT" "valid_utf8 TRACESTATE" "valid_utf8 BAGGAGE"
  "TRACEPARENT \<noteq> []" "TRACESTATE \<noteq> []" "BAGGAGE \<noteq> []" "[] \<noteq> TRACEPARENT" "[] \<noteq> TRACESTATE" "TRACEPARENT \<noteq> TRACESTATE" "TRACESTATE \<noteq> TRACEPARENT"
  by (simp_all add: byte_in_def TRACEPARENT_def TRACESTATE_def BAGGAGE_def)

lemma trace_names_differ [simp]:
  "\<not> eq_ignore_ascii_case TRACEPARENT TRACESTATE" "\<not> eq_ignore_ascii_case TRACESTATE TRACEPARENT"
  "\<not> eq_ignore_ascii_case TRACEPARENT BAGGAGE" "\<not> eq_ignore_ascii_case TRACESTATE BAGGAGE"
  "\<not> eq_ignore_ascii_case BAGGAGE TRACEPARENT" "\<not> eq_ignore_ascii_case BAGGAGE TRACESTATE"
  by (simp_all add: ascii_case_simps TRACEPARENT_def TRACESTATE_def BAGGAGE_def)

lemma eq_ignore_case_refl [simp]: "eq_ignore_ascii_case k k"
  by (simp add: eq_ignore_ascii_case_def)

lemma carried_trace:
  "map_of (carried a [TRACEPARENT, TRACESTATE] []) TRACEPARENT = array_get a TRACEPARENT"
  "map_of (carried a [TRACEPARENT, TRACESTATE] []) TRACESTATE = array_get a TRACESTATE"
  by (cases "array_get a TRACEPARENT"; cases "array_get a TRACESTATE"; simp add: carried_def update_conv')+

section \<open>What the SDK's propagator promises\<close>

text \<open>
  The W3C propagator writes the identity of a valid span into two headers, whichever comes first in its
  hash map, and reads it back marked as remote, with the sampled flag only; without \<open>traceparent\<close> it
  returns the context it was given.
\<close>

definition same_identity :: "('t, 's, 'ts, 'sc) trace_sdk \<Rightarrow> 'sc \<Rightarrow> 'sc \<Rightarrow> bool" where
  "same_identity sdk e sc \<longleftrightarrow>
     sc_trace_id sdk e = sc_trace_id sdk sc \<and> sc_span_id sdk e = sc_span_id sdk sc
   \<and> sc_flags sdk e = (sc_flags sdk sc AND 1) \<and> sc_state sdk e = sc_state sdk sc \<and> sc_remote sdk e"

definition propagator_laws ::
  "('t, 's, 'ts, 'sc) trace_sdk \<Rightarrow> ('c \<Rightarrow> 'sc) \<Rightarrow> 'c text_map_api \<Rightarrow> bool" where
  "propagator_laws sdk ident glob \<longleftrightarrow>
     (\<forall>c. \<not> sc_valid sdk (ident c) \<longrightarrow> map_inject glob c = [])
   \<and> (\<forall>c. sc_valid sdk (ident c) \<longrightarrow>
        (\<exists>p ts. set (map_inject glob c) = {(TRACEPARENT, p), (TRACESTATE, ts)} \<and> valid_utf8 p \<and> valid_utf8 ts
           \<and> (\<forall>parent m. map_of m TRACEPARENT = Some p \<and> map_of m TRACESTATE = Some ts \<longrightarrow>
                same_identity sdk (ident (map_extract glob parent m)) (ident c))))
   \<and> (\<forall>parent m. map_of m TRACEPARENT = None \<longrightarrow> map_extract glob parent m = parent)"

lemma propagator_headers:
  assumes "propagator_laws sdk ident glob" and "sc_valid sdk (ident c)"
  obtains p ts where "set (map_inject glob c) = {(TRACEPARENT, p), (TRACESTATE, ts)}"
    and "valid_utf8 p" and "valid_utf8 ts"
    and "\<forall>parent m. map_of m TRACEPARENT = Some p \<and> map_of m TRACESTATE = Some ts \<longrightarrow>
      same_identity sdk (ident (map_extract glob parent m)) (ident c)"
  using assms unfolding propagator_laws_def by blast

lemma put_trace_headers:
  assumes hs: "set hs = {(TRACEPARENT, p), (TRACESTATE, ts)}" "valid_utf8 p" "valid_utf8 ts"
    and a: "php_array a" "unambiguous a"
  shows "php_array (array_carrier.put_all hs a)" "unambiguous (array_carrier.put_all hs a)"
    and "array_get (array_carrier.put_all hs a) TRACEPARENT = Some p"
    and "array_get (array_carrier.put_all hs a) TRACESTATE = Some ts"
    and "\<not> eq_ignore_ascii_case TRACEPARENT k \<Longrightarrow> \<not> eq_ignore_ascii_case TRACESTATE k \<Longrightarrow>
      array_get (array_carrier.put_all hs a) k = array_get a k"
proof -
  have ok: "\<forall>(k, v)\<in>set hs. valid_utf8 k \<and> valid_utf8 v" using hs by auto
  have a': "php_array a \<and> unambiguous a" using a by simp
  show "php_array (array_carrier.put_all hs a)" "unambiguous (array_carrier.put_all hs a)"
    using array_carrier.put_all_get [OF a' ok] by blast+
  have uniq: "h = h'" if "l = TRACEPARENT \<or> l = TRACESTATE" "h \<in> set hs" "h' \<in> set hs"
    "eq_ignore_ascii_case (fst h) l" "eq_ignore_ascii_case (fst h') l" for h h' l
  proof -
    have "h = (TRACEPARENT, p) \<or> h = (TRACESTATE, ts)" "h' = (TRACEPARENT, p) \<or> h' = (TRACESTATE, ts)"
      using that(2,3) hs(1) by simp_all
    with that(1,4,5) show ?thesis by (elim disjE) simp_all
  qed
  have in_hs: "(TRACEPARENT, p) \<in> set hs" "(TRACESTATE, ts) \<in> set hs" using hs(1) by simp_all
  show "array_get (array_carrier.put_all hs a) TRACEPARENT = Some p"
    by (rule array_carrier.put_all_distinct [OF a' ok _ in_hs(1) eq_ignore_case_refl]) (rule uniq [where l = TRACEPARENT], simp_all)
  show "array_get (array_carrier.put_all hs a) TRACESTATE = Some ts"
    by (rule array_carrier.put_all_distinct [OF a' ok _ in_hs(2) eq_ignore_case_refl]) (rule uniq [where l = TRACESTATE], simp_all)
  show "array_get (array_carrier.put_all hs a) k = array_get a k"
    if "\<not> eq_ignore_ascii_case TRACEPARENT k" "\<not> eq_ignore_ascii_case TRACESTATE k"
    by (rule array_carrier.put_all_absent [OF a' ok]) (use hs that in auto)
qed

lemma trace_inject_native:
  assumes "native_context_from_object (obj_of hc) st = Some n"
  shows "trace_inject env api fa span_key glob user (native_setter iter invoke) obj_of custom ambient
      [c, ZNull, ZObj hc] st w
    = (case write_headers (native_setter iter invoke) (map_inject glob (otel_context n)) [c, ZNull, ZObj hc] w of
         (r, args', w') \<Rightarrow> (r, args', st, w'))"
  using assms
  by (simp add: trace_inject_def selected_context_def selected_accessor_def object_arg_def is_obj_def
      otel_context_from_php_def)

text \<open>A context without a valid span writes nothing, and without a header the parent comes back.\<close>

lemma trace_inject_invalid:
  assumes "propagator_laws (env_sdk env) (ctx_span_context (base_api api)) glob"
    and "native_context_from_object (obj_of hc) st = Some n"
    and "\<not> sc_valid (env_sdk env) (ctx_span_context (base_api api) (otel_context n))"
  shows "trace_inject env api fa span_key glob user (native_setter iter invoke) obj_of custom ambient
      [c, ZNull, ZObj hc] st w = (Ok (), [c, ZNull, ZObj hc], st, w)"
  using assms by (simp add: trace_inject_native propagator_laws_def)

lemma trace_extract_absent:
  assumes "propagator_laws (env_sdk env) (ctx_span_context (base_api api)) glob"
    and "array_get a TRACEPARENT = None"
    and "native_context_from_object (obj_of hp) st = Some n"
    and "\<not> sc_valid (env_sdk env) (ctx_span_context (base_api api) (otel_context n))"
  shows "trace_extract env api fa span_key glob state_class new_span foreign_store user (native_getter iter) obj_of
      custom ambient [ZArr a, ZNull, ZObj hp] st w = (Ok (obj_of hp), st, w)"
  using assms
  by (simp add: trace_extract_def selected_context_def selected_accessor_def object_arg_def is_obj_def
      otel_context_from_php_def read_headers_array carried_trace propagator_laws_def Let_def del: read_headers.simps)

lemma init_span_context_total:
  assumes "\<And>t. \<exists>v. state_class t = Ok v"
  shows "\<exists>x. init_span_context_object sdk (Some state_class) c = Ok x \<and> sdk_context x = c"
proof -
  obtain v where "state_class (parse (state_header sdk (sc_state sdk c))) = Ok v" using assms by blast
  then show ?thesis by (cases "state_header sdk (sc_state sdk c) = []") (simp_all add: init_span_context_object_def)
qed

lemma trace_extract_native:
  assumes "array_get d TRACEPARENT = Some p" and "array_get d TRACESTATE = Some ts"
    and "native_context_from_object (obj_of hp) st = Some parent"
    and new: "\<And>x. \<exists>w'. new_span x w = (Ok h, w')" and cls: "\<And>t. \<exists>v. state_class t = Ok v"
    and sc: "\<And>cx m. map_of m TRACEPARENT = Some p \<Longrightarrow> map_of m TRACESTATE = Some ts \<Longrightarrow>
      sc_valid (env_sdk env) (ctx_span_context (base_api api) (map_extract glob cx m))"
  shows "\<exists>x w' m. trace_extract env api fa span_key glob state_class new_span foreign_store user (native_getter iter)
        obj_of custom ambient [ZArr d, ZNull, ZObj hp] st w
      = (Ok (init_context_object
          (with_value span_key (ZObj span_key) (ZObj h) (with_context (map_extract glob (otel_context parent) m) parent)) None),
         st, w')
    \<and> map_of m TRACEPARENT = Some p \<and> map_of m TRACESTATE = Some ts \<and> new_span x w = (Ok h, w')
    \<and> sdk_context x = ctx_span_context (base_api api) (map_extract glob (otel_context parent) m)"
proof -
  let ?m = "carried d [TRACEPARENT, TRACESTATE] []"
  let ?sc = "ctx_span_context (base_api api) (map_extract glob (otel_context parent) ?m)"
  have m: "map_of ?m TRACEPARENT = Some p" "map_of ?m TRACESTATE = Some ts"
    using assms(1,2) by (simp_all add: carried_trace)
  obtain x where x: "init_span_context_object (env_sdk env) (Some state_class) ?sc = Ok x" "sdk_context x = ?sc"
    using init_span_context_total [of state_class "env_sdk env" ?sc, OF cls] by blast
  obtain w' where w': "new_span x w = (Ok h, w')" using new by blast
  have "trace_extract env api fa span_key glob state_class new_span foreign_store user (native_getter iter)
        obj_of custom ambient [ZArr d, ZNull, ZObj hp] st w
      = (Ok (init_context_object
          (with_value span_key (ZObj span_key) (ZObj h) (with_context (map_extract glob (otel_context parent) ?m) parent)) None),
         st, w')"
    using assms(3) sc [OF m] x(1) w'
    by (simp add: trace_extract_def selected_context_def selected_accessor_def object_arg_def is_obj_def
        otel_context_from_php_def read_headers_array Let_def del: read_headers.simps)
  with m w' x(2) show ?thesis by blast
qed

section \<open>An instance\<close>

text \<open>
  A propagator of byte lists: the fields of \<open>traceparent\<close> are hexadecimal, joined by hyphens, and so is
  the text of the state.
\<close>

lemma hex_text_chars: "c \<in> set (hex_text bs) \<Longrightarrow> ord c < 128 \<and> c \<noteq> CHR ''-''"
proof -
  have "ord (nibble_char n) < 128 \<and> nibble_char n \<noteq> CHR ''-''" if "n < 16" for n
    using is_hex_nibble_char [OF that] by (auto simp: is_hex_byte_def is_ascii_digit_def)
  then have d: "ord (nibble_char (unat b div 16)) < 128 \<and> nibble_char (unat b div 16) \<noteq> CHR ''-''"
    "ord (nibble_char (unat b mod 16)) < 128 \<and> nibble_char (unat b mod 16) \<noteq> CHR ''-''" for b :: u8
    using split_byte(1,2) [of b] by blast+
  assume "c \<in> set (hex_text bs)"
  then have "\<exists>b :: u8. c = nibble_char (unat b div 16) \<or> c = nibble_char (unat b mod 16)" by (auto simp: hex_text_def)
  then obtain b :: u8 where "c = nibble_char (unat b div 16) \<or> c = nibble_char (unat b mod 16)" by blast
  with d [of b] show "ord c < 128 \<and> c \<noteq> CHR ''-''" by (elim disjE) simp_all
qed

interpretation hex_fields: separable_codec hex_text decode_hex "\<lambda>_. True" "CHR ''-''"
  by unfold_locales (auto dest: hex_text_chars)

definition example_propagator :: "byte_context text_map_api" where
  "example_propagator =
     \<lparr>map_inject = (\<lambda>(t, s, f, r, ts).
        if sc_valid byte_sdk (t, s, f, r, ts)
        then [(TRACESTATE, hex_text (map of_char ts)), (TRACEPARENT, join ''-'' (map hex_text [t, s, [f AND 1]]))] else []),
      map_extract = (\<lambda>parent m.
        case map_of m TRACEPARENT of
          None \<Rightarrow> parent
        | Some p \<Rightarrow>
            (case map decode_hex (split_on (CHR ''-'') p) of
               [t, s, [f]] \<Rightarrow>
                 (t, s, f, True, case map_of m TRACESTATE of Some x \<Rightarrow> map (\<lambda>b. char_of (unat b)) (decode_hex x) | None \<Rightarrow> [])
             | _ \<Rightarrow> parent))\<rparr>"

lemma unat_of_char: "unat (of_char c :: u8) = ord c"
proof -
  have "unat (of_nat (ord c) :: u8) = ord c" using nat_of_char_less_256 [of c] by (simp add: unat_of_nat take_bit_nat_eq_self)
  then show ?thesis by (simp add: of_nat_of_char)
qed

lemma char_of_of_char [simp]: "map (\<lambda>b. char_of (unat b)) (map of_char ts :: u8 list) = ts"
  by (induction ts) (simp_all add: unat_of_char)

lemma join_hex_utf8: "valid_utf8 (join ''-'' (map hex_text xs))"
  by (rule valid_utf8_ascii, induction xs rule: remdups_adj.induct) (auto dest: hex_text_chars)

lemma hex_text_utf8: "valid_utf8 (hex_text bs)"
  by (rule valid_utf8_ascii) (auto dest: hex_text_chars)

lemma example_propagator_laws: "propagator_laws byte_sdk (\<lambda>c. c) example_propagator"
  unfolding propagator_laws_def
proof (intro conjI allI impI)
  fix c :: byte_context
  obtain t s f r ts where c: "c = (t, s, f, r, ts)" by (cases c)
  let ?p = "join ''-'' (map hex_text [t, s, [f AND 1]])" and ?ts = "hex_text (map of_char ts)"
  assume "sc_valid byte_sdk c"
  then have "map_inject example_propagator c = [(TRACESTATE, ?ts), (TRACEPARENT, ?p)]"
    by (simp add: c example_propagator_def)
  moreover have "map_extract example_propagator parent m = (t, s, f AND 1, True, ts)"
    if "map_of m TRACEPARENT = Some ?p" "map_of m TRACESTATE = Some ?ts" for parent m
    using that hex_fields.decode_joined [of "[t, s, [f AND 1]]"]
    by (simp add: example_propagator_def char_of_of_char del: join.simps list.map map_map)
  moreover have "same_identity byte_sdk (t, s, f AND 1, True, ts) c"
    by (simp add: same_identity_def byte_sdk_def c)
  ultimately show "\<exists>p ts. set (map_inject example_propagator c) = {(TRACEPARENT, p), (TRACESTATE, ts)}
      \<and> valid_utf8 p \<and> valid_utf8 ts
      \<and> (\<forall>parent m. map_of m TRACEPARENT = Some p \<and> map_of m TRACESTATE = Some ts \<longrightarrow>
           same_identity byte_sdk (map_extract example_propagator parent m) c)"
    using join_hex_utf8 [of "[t, s, [f AND 1]]"] hex_text_utf8 [of "map of_char ts"]
    by (intro exI [of _ ?p] exI [of _ ?ts]) (simp add: insert_commute del: join.simps list.map map_map)
qed (auto simp: example_propagator_def split: prod.splits)

section \<open>Properties\<close>

text \<open>
  C11. A trace goes on across services: injecting a context with a valid span into an array of headers and
  extracting the result, whatever else is written there in between, gives a context whose span has the
  same trace id, span id, sampled flag and trace state and is remote, for the SDK as for PHP, with the
  other values of the parent. Headers of other names are left as they were.
\<close>

theorem trace_context_travels:
  assumes laws: "sdk_laws (env_sdk env)" "propagator_laws (env_sdk env) (ctx_span_context (base_api api)) glob"
    and arr: "php_array a" "unambiguous a"
    and src: "native_context_from_object (obj_of hc) st = Some n"
      "sc_valid (env_sdk env) (ctx_span_context (base_api api) (otel_context n))"
    and parent: "native_context_from_object (obj_of hp) st = Some q"
    and new: "\<And>x w. \<exists>w'. new_span x w = (Ok h, w')" and cls: "\<And>t. \<exists>v. state_class t = Ok v"
  shows "\<exists>b. trace_inject env api fa span_key glob user (native_setter iter invoke) obj_of custom ambient
        [ZArr a, ZNull, ZObj hc] st w = (Ok (), [ZArr b, ZNull, ZObj hc], st, w)
    \<and> php_array b \<and> unambiguous b
    \<and> (\<forall>k. \<not> eq_ignore_ascii_case TRACEPARENT k \<and> \<not> eq_ignore_ascii_case TRACESTATE k \<longrightarrow> array_get b k = array_get a k)
    \<and> (\<forall>d v. array_get d TRACEPARENT = array_get b TRACEPARENT \<and> array_get d TRACESTATE = array_get b TRACESTATE \<longrightarrow>
        (\<exists>ob m x v'. trace_extract env api fa span_key glob state_class new_span foreign_store user' (native_getter iter')
            obj_of custom ambient [ZArr d, ZNull, ZObj hp] st v = (Ok ob, st, v')
          \<and> native_context_from_object ob st = Some m \<and> context_value m span_key = Some (ZObj h)
          \<and> (\<forall>key. key \<noteq> span_key \<longrightarrow> context_value m key = context_value q key)
          \<and> new_span x v = (Ok h, v') \<and> sdk_context x = ctx_span_context (base_api api) (otel_context m)
          \<and> same_identity (env_sdk env) (sdk_context x) (ctx_span_context (base_api api) (otel_context n))))"
proof -
  obtain p ts where hs: "set (map_inject glob (otel_context n)) = {(TRACEPARENT, p), (TRACESTATE, ts)}"
      "valid_utf8 p" "valid_utf8 ts"
    and recovers: "\<forall>cx m. map_of m TRACEPARENT = Some p \<and> map_of m TRACESTATE = Some ts \<longrightarrow>
      same_identity (env_sdk env) (ctx_span_context (base_api api) (map_extract glob cx m))
        (ctx_span_context (base_api api) (otel_context n))"
    by (rule propagator_headers [OF laws(2) src(2)])
  let ?b = "array_carrier.put_all (map_inject glob (otel_context n)) a"
  note b = put_trace_headers [OF hs arr]
  have valid: "sc_valid (env_sdk env) (ctx_span_context (base_api api) (map_extract glob cx m))"
    if "map_of m TRACEPARENT = Some p" "map_of m TRACESTATE = Some ts" for cx m
    using recovers that src(2) laws(1) by (simp add: same_identity_def sdk_laws_def)
  have inject: "trace_inject env api fa span_key glob user (native_setter iter invoke) obj_of custom ambient
        [ZArr a, ZNull, ZObj hc] st w = (Ok (), [ZArr ?b, ZNull, ZObj hc], st, w)"
    using hs by (simp add: trace_inject_native [where obj_of = obj_of, OF src(1)] write_headers_array)
  have extracted: "\<exists>ob m x v'. trace_extract env api fa span_key glob state_class new_span foreign_store user' (native_getter iter')
            obj_of custom ambient [ZArr d, ZNull, ZObj hp] st v = (Ok ob, st, v')
          \<and> native_context_from_object ob st = Some m \<and> context_value m span_key = Some (ZObj h)
          \<and> (\<forall>key. key \<noteq> span_key \<longrightarrow> context_value m key = context_value q key)
          \<and> new_span x v = (Ok h, v') \<and> sdk_context x = ctx_span_context (base_api api) (otel_context m)
          \<and> same_identity (env_sdk env) (sdk_context x) (ctx_span_context (base_api api) (otel_context n))"
    if d: "array_get d TRACEPARENT = Some p" "array_get d TRACESTATE = Some ts" for d v
  proof -
    from trace_extract_native [where new_span = new_span and w = v and env = env and api = api and glob = glob
        and obj_of = obj_of and hp = hp and fa = fa and span_key = span_key and state_class = state_class
        and foreign_store = foreign_store and user = user' and iter = iter' and custom = custom and ambient = ambient,
        OF d parent new cls valid]
    obtain x v' m where "trace_extract env api fa span_key glob state_class new_span foreign_store user' (native_getter iter')
          obj_of custom ambient [ZArr d, ZNull, ZObj hp] st v
        = (Ok (init_context_object
            (with_value span_key (ZObj span_key) (ZObj h) (with_context (map_extract glob (otel_context q) m) q)) None),
           st, v')" "new_span x v = (Ok h, v')" "map_of m TRACEPARENT = Some p" "map_of m TRACESTATE = Some ts"
        "sdk_context x = ctx_span_context (base_api api) (map_extract glob (otel_context q) m)" by blast
    moreover let ?n = "with_value span_key (ZObj span_key) (ZObj h) (with_context (map_extract glob (otel_context q) m) q)"
    have "context_value ?n span_key = Some (ZObj h)" "\<forall>key. key \<noteq> span_key \<longrightarrow> context_value ?n key = context_value q key"
      "otel_context ?n = map_extract glob (otel_context q) m"
      by (simp_all add: with_value_def with_context_def context_value_def)
    moreover have "native_context_from_object (init_context_object ?n None) st = Some ?n" by simp
    ultimately show ?thesis
      using recovers
      by (intro exI [of _ "init_context_object ?n None"] exI [of _ ?n] exI [of _ x] exI [of _ v'] conjI) simp_all
  qed
  show ?thesis
    using inject b extracted by (intro exI [of _ ?b] conjI) (simp_all add: b(3,4))
qed

text \<open>A source context with a local span (object 5), an empty parent (object 6); the new span is object 9.\<close>

definition example_objects :: "nat \<Rightarrow> (byte_context, unit) context_obj" where
  "example_objects i = init_context_object (native_new (if i = 5 then example_identity 1 else sc_empty byte_sdk)) None"

theorem trace_context_travels_witness:
  "\<exists>b ob m. trace_inject example_env example_api example_foreign 1 example_propagator (\<lambda>_ args _ _ w. (Ok (), args, w))
        (native_setter (\<lambda>_ _. Err TypeMismatch) (\<lambda>_ _ _ w. (Err TypeMismatch, w))) example_objects None
        (sc_empty byte_sdk) [ZArr [], ZNull, ZObj 5] (storage_init 1) () = (Ok (), [ZArr b, ZNull, ZObj 5], storage_init 1, ())
    \<and> trace_extract example_env example_api example_foreign 1 example_propagator (\<lambda>_. Ok ZNull) (\<lambda>_ w. (Ok 9, w))
        (\<lambda>_ _ w. (Err TypeMismatch, w)) (\<lambda>_ _ _ w. (Ok ZNull, w)) (native_getter (\<lambda>_ _. Err TypeMismatch)) example_objects
        None (sc_empty byte_sdk) [ZArr b, ZNull, ZObj 6] (storage_init 1) () = (Ok ob, storage_init 1, ())
    \<and> native_context_from_object ob (storage_init 1) = Some m \<and> context_value m 1 = Some (ZObj 9)
    \<and> same_identity byte_sdk (otel_context m) (example_identity 1)"
proof -
  have sdk: "env_sdk example_env = byte_sdk" "ctx_span_context (base_api example_api) = (\<lambda>c. c)"
    by (simp_all add: example_env_def example_api_def)
  have laws: "sdk_laws (env_sdk example_env)"
    "propagator_laws (env_sdk example_env) (ctx_span_context (base_api example_api)) example_propagator"
    unfolding sdk by (rule byte_sdk_laws, rule example_propagator_laws)
  have arr: "php_array ([] :: unit zarr)" "unambiguous ([] :: unit zarr)" by (simp_all add: php_array_def unambiguous_def)
  have obs: "native_context_from_object (example_objects 5) (storage_init 1) = Some (native_new (example_identity 1))"
    "native_context_from_object (example_objects 6) (storage_init 1) = Some (native_new (sc_empty byte_sdk))"
    by (simp_all add: example_objects_def)
  have valid: "sc_valid (env_sdk example_env)
      (ctx_span_context (base_api example_api) (otel_context (native_new (example_identity 1) :: (_, unit) native_context)))"
    by (simp add: sdk native_new_def example_identity_def byte_sdk_def)
  have new: "\<And>x w. \<exists>w'. (\<lambda>_ w :: unit. (Ok 9, w)) x w = (Ok 9, w')" and cls: "\<And>t. \<exists>v. (\<lambda>_. Ok ZNull) t = Ok v"
    by simp_all
  from trace_context_travels [where env = example_env and api = example_api and glob = example_propagator
      and obj_of = example_objects and hc = 5 and hp = 6 and fa = example_foreign and span_key = 1
      and user = "\<lambda>_ args _ _ w. (Ok (), args, w)" and user' = "\<lambda>_ _ _ w. (Ok ZNull, w)"
      and iter = "\<lambda>_ _. Err TypeMismatch" and iter' = "\<lambda>_ _. Err TypeMismatch" and invoke = "\<lambda>_ _ _ w. (Err TypeMismatch, w)"
      and custom = None and ambient = "sc_empty byte_sdk" and foreign_store = "\<lambda>_ _ w. (Err TypeMismatch, w)" and w = "()"
      and new_span = "\<lambda>_ w :: unit. (Ok 9, w)" and state_class = "\<lambda>_. Ok ZNull", OF laws arr obs(1) valid obs(2) new cls]
  show ?thesis
    unfolding sdk native_new_def native_context.select_convs
    apply -
    apply (elim exE conjE)
    subgoal premises p for b
      using p(1) p(5) [rule_format, of b "()", OF conjI [OF refl refl]]
      by (elim exE conjE, intro exI conjI) (assumption | (drule sym, simp))+
    done
qed

text \<open>
  C12. Trace context and baggage share a carrier: written into one array of headers in either order, both
  are there to be read, the trace headers unchanged and the baggage with all its entries.
\<close>

theorem propagators_share_carrier:
  assumes law: "propagator_laws (env_sdk env) (ctx_span_context (base_api api)) glob"
    and arr: "php_array a" "unambiguous a"
    and src: "native_context_from_object (obj_of hc) st = Some n"
      "sc_valid (env_sdk env) (ctx_span_context (base_api api) (otel_context n))"
    and es: "es \<noteq> []" "wf_entries es" "list_all (clean_entry strval) es" "length es \<le> 180"
      "length (baggage_header strval es) \<le> 8192" "valid_utf8 (baggage_header strval es)"
  shows "\<exists>b c d p ts.
      trace_inject env api fa span_key glob user (native_setter iter invoke) obj_of custom ambient
        [ZArr a, ZNull, ZObj hc] st w = (Ok (), [ZArr b, ZNull, ZObj hc], st, w)
    \<and> baggage_inject_header user (native_setter iter invoke) strval es [ZArr b, ZNull, ZObj hc] w
        = (Ok (), [ZArr c, ZNull, ZObj hc], w)
    \<and> (\<exists>e. baggage_inject_header user (native_setter iter invoke) strval es [ZArr a, ZNull, ZObj hc] w
          = (Ok (), [ZArr e, ZNull, ZObj hc], w)
        \<and> trace_inject env api fa span_key glob user (native_setter iter invoke) obj_of custom ambient
            [ZArr e, ZNull, ZObj hc] st w = (Ok (), [ZArr d, ZNull, ZObj hc], st, w))
    \<and> set (map_inject glob (otel_context n)) = {(TRACEPARENT, p), (TRACESTATE, ts)}
    \<and> (\<forall>x\<in>{c, d}. array_get x TRACEPARENT = Some p \<and> array_get x TRACESTATE = Some ts
         \<and> baggage_extract_header user' (native_getter iter') [ZArr x, ZNull, ZNull] v = (Ok (Some es), v))"
proof -
  obtain p ts where hs: "set (map_inject glob (otel_context n)) = {(TRACEPARENT, p), (TRACESTATE, ts)}"
    "valid_utf8 p" "valid_utf8 ts" by (rule propagator_headers [OF law src(2)])
  define h where "h = baggage_header strval es"
  have h: "baggage_inject strval es = Some h" "baggage_extract (ZStr h) = Some es" "valid_utf8 h"
    using baggage_roundtrip [OF es(1-5)] es(6) by (simp_all add: h_def)
  let ?put = "array_carrier.put_all (map_inject glob (otel_context n))"
  have inject: "trace_inject env api fa span_key glob user (native_setter iter invoke) obj_of custom ambient
        [ZArr x, ZNull, ZObj hc] st w = (Ok (), [ZArr (?put x), ZNull, ZObj hc], st, w)" for x
    using hs by (simp add: trace_inject_native [where obj_of = obj_of, OF src(1)] write_headers_array)
  have baggage: "baggage_inject_header user (native_setter iter invoke) strval es [ZArr x, ZNull, ZObj hc] w
        = (Ok (), [ZArr (array_set BAGGAGE h x), ZNull, ZObj hc], w)" for x
    using h by (simp add: baggage_inject_header_def selected_accessor_def object_arg_def is_obj_def native_setter_array)
  have read: "baggage_extract_header user' (native_getter iter') [ZArr x, ZNull, ZNull] v = (Ok (Some es), v)"
    if "array_get x BAGGAGE = Some h" for x
    using that h by (simp add: baggage_extract_header_def selected_accessor_def object_arg_def is_obj_def native_getter_array)
  note put = put_trace_headers [OF hs]
  have set: "array_get (array_set BAGGAGE h x) k = (if eq_ignore_ascii_case BAGGAGE k then Some h else array_get x k)"
    "php_array (array_set BAGGAGE h x)" "unambiguous (array_set BAGGAGE h x)"
    if "php_array x" "unambiguous x" for x k
    using that array_carrier.get_put [of x BAGGAGE h k] array_set_ok [OF that, of BAGGAGE h] h(3) by simp_all
  have c: "array_get (array_set BAGGAGE h (?put a)) TRACEPARENT = Some p"
    "array_get (array_set BAGGAGE h (?put a)) TRACESTATE = Some ts"
    "array_get (array_set BAGGAGE h (?put a)) BAGGAGE = Some h"
    by (simp_all add: set(1) [OF put(1,2) [OF arr]] put(3,4) [OF arr])
  have d: "array_get (?put (array_set BAGGAGE h a)) TRACEPARENT = Some p"
    "array_get (?put (array_set BAGGAGE h a)) TRACESTATE = Some ts"
    "array_get (?put (array_set BAGGAGE h a)) BAGGAGE = Some h"
    using put(3-5) [OF set(2,3) [OF arr]] by (simp_all add: set(1) [OF arr])
  have "\<forall>x\<in>{array_set BAGGAGE h (?put a), ?put (array_set BAGGAGE h a)}. array_get x TRACEPARENT = Some p
      \<and> array_get x TRACESTATE = Some ts
      \<and> baggage_extract_header user' (native_getter iter') [ZArr x, ZNull, ZNull] v = (Ok (Some es), v)"
    using c d read by blast
  with inject [of a] baggage [of "?put a"] baggage [of a] inject [of "array_set BAGGAGE h a"] hs(1)
  show ?thesis by blast
qed

theorem propagators_share_carrier_witness:
  "\<exists>b c. trace_inject example_env example_api example_foreign 1 example_propagator (\<lambda>_ args _ _ w. (Ok (), args, w))
        (native_setter (\<lambda>_ _. Err TypeMismatch) (\<lambda>_ _ _ w. (Err TypeMismatch, w))) example_objects None
        (sc_empty byte_sdk) [ZArr [], ZNull, ZObj 5] (storage_init 1) () = (Ok (), [ZArr b, ZNull, ZObj 5], storage_init 1, ())
    \<and> baggage_inject_header (\<lambda>_ args _ _ w. (Ok (), args, w))
        (native_setter (\<lambda>_ _. Err TypeMismatch) (\<lambda>_ _ _ w. (Err TypeMismatch, w))) (\<lambda>v. case v of ZStr s \<Rightarrow> s | _ \<Rightarrow> [])
        [(''user'', \<lparr>entry_value = ZStr ''a=b'', entry_metadata = ''ttl=5''\<rparr> :: unit entry)]
        [ZArr b, ZNull, ZObj 5] () = (Ok (), [ZArr c, ZNull, ZObj 5], ())
    \<and> array_get c TRACEPARENT \<noteq> None
    \<and> baggage_extract_header (\<lambda>_ _ _ w. (Ok ZNull, w)) (native_getter (\<lambda>_ _. Err TypeMismatch)) [ZArr c, ZNull, ZNull] ()
        = (Ok (Some [(''user'', \<lparr>entry_value = ZStr ''a=b'', entry_metadata = ''ttl=5''\<rparr> :: unit entry)]), ())"
proof -
  let ?sv = "\<lambda>v :: unit zval. case v of ZStr s \<Rightarrow> s | _ \<Rightarrow> []"
  let ?es = "[(''user'', \<lparr>entry_value = ZStr ''a=b'', entry_metadata = ''ttl=5''\<rparr> :: unit entry)]"
  have sdk: "env_sdk example_env = byte_sdk" "ctx_span_context (base_api example_api) = (\<lambda>c. c)"
    by (simp_all add: example_env_def example_api_def)
  have law: "propagator_laws (env_sdk example_env) (ctx_span_context (base_api example_api)) example_propagator"
    unfolding sdk by (rule example_propagator_laws)
  have arr: "php_array ([] :: unit zarr)" "unambiguous ([] :: unit zarr)" by (simp_all add: php_array_def unambiguous_def)
  have obs: "native_context_from_object (example_objects 5) (storage_init 1) = Some (native_new (example_identity 1))"
    by (simp add: example_objects_def)
  have valid: "sc_valid (env_sdk example_env)
      (ctx_span_context (base_api example_api) (otel_context (native_new (example_identity 1) :: (_, unit) native_context)))"
    by (simp add: sdk native_new_def example_identity_def byte_sdk_def)
  have es: "?es \<noteq> []" "wf_entries ?es" "length ?es \<le> 180" by (simp_all add: wf_entries_def)
  have clean: "list_all (clean_entry ?sv) ?es"
    by (simp add: clean_entry_def clean_key_def clean_text_def is_php_empty_def key_has_excluded_character_def
        value_has_excluded_character_def key_excluded_def value_excluded_def php_space_def)
  have len: "length (baggage_header ?sv ?es) \<le> 8192" "valid_utf8 (baggage_header ?sv ?es)"
    by code_simp+
  from propagators_share_carrier [where env = example_env and api = example_api and glob = example_propagator
      and obj_of = example_objects and hc = 5 and fa = example_foreign and span_key = 1
      and user = "\<lambda>_ args _ _ w. (Ok (), args, w)" and user' = "\<lambda>_ _ _ w. (Ok ZNull, w)"
      and iter = "\<lambda>_ _. Err TypeMismatch" and iter' = "\<lambda>_ _. Err TypeMismatch" and invoke = "\<lambda>_ _ _ w. (Err TypeMismatch, w)"
      and custom = None and ambient = "sc_empty byte_sdk" and w = "()" and v = "()" and strval = ?sv and es = ?es,
      OF law arr obs valid es(1,2) clean es(3) len]
  show ?thesis
    apply -
    apply (elim exE conjE)
    subgoal premises q for b c d p ts e
      using q by (intro exI [of _ b] exI [of _ c]) simp
    done
qed

end
