(* ===== verification/Request_Env.thy ===== *)
theory Request_Env
  imports Php_Values "HOL-Library.List_Lexorder" "HOL-Library.Char_ord"
begin

text \<open>
  The environment of a request (\<open>request.rs\<close>): \<open>OTEL_*\<close> variables backed up, overridden from
  \<open>$_SERVER\<close> and from a \<open>.env\<close> file, and restored at the end of the request; the check whether the
  request is to be traced; the headers the parent context is read from.

  A panic is \<^const>\<open>None\<close>. The file system (\<open>fs::metadata\<close>, \<open>canonicalize\<close>) and the \<open>dotenvy\<close>
  parser are arguments. A \<open>HashMap\<close> is an association list with distinct keys; where the code
  iterates over one, the order does not matter to what follows.
\<close>

section \<open>Server variables\<close>

type_synonym 'f server = "(zkey \<times> 'f zval) list option"

fun z_val_to_string :: "'f zval \<Rightarrow> string option" where
  "z_val_to_string (ZStr b) = to_str b"
| "z_val_to_string v = None"

definition hash_collect :: "('k \<times> 'v) list \<Rightarrow> ('k \<times> 'v) list" where
  "hash_collect kvs = fold (\<lambda>(k, v). AList.update k v) kvs []"

fun prefixed_var :: "string \<Rightarrow> zkey \<times> 'f zval \<Rightarrow> (string \<times> string) option" where
  "prefixed_var p (KIndex i, v) = None"
| "prefixed_var p (KStr b, v) =
     (case to_str b of
        None \<Rightarrow> None
      | Some key \<Rightarrow> if prefix p key then map_option (Pair key) (z_val_to_string v) else None)"

definition get_server_vars_with_prefix :: "string \<Rightarrow> 'f server \<Rightarrow> (string \<times> string) list" where
  "get_server_vars_with_prefix p server =
     (case server of None \<Rightarrow> [] | Some arr \<Rightarrow> hash_collect (List.map_filter (prefixed_var p) arr))"

definition get_server_var :: "string \<Rightarrow> 'f server \<Rightarrow> string option" where
  "get_server_var key server =
     Option.bind server (\<lambda>arr. Option.bind (map_of arr (symtable_key key)) z_val_to_string)"

section \<open>Backup and restore\<close>

record request_env =
  proc_env :: os_env
  env_backup :: "nat \<rightharpoonup> (string \<times> string) list"

definition backup_env :: "nat \<Rightarrow> request_env \<Rightarrow> request_env option" where
  "backup_env pid st =
     (case env_vars (proc_env st) of
        None \<Rightarrow> None
      | Some vars \<Rightarrow>
          Some (st\<lparr>env_backup := (env_backup st)
            (pid \<mapsto> hash_collect (filter (\<lambda>(k, _). prefix ''OTEL_'' k) vars))\<rparr>))"

fun remove_added :: "(string \<times> string) list \<Rightarrow> (string \<times> string) list \<Rightarrow> os_env \<Rightarrow> os_env option" where
  "remove_added backup [] env = Some env"
| "remove_added backup ((k, v) # vars) env =
     (if map_of backup k = None \<and> prefix ''OTEL_'' k
      then (case remove_var k env of None \<Rightarrow> None | Some env' \<Rightarrow> remove_added backup vars env')
      else remove_added backup vars env)"

definition restore_env :: "nat \<Rightarrow> request_env \<Rightarrow> request_env option" where
  "restore_env pid st =
     (case env_backup st pid of
        None \<Rightarrow> Some st
      | Some backup \<Rightarrow>
          (case env_vars (proc_env st) of
             None \<Rightarrow> None
           | Some vars \<Rightarrow>
               map_option (\<lambda>env. st\<lparr>proc_env := env, env_backup := (env_backup st)(pid := None)\<rparr>)
                 (Option.bind (remove_added backup vars (proc_env st)) (set_vars backup))))"

definition set_env_from_server :: "'f server \<Rightarrow> request_env \<Rightarrow> request_env option" where
  "set_env_from_server server st =
     map_option (\<lambda>env. st\<lparr>proc_env := env\<rparr>)
       (set_vars (get_server_vars_with_prefix ''OTEL_'' server) (proc_env st))"

section \<open>The .env file\<close>

text \<open>
  A path as \<open>std::path\<close> compares it: whether it is absolute, and its components. Empty
  components and inner dots do not count.
\<close>

type_synonym path = "bool \<times> string list"

definition path_of_string :: "string \<Rightarrow> path" where
  "path_of_string s =
     (let pieces = split_on (CHR ''/'') s; absolute = (s \<noteq> [] \<and> hd s = CHR ''/'');
          dot = (if \<not> absolute \<and> hd pieces = ''.'' then [''.''] else [])
      in (absolute, dot @ filter (\<lambda>c. c \<noteq> [] \<and> c \<noteq> ''.'') pieces))"

fun path_parent :: "path \<Rightarrow> path option" where
  "path_parent (absolute, cs) = (if cs = [] then None else Some (absolute, butlast cs))"

definition env_in_dir :: "(path \<Rightarrow> bool) \<Rightarrow> path \<Rightarrow> path option" where
  "env_in_dir metadata dir =
     (let env_path = (fst dir, snd dir @ [''.env'']) in if metadata env_path then Some env_path else None)"

function dotenv_loop :: "(path \<Rightarrow> bool) \<Rightarrow> path \<Rightarrow> path \<Rightarrow> path option" where
  "dotenv_loop metadata docroot current =
     (case env_in_dir metadata current of
        Some env_path \<Rightarrow> Some env_path
      | None \<Rightarrow>
          if current = docroot then None
          else (case path_parent current of
              None \<Rightarrow> None
            | Some up \<Rightarrow> dotenv_loop metadata docroot up))"
  by pat_completeness auto
termination
  by (relation "measure (\<lambda>(_, _, current). length (snd current))") (auto split: if_splits)

declare dotenv_loop.simps [simp del]

definition find_dotenv :: "(path \<Rightarrow> bool) \<Rightarrow> (path \<Rightarrow> path option) \<Rightarrow> 'f server \<Rightarrow> path option" where
  "find_dotenv metadata canonicalize server =
     (case get_server_var ''SCRIPT_FILENAME'' server of
        None \<Rightarrow> None
      | Some script_filename \<Rightarrow>
          (case path_parent (path_of_string script_filename) of
             None \<Rightarrow> None
           | Some script_dir \<Rightarrow>
               (case get_server_var ''DOCUMENT_ROOT'' server of
                  None \<Rightarrow> env_in_dir metadata script_dir
                | Some document_root \<Rightarrow>
                    if document_root = [] then env_in_dir metadata script_dir
                    else (case canonicalize (path_of_string document_root) of
                        None \<Rightarrow> env_in_dir metadata script_dir
                      | Some docroot \<Rightarrow>
                          (case canonicalize script_dir of
                             None \<Rightarrow> None
                           | Some current \<Rightarrow> dotenv_loop metadata docroot current)))))"

definition resource_pair :: "string \<Rightarrow> (string \<times> string) option" where
  "resource_pair pair =
     (case split_once (CHR ''='') pair of
        None \<Rightarrow> None
      | Some (key, value) \<Rightarrow> if key \<noteq> [] \<and> value \<noteq> [] then Some (trim key, trim value) else None)"

definition parse_resource_attributes :: "string \<Rightarrow> (string \<times> string) list" where
  "parse_resource_attributes s = hash_collect (List.map_filter resource_pair (split_on (CHR '','') s))"

text \<open>The three variables the file may set; the last line for each counts.\<close>

record dotenv_vars =
  dv_service_name :: "string option"
  dv_resource_attributes :: "string option"
  dv_otel_disabled :: "string option"

definition dotenv_item :: "string \<times> string \<Rightarrow> dotenv_vars \<Rightarrow> dotenv_vars" where
  "dotenv_item item vars =
     (if fst item = ''OTEL_SERVICE_NAME'' then vars\<lparr>dv_service_name := Some (snd item)\<rparr>
      else if fst item = ''OTEL_RESOURCE_ATTRIBUTES'' then vars\<lparr>dv_resource_attributes := Some (snd item)\<rparr>
      else if fst item = ''OTEL_SDK_DISABLED'' then vars\<lparr>dv_otel_disabled := Some (snd item)\<rparr>
      else vars)"

definition merge_resource_attributes :: "string option \<Rightarrow> string \<Rightarrow> (string \<times> string) list" where
  "merge_resource_attributes existing resource_attributes =
     fold (\<lambda>(k, v). AList.update k v) (parse_resource_attributes resource_attributes)
       (case existing of Some e \<Rightarrow> parse_resource_attributes e | None \<Rightarrow> [])"

definition show_resource_attributes :: "(string \<times> string) list \<Rightarrow> string" where
  "show_resource_attributes merged =
     join '','' (map (\<lambda>(k, v). k @ ''='' @ v) (sort_key fst merged))"

definition dotenv_env :: "string option \<Rightarrow> (string \<times> string) list \<Rightarrow> (string \<times> string) list" where
  "dotenv_env existing items =
     (let vars = fold dotenv_item items
            \<lparr>dv_service_name = None, dv_resource_attributes = None, dv_otel_disabled = None\<rparr>
      in (case dv_service_name vars of Some v \<Rightarrow> [(''OTEL_SERVICE_NAME'', v)] | None \<Rightarrow> [])
        @ (case dv_otel_disabled vars of Some v \<Rightarrow> [(''OTEL_SDK_DISABLED'', v)] | None \<Rightarrow> [])
        @ (case dv_resource_attributes vars of
             Some v \<Rightarrow> [(''OTEL_RESOURCE_ATTRIBUTES'', show_resource_attributes (merge_resource_attributes existing v))]
           | None \<Rightarrow> []))"

definition set_request_dotenv :: "(string \<times> string) list \<Rightarrow> request_env \<Rightarrow> request_env option" where
  "set_request_dotenv env st = map_option (\<lambda>e. st\<lparr>proc_env := e\<rparr>) (set_vars env (proc_env st))"

text \<open>\<open>from_path_iter\<close>: an unreadable file is \<^const>\<open>None\<close>, and so is a line that does not parse.\<close>

definition process_dotenv ::
  "(path \<Rightarrow> bool) \<Rightarrow> (path \<Rightarrow> path option) \<Rightarrow> (path \<Rightarrow> (string \<times> string) option list option) \<Rightarrow>
     'f server \<Rightarrow> request_env \<Rightarrow> request_env option" where
  "process_dotenv metadata canonicalize from_path_iter server st =
     (case find_dotenv metadata canonicalize server of
        None \<Rightarrow> Some st
      | Some env_path \<Rightarrow>
          (case from_path_iter env_path of
             None \<Rightarrow> Some st
           | Some iter \<Rightarrow>
               set_request_dotenv
                 (dotenv_env (env_get (proc_env st) ''OTEL_RESOURCE_ATTRIBUTES'') (List.map_filter (\<lambda>x. x) iter)) st))"

definition init_environment ::
  "bool \<Rightarrow> bool \<Rightarrow> (path \<Rightarrow> bool) \<Rightarrow> (path \<Rightarrow> path option) \<Rightarrow> (path \<Rightarrow> (string \<times> string) option list option) \<Rightarrow>
     nat \<Rightarrow> 'f server \<Rightarrow> request_env \<Rightarrow> request_env option" where
  "init_environment dotenv_enabled env_from_server metadata canonicalize from_path_iter pid server st =
     Option.bind (if dotenv_enabled \<or> env_from_server then backup_env pid st else Some st) (\<lambda>st1.
     Option.bind (if env_from_server then set_env_from_server server st1 else Some st1) (\<lambda>st2.
     if dotenv_enabled then process_dotenv metadata canonicalize from_path_iter server st2 else Some st2))"

section \<open>Whether the request is traced\<close>

text \<open>\<open>str::get(pos..)\<close>: only at a boundary between code points.\<close>

definition str_from :: "string \<Rightarrow> nat \<Rightarrow> string option" where
  "str_from s pos =
     (if pos = 0 \<or> pos = length s \<or> pos < length s \<and> \<not> is_cont (s ! pos) then Some (drop pos s) else None)"

fun glob_loop :: "string \<Rightarrow> nat \<Rightarrow> nat \<Rightarrow> nat \<Rightarrow> string list \<Rightarrow> bool" where
  "glob_loop uri n i pos [] = True"
| "glob_loop uri n i pos (part # parts) =
     (if part = [] then glob_loop uri n (i + 1) pos parts
      else if i = 0 then
        (if prefix part uri then glob_loop uri n (i + 1) (pos + length part) parts else False)
      else if i = n - 1 then
        (if suffix part uri then glob_loop uri n (i + 1) pos parts else False)
      else
        (case Option.bind (str_from uri pos) (find_str part) of
           Some idx \<Rightarrow> glob_loop uri n (i + 1) (pos + (idx + length part)) parts
         | None \<Rightarrow> False))"

definition url_pattern_matches :: "string \<Rightarrow> string \<Rightarrow> bool" where
  "url_pattern_matches uri pattern =
     (if CHR ''*'' \<in> set pattern
      then (let parts = split_on (CHR ''*'') pattern in glob_loop uri (length parts) 0 0 parts)
      else uri = pattern)"

definition is_excluded_url :: "os_env \<Rightarrow> string \<Rightarrow> bool" where
  "is_excluded_url env uri =
     (case env_get env ''OTEL_PHP_EXCLUDED_URLS'' of
        Some list \<Rightarrow>
          list_ex (url_pattern_matches uri) (filter (\<lambda>s. s \<noteq> []) (map trim (split_on (CHR '','') list)))
      | None \<Rightarrow> False)"

text \<open>\<open>info_uri\<close> is the URI the SAPI reports, converted lossily; \<open>None\<close> is a null pointer.\<close>

definition request_uri :: "'f server \<Rightarrow> string option \<Rightarrow> string option" where
  "request_uri server info_uri =
     (case get_server_var ''REQUEST_URI'' server of Some u \<Rightarrow> Some u | None \<Rightarrow> info_uri)"

definition is_disabled :: "os_env \<Rightarrow> 'f server \<Rightarrow> string option \<Rightarrow> bool" where
  "is_disabled env server info_uri =
     ((case request_uri server info_uri of Some uri \<Rightarrow> is_excluded_url env uri | None \<Rightarrow> False)
      \<or> (case env_var env ''OTEL_SDK_DISABLED'' of
           VarOk value \<Rightarrow> eq_ignore_ascii_case value ''true''
         | NotPresent \<Rightarrow> False
         | NotUnicode \<Rightarrow> False))"

section \<open>Request headers\<close>

function trim_start_str :: "string \<Rightarrow> string \<Rightarrow> string" where
  "trim_start_str p s = (if p \<noteq> [] \<and> prefix p s then trim_start_str p (drop (length p) s) else s)"
  by pat_completeness auto
termination
  by (relation "measure (\<lambda>(p, s). length s)") (auto simp: prefix_def)

declare trim_start_str.simps [simp del]

definition header_name :: "string \<Rightarrow> string" where
  "header_name key =
     map to_ascii_lowercase (map (\<lambda>c. if c = CHR ''_'' then CHR ''-'' else c) (trim_start_str ''HTTP_'' key))"

definition extract_request_headers :: "(zkey \<times> 'f zval) list \<Rightarrow> (string \<times> string) list" where
  "extract_request_headers server =
     hash_collect (map (\<lambda>(key, v). (header_name key, v)) (List.map_filter (prefixed_var ''HTTP_'') server))"

section \<open>Backup and restore are inverse\<close>

definition otel_name :: "string \<Rightarrow> bool" where
  "otel_name k \<longleftrightarrow> prefix ''OTEL_'' k"

text \<open>What the operating system guarantees of an environment, for the names this code handles.\<close>

definition env_ok :: "os_env \<Rightarrow> bool" where
  "env_ok env \<longleftrightarrow>
     distinct (map fst env) \<and> list_all (\<lambda>(k, v). otel_name k \<longrightarrow> settable_name k \<and> CHR 0x00 \<notin> set v) env"

definition same_others :: "os_env \<Rightarrow> os_env \<Rightarrow> bool" where
  "same_others a b \<longleftrightarrow> (\<forall>k. \<not> otel_name k \<longrightarrow> map_of a k = map_of b k)"

lemma map_of_fold_update:
  "map_of (fold (\<lambda>(k, v). AList.update k v) kvs m) = map_of m ++ map_of (rev kvs)"
  by (induction kvs arbitrary: m)
    (auto simp: update_conv' fun_eq_iff map_add_def split: option.splits)

lemma distinct_fold_update:
  "distinct (map fst m) \<Longrightarrow> distinct (map fst (fold (\<lambda>(k, v). AList.update k v) kvs m))"
  by (induction kvs arbitrary: m) (auto simp: distinct_update)

lemma map_of_hash_collect: "map_of (hash_collect kvs) = map_of (rev kvs)"
  by (simp add: hash_collect_def map_of_fold_update)

lemma distinct_hash_collect: "distinct (map fst (hash_collect kvs))"
  by (simp add: hash_collect_def distinct_fold_update)

lemma map_of_rev_distinct: "distinct (map fst kvs) \<Longrightarrow> map_of (rev kvs) = map_of kvs"
  by (simp add: map_of_inject_set rev_map [symmetric])

lemma hash_collect_in: "(k, v) \<in> set (hash_collect kvs) \<Longrightarrow> (k, v) \<in> set kvs"
  by (metis distinct_hash_collect map_of_SomeD map_of_hash_collect map_of_is_SomeI set_rev)

lemma set_vars_fold:
  "\<forall>(k, v)\<in>set kvs. settable_name k \<and> CHR 0x00 \<notin> set v \<Longrightarrow>
     set_vars kvs env = Some (fold (\<lambda>(k, v). env_put k v) kvs env)"
  by (induction kvs arbitrary: env) (auto simp: set_var_def)

lemma set_vars_map_of: "set_vars kvs env = Some env' \<Longrightarrow> map_of env' = map_of env ++ map_of (rev kvs)"
proof (induction kvs arbitrary: env)
  case (Cons kv kvs)
  obtain k v where kv: "kv = (k, v)" by (cases kv)
  with Cons.prems have "set_vars kvs (env_put k v env) = Some env'"
    by (auto simp: set_var_def split: if_splits)
  from Cons.IH [OF this] show ?case
    by (auto simp: kv env_store.get_put fun_eq_iff map_add_def split: option.splits)
qed simp

lemma remove_added_map_of:
  assumes "\<forall>(k, v)\<in>set vars. otel_name k \<longrightarrow> settable_name k"
  shows "\<exists>env'. remove_added backup vars env = Some env'
    \<and> (\<forall>k. map_of env' k = (if k \<in> fst ` set vars \<and> otel_name k \<and> map_of backup k = None then None else map_of env k))"
  using assms
proof (induction vars arbitrary: env)
  case (Cons kv vars)
  obtain k v where kv: "kv = (k, v)" by (cases kv)
  let ?env = "if map_of backup k = None \<and> otel_name k then env_del k env else env"
  have eq: "remove_added backup (kv # vars) env = remove_added backup vars ?env"
    using Cons.prems by (auto simp: kv otel_name_def remove_var_def)
  have "\<forall>(k, v)\<in>set vars. otel_name k \<longrightarrow> settable_name k" using Cons.prems by simp
  from Cons.IH [OF this, of ?env] obtain env' where env': "remove_added backup vars ?env = Some env'"
    "\<forall>j. map_of env' j = (if j \<in> fst ` set vars \<and> otel_name j \<and> map_of backup j = None then None else map_of ?env j)"
    by blast
  then show ?case using eq by (auto simp: kv env_store.get_del)
qed simp

lemma backup_env_Some:
  assumes "backup_env pid st = Some st1"
  shows "\<exists>b. st1 = st\<lparr>env_backup := (env_backup st)(pid \<mapsto> b)\<rparr> \<and>
    b = hash_collect (filter (\<lambda>(k, _). otel_name k) (proc_env st))"
  using assms by (auto simp: backup_env_def env_vars_def otel_name_def split: option.splits if_splits)

text \<open>\<open>OTEL_*\<close> variables as in the first environment, all others as in the second.\<close>

definition restored_env :: "os_env \<Rightarrow> os_env \<Rightarrow> os_env \<Rightarrow> bool" where
  "restored_env env0 env' env \<longleftrightarrow> (\<forall>k. map_of env k = (if otel_name k then map_of env0 k else map_of env' k))"

lemma restored_env_eq: "restored_env env0 env' env \<Longrightarrow> same_others env' env0 \<Longrightarrow> map_of env = map_of env0"
  by (auto simp: restored_env_def same_others_def fun_eq_iff)

lemma restore_env_backup:
  assumes ok: "env_ok env0" "env_ok env'" and u: "env_vars env' \<noteq> None"
    and b: "env_backup st pid = Some (hash_collect (filter (\<lambda>(k, _). otel_name k) env0))" and st: "proc_env st = env'"
  shows "\<exists>st2. restore_env pid st = Some st2 \<and> restored_env env0 env' (proc_env st2)
    \<and> env_backup st2 = (env_backup st)(pid := None)"
proof -
  let ?b = "hash_collect (filter (\<lambda>(k, _). otel_name k) env0)"
  have filt: "(\<lambda>(k, _ :: string). otel_name k) = (\<lambda>kv. otel_name (fst kv))" by auto
  have bmap: "map_of ?b k = (if otel_name k then map_of env0 k else None)" for k
    using ok(1) unfolding map_of_hash_collect filt
    by (simp add: env_ok_def map_of_rev_distinct distinct_fst_filter map_of_filter_key)
  have vars: "env_vars env' = Some env'" using u by (auto simp: env_vars_def split: if_splits)
  have "\<forall>(k, v)\<in>set env'. otel_name k \<longrightarrow> settable_name k" using ok(2) by (auto simp: env_ok_def list_all_iff)
  from remove_added_map_of [OF this, of ?b env'] obtain e1 where e1: "remove_added ?b env' env' = Some e1"
    "\<forall>k. map_of e1 k = (if k \<in> fst ` set env' \<and> otel_name k \<and> map_of ?b k = None then None else map_of env' k)"
    by blast
  have "\<forall>(k, v)\<in>set ?b. settable_name k \<and> CHR 0x00 \<notin> set v"
    using ok(1) by (auto simp: env_ok_def list_all_iff dest!: hash_collect_in)
  from set_vars_fold [OF this, of e1] obtain e2 where e2: "set_vars ?b e1 = Some e2" by blast
  have r: "map_of (rev ?b) = map_of ?b" by (rule map_of_rev_distinct [OF distinct_hash_collect])
  have "map_of e2 k = (if otel_name k then map_of env0 k else map_of env' k)" for k
  proof (cases "otel_name k")
    case True
    show ?thesis
    proof (cases "map_of env0 k")
      case None
      then have "map_of e1 k = None" using True bmap [of k] e1(2) map_of_eq_None_iff [of env' k] by auto
      then show ?thesis using None True bmap [of k] set_vars_map_of [OF e2] r by (simp add: map_add_def)
    next
      case (Some v)
      then show ?thesis using True bmap [of k] set_vars_map_of [OF e2] r by (simp add: map_add_def)
    qed
  next
    case False
    then show ?thesis using bmap [of k] set_vars_map_of [OF e2] r e1(2)
      by (simp add: map_add_def)
  qed
  then have "restored_env env0 env' e2" by (simp add: restored_env_def)
  then show ?thesis using e1(1) e2 b st vars by (simp add: restore_env_def)
qed

lemma prefixed_var_prefix: "prefixed_var p e = Some (k, v) \<Longrightarrow> prefix p k"
  by (induction p e rule: prefixed_var.induct) (auto split: if_splits option.splits)

lemma otel_server_vars:
  fixes server :: "'f server"
  assumes "(k, v) \<in> set (get_server_vars_with_prefix p server)"
  shows "prefix p k"
proof -
  from assms obtain arr :: "(zkey \<times> 'f zval) list" where "(k, v) \<in> set (List.map_filter (prefixed_var p) arr)"
    by (auto simp: get_server_vars_with_prefix_def split: option.splits dest!: hash_collect_in)
  then obtain e :: "zkey \<times> 'f zval" where "prefixed_var p e = Some (k, v)" by (force simp: List.map_filter_def)
  then show "prefix p k" by (rule prefixed_var_prefix)
qed

lemma otel_dotenv_vars: "(k, v) \<in> set (dotenv_env existing items) \<Longrightarrow> otel_name k"
  by (auto simp: dotenv_env_def Let_def otel_name_def split: option.splits)

lemma set_vars_same_others:
  assumes "set_vars kvs env = Some env'" and "\<And>k v. (k, v) \<in> set kvs \<Longrightarrow> otel_name k"
  shows "same_others env' env"
proof -
  have "map_of (rev kvs) k = None" if "\<not> otel_name k" for k
    using assms(2) that by (auto simp: map_of_eq_None_iff)
  then show ?thesis by (simp add: same_others_def set_vars_map_of [OF assms(1)] map_add_def)
qed

lemma set_env_from_server_same:
  assumes "set_env_from_server server st = Some st'"
  shows "env_backup st' = env_backup st \<and> same_others (proc_env st') (proc_env st)"
proof -
  from assms obtain env where st': "st' = st\<lparr>proc_env := env\<rparr>"
    and env: "set_vars (get_server_vars_with_prefix ''OTEL_'' server) (proc_env st) = Some env"
    by (auto simp: set_env_from_server_def)
  show ?thesis unfolding st' using set_vars_same_others [OF env] otel_server_vars [of _ _ "''OTEL_''" server]
    by (simp add: otel_name_def)
qed

lemma process_dotenv_same:
  assumes "process_dotenv metadata canonicalize iter server st = Some st'"
  shows "env_backup st' = env_backup st \<and> same_others (proc_env st') (proc_env st)"
proof -
  have keep: "same_others e e" for e by (simp add: same_others_def)
  have set: "set_request_dotenv (dotenv_env ex items) st = Some st' \<Longrightarrow> ?thesis" for ex items
  proof -
    assume "set_request_dotenv (dotenv_env ex items) st = Some st'"
    then obtain env where st': "st' = st\<lparr>proc_env := env\<rparr>"
      and env: "set_vars (dotenv_env ex items) (proc_env st) = Some env"
      by (auto simp: set_request_dotenv_def)
    show ?thesis unfolding st' using set_vars_same_others [OF env otel_dotenv_vars] by simp
  qed
  from assms show ?thesis
    by (auto simp: process_dotenv_def keep split: option.splits dest: set)
qed

lemma init_environment_same:
  assumes "init_environment d s metadata canonicalize iter pid server st = Some st1" and "d \<or> s"
  shows "env_backup st1 = (env_backup st)(pid \<mapsto> hash_collect (filter (\<lambda>(k, _). otel_name k) (proc_env st)))
    \<and> same_others (proc_env st1) (proc_env st)"
proof -
  from assms obtain a b where a: "backup_env pid st = Some a"
    and b: "(if s then set_env_from_server server a else Some a) = Some b"
    and c: "(if d then process_dotenv metadata canonicalize iter server b else Some b) = Some st1"
    by (auto simp: init_environment_def bind_eq_Some_conv)
  have b': "env_backup b = env_backup a \<and> same_others (proc_env b) (proc_env a)"
    using b set_env_from_server_same by (auto simp: same_others_def split: if_splits)
  have c': "env_backup st1 = env_backup b \<and> same_others (proc_env st1) (proc_env b)"
    using c process_dotenv_same [of metadata canonicalize iter server b st1] by (auto simp: same_others_def split: if_splits)
  from backup_env_Some [OF a] b' c' show ?thesis by (auto simp: same_others_def)
qed

section \<open>The search for the .env file\<close>

text \<open>The directories the search visits, in order.\<close>

function search_dirs :: "path \<Rightarrow> path \<Rightarrow> path list" where
  "search_dirs docroot current =
     current # (if current = docroot then []
                else case path_parent current of None \<Rightarrow> [] | Some up \<Rightarrow> search_dirs docroot up)"
  by pat_completeness auto
termination
  by (relation "measure (\<lambda>(_, current). length (snd current))") (auto split: if_splits)

declare search_dirs.simps [simp del]

definition in_dir :: "path \<Rightarrow> path" where
  "in_dir dir = (fst dir, snd dir @ [''.env''])"

lemma dotenv_loop_find:
  "dotenv_loop metadata docroot current = List.find metadata (map in_dir (search_dirs docroot current))"
proof (induction metadata docroot current rule: dotenv_loop.induct)
  case (1 metadata docroot current)
  show ?case
  proof (cases "metadata (in_dir current)")
    case True
    then show ?thesis by (subst dotenv_loop.simps, subst search_dirs.simps) (simp add: env_in_dir_def in_dir_def Let_def)
  next
    case False
    then have no: "env_in_dir metadata current = None" by (simp add: env_in_dir_def in_dir_def)
    show ?thesis
      using False no 1 [OF no] by (subst dotenv_loop.simps, subst search_dirs.simps) (auto split: option.split)
  qed
qed

lemma search_dirs_below:
  "search_dirs (absolute, root) (absolute, root @ rest) = map (\<lambda>n. (absolute, root @ take n rest)) (rev [0..<Suc (length rest)])"
proof (induction rest rule: rev_induct)
  case Nil
  then show ?case by (simp add: search_dirs.simps)
next
  case (snoc x rest)
  have "search_dirs (absolute, root) (absolute, root @ rest @ [x]) =
      (absolute, root @ rest @ [x]) # search_dirs (absolute, root) (absolute, root @ rest)"
    by (subst search_dirs.simps) (simp add: butlast_append)
  also have "\<dots> = map (\<lambda>n. (absolute, root @ take n (rest @ [x]))) (rev [0..<Suc (length (rest @ [x]))])"
    unfolding snoc by simp
  finally show ?case .
qed

section \<open>Excluded URLs against a reference matcher\<close>

text \<open>The reference: a star stands for any text.\<close>

fun glob_match :: "string \<Rightarrow> string \<Rightarrow> bool" where
  "glob_match [] s = (s = [])"
| "glob_match (c # p) s =
     (if c = CHR ''*'' then list_ex (\<lambda>n. glob_match p (drop n s)) [0..<Suc (length s)]
      else s \<noteq> [] \<and> hd s = c \<and> glob_match p (tl s))"

text \<open>The same by parts: after the first one, each part occurs behind the one before it.\<close>

fun glob_rest :: "string list \<Rightarrow> string \<Rightarrow> bool" where
  "glob_rest [] s = (s = [])"
| "glob_rest [p] s = suffix p s"
| "glob_rest (p # q # ps) s = (\<exists>a b. s = a @ p @ b \<and> glob_rest (q # ps) b)"

lemma glob_star: "glob_match (CHR ''*'' # p) s \<longleftrightarrow> (\<exists>a b. s = a @ b \<and> glob_match p b)"
proof -
  have "(\<exists>n. n < Suc (length s) \<and> glob_match p (drop n s)) \<longleftrightarrow> (\<exists>a b. s = a @ b \<and> glob_match p b)"
    by (metis append_take_drop_id append_eq_conv_conj le_add1 length_append less_Suc_eq_le)
  then show ?thesis by (simp add: list_ex_iff Bex_def del: upt_Suc)
qed

lemma glob_literal: "CHR ''*'' \<notin> set w \<Longrightarrow> glob_match (w @ p) s \<longleftrightarrow> (\<exists>b. s = w @ b \<and> glob_match p b)"
proof (induction w arbitrary: s)
  case (Cons c w)
  have "glob_match ((c # w) @ p) s \<longleftrightarrow> s \<noteq> [] \<and> hd s = c \<and> glob_match (w @ p) (tl s)"
    using Cons.prems by auto
  also have "\<dots> \<longleftrightarrow> s \<noteq> [] \<and> hd s = c \<and> (\<exists>b. tl s = w @ b \<and> glob_match p b)"
    using Cons by simp
  also have "\<dots> \<longleftrightarrow> (\<exists>b. s = (c # w) @ b \<and> glob_match p b)" by (cases s) auto
  finally show ?case .
qed simp

lemma glob_match_rest:
  assumes "ws \<noteq> []" and "\<forall>w\<in>set ws. CHR ''*'' \<notin> set w"
  shows "glob_match (CHR ''*'' # join [CHR ''*''] ws) s \<longleftrightarrow> glob_rest ws s"
  using assms
proof (induction ws arbitrary: s)
  case (Cons p ps)
  show ?case
  proof (cases ps)
    case Nil
    have "glob_match p b \<longleftrightarrow> b = p" for b using Cons.prems glob_literal [of p "[]" b] by simp
    then show ?thesis unfolding Nil join.simps glob_star by (auto simp: suffix_def)
  next
    case (Cons q qs)
    have lit: "glob_match (p @ CHR ''*'' # join [CHR ''*''] (q # qs)) b \<longleftrightarrow> (\<exists>c. b = p @ c \<and> glob_rest (q # qs) c)" for b
      using glob_literal [of p "CHR ''*'' # join [CHR ''*''] (q # qs)" b] Cons.prems Cons.IH Cons by simp
    show ?thesis
      unfolding Cons join.simps append_Cons append_Nil glob_star [of "p @ CHR ''*'' # join [CHR ''*''] (q # qs)"] lit
      by auto
  qed
qed simp

lemma glob_rest_mono: "ps \<noteq> [] \<Longrightarrow> glob_rest ps b \<Longrightarrow> glob_rest ps (x @ b)"
  by (induction ps b rule: glob_rest.induct) (auto simp: suffix_def, metis append.assoc)

lemma find_str_first: "\<exists>i. find_str p (a @ p @ b) = Some i \<and> i \<le> length a"
proof (induction a)
  case Nil
  have "prefix p (p @ b)" by simp
  then show ?case by (cases "p @ b") auto
next
  case (Cons x a)
  then show ?case by auto
qed

lemma find_str_occurs: "find_str p s = Some i \<Longrightarrow> \<exists>b. s = take i s @ p @ b \<and> i \<le> length s"
proof (induction p s arbitrary: i rule: find_str.induct)
  case (2 p x xs)
  show ?case
  proof (cases "prefix p (x # xs)")
    case True
    with 2 show ?thesis by (auto simp: prefix_def)
  next
    case False
    with "2.prems" obtain j where j: "find_str p xs = Some j" "i = Suc j" by auto
    from "2.IH" [OF False j(1)] j(2) show ?thesis by auto
  qed
qed (auto split: if_splits)

lemma str_from_valid: "valid_utf8 (drop pos s) \<Longrightarrow> pos \<le> length s \<Longrightarrow> str_from s pos = Some (drop pos s)"
  using valid_utf8_head by (cases "pos = length s") (auto simp: str_from_def Cons_nth_drop_Suc [symmetric])

lemma glob_step:
  assumes "valid_utf8 (drop pos uri)" "pos \<le> length uri" "valid_utf8 p" "p \<noteq> []" "find_str p (drop pos uri) = Some i"
  shows "valid_utf8 (drop (pos + (i + length p)) uri) \<and> pos + (i + length p) \<le> length uri"
proof -
  from find_str_occurs [OF assms(5)] obtain a b where ab: "drop pos uri = a @ p @ b" "length a = i"
    by (metis length_take min.absorb2)
  then have "drop (pos + (i + length p)) uri = b"
    by (metis add.commute append.assoc append_eq_conv_conj drop_drop length_append)
  moreover have "length uri - pos = i + length p + length b" using arg_cong [OF ab(1), of length] ab(2) by simp
  then have "pos + (i + length p) \<le> length uri" using assms(2) by linarith
  moreover have "valid_utf8 b" using assms(1) unfolding ab(1) by (rule valid_utf8_occurrence [OF _ assms(3,4)])
  ultimately show ?thesis by simp
qed

lemma glob_loop_complete:
  assumes "parts \<noteq> []" "0 < i" "i + length parts = n" "valid_utf8 (drop pos uri)" "pos \<le> length uri"
    "\<forall>p\<in>set parts. valid_utf8 p" "glob_rest parts (drop pos uri)"
  shows "glob_loop uri n i pos parts"
  using assms
proof (induction parts arbitrary: i pos)
  case (Cons p ps)
  show ?case
  proof (cases ps)
    case Nil
    with Cons.prems have "suffix p uri" "i = n - 1" by (auto simp: suffix_drop intro: suffix_order.trans)
    with Nil Cons.prems show ?thesis by simp
  next
    case (Cons q qs)
    with Cons.prems obtain a b where ab: "drop pos uri = a @ p @ b" "glob_rest ps b" by auto
    show ?thesis
    proof (cases "p = []")
      case True
      then have "glob_rest ps (drop pos uri)" using ab glob_rest_mono [of ps b a] Cons by simp
      with True Cons Cons.prems Cons.IH [of "i + 1" pos] show ?thesis by simp
    next
      case False
      from find_str_first [of p a b] ab(1) obtain idx where idx: "find_str p (drop pos uri) = Some idx" "idx \<le> length a"
        by auto
      let ?pos = "pos + (idx + length p)"
      have step: "valid_utf8 (drop ?pos uri) \<and> ?pos \<le> length uri"
        using Cons.prems idx(1) False by (intro glob_step) auto
      have "drop ?pos uri = drop (idx + length p) (a @ p @ b)" unfolding ab(1) [symmetric] by (simp add: add.commute)
      also have "\<dots> = drop (idx + length p) (a @ p) @ b" using idx(2) by simp
      finally have "glob_rest ps (drop ?pos uri)" using glob_rest_mono ab(2) Cons by simp
      with step Cons Cons.prems Cons.IH [of "i + 1" ?pos] have "glob_loop uri n (i + 1) ?pos ps" by simp
      moreover have "str_from uri pos = Some (drop pos uri)" "i \<noteq> n - 1"
        using Cons.prems Cons by (simp_all add: str_from_valid)
      ultimately show ?thesis using False \<open>0 < i\<close> idx(1) by (subst glob_loop.simps) simp
    qed
  qed
qed simp

lemma glob_loop_sound:
  assumes "parts \<noteq> []" "0 < i" "i + length parts = n" "last parts = []" "glob_loop uri n i pos parts"
  shows "glob_rest parts (drop pos uri)"
  using assms
proof (induction parts arbitrary: i pos)
  case (Cons p ps)
  show ?case
  proof (cases ps)
    case Nil
    with Cons.prems show ?thesis by simp
  next
    case (Cons q qs)
    show ?thesis
    proof (cases "p = []")
      case True
      with Cons Cons.prems Cons.IH [of "i + 1" pos] have "glob_rest ps (drop pos uri)" by simp
      then have "drop pos uri = [] @ p @ drop pos uri \<and> glob_rest (q # qs) (drop pos uri)" using True Cons by simp
      then show ?thesis unfolding Cons glob_rest.simps by blast
    next
      case False
      have "i \<noteq> n - 1" using Cons Cons.prems by simp
      with False Cons.prems obtain idx rest where idx: "str_from uri pos = Some rest" "find_str p rest = Some idx"
        and tail: "glob_loop uri n (i + 1) (pos + (idx + length p)) ps"
        by (auto split: option.splits simp: bind_eq_Some_conv)
      from idx(1) have rest: "rest = drop pos uri" by (simp add: str_from_def split: if_splits)
      from find_str_occurs [OF idx(2)] rest obtain a b where ab: "drop pos uri = a @ p @ b" "length a = idx"
        by (metis length_take min.absorb2)
      then have "drop (pos + (idx + length p)) uri = b"
        by (metis add.commute append.assoc append_eq_conv_conj drop_drop length_append)
      with tail Cons Cons.prems Cons.IH [of "i + 1" "pos + (idx + length p)"] have "glob_rest ps b" by simp
      with ab(1) show ?thesis unfolding Cons glob_rest.simps by blast
    qed
  qed
qed simp

lemma glob_loop_first:
  "glob_loop uri n 0 0 (w # ws) \<longleftrightarrow> prefix w uri \<and> glob_loop uri n (Suc 0) (length w) ws"
  by (cases "w = []") simp_all

lemma glob_parts:
  "url_pattern_matches uri pattern \<longleftrightarrow>
     (case split_on (CHR ''*'') pattern of
        [] \<Rightarrow> False
      | [w] \<Rightarrow> uri = w
      | w # ws \<Rightarrow> prefix w uri \<and> glob_loop uri (Suc (length ws)) (Suc 0) (length w) ws)"
proof -
  obtain w ws where parts: "split_on (CHR ''*'') pattern = w # ws"
    by (cases "split_on (CHR ''*'') pattern") auto
  then have join: "pattern = join [CHR ''*''] (w # ws)" using join_split_on [of "CHR ''*''" pattern] by simp
  have clean: "CHR ''*'' \<notin> set w" using split_on_clean [of w "CHR ''*''" pattern] parts by simp
  show ?thesis
  proof (cases ws)
    case Nil
    with join clean parts show ?thesis by (simp add: url_pattern_matches_def)
  next
    case (Cons v vs)
    then have "CHR ''*'' \<in> set pattern" using join by simp
    then have "url_pattern_matches uri pattern \<longleftrightarrow> prefix w uri \<and> glob_loop uri (Suc (length ws)) (Suc 0) (length w) ws"
      unfolding url_pattern_matches_def parts Let_def glob_loop_first by simp
    then show ?thesis unfolding parts Cons list.case .
  qed
qed

lemma glob_match_parts:
  assumes "split_on (CHR ''*'') pattern = w # ws"
  shows "glob_match pattern uri \<longleftrightarrow>
    (if ws = [] then uri = w else \<exists>b. uri = w @ b \<and> glob_rest ws b)"
proof -
  have join: "pattern = join [CHR ''*''] (w # ws)" using join_split_on [of "CHR ''*''" pattern] assms by simp
  have clean: "CHR ''*'' \<notin> set x" if "x \<in> set (w # ws)" for x
    using split_on_clean [of x "CHR ''*''" pattern] that assms by simp
  show ?thesis
  proof (cases ws)
    case Nil
    then show ?thesis using glob_literal [of w "[]" uri] clean join by simp
  next
    case (Cons v vs)
    have "pattern = w @ CHR ''*'' # join [CHR ''*''] ws" using join Cons by simp
    then show ?thesis
      using glob_literal [of w "CHR ''*'' # join [CHR ''*''] ws" uri] glob_match_rest [of ws] clean Cons by simp
  qed
qed

text \<open>The pieces of a well-formed string cut at an ASCII separator are well formed.\<close>

lemma valid_utf8_split:
  assumes "valid_utf8 s" and "ord c < 128" and "w \<in> set (split_on c s)"
  shows "valid_utf8 w"
  using assms
proof (induction s arbitrary: w rule: length_induct)
  case (1 s)
  show ?case
  proof (cases "c \<in> set s")
    case False
    then have "split_on c s = [s]" by (intro split_by_none) auto
    with 1 show ?thesis by simp
  next
    case True
    then obtain a b where s: "s = a @ c # b" and a: "c \<notin> set a" by (metis split_list_first)
    have nc: "\<not> is_cont c" using 1 by (simp add: is_cont_def)
    have "valid_utf8 (c # b)" using valid_utf8_at [of a "c # b"] 1 s nc by simp
    then have b: "valid_utf8 b" using 1 by (simp add: byte_in_def)
    have "valid_utf8 a" using "1.prems"(1) unfolding s by (rule valid_utf8_cut [OF _ nc])
    moreover have "w = a \<or> w \<in> set (split_on c b)" using "1.prems"(3) s a by (simp add: split_on_append_sep)
    moreover have "length b < length s" using s by simp
    ultimately show ?thesis using 1 b by blast
  qed
qed

section \<open>Resource attributes\<close>

definition clean_pair :: "string \<times> string \<Rightarrow> bool" where
  "clean_pair kv \<longleftrightarrow>
     CHR '','' \<notin> set (fst kv) \<and> CHR '','' \<notin> set (snd kv) \<and> CHR ''='' \<notin> set (fst kv)
     \<and> trim (fst kv) = fst kv \<and> trim (snd kv) = snd kv"

lemma resource_pair_clean:
  assumes "resource_pair p = Some kv" "CHR '','' \<notin> set p"
  shows "clean_pair kv"
proof -
  from assms(1) obtain a b where ab: "split_once (CHR ''='') p = Some (a, b)" "kv = (trim a, trim b)"
    by (auto simp: resource_pair_def split: option.splits if_splits)
  from split_once_SomeD [OF ab(1)] have p: "CHR ''='' \<notin> set a" "p = a @ CHR ''='' # b" by auto
  have "set (trim a) \<subseteq> set a" "set (trim b) \<subseteq> set b" by (rule set_trim)+
  then show ?thesis using p assms(2) ab(2) trim_idem by (auto simp: clean_pair_def)
qed

lemma parse_resource_attributes_clean: "kv \<in> set (parse_resource_attributes s) \<Longrightarrow> clean_pair kv"
proof -
  assume kv: "kv \<in> set (parse_resource_attributes s)"
  obtain k v where p: "kv = (k, v)" by (cases kv)
  with kv have "(k, v) \<in> set (List.map_filter resource_pair (split_on (CHR '','') s))"
    unfolding parse_resource_attributes_def by (simp add: hash_collect_in)
  then obtain w where w: "w \<in> set (split_on (CHR '','') s)" "resource_pair w = Some kv"
    by (auto simp: List.map_filter_def p)
  show "clean_pair kv" by (rule resource_pair_clean [OF w(2) split_on_clean [OF w(1)]])
qed

lemma distinct_parse: "distinct (map fst (parse_resource_attributes s))"
  unfolding parse_resource_attributes_def by (rule distinct_hash_collect)

lemma merge_clean:
  "distinct (map fst (merge_resource_attributes ex ra)) \<and> (\<forall>kv\<in>set (merge_resource_attributes ex ra). clean_pair kv)"
proof -
  have step: "(k, v) \<in> set (fold (\<lambda>(k, v). AList.update k v) kvs m) \<Longrightarrow> (k, v) \<in> set kvs \<or> (k, v) \<in> set m"
    for k v :: string and kvs m
  proof (induction kvs arbitrary: m)
    case (Cons kv kvs)
    then have "(k, v) \<in> set kvs \<or> (k, v) \<in> set (AList.update (fst kv) (snd kv) m)" by (auto simp: split_beta)
    moreover have "x \<in> set (AList.update a b m) \<Longrightarrow> x = (a, b) \<or> x \<in> set m" for x a b
      by (induction m) (auto split: if_splits)
    ultimately show ?case by (metis list.set_intros prod.collapse)
  qed simp
  show ?thesis
    unfolding merge_resource_attributes_def
    by (auto simp: distinct_fold_update distinct_parse split: option.splits
        dest!: step intro: parse_resource_attributes_clean)
qed

lemma merge_map_of:
  "map_of (merge_resource_attributes ex ra) =
     (case ex of Some e \<Rightarrow> map_of (parse_resource_attributes e) | None \<Rightarrow> Map.empty) ++ map_of (parse_resource_attributes ra)"
  by (simp add: merge_resource_attributes_def map_of_fold_update map_of_rev_distinct distinct_parse split: option.split)

lemma resource_pair_show:
  "clean_pair (k, v) \<Longrightarrow> resource_pair (k @ ''='' @ v) = (if k \<noteq> [] \<and> v \<noteq> [] then Some (k, v) else None)"
  by (simp add: resource_pair_def clean_pair_def split_once_append)

lemma parse_show_clean:
  assumes "distinct (map fst m)" and "\<forall>kv\<in>set m. clean_pair kv"
  shows "map_of (parse_resource_attributes (show_resource_attributes m)) =
    map_of (filter (\<lambda>kv. fst kv \<noteq> [] \<and> snd kv \<noteq> []) m)"
proof -
  let ?xs = "sort_key fst m" and ?f = "\<lambda>(k, v). k @ ''='' @ v" and ?ok = "\<lambda>kv. fst kv \<noteq> [] \<and> snd kv \<noteq> []"
  have set: "set ?xs = set m" and dist: "distinct (map fst ?xs)"
    using assms(1) by (simp_all add: distinct_map)
  have comma: "CHR '','' \<notin> set (?f kv)" if "kv \<in> set ?xs" for kv
    using assms(2) that set by (cases kv) (auto simp: clean_pair_def)
  have pairs: "List.map_filter resource_pair (map ?f xs) = filter ?ok xs" if "\<forall>kv\<in>set xs. clean_pair kv" for xs
    using that
  proof (induction xs)
    case (Cons kv xs)
    then have "resource_pair (?f kv) = (if ?ok kv then Some kv else None)"
      using resource_pair_show [of "fst kv" "snd kv"] by (simp add: split_beta)
    with Cons show ?case by (simp add: map_filter_simps del: append.simps)
  qed (simp add: map_filter_simps)
  have parsed: "List.map_filter resource_pair (split_on (CHR '','') (join '','' (map ?f ?xs))) = filter ?ok ?xs"
  proof (cases "?xs = []")
    case True
    then show ?thesis by (simp add: map_filter_simps resource_pair_def)
  next
    case False
    then have "split_on (CHR '','') (join '','' (map ?f ?xs)) = map ?f ?xs"
      using comma by (intro split_on_join) auto
    then show ?thesis using pairs [of ?xs] assms(2) set by simp
  qed
  have "map_of (filter ?ok ?xs) = map_of (filter ?ok m)"
    using dist assms(1) set by (intro map_of_inject_set [THEN iffD2]) (simp_all add: distinct_map_filter)
  moreover have "map_of (rev (filter ?ok ?xs)) = map_of (filter ?ok ?xs)"
    using dist by (intro map_of_rev_distinct distinct_map_filter)
  ultimately show ?thesis
    unfolding parse_resource_attributes_def show_resource_attributes_def parsed map_of_hash_collect by simp
qed

lemma star_ascii: "ord (CHR ''*'') < 128"
  by code_simp

lemma split_on_last_star:
  assumes "suffix [c] pattern" and "split_on c pattern = w # ws"
  shows "ws \<noteq> [] \<and> last ws = []"
proof -
  have last: "last (split_on c (a @ [c])) = [] \<and> tl (split_on c (a @ [c])) \<noteq> []" for a
  proof (induction a)
    case (Cons x a)
    then show ?case by (cases "split_on c (a @ [c])") (auto simp: last_tl split: list.splits)
  qed simp
  from assms(1) obtain a where "pattern = a @ [c]" by (auto simp: suffix_def)
  with last [of a] assms(2) show ?thesis by (cases ws) auto
qed

lemma map_of_filter_nonempty:
  assumes "distinct (map fst m)"
  shows "map_of (filter (\<lambda>kv. fst kv \<noteq> [] \<and> snd kv \<noteq> []) m) k =
    (if k = [] then None else Option.bind (map_of m k) (\<lambda>v. if v = [] then None else Some v))"
  using assms by (induction m) (auto simp: map_of_eq_None_iff)

section \<open>Divergences\<close>

text \<open>
  \<open>env::vars()\<close> panics on any variable that is not UTF-8, so one such variable, whatever its name,
  makes the start of every request fail when the environment is to be backed up.
\<close>

lemma backup_env_panics:
  "(k, v) \<in> set (proc_env st) \<Longrightarrow> \<not> valid_utf8 v \<Longrightarrow> backup_env pid st = None"
  by (auto simp: backup_env_def env_vars_def)

text \<open>The suffix of a pattern may overlap the text its prefix has matched already.\<close>

lemma excluded_url_overlap: "url_pattern_matches ''/ab'' ''/ab*b'' \<and> \<not> glob_match ''/ab*b'' ''/ab''"
  by code_simp

text \<open>For a script outside the document root the search does not stop before the root of the file system.\<close>

lemma dotenv_outside_docroot:
  "dotenv_loop (\<lambda>p. p = (True, [''.env''])) (True, [''var'', ''www'']) (True, [''opt'', ''app'']) = Some (True, [''.env''])"
  by code_simp

text \<open>A header whose own name starts with \<open>HTTP_\<close> loses that part too.\<close>

lemma header_prefix_stripped_twice: "header_name ''HTTP_HTTP_HOST'' = ''host''"
  by code_simp

section \<open>Properties\<close>

text \<open>
  C20. Environment changes last for the request only. Let \<open>init_environment\<close> have succeeded with an
  option that changes the environment enabled, and let the environment be any at the end of the
  request (with unique names, and \<open>OTEL_*\<close> names and values as an operating system allows them, the
  same holding at the start). If all its variables are Unicode, \<open>restore_env\<close> does not panic, every
  \<open>OTEL_*\<close> variable has the value it had before the request or is unset if it was, every other
  variable is as the request left it, and the backup of the process is gone; in particular, when the
  request changed no other variable, the environment is the one of before. If some variable is not
  Unicode, \<open>restore_env\<close> panics.
\<close>

theorem request_env_restored:
  assumes "init_environment dotenv from_server metadata canonicalize iter pid server st = Some st1"
    and "dotenv \<or> from_server" and "env_ok (proc_env st)" and "env_ok env'"
  shows "if env_vars env' = None then restore_env pid (st1\<lparr>proc_env := env'\<rparr>) = None
    else \<exists>st2. restore_env pid (st1\<lparr>proc_env := env'\<rparr>) = Some st2 \<and> restored_env (proc_env st) env' (proc_env st2)
      \<and> (same_others env' (proc_env st1) \<longrightarrow> map_of (proc_env st2) = map_of (proc_env st))
      \<and> env_backup st2 = (env_backup st)(pid := None)"
proof -
  note init = init_environment_same [OF assms(1,2)]
  have same: "same_others env' (proc_env st)" if "same_others env' (proc_env st1)"
    using init that by (simp add: same_others_def)
  have b: "env_backup (st1\<lparr>proc_env := env'\<rparr>) pid =
    Some (hash_collect (filter (\<lambda>(k, _). otel_name k) (proc_env st)))" using init by simp
  show ?thesis
  proof (cases "env_vars env' = None")
    case True
    with b show ?thesis by (simp add: restore_env_def)
  next
    case False
    from restore_env_backup [OF assms(3,4) this b] False show ?thesis
      using init same by (auto dest: restored_env_eq)
  qed
qed

theorem request_env_restored_witness:
  "\<exists>st2. restore_env 7 \<lparr>proc_env = [(''PATH'', ''/bin''), (''OTEL_SERVICE_NAME'', ''b''), (''OTEL_LOG'', ''x'')],
        env_backup = [7 \<mapsto> [(''OTEL_SERVICE_NAME'', ''a'')]]\<rparr> = Some st2
     \<and> map_of (proc_env st2) = map_of [(''PATH'', ''/bin''), (''OTEL_SERVICE_NAME'', ''a'')]
     \<and> env_backup st2 = Map.empty(7 := None)"
proof -
  let ?env = "[(''PATH'', ''/bin''), (''OTEL_SERVICE_NAME'', ''a'')]"
  let ?env' = "[(''PATH'', ''/bin''), (''OTEL_SERVICE_NAME'', ''b''), (''OTEL_LOG'', ''x'')]"
  let ?server = "Some [(KStr ''OTEL_SERVICE_NAME'', ZStr ''b'')] :: unit server"
  let ?st1 = "\<lparr>proc_env = [(''PATH'', ''/bin''), (''OTEL_SERVICE_NAME'', ''b'')],
    env_backup = [7 \<mapsto> [(''OTEL_SERVICE_NAME'', ''a'')]]\<rparr>"
  have vars: "env_vars ?env = Some ?env" by code_simp
  have filt: "hash_collect (filter (\<lambda>(k, _). prefix ''OTEL_'' k) ?env) = [(''OTEL_SERVICE_NAME'', ''a'')]" by code_simp
  have svars: "get_server_vars_with_prefix ''OTEL_'' ?server = [(''OTEL_SERVICE_NAME'', ''b'')]" by code_simp
  have set: "set_vars [(''OTEL_SERVICE_NAME'', ''b'')] ?env = Some [(''PATH'', ''/bin''), (''OTEL_SERVICE_NAME'', ''b'')]"
    by code_simp
  have init: "init_environment False True (\<lambda>_. False) (\<lambda>_. None) (\<lambda>_. None) 7 ?server
      \<lparr>proc_env = ?env, env_backup = Map.empty\<rparr> = Some ?st1"
    unfolding init_environment_def backup_env_def set_env_from_server_def
    by (simp add: vars filt svars set del: set_vars.simps filter.simps)
  have ok: "env_ok ?env" "env_ok ?env'" "env_vars ?env' \<noteq> None" by code_simp+
  have "otel_name ''OTEL_SERVICE_NAME''" "otel_name ''OTEL_LOG''" by code_simp+
  then have "same_others ?env' (proc_env ?st1)" by (auto simp: same_others_def)
  with request_env_restored [OF init, of ?env'] ok show ?thesis by auto
qed

text \<open>
  C23. Excluded URLs against the glob reference, for well-formed strings: a URL that matches a pattern
  is always found, and for a pattern that ends with a star the check is exact.
\<close>

theorem excluded_url_glob:
  assumes "valid_utf8 uri" and "valid_utf8 pattern"
  shows "(glob_match pattern uri \<longrightarrow> url_pattern_matches uri pattern)
    \<and> (suffix ''*'' pattern \<longrightarrow> url_pattern_matches uri pattern = glob_match pattern uri)"
proof -
  obtain w ws where parts: "split_on (CHR ''*'') pattern = w # ws"
    by (cases "split_on (CHR ''*'') pattern") auto
  have valid: "\<forall>p\<in>set (w # ws). valid_utf8 p"
    using valid_utf8_split [OF assms(2)] parts by (metis star_ascii)
  have complete: "glob_match pattern uri \<Longrightarrow> url_pattern_matches uri pattern"
  proof -
    assume m: "glob_match pattern uri"
    show ?thesis
    proof (cases ws)
      case Nil
      with m parts show ?thesis by (simp add: glob_parts glob_match_parts)
    next
      case (Cons v vs)
      with m obtain b where b: "uri = w @ b" "glob_rest ws b" by (auto simp: glob_match_parts [OF parts])
      then have "glob_loop uri (Suc (length ws)) (Suc 0) (length w) ws"
        using valid assms(1) Cons valid_utf8_drop_prefix [of w b] by (intro glob_loop_complete) auto
      with b parts Cons show ?thesis by (simp add: glob_parts del: glob_loop.simps)
    qed
  qed
  have sound: "glob_match pattern uri" if star: "suffix ''*'' pattern" and m: "url_pattern_matches uri pattern"
  proof -
    have last: "ws \<noteq> [] \<and> last ws = []" using star parts by (rule split_on_last_star)
    then have "prefix w uri" "glob_loop uri (Suc (length ws)) (Suc 0) (length w) ws"
      using m parts by (cases ws; simp add: glob_parts del: glob_loop.simps)+
    with last glob_loop_sound [of ws "Suc 0" "Suc (length ws)" uri "length w"]
    show ?thesis by (auto simp: glob_match_parts [OF parts] prefix_def)
  qed
  from complete sound show ?thesis by blast
qed

theorem excluded_url_glob_witness:
  "url_pattern_matches ''/health/live'' ''/health*'' \<and> \<not> url_pattern_matches ''/api'' ''/health*''"
proof -
  have v: "valid_utf8 ''/health/live''" "valid_utf8 ''/api''" "valid_utf8 ''/health*''" by code_simp+
  have "glob_match ''/health*'' ''/health/live''" "\<not> glob_match ''/health*'' ''/api''" "suffix ''*'' ''/health*''"
    by code_simp+
  with excluded_url_glob [OF v(1,3)] excluded_url_glob [OF v(2,3)] show ?thesis by blast
qed

text \<open>
  For a script under the document root, the file that is used is the nearest \<open>.env\<close> on the way up
  from the directory of the script to the document root, both included, and no directory above the
  document root is looked at.
\<close>

lemma find_dotenv_nearest:
  assumes "get_server_var ''SCRIPT_FILENAME'' server = Some script"
    and "path_parent (path_of_string script) = Some dir"
    and "get_server_var ''DOCUMENT_ROOT'' server = Some document_root" and "document_root \<noteq> []"
    and "canonicalize (path_of_string document_root) = Some (True, root)"
    and "canonicalize dir = Some (True, root @ rest)"
  shows "find_dotenv metadata canonicalize server =
    List.find metadata (map (\<lambda>n. (True, root @ take n rest @ [''.env''])) (rev [0..<Suc (length rest)]))"
proof -
  have "map in_dir (search_dirs (True, root) (True, root @ rest)) =
      map (\<lambda>n. (True, root @ take n rest @ [''.env''])) (rev [0..<Suc (length rest)])"
    unfolding search_dirs_below by (simp add: in_dir_def o_def del: upt_Suc)
  with assms show ?thesis by (simp add: find_dotenv_def dotenv_loop_find del: upt_Suc)
qed

text \<open>
  The resource attributes of a \<open>.env\<close> file are merged into those of the environment: parsing the
  merged variable gives, under every key, the value of the file when it has one and the value of the
  environment otherwise; only entries whose key or value is blank are lost.
\<close>

lemma dotenv_resource_merge:
  "map_of (parse_resource_attributes (show_resource_attributes (merge_resource_attributes existing dotenv))) key =
     (if key = [] then None
      else case map_of (parse_resource_attributes dotenv) key of
          Some v \<Rightarrow> if v = [] then None else Some v
        | None \<Rightarrow> Option.bind existing (\<lambda>e.
            Option.bind (map_of (parse_resource_attributes e) key) (\<lambda>v. if v = [] then None else Some v)))"
proof -
  let ?m = "merge_resource_attributes existing dotenv"
  have dist: "distinct (map fst ?m)" using merge_clean by blast
  have "map_of (filter (\<lambda>kv. fst kv \<noteq> [] \<and> snd kv \<noteq> []) ?m) key =
      (if key = [] then None else Option.bind (map_of ?m key) (\<lambda>v. if v = [] then None else Some v))"
    using dist by (rule map_of_filter_nonempty)
  then show ?thesis
    using parse_show_clean [OF dist] merge_clean [of existing dotenv]
    by (auto simp: merge_map_of map_add_def split: option.splits)
qed

end
