(* ===== verification/Provider_Registry.thy ===== *)
theory Provider_Registry
  imports Php_Values
begin

text \<open>
  What the provider tables of the three signals share: providers keyed by process and configuration
  hash, the hash cached for the request, creation on first use, and removal of all providers of a
  process at shutdown. The contract is the locale \<open>provider_registry\<close>; traces (theory
  \<open>Tracer_Provider\<close>), logs and metrics (theory \<open>Signal_Providers\<close>) interpret it.

  The hasher of the standard library has no specified result; it is the argument \<open>digest\<close>, a
  function of the sequence of names and values it is fed.
\<close>

section \<open>Tables\<close>

type_synonym provider_key = "nat \<times> string"

type_synonym digest = "(string \<times> string) list \<Rightarrow> string"

record 'p provider_table =
  providers :: "(provider_key \<times> 'p) list"
  request_hash :: "string option"

text \<open>The name and value fed to the hasher for each variable; an unset or unreadable one counts as empty.\<close>

definition config_inputs :: "string list \<Rightarrow> os_env \<Rightarrow> (string \<times> string) list" where
  "config_inputs names env = map (\<lambda>name. (name, case env_get env name of Some v \<Rightarrow> v | None \<Rightarrow> [])) names"

definition begin_hash :: "digest \<Rightarrow> string list \<Rightarrow> os_env \<Rightarrow> ('p, 'x) provider_table_scheme \<Rightarrow> ('p, 'x) provider_table_scheme" where
  "begin_hash digest names env t = t\<lparr>request_hash := Some (digest (config_inputs names env))\<rparr>"

definition end_hash :: "('p, 'x) provider_table_scheme \<Rightarrow> ('p, 'x) provider_table_scheme" where
  "end_hash t = t\<lparr>request_hash := None\<rparr>"

definition current_hash :: "digest \<Rightarrow> string list \<Rightarrow> os_env \<Rightarrow> ('p, 'x) provider_table_scheme \<Rightarrow> string" where
  "current_hash digest names env t =
     (case request_hash t of Some h \<Rightarrow> h | None \<Rightarrow> digest (config_inputs names env))"

definition lookup_provider :: "('p, 'x) provider_table_scheme \<Rightarrow> provider_key \<Rightarrow> 'p option" where
  "lookup_provider t k = map_of (providers t) k"

definition insert_provider ::
  "provider_key \<Rightarrow> 'p \<Rightarrow> ('p, 'x) provider_table_scheme \<Rightarrow> ('p, 'x) provider_table_scheme" where
  "insert_provider k p t = t\<lparr>providers := AList.update k p (providers t)\<rparr>"

definition remove_pid :: "nat \<Rightarrow> ('p, 'x) provider_table_scheme \<Rightarrow> 'p list \<times> ('p, 'x) provider_table_scheme" where
  "remove_pid pid t =
     (map snd (filter (\<lambda>e. fst (fst e) = pid) (providers t)),
      t\<lparr>providers := filter (\<lambda>e. fst (fst e) \<noteq> pid) (providers t)\<rparr>)"

section \<open>The contract\<close>

locale provider_registry =
  fixes find :: "'s \<Rightarrow> provider_key \<Rightarrow> 'p option"
    and ensure :: "provider_key \<Rightarrow> 's \<Rightarrow> 's"
    and remove :: "nat \<Rightarrow> 's \<Rightarrow> 's"
  assumes ensure_present: "find s k \<noteq> None \<Longrightarrow> ensure k s = s"
    and ensure_finds: "find (ensure k s) k \<noteq> None"
    and ensure_other: "j \<noteq> k \<Longrightarrow> find (ensure k s) j = find s j"
    and remove_finds: "find (remove pid s) j = (if fst j = pid then None else find s j)"
begin

lemma ensure_idem: "ensure k (ensure k s) = ensure k s"
  by (rule ensure_present [OF ensure_finds])

lemma ensure_keeps: "find s j = Some p \<Longrightarrow> find (ensure k s) j = Some p"
  by (cases "j = k") (simp_all add: ensure_present ensure_other)

lemma ensure_all_keep: "find s j = Some p \<Longrightarrow> find (fold ensure ks s) j = Some p"
  by (induction ks arbitrary: s) (simp_all add: ensure_keeps)

text \<open>Once created, a provider is found by every later lookup until its process shuts down.\<close>

lemma provider_stable: "find (fold ensure ks (ensure k s)) k = find (ensure k s) k"
  using ensure_finds [of k s] ensure_all_keep [of "ensure k s" k] by (cases "find (ensure k s) k") auto

lemma remove_isolates: "fst j \<noteq> pid \<Longrightarrow> find (remove pid s) j = find s j"
  by (simp add: remove_finds)

lemma remove_clears: "find (remove pid s) (pid, h) = None"
  by (simp add: remove_finds)

lemma remove_commutes: "pid \<noteq> fst k \<Longrightarrow> find (remove pid (ensure k s)) k = find (ensure k s) k"
  by (simp add: remove_finds)

end

section \<open>The tables satisfy it\<close>

definition table_ensure ::
  "(provider_key \<Rightarrow> 'p) \<Rightarrow> provider_key \<Rightarrow> 'p provider_table \<Rightarrow> 'p provider_table" where
  "table_ensure build k t = (if lookup_provider t k \<noteq> None then t else insert_provider k (build k) t)"

lemma lookup_insert [store_simps]:
  "lookup_provider (insert_provider k p t) = (lookup_provider t)(k \<mapsto> p)"
  by (simp add: lookup_provider_def insert_provider_def update_conv' fun_eq_iff)

lemma lookup_remove [store_simps]:
  "lookup_provider (snd (remove_pid pid t)) j = (if fst j = pid then None else lookup_provider t j)"
  using map_of_filter_key [of "\<lambda>k. fst k \<noteq> pid" "providers t" j] by (simp add: lookup_provider_def remove_pid_def)

interpretation hash_table: provider_registry lookup_provider "table_ensure build" "\<lambda>pid t. snd (remove_pid pid t)"
  for build :: "provider_key \<Rightarrow> 'p"
  by unfold_locales (auto simp: table_ensure_def store_simps)

text \<open>The hash of the request is a value cached from its begin to its end.\<close>

interpretation hash_cache: request_cache "begin_hash digest names" end_hash
  "\<lambda>env t. (current_hash digest names env t, t)" "\<lambda>env. digest (config_inputs names env)"
  for digest names
  by unfold_locales (simp_all add: begin_hash_def end_hash_def current_hash_def)

lemma hash_ops_providers [simp]:
  "lookup_provider (begin_hash digest names env t) = lookup_provider t"
  "lookup_provider (end_hash t) = lookup_provider t"
  by (simp_all add: lookup_provider_def begin_hash_def end_hash_def fun_eq_iff)

lemma table_ensure_hash [simp]: "request_hash (table_ensure build k t) = request_hash t"
  by (simp add: table_ensure_def insert_provider_def)

lemma config_inputs_cong:
  "(\<And>n. n \<in> set names \<Longrightarrow> env_var env n = env_var env' n) \<Longrightarrow> config_inputs names env = config_inputs names env'"
  by (simp add: config_inputs_def env_get_def)

end
