(* ===== verification/Otlp_Transport.thy ===== *)
theory Otlp_Transport
  imports Interfaces
begin

text \<open>
  OTLP transport settings (\<open>trace/otlp_transport.rs\<close>): endpoint, TLS material, compression and
  headers from the environment, and the masking of variables while an exporter is built.

  The crates \<open>url\<close>, \<open>http\<close> and \<open>rustls\<close>, reading a file and the HTTP client are third-party code or
  I/O; they are the fields of \<open>transport_lib\<close>. A diagnostic is the value of \<open>transport_error\<close> that
  holds what its text holds. Warnings are logged only.
\<close>

section \<open>Third-party code\<close>

record url =
  url_scheme :: string
  url_host :: "string option"
  url_username :: string
  url_password :: "string option"

record transport_lib =
  parse_url :: "string \<Rightarrow> url option"
  fs_read :: "string \<Rightarrow> (string, bytes) result"
  pem_certificates :: "bytes \<Rightarrow> bool"
  pem_private_key :: "bytes \<Rightarrow> bool"
  header_name_from_str :: "string \<Rightarrow> string option"
  header_value_from_bytes :: "bytes \<Rightarrow> bytes option"
  header_value_visible :: "bytes \<Rightarrow> bool"

section \<open>Settings\<close>

definition DEFAULT_GRPC_ENDPOINT :: string where "DEFAULT_GRPC_ENDPOINT = ''http://localhost:4317''"
definition DEFAULT_HTTP_ENDPOINT :: string where "DEFAULT_HTTP_ENDPOINT = ''http://localhost:4318''"

datatype protocol = Grpc | HttpProtobuf

datatype compression = NoCompression | Gzip

record client_identity =
  certificate_pem :: bytes
  key_pem :: bytes

record tls_material =
  ca_pem :: "bytes option"
  tls_identity :: "client_identity option"

record transport_settings =
  ts_protocol :: protocol
  ts_endpoint :: string
  ts_tls :: "tls_material option"
  ts_headers :: "(string \<times> bytes) list"
  ts_compression :: compression

record endpoint =
  ep_raw :: string
  ep_url :: url

datatype pem_kind = Certificate | PrivateKey

datatype transport_error =
  UrlParseError
| InvalidEndpoint string
| CannotRead string string string
| NotPem string string pem_kind
| ClientKeyRequired
| ClientCertificateRequired
| UnsupportedCompression string string

definition otlp_setting :: "os_env \<Rightarrow> string \<Rightarrow> (string \<times> string) option" where
  "otlp_setting env name =
     Option.bind (env_get env name) (\<lambda>v. let v = trim v in if v \<noteq> [] then Some (name, v) else None)"

definition trace_or_generic :: "os_env \<Rightarrow> string \<Rightarrow> (string \<times> string) option" where
  "trace_or_generic env sfx =
     (case otlp_setting env (''OTEL_EXPORTER_OTLP_TRACES_'' @ sfx) of
        Some r \<Rightarrow> Some r
      | None \<Rightarrow> otlp_setting env (''OTEL_EXPORTER_OTLP_'' @ sfx))"

definition is_authority :: "string \<Rightarrow> bool" where
  "is_authority value =
     (case rsplit_once (CHR '':'') value of
        None \<Rightarrow> False
      | Some (host, port) \<Rightarrow>
          let host = rev (dropWhile (\<lambda>c. c = CHR '']'') (rev (dropWhile (\<lambda>c. c = CHR ''['') host)))
          in host \<noteq> [] \<and> CHR ''/'' \<notin> set host \<and> port \<noteq> [] \<and> list_all is_ascii_digit port)"

definition acceptable_url :: "url \<Rightarrow> bool" where
  "acceptable_url u \<longleftrightarrow>
     (url_scheme u = ''http'' \<or> url_scheme u = ''https'') \<and> url_host u \<noteq> None
     \<and> url_username u = [] \<and> url_password u = None"

definition resolve_endpoint ::
  "transport_lib \<Rightarrow> os_env \<Rightarrow> protocol \<Rightarrow> (transport_error, endpoint) result" where
  "resolve_endpoint lib env protocol =
     (case trace_or_generic env ''ENDPOINT'' of
        None \<Rightarrow>
          let raw = (case protocol of Grpc \<Rightarrow> DEFAULT_GRPC_ENDPOINT | HttpProtobuf \<Rightarrow> DEFAULT_HTTP_ENDPOINT) in
          (case parse_url lib raw of
             Some url \<Rightarrow> Ok \<lparr>ep_raw = raw, ep_url = url\<rparr>
           | None \<Rightarrow> Err UrlParseError)
      | Some (name, configured) \<Rightarrow>
          result_bind
            (if protocol = Grpc \<and> \<not> contains_str configured ''://'' then
               (if \<not> is_authority configured then Err (InvalidEndpoint name)
                else
                  let insecure = (case trace_or_generic env ''INSECURE'' of
                      Some (_, value) \<Rightarrow> eq_ignore_ascii_case value ''true'' | None \<Rightarrow> False)
                  in Ok ((if insecure then ''http'' else ''https'') @ ''://'' @ configured))
             else Ok configured)
            (\<lambda>raw. case parse_url lib raw of
               Some url \<Rightarrow>
                 if acceptable_url url then Ok \<lparr>ep_raw = raw, ep_url = url\<rparr> else Err (InvalidEndpoint name)
             | None \<Rightarrow> Err (InvalidEndpoint name)))"

definition read_pem ::
  "transport_lib \<Rightarrow> os_env \<Rightarrow> string \<Rightarrow> pem_kind \<Rightarrow> (transport_error, bytes option) result" where
  "read_pem lib env sfx kind =
     (case trace_or_generic env sfx of
        None \<Rightarrow> Ok None
      | Some (name, path) \<Rightarrow>
          (case fs_read lib path of
             Inl error \<Rightarrow> Err (CannotRead name path error)
           | Inr bytes \<Rightarrow>
               if (case kind of Certificate \<Rightarrow> pem_certificates lib bytes | PrivateKey \<Rightarrow> pem_private_key lib bytes)
               then Ok (Some bytes) else Err (NotPem name path kind)))"

definition resolve_tls ::
  "transport_lib \<Rightarrow> os_env \<Rightarrow> endpoint \<Rightarrow> (transport_error, tls_material option) result" where
  "resolve_tls lib env endpoint =
     (if url_scheme (ep_url endpoint) \<noteq> ''https'' then Ok None
      else
        result_bind (read_pem lib env ''CERTIFICATE'' Certificate) (\<lambda>ca.
        result_bind (read_pem lib env ''CLIENT_CERTIFICATE'' Certificate) (\<lambda>certificate.
        result_bind (read_pem lib env ''CLIENT_KEY'' PrivateKey) (\<lambda>key.
        result_bind
          (case (certificate, key) of
             (Some c, Some k) \<Rightarrow> Ok (Some \<lparr>certificate_pem = c, key_pem = k\<rparr>)
           | (None, None) \<Rightarrow> Ok None
           | (Some _, None) \<Rightarrow> Err ClientKeyRequired
           | (None, Some _) \<Rightarrow> Err ClientCertificateRequired)
          (\<lambda>client. Ok (Some \<lparr>ca_pem = ca, tls_identity = client\<rparr>))))))"

definition resolve_compression :: "os_env \<Rightarrow> (transport_error, compression) result" where
  "resolve_compression env =
     (case trace_or_generic env ''COMPRESSION'' of
        None \<Rightarrow> Ok NoCompression
      | Some (name, value) \<Rightarrow>
          let v = map to_ascii_lowercase value in
          if v = ''gzip'' then Ok Gzip
          else if v = ''none'' then Ok NoCompression
          else Err (UnsupportedCompression v name))"

section \<open>Headers\<close>

datatype header_error =
  MissingEquals | EmptyName | InvalidName | EmptyValue | InvalidEncoding | InvalidValue | NotVisibleAscii

text \<open>\<open>char::to_digit(16)\<close> and \<open>u8::from_str_radix\<close> of two characters, which takes a leading plus sign.\<close>

definition to_digit16 :: "char \<Rightarrow> nat option" where
  "to_digit16 c =
     (if is_ascii_digit c then Some (ord c - 48)
      else if 97 \<le> ord c \<and> ord c \<le> 102 then Some (ord c - 87)
      else if 65 \<le> ord c \<and> ord c \<le> 70 then Some (ord c - 55)
      else None)"

definition u8_from_hex_pair :: "char \<Rightarrow> char \<Rightarrow> nat option" where
  "u8_from_hex_pair a b =
     (if a = CHR ''+'' then to_digit16 b
      else Option.bind (to_digit16 a) (\<lambda>h. map_option (\<lambda>l. 16 * h + l) (to_digit16 b)))"

fun percent_decode :: "bytes \<Rightarrow> bytes option" where
  "percent_decode [] = Some []"
| "percent_decode (c # tail) =
     (if c = CHR ''%'' then
        (case tail of
           a # b # rest \<Rightarrow>
             (case u8_from_hex_pair a b of
                Some n \<Rightarrow> map_option (Cons (char_of n)) (percent_decode rest)
              | None \<Rightarrow> None)
         | _ \<Rightarrow> None)
      else map_option (Cons c) (percent_decode tail))"

definition parse_header_entry ::
  "transport_lib \<Rightarrow> string \<Rightarrow> (header_error, string \<times> bytes) result" where
  "parse_header_entry lib entry =
     (case split_once (CHR ''='') entry of
        None \<Rightarrow> Err MissingEquals
      | Some (key, value) \<Rightarrow>
          if trim key = [] then Err EmptyName
          else (case header_name_from_str lib (trim key) of
              None \<Rightarrow> Err InvalidName
            | Some name \<Rightarrow>
                if trim value = [] then Err EmptyValue
                else (case percent_decode (trim value) of
                    None \<Rightarrow> Err InvalidEncoding
                  | Some decoded \<Rightarrow>
                      (case header_value_from_bytes lib decoded of
                         None \<Rightarrow> Err InvalidValue
                       | Some v \<Rightarrow> if header_value_visible lib v then Ok (name, v) else Err NotVisibleAscii))))"

definition header_step ::
  "transport_lib \<Rightarrow> (string \<times> bytes) list \<Rightarrow> string \<Rightarrow> (string \<times> bytes) list" where
  "header_step lib headers entry =
     (let entry = trim entry in
      if entry = [] then headers
      else case parse_header_entry lib entry of
          Inr (key, value) \<Rightarrow> AList.update key value headers
        | Inl reason \<Rightarrow> headers)"

definition resolve_headers :: "transport_lib \<Rightarrow> os_env \<Rightarrow> (string \<times> bytes) list" where
  "resolve_headers lib env =
     (case trace_or_generic env ''HEADERS'' of
        None \<Rightarrow> []
      | Some (name, raw) \<Rightarrow> foldl (header_step lib) [] (split_on (CHR '','') raw))"

definition transport_from_env ::
  "transport_lib \<Rightarrow> os_env \<Rightarrow> protocol \<Rightarrow> (transport_error, transport_settings) result" where
  "transport_from_env lib env protocol =
     result_bind (resolve_endpoint lib env protocol) (\<lambda>endpoint.
     result_bind (resolve_tls lib env endpoint) (\<lambda>tls.
     result_bind (resolve_compression env) (\<lambda>compression.
     Ok \<lparr>ts_protocol = protocol, ts_endpoint = ep_raw endpoint, ts_tls = tls,
         ts_headers = resolve_headers lib env, ts_compression = compression\<rparr>)))"

section \<open>Building an exporter\<close>

definition MASKED :: "string list" where
  "MASKED = [''OTEL_EXPORTER_OTLP_TRACES_HEADERS'', ''OTEL_EXPORTER_OTLP_HEADERS'',
     ''OTEL_EXPORTER_OTLP_TRACES_COMPRESSION'', ''OTEL_EXPORTER_OTLP_COMPRESSION'']"

text \<open>
  The variables are removed, the builder runs, and the guard puts them back when it goes out of
  scope. The names are constants and the values come from the environment, so neither call panics.
\<close>

definition masked_env :: "os_env \<Rightarrow> os_env" where
  "masked_env env = fold env_del (filter (\<lambda>name. env_var_os env name \<noteq> None) MASKED) env"

definition with_exporter_env_masked :: "(os_env \<Rightarrow> 'a \<times> os_env) \<Rightarrow> os_env \<Rightarrow> 'a \<times> os_env" where
  "with_exporter_env_masked build env =
     (let saved = List.map_filter (\<lambda>name. map_option (Pair name) (env_var_os env name)) MASKED;
          (result, env') = build (masked_env env)
      in (result, fold (\<lambda>(name, value). env_put name value) saved env'))"

text \<open>\<open>grpc_metadata\<close>: a header map with the last value of each name.\<close>

definition grpc_metadata :: "(string \<times> bytes) list \<Rightarrow> (string \<times> bytes) list" where
  "grpc_metadata headers = fold (\<lambda>(name, value). AList.update name value) headers []"

section \<open>Partial success\<close>

record partial_success =
  rejected_spans :: int
  error_message :: string

record http_response =
  content_type :: "string option"
  body :: bytes

text \<open>
  \<open>inspect_partial_success\<close>: the diagnostic, with the flag whether it is a warning (only the first
  one is) and at most 200 characters of the collector's message. The decoder of the response is the
  argument \<open>decode\<close>; it gives the \<open>partial_success\<close> field of a message that decodes.
\<close>

definition inspect_partial_success ::
  "(bytes \<Rightarrow> partial_success option option) \<Rightarrow> http_response \<Rightarrow> bool \<Rightarrow> (bool \<times> int \<times> string) option \<times> bool" where
  "inspect_partial_success decode response logged =
     (let protobuf = (case content_type response of
          Some v \<Rightarrow> prefix ''application/x-protobuf'' v | None \<Rightarrow> False) in
      if \<not> protobuf \<or> body response = [] then (None, logged)
      else case decode (body response) of
          None \<Rightarrow> (None, logged)
        | Some None \<Rightarrow> (None, logged)
        | Some (Some partial) \<Rightarrow>
            if rejected_spans partial = 0 \<and> error_message partial = [] then (None, logged)
            else
              let message = concat (take 200 (utf8_chars (error_message partial)))
              in (Some (\<not> logged, rejected_spans partial, message), True))"

definition send_bytes_headers :: "(string \<times> bytes) list \<Rightarrow> (string \<times> bytes) list \<Rightarrow> (string \<times> bytes) list" where
  "send_bytes_headers headers request = fold (\<lambda>(name, value). AList.update name value) headers request"

section \<open>Precedence of the variables\<close>

lemma trace_or_generic_name:
  "trace_or_generic env sfx = Some (name, v) \<Longrightarrow>
     v \<noteq> [] \<and> trim v = v \<and> (name = ''OTEL_EXPORTER_OTLP_TRACES_'' @ sfx \<or> name = ''OTEL_EXPORTER_OTLP_'' @ sfx)"
  by (auto simp: trace_or_generic_def otlp_setting_def Let_def trim_idem bind_eq_Some_conv split: option.splits if_splits)

section \<open>Well-formed settings\<close>

text \<open>What TLS material holds: certificates and keys that were found to be such.\<close>

definition tls_wf :: "transport_lib \<Rightarrow> tls_material \<Rightarrow> bool" where
  "tls_wf lib t \<longleftrightarrow>
     (case ca_pem t of Some c \<Rightarrow> pem_certificates lib c | None \<Rightarrow> True)
     \<and> (case tls_identity t of
          Some i \<Rightarrow> pem_certificates lib (certificate_pem i) \<and> pem_private_key lib (key_pem i) | None \<Rightarrow> True)"

definition headers_wf :: "transport_lib \<Rightarrow> (string \<times> bytes) list \<Rightarrow> bool" where
  "headers_wf lib hs \<longleftrightarrow> distinct (map fst hs) \<and> list_all (\<lambda>(name, v). header_value_visible lib v) hs"

definition settings_wf :: "transport_lib \<Rightarrow> transport_settings \<Rightarrow> bool" where
  "settings_wf lib s \<longleftrightarrow>
     (case parse_url lib (ts_endpoint s) of
        Some u \<Rightarrow> acceptable_url u \<and> (ts_tls s \<noteq> None) = (url_scheme u = ''https'')
      | None \<Rightarrow> False)
     \<and> (case ts_tls s of Some t \<Rightarrow> tls_wf lib t | None \<Rightarrow> True)
     \<and> headers_wf lib (ts_headers s)"

lemma read_pem_wf:
  "read_pem lib env sfx kind = Inr (Some b) \<Longrightarrow>
     (case kind of Certificate \<Rightarrow> pem_certificates lib b | PrivateKey \<Rightarrow> pem_private_key lib b)"
  by (auto simp: read_pem_def split: option.splits sum.splits if_splits pem_kind.splits)

lemma resolve_tls_wf:
  assumes "resolve_tls lib env ep = Inr tls"
  shows "(tls \<noteq> None) = (url_scheme (ep_url ep) = ''https'') \<and> (case tls of Some t \<Rightarrow> tls_wf lib t | None \<Rightarrow> True)"
proof (cases "url_scheme (ep_url ep) = ''https''")
  case False
  with assms show ?thesis by (simp add: resolve_tls_def)
next
  case True
  with assms obtain ca cert key client where
    pem: "read_pem lib env ''CERTIFICATE'' Certificate = Inr ca"
      "read_pem lib env ''CLIENT_CERTIFICATE'' Certificate = Inr cert"
      "read_pem lib env ''CLIENT_KEY'' PrivateKey = Inr key"
    and client: "(case (cert, key) of
             (Some c, Some k) \<Rightarrow> Ok (Some \<lparr>certificate_pem = c, key_pem = k\<rparr>)
           | (None, None) \<Rightarrow> Ok None
           | (Some _, None) \<Rightarrow> Err ClientKeyRequired
           | (None, Some _) \<Rightarrow> Err ClientCertificateRequired) = (Inr client :: (transport_error, client_identity option) result)"
    and tls: "tls = Some \<lparr>ca_pem = ca, tls_identity = client\<rparr>"
    by (auto simp: resolve_tls_def result_bind_Inr_conv)
  have "case ca of Some c \<Rightarrow> pem_certificates lib c | None \<Rightarrow> True"
    using pem(1) read_pem_wf [of lib env "''CERTIFICATE''" Certificate] by (cases ca) auto
  moreover have "case client of
      Some i \<Rightarrow> pem_certificates lib (certificate_pem i) \<and> pem_private_key lib (key_pem i) | None \<Rightarrow> True"
    using client pem(2,3) read_pem_wf [of lib env "''CLIENT_CERTIFICATE''" Certificate]
      read_pem_wf [of lib env "''CLIENT_KEY''" PrivateKey] by (cases cert; cases key) auto
  ultimately show ?thesis using True tls by (simp add: tls_wf_def)
qed

text \<open>The defaults of the code are plain HTTP on the local host.\<close>

definition local_url :: url where
  "local_url = \<lparr>url_scheme = ''http'', url_host = Some ''localhost'', url_username = [], url_password = None\<rparr>"

lemma resolve_endpoint_wf:
  assumes "resolve_endpoint lib env protocol = Inr ep"
    and "parse_url lib DEFAULT_GRPC_ENDPOINT = Some local_url" and "parse_url lib DEFAULT_HTTP_ENDPOINT = Some local_url"
  shows "parse_url lib (ep_raw ep) = Some (ep_url ep) \<and> acceptable_url (ep_url ep)"
proof (cases "trace_or_generic env ''ENDPOINT''")
  case None
  have "acceptable_url local_url" by (simp add: acceptable_url_def local_url_def)
  with None assms show ?thesis by (cases protocol) (auto simp: resolve_endpoint_def)
next
  case (Some nv)
  obtain name v where "nv = (name, v)" by (cases nv)
  with Some assms(1) obtain raw where "(case parse_url lib raw of
       Some url \<Rightarrow> if acceptable_url url then Ok \<lparr>ep_raw = raw, ep_url = url\<rparr> else Err (InvalidEndpoint name)
     | None \<Rightarrow> Err (InvalidEndpoint name)) = Inr ep"
    unfolding resolve_endpoint_def by (simp only: option.case prod.case result_bind_Inr_conv) blast
  then show ?thesis by (auto split: option.splits if_splits)
qed

lemma header_step_wf: "headers_wf lib hs \<Longrightarrow> headers_wf lib (header_step lib hs e)"
proof -
  assume wf: "headers_wf lib hs"
  show ?thesis
  proof (cases "parse_header_entry lib (trim e)")
    case (Inl r)
    with wf show ?thesis by (simp add: header_step_def Let_def)
  next
    case (Inr kv)
    obtain k w where kv: "kv = (k, w)" by (cases kv)
    have vis: "header_value_visible lib w"
      using Inr kv by (simp add: parse_header_entry_def split_beta split: option.splits if_splits)
    have upd: "set (AList.update k w hs) \<subseteq> insert (k, w) (set hs)" by (induction hs) auto
    show ?thesis
      using wf Inr kv vis upd by (auto simp: headers_wf_def header_step_def Let_def distinct_update list_all_iff)
  qed
qed

lemma headers_fold_wf: "headers_wf lib hs \<Longrightarrow> headers_wf lib (foldl (header_step lib) hs es)"
  by (induction es arbitrary: hs) (simp_all add: header_step_wf)

lemma resolve_headers_wf: "headers_wf lib (resolve_headers lib env)"
proof -
  have "headers_wf lib []" by (simp add: headers_wf_def)
  then show ?thesis by (simp add: resolve_headers_def headers_fold_wf split: option.split)
qed

lemma transport_from_env_wf:
  assumes "transport_from_env lib env protocol = Inr s"
    and "parse_url lib DEFAULT_GRPC_ENDPOINT = Some local_url" and "parse_url lib DEFAULT_HTTP_ENDPOINT = Some local_url"
  shows "settings_wf lib s"
proof -
  from assms(1) obtain ep tls c where ep: "resolve_endpoint lib env protocol = Inr ep"
    and tls: "resolve_tls lib env ep = Inr tls"
    and s: "s = \<lparr>ts_protocol = protocol, ts_endpoint = ep_raw ep, ts_tls = tls,
      ts_headers = resolve_headers lib env, ts_compression = c\<rparr>"
    by (auto simp: transport_from_env_def result_bind_Inr_conv)
  show ?thesis
    using resolve_endpoint_wf [OF ep assms(2,3)] resolve_tls_wf [OF tls] resolve_headers_wf [of lib env]
    by (simp add: settings_wf_def s)
qed

section \<open>Headers written and read back\<close>

text \<open>The reference encoder: every byte of a value as a percent sign and two hexadecimal digits.\<close>

definition hex_char :: "nat \<Rightarrow> char" where
  "hex_char v = (if v < 10 then char_of (48 + v) else char_of (55 + v))"

definition percent_encode :: "bytes \<Rightarrow> string" where
  "percent_encode bs = concat (map (\<lambda>b. [CHR ''%'', hex_char (ord b div 16), hex_char (ord b mod 16)]) bs)"

lemma ord_hex_char: "n < 16 \<Longrightarrow> ord (hex_char n) = (if n < 10 then 48 + n else 55 + n)"
  by (simp add: hex_char_def)

lemma ord_plus: "ord (CHR ''+'') = 43" and ord_comma: "ord (CHR '','') = 44" and ord_percent: "ord (CHR ''%'') = 37"
  and ord_equals: "ord (CHR ''='') = 61"
  by code_simp+

lemma hex_char_not: "n < 16 \<Longrightarrow> hex_char n \<noteq> CHR ''+'' \<and> hex_char n \<noteq> CHR '',''"
  using ord_hex_char [of n] ord_plus ord_comma by (auto split: if_splits)

lemma to_digit16_hex_char: "n < 16 \<Longrightarrow> to_digit16 (hex_char n) = Some n"
  by (auto simp: to_digit16_def ord_hex_char is_ascii_digit_def)

lemma u8_from_hex_pair_byte: "u8_from_hex_pair (hex_char (ord b div 16)) (hex_char (ord b mod 16)) = Some (ord b)"
proof -
  have hi: "ord b div 16 < 16" by (rule less_mult_imp_div_less) simp
  then show ?thesis by (simp add: u8_from_hex_pair_def hex_char_not to_digit16_hex_char)
qed

lemma percent_decode_encode: "percent_decode (percent_encode bs) = Some bs"
  by (induction bs) (simp_all add: percent_encode_def u8_from_hex_pair_byte)

lemma percent_encode_no_comma: "CHR '','' \<notin> set (percent_encode bs)"
proof (induction bs)
  case (Cons b bs)
  have "ord b div 16 < 16" by (rule less_mult_imp_div_less) simp
  then have "hex_char (ord b div 16) \<noteq> CHR '',''" "hex_char (ord b mod 16) \<noteq> CHR '',''"
    by (simp_all add: hex_char_not)
  with Cons show ?case by (simp add: percent_encode_def not_sym)
qed (simp add: percent_encode_def)

interpretation header_codec: separable_codec percent_encode "\<lambda>s. the (percent_decode s)" "\<lambda>_. True" "CHR '',''"
  by unfold_locales (simp_all add: percent_decode_encode percent_encode_no_comma)

text \<open>Names and characters that trimming leaves alone.\<close>

definition visible :: "char \<Rightarrow> bool" where
  "visible c \<longleftrightarrow> 33 \<le> ord c \<and> ord c \<le> 126"

definition header_token :: "string \<Rightarrow> bool" where
  "header_token k \<longleftrightarrow> k \<noteq> [] \<and> list_all visible k \<and> CHR '','' \<notin> set k \<and> CHR ''='' \<notin> set k"

lemma utf8_chars_visible: "list_all visible s \<Longrightarrow> utf8_chars s = map (\<lambda>c. [c]) s"
proof (induction s)
  case (Cons c s)
  then have "s = [] \<or> \<not> is_cont (hd s)" by (cases s) (auto simp: visible_def is_cont_def)
  then have "takeWhile is_cont s = []" "dropWhile is_cont s = s" by (cases s; simp)+
  with Cons show ?case by simp
qed simp

lemma trim_visible: "list_all visible s \<Longrightarrow> trim s = s"
proof -
  assume v: "list_all visible s"
  have "\<not> is_whitespace [c]" if "visible c" for c using that by (simp add: visible_def is_whitespace_def)
  then have "trim_matches is_whitespace (map (\<lambda>c. [c]) s) = map (\<lambda>c. [c]) s"
    using v by (intro trim_matches_id) (cases "s = []"; auto simp: list_all_iff hd_map last_map)
  with v show ?thesis by (simp add: trim_def utf8_chars_visible)
qed

lemma percent_encode_visible: "list_all visible (percent_encode bs)"
proof -
  have "visible (hex_char n)" if "n < 16" for n using that by (simp add: visible_def ord_hex_char)
  moreover have "ord b div 16 < 16" for b by (rule less_mult_imp_div_less) simp
  moreover have "visible (CHR ''%'')" by (simp add: visible_def ord_percent)
  ultimately show ?thesis by (simp add: percent_encode_def list_all_iff)
qed

text \<open>A header the library accepts as it is, and the text of the variable that sets a list of them.\<close>

definition good_header :: "transport_lib \<Rightarrow> string \<times> bytes \<Rightarrow> bool" where
  "good_header lib kv \<longleftrightarrow>
     header_token (fst kv) \<and> header_name_from_str lib (fst kv) = Some (fst kv)
     \<and> snd kv \<noteq> [] \<and> header_value_from_bytes lib (snd kv) = Some (snd kv) \<and> header_value_visible lib (snd kv)"

definition show_headers :: "(string \<times> bytes) list \<Rightarrow> string" where
  "show_headers hs = join '','' (map (\<lambda>(k, v). k @ ''='' @ percent_encode v) hs)"

lemma header_entry_visible:
  "good_header lib (k, v) \<Longrightarrow> list_all visible (k @ ''='' @ percent_encode v)"
  using percent_encode_visible [of v] by (simp add: good_header_def header_token_def visible_def ord_equals)

lemma parse_header_entry_show:
  assumes "good_header lib (k, v)"
  shows "parse_header_entry lib (k @ ''='' @ percent_encode v) = Inr (k, v)"
proof -
  from assms have k: "header_token k" by (simp add: good_header_def)
  then have sp: "split_once (CHR ''='') (k @ CHR ''='' # percent_encode v) = Some (k, percent_encode v)"
    by (intro split_once_append) (simp add: header_token_def)
  have "trim k = k" "trim (percent_encode v) = percent_encode v" "k \<noteq> []"
    using k percent_encode_visible by (auto simp: header_token_def trim_visible)
  moreover have "percent_encode v \<noteq> []" using assms by (cases v) (auto simp: good_header_def percent_encode_def)
  ultimately show ?thesis using assms sp by (simp add: parse_header_entry_def percent_decode_encode good_header_def)
qed

lemma header_steps_show:
  assumes "\<forall>kv\<in>set hs. good_header lib kv" and "distinct (map fst (acc @ hs))"
  shows "foldl (header_step lib) acc (map (\<lambda>(k, v). k @ ''='' @ percent_encode v) hs) = acc @ hs"
  using assms
proof (induction hs arbitrary: acc)
  case (Cons kv hs)
  obtain k v where kv: "kv = (k, v)" by (cases kv)
  have good: "good_header lib (k, v)" using Cons.prems kv by simp
  have new: "k \<notin> fst ` set acc" using Cons.prems kv by auto
  have "trim (k @ ''='' @ percent_encode v) = k @ ''='' @ percent_encode v"
    by (rule trim_visible [OF header_entry_visible [OF good]])
  moreover have "AList.update k v acc = acc @ [(k, v)]" using new by (induction acc) auto
  ultimately have "header_step lib acc (k @ ''='' @ percent_encode v) = acc @ [(k, v)]"
    using parse_header_entry_show [OF good] by (simp add: header_step_def Let_def)
  then show ?case using Cons.IH [of "acc @ [(k, v)]"] Cons.prems kv by simp
qed simp

lemma resolve_headers_show:
  assumes "trace_or_generic env ''HEADERS'' = Some (name, show_headers hs)"
    and "\<forall>kv\<in>set hs. good_header lib kv" and "distinct (map fst hs)"
  shows "resolve_headers lib env = hs"
proof (cases "hs = []")
  case True
  with assms(1) trace_or_generic_name show ?thesis by (fastforce simp: show_headers_def)
next
  case False
  have "CHR '','' \<notin> set (k @ ''='' @ percent_encode v)" if "(k, v) \<in> set hs" for k v
    using assms(2) that percent_encode_no_comma [of v] by (auto simp: good_header_def header_token_def)
  then have "split_on (CHR '','') (show_headers hs) = map (\<lambda>(k, v). k @ ''='' @ percent_encode v) hs"
    unfolding show_headers_def using False by (intro split_on_join) auto
  then show ?thesis using assms header_steps_show [of hs lib "[]"] by (simp add: resolve_headers_def)
qed

section \<open>Masking\<close>

lemma map_of_fold_del: "map_of (fold env_del ns env) = (\<lambda>n. if n \<in> set ns then None else map_of env n)"
  by (induction ns arbitrary: env) (auto simp: env_store.get_del fun_eq_iff)

lemma map_of_masked: "map_of (masked_env env) = (\<lambda>n. if n \<in> set MASKED then None else map_of env n)"
  by (auto simp: masked_env_def map_of_fold_del env_var_os_def fun_eq_iff)

lemma map_of_saved:
  "distinct ns \<Longrightarrow> map_of (rev (List.map_filter (\<lambda>n. map_option (Pair n) (f n)) ns)) = (\<lambda>n. if n \<in> set ns then f n else None)"
proof (induction ns)
  case (Cons n ns)
  then show ?case
    by (cases "f n") (auto simp: map_filter_simps map_add_def fun_eq_iff split: option.splits)
qed (simp add: map_filter_simps)

lemma masked_build_env:
  assumes "map_of (snd (build (masked_env env))) = map_of (masked_env env)"
  shows "map_of (snd (with_exporter_env_masked build env)) = map_of env"
proof -
  obtain r env' where b: "build (masked_env env) = (r, env')" by (cases "build (masked_env env)")
  let ?saved = "List.map_filter (\<lambda>name. map_option (Pair name) (env_var_os env name)) MASKED"
  have "distinct MASKED" by code_simp
  then have saved: "map_of (rev ?saved) = (\<lambda>n. if n \<in> set MASKED then map_of env n else None)"
    by (simp add: map_of_saved env_var_os_def)
  have "map_of (fold (\<lambda>(k, v). env_put k v) ?saved env') = map_of env' ++ map_of (rev ?saved)"
    using env_store.fold_put [where m = env' and kvs = ?saved] by simp
  also have "\<dots> = map_of env"
    using assms b by (auto simp: saved map_of_masked map_add_def fun_eq_iff split: option.splits)
  finally show ?thesis using b by (simp add: with_exporter_env_masked_def)
qed

section \<open>Properties\<close>

text \<open>
  C24. Settings that are accepted are well formed, whatever the environment holds: the endpoint is an
  HTTP or HTTPS URL with a host and without credentials; TLS material is present exactly for HTTPS,
  every certificate and key in it was recognised as such, and a client certificate never comes
  without its key; header names are pairwise different and their values printable.
\<close>

theorem transport_settings_wf:
  assumes "transport_from_env lib env protocol = Inr s"
    and "parse_url lib DEFAULT_GRPC_ENDPOINT = Some local_url"
    and "parse_url lib DEFAULT_HTTP_ENDPOINT = Some local_url"
  shows "settings_wf lib s"
  using assms by (rule transport_from_env_wf)

text \<open>A library for the witnesses: it accepts the URLs used here, reads no file, and takes visible values.\<close>

definition demo_lib :: transport_lib where
  "demo_lib =
     \<lparr>parse_url = (\<lambda>s. if prefix ''https://'' s
          then Some \<lparr>url_scheme = ''https'', url_host = Some ''collector'', url_username = [], url_password = None\<rparr>
          else Some local_url),
      fs_read = (\<lambda>path. Inl ''no such file''), pem_certificates = (\<lambda>_. False), pem_private_key = (\<lambda>_. False),
      header_name_from_str = (\<lambda>k. Some k), header_value_from_bytes = (\<lambda>v. Some v),
      header_value_visible = list_all (\<lambda>c. 32 \<le> ord c \<and> ord c < 127)\<rparr>"

theorem transport_settings_wf_witness:
  "settings_wf demo_lib \<lparr>ts_protocol = Grpc, ts_endpoint = ''https://collector:4317'',
     ts_tls = Some \<lparr>ca_pem = None, tls_identity = None\<rparr>, ts_headers = [(''k'', ''a b'')], ts_compression = Gzip\<rparr>"
proof -
  have "transport_from_env demo_lib [(''OTEL_EXPORTER_OTLP_ENDPOINT'', ''collector:4317''),
      (''OTEL_EXPORTER_OTLP_HEADERS'', ''k=x,bad,k=a%20b''), (''OTEL_EXPORTER_OTLP_TRACES_COMPRESSION'', '' GZIP '')] Grpc =
    Inr \<lparr>ts_protocol = Grpc, ts_endpoint = ''https://collector:4317'',
     ts_tls = Some \<lparr>ca_pem = None, tls_identity = None\<rparr>, ts_headers = [(''k'', ''a b'')], ts_compression = Gzip\<rparr>"
    by code_simp
  moreover have "parse_url demo_lib DEFAULT_GRPC_ENDPOINT = Some local_url" by code_simp
  moreover have "parse_url demo_lib DEFAULT_HTTP_ENDPOINT = Some local_url" by code_simp
  ultimately show ?thesis by (rule transport_settings_wf)
qed

text \<open>
  C25. A gRPC endpoint without a scheme is contacted over TLS unless \<open>OTEL_EXPORTER_OTLP_INSECURE\<close>
  says true: the effective endpoint is the configured authority under \<open>https\<close> and the settings carry
  TLS material. The URL library is only required to report the scheme a URL starts with.
\<close>

theorem schemeless_grpc_uses_tls:
  assumes "transport_from_env lib env Grpc = Inr s"
    and "trace_or_generic env ''ENDPOINT'' = Some (name, configured)" and "\<not> contains_str configured ''://''"
    and "case trace_or_generic env ''INSECURE'' of Some (_, v) \<Rightarrow> \<not> eq_ignore_ascii_case v ''true'' | None \<Rightarrow> True"
    and "\<And>x u. parse_url lib (''https://'' @ x) = Some u \<Longrightarrow> url_scheme u = ''https''"
  shows "is_authority configured \<and> ts_endpoint s = ''https://'' @ configured \<and> ts_tls s \<noteq> None"
proof -
  from assms(1) obtain ep tls c where ep: "resolve_endpoint lib env Grpc = Inr ep"
    and tls: "resolve_tls lib env ep = Inr tls" and s: "ts_endpoint s = ep_raw ep" "ts_tls s = tls"
    by (auto simp: transport_from_env_def result_bind_Inr_conv)
  have auth: "is_authority configured"
    using ep assms(2,3) by (auto simp: resolve_endpoint_def split: if_splits)
  have raw: "ep_raw ep = ''https://'' @ configured \<and> parse_url lib (''https://'' @ configured) = Some (ep_url ep)"
    using ep assms(2,3,4) auth by (auto simp: resolve_endpoint_def split: option.splits if_splits)
  then have "url_scheme (ep_url ep) = ''https''" using assms(5) by blast
  with resolve_tls_wf [OF tls] show ?thesis using raw auth s by simp
qed

theorem schemeless_grpc_uses_tls_witness:
  "ts_tls \<lparr>ts_protocol = Grpc, ts_endpoint = ''https://collector:4317'',
     ts_tls = Some \<lparr>ca_pem = None, tls_identity = None\<rparr>, ts_headers = [], ts_compression = NoCompression\<rparr> \<noteq> None"
proof -
  let ?env = "[(''OTEL_EXPORTER_OTLP_ENDPOINT'', ''collector:4317'')]"
  have a: "transport_from_env demo_lib ?env Grpc =
    Inr \<lparr>ts_protocol = Grpc, ts_endpoint = ''https://collector:4317'',
     ts_tls = Some \<lparr>ca_pem = None, tls_identity = None\<rparr>, ts_headers = [], ts_compression = NoCompression\<rparr>" by code_simp
  have b: "trace_or_generic ?env ''ENDPOINT'' = Some (''OTEL_EXPORTER_OTLP_ENDPOINT'', ''collector:4317'')" by code_simp
  have c: "\<not> contains_str ''collector:4317'' ''://''" by code_simp
  have d: "trace_or_generic ?env ''INSECURE'' = None" by code_simp
  have e: "url_scheme u = ''https''" if "parse_url demo_lib (''https://'' @ x) = Some u" for x u
    using that by (auto simp: demo_lib_def)
  show ?thesis using schemeless_grpc_uses_tls [where lib = demo_lib, OF a b c _ e] d by simp
qed

text \<open>
  Request headers survive their textual form: when the variable in effect lists headers with
  percent-encoded values, exactly those headers are sent, in order, whatever bytes the values hold.
\<close>

lemma otlp_headers_roundtrip:
  assumes "trace_or_generic env ''HEADERS'' = Some (name, show_headers hs)"
    and "list_all (good_header lib) hs" and "distinct (map fst hs)"
  shows "resolve_headers lib env = hs \<and> grpc_metadata (resolve_headers lib env) = hs"
proof -
  have upd: "distinct (map fst (acc @ xs)) \<Longrightarrow> fold (\<lambda>(name, value). AList.update name value) xs acc = acc @ xs"
    for acc xs :: "(string \<times> bytes) list"
  proof (induction xs arbitrary: acc)
    case (Cons x xs)
    have "AList.update (fst x) (snd x) acc = acc @ [x]" using Cons.prems by (induction acc) auto
    with Cons.IH [of "acc @ [x]"] Cons.prems show ?case by (simp add: split_beta)
  qed simp
  have "resolve_headers lib env = hs"
    using assms by (intro resolve_headers_show) (simp_all add: list_all_iff)
  then show ?thesis using upd [of "[]" hs] assms(3) by (simp add: grpc_metadata_def)
qed

text \<open>A plus sign in place of the first hexadecimal digit is accepted.\<close>

lemma percent_decode_plus: "percent_decode ''a%+9b'' = Some [CHR ''a'', CHR 0x09, CHR ''b'']"
  by code_simp

text \<open>
  While an exporter is built it sees none of the header and compression variables and every other
  variable as it is; afterwards the environment is what it was, whichever of the masked variables
  were set, for every builder that does not change the environment itself.
\<close>

lemma exporter_env_masked:
  assumes "map_of (snd (build (masked_env env))) = map_of (masked_env env)"
  shows "map_of (snd (with_exporter_env_masked build env)) = map_of env
    \<and> fst (with_exporter_env_masked build env) = fst (build (masked_env env))
    \<and> map_of (masked_env env) = (\<lambda>n. if n \<in> set MASKED then None else map_of env n)"
  by (intro conjI masked_build_env [where build = build and env = env, OF assms] map_of_masked)
    (simp add: with_exporter_env_masked_def split_beta Let_def)

end
