(* ===== verification/Tracer_Provider.thy ===== *)
theory Tracer_Provider
  imports Provider_Registry Otlp_Transport Batch_Config Attributes
begin

text \<open>
  The table of tracer providers (\<open>trace/tracer_provider.rs\<close>): the configuration hash of a request,
  the choice of exporter and processor from the environment, creation on first use, lookup,
  shutdown of a process, and the \<open>getTracer\<close> method.

  A provider is what it was built from, with a number that stands for the identity of its \<open>Arc\<close>; the
  shared no-op provider has number 0. Building the SDK objects is third-party code or I/O: whether it
  succeeds is given by the fields of \<open>exporter_lib\<close>. The resource (language, version, host and process
  attributes) is handed to the SDK as it is and plays no part in the choice. Nor does the sampler:
  the SDK reads its variables itself. Both are part of the configuration hash only.
\<close>

section \<open>Providers\<close>

datatype exporter_kind = ConsoleExporter | MemoryExporter | OtlpExporter transport_settings

datatype processor_kind = SimpleProcessor | BatchProcessor batch_config

datatype provider_spec =
  NoopProvider
| AlwaysOffProvider span_sdk_limits
| SdkProvider exporter_kind processor_kind span_sdk_limits

record tracer_entry =
  te_instance :: nat
  te_spec :: provider_spec
  te_shutdown_timeout :: duration

record tracer_state = "tracer_entry provider_table" +
  next_instance :: nat

record exporter_lib =
  http_client_builds :: "transport_settings \<Rightarrow> duration \<Rightarrow> bool"
  http_exporter_builds :: "transport_settings \<Rightarrow> duration \<Rightarrow> bool"
  runtime_starts :: bool
  grpc_exporter_builds :: "transport_settings \<Rightarrow> duration \<Rightarrow> bool"
  processor_starts :: "batch_config \<Rightarrow> bool"

definition NOOP_INSTANCE :: nat where
  "NOOP_INSTANCE = 0"

definition no_op_entry :: tracer_entry where
  "no_op_entry = \<lparr>te_instance = NOOP_INSTANCE, te_spec = NoopProvider, te_shutdown_timeout = 0\<rparr>"

definition is_noop_provider :: "tracer_entry \<Rightarrow> bool" where
  "is_noop_provider e \<longleftrightarrow> te_instance e = NOOP_INSTANCE"

section \<open>The configuration hash\<close>

definition TRACE_CONFIG_NAMES :: "string list" where
  "TRACE_CONFIG_NAMES =
    [''OTEL_SERVICE_NAME'', ''OTEL_RESOURCE_ATTRIBUTES'', ''OTEL_TRACES_EXPORTER'', ''OTEL_TRACES_SAMPLER'',
     ''OTEL_TRACES_SAMPLER_ARG'', ''OTEL_EXPORTER_OTLP_ENDPOINT'', ''OTEL_EXPORTER_OTLP_TRACES_ENDPOINT'',
     ''OTEL_EXPORTER_OTLP_PROTOCOL'', ''OTEL_EXPORTER_OTLP_TRACES_PROTOCOL'', ''OTEL_EXPORTER_OTLP_HEADERS'',
     ''OTEL_EXPORTER_OTLP_TRACES_HEADERS'', ''OTEL_EXPORTER_OTLP_COMPRESSION'',
     ''OTEL_EXPORTER_OTLP_TRACES_COMPRESSION'', ''OTEL_EXPORTER_OTLP_TIMEOUT'',
     ''OTEL_EXPORTER_OTLP_TRACES_TIMEOUT'', ''OTEL_EXPORTER_OTLP_CERTIFICATE'',
     ''OTEL_EXPORTER_OTLP_TRACES_CERTIFICATE'', ''OTEL_EXPORTER_OTLP_CLIENT_KEY'',
     ''OTEL_EXPORTER_OTLP_TRACES_CLIENT_KEY'', ''OTEL_EXPORTER_OTLP_CLIENT_CERTIFICATE'',
     ''OTEL_EXPORTER_OTLP_TRACES_CLIENT_CERTIFICATE'', ''OTEL_EXPORTER_OTLP_INSECURE'',
     ''OTEL_EXPORTER_OTLP_TRACES_INSECURE'', ''OTEL_SPAN_PROCESSOR'', ''OTEL_ATTRIBUTE_COUNT_LIMIT'',
     ''OTEL_ATTRIBUTE_VALUE_LENGTH_LIMIT'', ''OTEL_SPAN_ATTRIBUTE_COUNT_LIMIT'',
     ''OTEL_SPAN_ATTRIBUTE_VALUE_LENGTH_LIMIT'', ''OTEL_EVENT_ATTRIBUTE_COUNT_LIMIT'',
     ''OTEL_LINK_ATTRIBUTE_COUNT_LIMIT'', ''OTEL_SPAN_EVENT_COUNT_LIMIT'', ''OTEL_SPAN_LINK_COUNT_LIMIT'',
     ''OTEL_PHP_ATTRIBUTE_KEY_LENGTH_LIMIT'', ''OTEL_PHP_ATTRIBUTE_ARRAY_LENGTH_LIMIT'',
     ''OTEL_BSP_MAX_QUEUE_SIZE'', ''OTEL_BSP_MAX_EXPORT_BATCH_SIZE'', ''OTEL_BSP_SCHEDULE_DELAY'',
     ''OTEL_BSP_MAX_CONCURRENT_EXPORTS'', ''OTEL_PHP_SHUTDOWN_TIMEOUT'',
     ''OTEL_PHP_EXPORT_RETRY_MAX_ATTEMPTS'', ''OTEL_PHP_EXPORT_RETRY_MAX_ELAPSED'',
     ''OTEL_PHP_EXPORT_RETRY_INITIAL_BACKOFF'']"

definition compute_config_hash :: "digest \<Rightarrow> os_env \<Rightarrow> string" where
  "compute_config_hash digest env = digest (config_inputs TRACE_CONFIG_NAMES env)"

definition tracer_begin_request :: "digest \<Rightarrow> os_env \<Rightarrow> tracer_state \<Rightarrow> tracer_state" where
  "tracer_begin_request digest env st = begin_hash digest TRACE_CONFIG_NAMES env st"

definition tracer_end_request :: "tracer_state \<Rightarrow> tracer_state" where
  "tracer_end_request st = end_hash st"

definition get_tracer_provider_key :: "digest \<Rightarrow> nat \<Rightarrow> os_env \<Rightarrow> tracer_state \<Rightarrow> provider_key" where
  "get_tracer_provider_key digest pid env st = (pid, current_hash digest TRACE_CONFIG_NAMES env st)"

section \<open>The choice of a provider\<close>

text \<open>\<open>None\<close> is the error: no batch configuration, or a worker that could not be started.\<close>

definition add_exporter :: "exporter_lib \<Rightarrow> bool \<Rightarrow> batch_config option \<Rightarrow> processor_kind option" where
  "add_exporter xlib use_simple_exporter config =
     (if use_simple_exporter then Some SimpleProcessor
      else case config of
          None \<Rightarrow> None
        | Some c \<Rightarrow> if processor_starts xlib c then Some (BatchProcessor c) else None)"

definition build_otlp_exporter :: "exporter_lib \<Rightarrow> transport_settings \<Rightarrow> duration \<Rightarrow> bool" where
  "build_otlp_exporter xlib settings timeout =
     (case ts_protocol settings of
        HttpProtobuf \<Rightarrow> http_client_builds xlib settings timeout \<and> http_exporter_builds xlib settings timeout
      | Grpc \<Rightarrow> runtime_starts xlib \<and> grpc_exporter_builds xlib settings timeout)"

definition traces_protocol :: "os_env \<Rightarrow> protocol option" where
  "traces_protocol env =
     (let name = map to_ascii_lowercase
            (case env_get env ''OTEL_EXPORTER_OTLP_TRACES_PROTOCOL'' of
               Some v \<Rightarrow> v
             | None \<Rightarrow> (case env_get env ''OTEL_EXPORTER_OTLP_PROTOCOL'' of Some v \<Rightarrow> v | None \<Rightarrow> ''grpc''))
      in if name = ''grpc'' then Some Grpc else if name = ''http/protobuf'' then Some HttpProtobuf else None)"

text \<open>The parts of \<open>init_once\<close> for a local and a network exporter; \<open>None\<close> is a no-op provider.\<close>

definition local_provider ::
  "exporter_lib \<Rightarrow> exporter_kind \<Rightarrow> bool \<Rightarrow> batch_config option \<Rightarrow> span_sdk_limits \<Rightarrow> provider_spec option" where
  "local_provider xlib exporter use_simple config limits =
     (case add_exporter xlib use_simple config of
        None \<Rightarrow> None
      | Some processor \<Rightarrow> Some (SdkProvider exporter processor limits))"

definition network_provider ::
  "transport_lib \<Rightarrow> exporter_lib \<Rightarrow> os_env \<Rightarrow> span_sdk_limits \<Rightarrow> batch_config option \<Rightarrow> provider_spec option" where
  "network_provider lib xlib env limits config =
     (case config of
        None \<Rightarrow> None
      | Some c \<Rightarrow>
          (case traces_protocol env of
             None \<Rightarrow> None
           | Some protocol \<Rightarrow>
               (case transport_from_env lib env protocol of
                  Inl _ \<Rightarrow> None
                | Inr settings \<Rightarrow>
                    if \<not> build_otlp_exporter xlib settings (export_timeout c) then None
                    else (case add_exporter xlib False config of
                        None \<Rightarrow> None
                      | Some processor \<Rightarrow> Some (SdkProvider (OtlpExporter settings) processor limits)))))"

definition choose_provider ::
  "transport_lib \<Rightarrow> exporter_lib \<Rightarrow> os_env \<Rightarrow> span_sdk_limits \<Rightarrow> provider_spec \<times> duration" where
  "choose_provider lib xlib env limits =
     (let exporter_name = (case env_get env ''OTEL_TRACES_EXPORTER'' of Some v \<Rightarrow> v | None \<Rightarrow> ''otlp'');
          simple_requested = (env_get env ''OTEL_SPAN_PROCESSOR'' = Some ''simple'');
          use_simple = (simple_requested \<and> (exporter_name = ''memory'' \<or> exporter_name = ''console''))
      in if exporter_name = ''none'' then (AlwaysOffProvider limits, 0)
         else case (if use_simple then Ok None else map_sum id Some (batch_config_from_env env)) of
             Inl _ \<Rightarrow> (NoopProvider, 0)
           | Inr config \<Rightarrow>
               let timeout = (case config of Some c \<Rightarrow> shutdown_timeout c | None \<Rightarrow> 0);
                   chosen =
                     (if exporter_name = ''console'' then local_provider xlib ConsoleExporter use_simple config limits
                      else if exporter_name = ''memory'' then local_provider xlib MemoryExporter use_simple config limits
                      else network_provider lib xlib env limits config)
               in (case chosen of None \<Rightarrow> (NoopProvider, 0) | Some spec \<Rightarrow> (spec, timeout)))"

section \<open>The table\<close>

text \<open>The shared no-op provider is reused; every other provider is a new object.\<close>

definition tracer_init_key ::
  "transport_lib \<Rightarrow> exporter_lib \<Rightarrow> os_env \<Rightarrow> span_sdk_limits \<Rightarrow> provider_key \<Rightarrow> tracer_state \<Rightarrow> tracer_state" where
  "tracer_init_key lib xlib env limits key st =
     (if lookup_provider st key \<noteq> None then st
      else case choose_provider lib xlib env limits of
          (NoopProvider, _) \<Rightarrow> insert_provider key no_op_entry st
        | (spec, timeout) \<Rightarrow>
            insert_provider key
              \<lparr>te_instance = next_instance st, te_spec = spec, te_shutdown_timeout = timeout\<rparr>
              (st\<lparr>next_instance := next_instance st + 1\<rparr>))"

definition tracer_init_once ::
  "digest \<Rightarrow> transport_lib \<Rightarrow> exporter_lib \<Rightarrow> nat \<Rightarrow> os_env \<Rightarrow> span_sdk_limits \<Rightarrow> tracer_state \<Rightarrow> tracer_state" where
  "tracer_init_once digest lib xlib pid env limits st =
     tracer_init_key lib xlib env limits (get_tracer_provider_key digest pid env st) st"

definition get_tracer_provider ::
  "digest \<Rightarrow> transport_lib \<Rightarrow> exporter_lib \<Rightarrow> bool \<Rightarrow> bool \<Rightarrow> nat \<Rightarrow> os_env \<Rightarrow> span_sdk_limits \<Rightarrow>
     tracer_state \<Rightarrow> tracer_entry \<times> tracer_state" where
  "get_tracer_provider digest lib xlib module_disabled request_disabled pid env limits st =
     (if module_disabled \<or> request_disabled then (no_op_entry, st)
      else
        let key = get_tracer_provider_key digest pid env st in
        case lookup_provider st key of
          Some entry \<Rightarrow> (entry, st)
        | None \<Rightarrow>
            let st' = tracer_init_once digest lib xlib pid env limits st in
            (case lookup_provider st' key of Some entry \<Rightarrow> (entry, st') | None \<Rightarrow> (no_op_entry, st')))"

text \<open>The provider \<open>force_flush\<close> flushes, and the entry whose metrics are reported.\<close>

definition tracer_force_flush :: "digest \<Rightarrow> nat \<Rightarrow> os_env \<Rightarrow> tracer_state \<Rightarrow> tracer_entry option" where
  "tracer_force_flush digest pid env st = lookup_provider st (get_tracer_provider_key digest pid env st)"

text \<open>The providers of the process with the time each has to shut down, and the table without them.\<close>

definition tracer_shutdown :: "nat \<Rightarrow> tracer_state \<Rightarrow> (tracer_entry \<times> duration) list \<times> tracer_state" where
  "tracer_shutdown pid st =
     (let (entries, st') = remove_pid pid st in (map (\<lambda>e. (e, te_shutdown_timeout e)) entries, st'))"

section \<open>getTracer\<close>

record 'f scope =
  scope_name :: string
  scope_version :: "string option"
  scope_schema_url :: "string option"
  scope_attributes :: "'f key_value list"

definition optional_text :: "'f zval list \<Rightarrow> nat \<Rightarrow> string option" where
  "optional_text args i =
     (if i < length args then (case args ! i of ZStr b \<Rightarrow> to_str b | _ \<Rightarrow> None) else None)"

text \<open>
  \<open>None\<close> is a tracer that makes no spans. \<open>iterable_to_array\<close> stands for PHP's own iteration of a
  \<open>Traversable\<close>.
\<close>

definition get_tracer ::
  "('f zval \<Rightarrow> (php_error, (zkey \<times> 'f zval) list) result) \<Rightarrow> (int \<Rightarrow> 'f) \<Rightarrow> attr_limit_config \<Rightarrow>
     tracer_entry \<Rightarrow> 'f zval list \<Rightarrow> (php_error, (tracer_entry \<times> 'f scope) option) result" where
  "get_tracer iterable_to_array to_f64 config provider args =
     (if args = [] then Err ArgumentCount
      else result_bind (expect_utf8 (args ! 0)) (\<lambda>name.
        if is_noop_provider provider then Ok None
        else
          result_bind (if 3 < length args then map_sum id Some (iterable_to_array (args ! 3)) else Ok None) (\<lambda>attributes.
          Ok (Some (provider,
            \<lparr>scope_name = name, scope_version = optional_text args 1, scope_schema_url = optional_text args 2,
             scope_attributes = (case attributes of
               Some arr \<Rightarrow> zval_arr_to_key_value_vec to_f64 config arr Scope | None \<Rightarrow> [])\<rparr>)))))"

section \<open>The table is a provider registry\<close>

lemma lookup_next_instance [simp]: "lookup_provider (st\<lparr>next_instance := n\<rparr>) = lookup_provider st"
  by (simp add: lookup_provider_def fun_eq_iff)

lemma next_instance_insert [simp]: "next_instance (insert_provider k e st) = next_instance st"
  by (simp add: insert_provider_def)

lemma tracer_init_key_new:
  assumes "lookup_provider st key = None"
  shows "\<exists>e. lookup_provider (tracer_init_key lib xlib env limits key st) = (lookup_provider st)(key \<mapsto> e)
    \<and> (e = no_op_entry \<and> next_instance (tracer_init_key lib xlib env limits key st) = next_instance st
       \<or> te_instance e = next_instance st \<and> te_spec e \<noteq> NoopProvider
         \<and> choose_provider lib xlib env limits = (te_spec e, te_shutdown_timeout e)
         \<and> next_instance (tracer_init_key lib xlib env limits key st) = next_instance st + 1)"
proof (cases "choose_provider lib xlib env limits")
  case (Pair spec timeout)
  let ?e = "if spec = NoopProvider then no_op_entry
    else \<lparr>te_instance = next_instance st, te_spec = spec, te_shutdown_timeout = timeout\<rparr>"
  show ?thesis using Pair assms
    by (intro exI [of _ ?e]) (simp add: tracer_init_key_def store_simps split: provider_spec.split)
qed

lemma tracer_init_key_present: "lookup_provider st key \<noteq> None \<Longrightarrow> tracer_init_key lib xlib env limits key st = st"
  by (simp add: tracer_init_key_def)

interpretation tracer_registry: provider_registry lookup_provider "tracer_init_key lib xlib env limits"
  "\<lambda>pid st. snd (tracer_shutdown pid st)"
  for lib xlib env limits
proof
  show "lookup_provider (tracer_init_key lib xlib env limits k s) k \<noteq> None" for k s
    using tracer_init_key_new [of s k lib xlib env limits] tracer_init_key_present [of s k lib xlib env limits]
    by (cases "lookup_provider s k") auto
  show "j \<noteq> k \<Longrightarrow> lookup_provider (tracer_init_key lib xlib env limits k s) j = lookup_provider s j" for j k s
    using tracer_init_key_new [of s k lib xlib env limits] tracer_init_key_present [of s k lib xlib env limits]
    by (cases "lookup_provider s k") auto
qed (simp_all add: tracer_init_key_present tracer_shutdown_def split_beta store_simps)

section \<open>Isolation of processes\<close>

definition tracer_inv :: "tracer_state \<Rightarrow> bool" where
  "tracer_inv st \<longleftrightarrow>
     NOOP_INSTANCE < next_instance st
     \<and> (\<forall>k e. lookup_provider st k = Some e \<longrightarrow>
          te_instance e < next_instance st \<and> is_noop_provider e = (te_spec e = NoopProvider))
     \<and> (\<forall>j k e f. lookup_provider st j = Some e \<longrightarrow> lookup_provider st k = Some f \<longrightarrow>
          te_instance e = te_instance f \<longrightarrow> is_noop_provider e \<or> j = k)"

lemma tracer_inv_bound:
  "tracer_inv st \<Longrightarrow> lookup_provider st k = Some e \<Longrightarrow>
     te_instance e < next_instance st \<and> is_noop_provider e = (te_spec e = NoopProvider)"
  unfolding tracer_inv_def by blast

lemma tracer_inv_unique:
  "tracer_inv st \<Longrightarrow> lookup_provider st j = Some e \<Longrightarrow> lookup_provider st k = Some f \<Longrightarrow>
     te_instance e = te_instance f \<Longrightarrow> is_noop_provider e \<or> j = k"
  unfolding tracer_inv_def by blast

lemma tracer_invI:
  assumes "NOOP_INSTANCE < next_instance st"
    and "\<And>k e. lookup_provider st k = Some e \<Longrightarrow>
      te_instance e < next_instance st \<and> is_noop_provider e = (te_spec e = NoopProvider)"
    and "\<And>j k e f. lookup_provider st j = Some e \<Longrightarrow> lookup_provider st k = Some f \<Longrightarrow>
      te_instance e = te_instance f \<Longrightarrow> is_noop_provider e \<or> j = k"
  shows "tracer_inv st"
  unfolding tracer_inv_def using assms by blast

lemma tracer_inv_next: "tracer_inv st \<Longrightarrow> NOOP_INSTANCE < next_instance st"
  unfolding tracer_inv_def by blast

lemma tracer_inv_lookup:
  "lookup_provider st = lookup_provider st' \<Longrightarrow> next_instance st = next_instance st' \<Longrightarrow> tracer_inv st = tracer_inv st'"
  by (simp add: tracer_inv_def)

lemma tracer_inv_init_key [inv_intros]:
  assumes "tracer_inv st"
  shows "tracer_inv (tracer_init_key lib xlib env limits key st)"
proof (cases "lookup_provider st key")
  case (Some e)
  with assms show ?thesis by (simp add: tracer_init_key_present)
next
  case None
  let ?st = "tracer_init_key lib xlib env limits key st"
  from tracer_init_key_new [OF None] obtain e where e: "lookup_provider ?st = (lookup_provider st)(key \<mapsto> e)"
    "e = no_op_entry \<and> next_instance ?st = next_instance st
     \<or> te_instance e = next_instance st \<and> te_spec e \<noteq> NoopProvider \<and> next_instance ?st = next_instance st + 1" by metis
  note next_st = tracer_inv_next [OF assms] and bound = tracer_inv_bound [OF assms] and unique = tracer_inv_unique [OF assms]
  have noop: "is_noop_provider no_op_entry" "te_instance no_op_entry = NOOP_INSTANCE" "te_spec no_op_entry = NoopProvider"
    by (simp_all add: no_op_entry_def is_noop_provider_def)
  have grow: "next_instance st \<le> next_instance ?st" using e(2) by auto
  have e_ok: "te_instance e < next_instance ?st \<and> is_noop_provider e = (te_spec e = NoopProvider)"
    using e(2) next_st noop by (auto simp: is_noop_provider_def)
  have e_new: "is_noop_provider e \<or> te_instance f \<noteq> te_instance e" if "lookup_provider st k = Some f" for k f
    using e(2) bound [OF that] noop by auto
  show ?thesis
  proof (rule tracer_invI)
    show "NOOP_INSTANCE < next_instance ?st" using next_st grow by simp
  next
    fix k f
    assume "lookup_provider ?st k = Some f"
    then show "te_instance f < next_instance ?st \<and> is_noop_provider f = (te_spec f = NoopProvider)"
      using e_ok bound [of k f] grow by (auto simp: e(1) split: if_splits)
  next
    fix j k f g
    assume jk: "lookup_provider ?st j = Some f" "lookup_provider ?st k = Some g" "te_instance f = te_instance g"
    have noop_eq: "is_noop_provider f = is_noop_provider g" using jk(3) by (simp add: is_noop_provider_def)
    show "is_noop_provider f \<or> j = k"
    proof (cases "j = key"; cases "k = key")
      assume "j = key" "k \<noteq> key"
      with jk have "f = e" "lookup_provider st k = Some g" by (simp_all add: e(1))
      with e_new [of k g] jk(3) show ?thesis by auto
    next
      assume "j \<noteq> key" "k = key"
      with jk have "g = e" "lookup_provider st j = Some f" by (simp_all add: e(1))
      with e_new [of j f] jk(3) noop_eq show ?thesis by auto
    next
      assume "j \<noteq> key" "k \<noteq> key"
      with jk have "lookup_provider st j = Some f" "lookup_provider st k = Some g" by (simp_all add: e(1))
      with unique jk(3) show ?thesis by blast
    qed simp
  qed
qed

lemma tracer_inv_shutdown [inv_intros]:
  assumes "tracer_inv st" shows "tracer_inv (snd (tracer_shutdown pid st))"
proof -
  let ?st = "snd (tracer_shutdown pid st)"
  have sub: "lookup_provider st j = Some e" if "lookup_provider ?st j = Some e" for j e
    using that unfolding tracer_registry.remove_finds by (simp split: if_splits)
  have same: "next_instance ?st = next_instance st" by (simp add: tracer_shutdown_def remove_pid_def)
  show ?thesis
  proof (rule tracer_invI)
    show "NOOP_INSTANCE < next_instance ?st" using tracer_inv_next [OF assms] same by simp
    show "te_instance e < next_instance ?st \<and> is_noop_provider e = (te_spec e = NoopProvider)"
      if "lookup_provider ?st k = Some e" for k e
      using tracer_inv_bound [OF assms sub [OF that]] same by simp
    show "is_noop_provider e \<or> j = k"
      if "lookup_provider ?st j = Some e" "lookup_provider ?st k = Some f" "te_instance e = te_instance f" for j k e f
      by (rule tracer_inv_unique [OF assms sub [OF that(1)] sub [OF that(2)] that(3)])
  qed
qed

text \<open>Everything that happens to the table, in any process and under any environment.\<close>

inductive tracer_step :: "digest \<Rightarrow> tracer_state \<Rightarrow> tracer_state \<Rightarrow> bool" for digest where
  step_begin: "tracer_step digest st (tracer_begin_request digest env st)"
| step_end: "tracer_step digest st (tracer_end_request st)"
| step_init: "tracer_step digest st (tracer_init_once digest lib xlib pid env limits st)"
| step_get: "tracer_step digest st (snd (get_tracer_provider digest lib xlib off1 off2 pid env limits st))"
| step_shutdown: "tracer_step digest st (snd (tracer_shutdown pid st))"

definition tracer_init :: "tracer_state \<Rightarrow> bool" where
  "tracer_init st \<longleftrightarrow> providers st = [] \<and> request_hash st = None \<and> next_instance st = 1"

lemma snd_get_tracer_provider:
  "snd (get_tracer_provider digest lib xlib off1 off2 pid env limits st) =
     (if off1 \<or> off2 then st else tracer_init_once digest lib xlib pid env limits st)"
  by (auto simp: get_tracer_provider_def tracer_init_once_def tracer_init_key_present Let_def split: option.split)

interpretation tracer_system: safe_system tracer_init "tracer_step digest" tracer_inv
  for digest
proof
  show "tracer_init s \<Longrightarrow> tracer_inv s" for s
    by (simp add: tracer_init_def tracer_inv_def lookup_provider_def NOOP_INSTANCE_def)
  have hash: "tracer_inv (begin_hash d ns e s) = tracer_inv s" "tracer_inv (end_hash s) = tracer_inv s" for d ns e s
    by (rule tracer_inv_lookup; simp add: begin_hash_def end_hash_def lookup_provider_def fun_eq_iff)+
  show "tracer_inv s \<Longrightarrow> tracer_step digest s t \<Longrightarrow> tracer_inv t" for s t
    by (erule tracer_step.cases)
      (auto simp: tracer_begin_request_def tracer_end_request_def tracer_init_once_def snd_get_tracer_provider hash
        intro: inv_intros)
qed

text \<open>An entry that a step adds is the shared no-op provider or a provider with a number of its own, built there.\<close>

definition built_at ::
  "digest \<Rightarrow> tracer_state \<Rightarrow> nat \<Rightarrow> string \<Rightarrow> tracer_entry \<Rightarrow> bool" where
  "built_at digest st pid hash e \<longleftrightarrow>
     (\<exists>lib xlib env limits. hash = current_hash digest TRACE_CONFIG_NAMES env st
        \<and> lookup_provider st (pid, hash) = None
        \<and> lookup_provider (tracer_init_once digest lib xlib pid env limits st) (pid, hash) = Some e
        \<and> choose_provider lib xlib env limits = (te_spec e, te_shutdown_timeout e))
     \<and> te_instance e = next_instance st"

lemma built_atI:
  "hash = current_hash digest TRACE_CONFIG_NAMES env st \<Longrightarrow> lookup_provider st (pid, hash) = None \<Longrightarrow>
   lookup_provider (tracer_init_once digest lib xlib pid env limits st) (pid, hash) = Some e \<Longrightarrow>
   choose_provider lib xlib env limits = (te_spec e, te_shutdown_timeout e) \<Longrightarrow> te_instance e = next_instance st \<Longrightarrow>
   built_at digest st pid hash e"
  unfolding built_at_def by blast

lemma tracer_init_once_effect:
  assumes "lookup_provider (tracer_init_once digest lib xlib pid env limits st) k = Some e"
  shows "lookup_provider st k = Some e \<or> e = no_op_entry
    \<or> built_at digest st (fst k) (snd k) e
       \<and> next_instance (tracer_init_once digest lib xlib pid env limits st) = next_instance st + 1"
proof (cases "lookup_provider st (get_tracer_provider_key digest pid env st)")
  case None
  let ?k = "get_tracer_provider_key digest pid env st"
  from tracer_init_key_new [OF None, of lib xlib env limits] obtain f where f:
    "lookup_provider (tracer_init_key lib xlib env limits ?k st) = (lookup_provider st)(?k \<mapsto> f)"
    "f = no_op_entry \<or> te_instance f = next_instance st
       \<and> choose_provider lib xlib env limits = (te_spec f, te_shutdown_timeout f)
       \<and> next_instance (tracer_init_key lib xlib env limits ?k st) = next_instance st + 1" by metis
  show ?thesis
  proof (cases "k = ?k")
    case True
    with assms f(1) have "f = e" by (simp add: tracer_init_once_def)
    have split: "?k = (pid, current_hash digest TRACE_CONFIG_NAMES env st)" by (simp add: get_tracer_provider_key_def)
    show ?thesis
      using f(2) None assms built_atI [of "snd ?k" digest env st pid lib xlib limits e] \<open>f = e\<close>
      unfolding True split by (auto simp: tracer_init_once_def split)
  next
    case False
    with assms f(1) show ?thesis by (simp add: tracer_init_once_def)
  qed
qed (use assms in \<open>simp add: tracer_init_once_def tracer_init_key_present\<close>)

lemma next_instance_init_once: "next_instance st \<le> next_instance (tracer_init_once digest lib xlib pid env limits st)"
  by (auto simp: tracer_init_once_def tracer_init_key_def split: prod.split provider_spec.split)

lemma tracer_step_effect:
  assumes "tracer_step digest st st'"
  shows "next_instance st \<le> next_instance st'"
    and "lookup_provider st' k = Some e \<Longrightarrow> lookup_provider st k = Some e \<or> e = no_op_entry
      \<or> built_at digest st (fst k) (snd k) e \<and> next_instance st' = next_instance st + 1"
proof -
  have "next_instance st \<le> next_instance st' \<and> (lookup_provider st' k = Some e \<longrightarrow> lookup_provider st k = Some e \<or> e = no_op_entry
      \<or> built_at digest st (fst k) (snd k) e \<and> next_instance st' = next_instance st + 1)"
    using assms
  proof cases
    case (step_begin env)
    then show ?thesis by (simp add: tracer_begin_request_def begin_hash_def lookup_provider_def)
  next
    case step_end
    then show ?thesis by (simp add: tracer_end_request_def end_hash_def lookup_provider_def)
  next
    case step_init
    then show ?thesis using tracer_init_once_effect next_instance_init_once by blast
  next
    case (step_get lib xlib off1 off2 pid env limits)
    then show ?thesis
      using tracer_init_once_effect [of digest lib xlib pid env limits st k e]
        next_instance_init_once [of st digest lib xlib pid env limits]
      by (cases "off1 \<or> off2") (simp_all add: snd_get_tracer_provider)
  next
    case (step_shutdown pid)
    have "next_instance st' = next_instance st" by (simp add: step_shutdown tracer_shutdown_def remove_pid_def)
    then show ?thesis unfolding step_shutdown tracer_registry.remove_finds by simp
  qed
  then show "next_instance st \<le> next_instance st'"
    "lookup_provider st' k = Some e \<Longrightarrow> lookup_provider st k = Some e \<or> e = no_op_entry
      \<or> built_at digest st (fst k) (snd k) e \<and> next_instance st' = next_instance st + 1" by blast+
qed

text \<open>A provider that makes spans was built by the process it stands under, for the hash it stands under.\<close>

lemma provider_built:
  assumes "reachable tracer_init (tracer_step digest) st"
    and "lookup_provider st (pid, hash) = Some e" and "te_spec e \<noteq> NoopProvider"
  shows "\<exists>s. reachable tracer_init (tracer_step digest) s \<and> (tracer_step digest)\<^sup>*\<^sup>* s st \<and> built_at digest s pid hash e"
  using assms(1,2)
proof (induction arbitrary: rule: reachable.induct)
  case (reach_init st)
  then show ?case by (simp add: tracer_init_def lookup_provider_def)
next
  case (reach_step st st')
  have "e \<noteq> no_op_entry" using assms(3) by (auto simp: no_op_entry_def)
  with tracer_step_effect(2) [OF reach_step.hyps(2) reach_step.prems]
  consider "lookup_provider st (pid, hash) = Some e" | "built_at digest st pid hash e" by auto
  then show ?case
  proof cases
    case 1
    with reach_step show ?thesis by (meson rtranclp.rtrancl_into_rtrancl)
  next
    case 2
    with reach_step.hyps show ?thesis by blast
  qed
qed

text \<open>The number of a provider never stands for another one, or under another key, again.\<close>

definition only_at :: "provider_key \<Rightarrow> tracer_entry \<Rightarrow> tracer_state \<Rightarrow> bool" where
  "only_at k e st \<longleftrightarrow> te_instance e < next_instance st
     \<and> (\<forall>j f. lookup_provider st j = Some f \<longrightarrow> te_instance f = te_instance e \<longrightarrow> j = k \<and> f = e)"

lemma only_at_stays:
  assumes "(tracer_step digest)\<^sup>*\<^sup>* st st'" and "only_at k e st" and "te_instance e \<noteq> NOOP_INSTANCE"
  shows "only_at k e st'"
  using assms(1,2)
proof (induction rule: rtranclp_induct)
  case (step s t)
  then have at: "only_at k e s" by simp
  have "j = k \<and> f = e" if f: "lookup_provider t j = Some f" "te_instance f = te_instance e" for j f
  proof -
    have "f \<noteq> no_op_entry" using f(2) assms(3) by (auto simp: no_op_entry_def)
    moreover have "\<not> built_at digest s (fst j) (snd j) f"
      using at f(2) by (simp add: only_at_def built_at_def)
    ultimately have "lookup_provider s j = Some f" using tracer_step_effect(2) [OF step.hyps(2) f(1)] by simp
    with at f(2) show ?thesis unfolding only_at_def by blast
  qed
  with at tracer_step_effect(1) [OF step.hyps(2)] show ?case by (auto simp: only_at_def)
qed

section \<open>What the hash covers\<close>










text \<open>
  The hash reads an unset variable and an empty one alike, but the protocol does not: an empty value
  is an unsupported protocol, an unset one is gRPC. Two such configurations share one provider.
\<close>

lemma config_hash_collision:
  "compute_config_hash digest [] = compute_config_hash digest [(''OTEL_EXPORTER_OTLP_PROTOCOL'', '''')]
   \<and> traces_protocol [] = Some Grpc \<and> traces_protocol [(''OTEL_EXPORTER_OTLP_PROTOCOL'', '''')] = None"
proof -
  have "config_inputs TRACE_CONFIG_NAMES [] = config_inputs TRACE_CONFIG_NAMES [(''OTEL_EXPORTER_OTLP_PROTOCOL'', '''')]"
    by code_simp
  moreover have "traces_protocol [] = Some Grpc \<and> traces_protocol [(''OTEL_EXPORTER_OTLP_PROTOCOL'', '''')] = None"
    by code_simp
  ultimately show ?thesis by (simp add: compute_config_hash_def)
qed

section \<open>Properties\<close>

text \<open>
  C37. A forked process never gets a provider of its parent, nor a request one that was built under
  another configuration hash. In every state the table can reach, through requests, lookups and shutdowns
  of any number of processes, the span-making provider that a process is handed was built by that process
  in an earlier state, from the environment it had there, for the configuration hash it asks with now. And
  from then on that provider is handed to no other process and for no other hash: whoever gets a provider
  with its number is the same process with the same hash, and gets the same settings. Configurations with
  one hash share a provider, \<open>config_hash_collision\<close> shows two.
\<close>

theorem tracer_fork_isolation:
  assumes "reachable tracer_init (tracer_step digest) st"
    and "get_tracer_provider digest lib xlib off1 off2 pid env limits st = (e, st1)" and "te_spec e \<noteq> NoopProvider"
    and "(tracer_step digest)\<^sup>*\<^sup>* st1 st2"
    and "get_tracer_provider digest lib' xlib' off1' off2' pid' env' limits' st2 = (e', st3)"
    and "te_instance e' = te_instance e"
  shows "pid' = pid \<and> e' = e
    \<and> current_hash digest TRACE_CONFIG_NAMES env' st2 = current_hash digest TRACE_CONFIG_NAMES env st
    \<and> (\<exists>s. reachable tracer_init (tracer_step digest) s \<and> (tracer_step digest)\<^sup>*\<^sup>* s st1
         \<and> built_at digest s pid (current_hash digest TRACE_CONFIG_NAMES env st) e)"
proof -
  have stands: "lookup_provider t (q, current_hash digest TRACE_CONFIG_NAMES v s) = Some f \<and> t = snd (f, t) \<and> tracer_step digest s t"
    if "get_tracer_provider digest l x o1 o2 q v n s = (f, t)" "f \<noteq> no_op_entry" for s l x o1 o2 q v n f t
    using that tracer_step.step_get [of digest s l x o1 o2 q v n]
    by (auto simp: get_tracer_provider_def get_tracer_provider_key_def Let_def split: if_splits option.splits)
  have "e \<noteq> no_op_entry" using assms(3) by (auto simp: no_op_entry_def)
  note e = stands [OF assms(2) this]
  then have r: "reachable tracer_init (tracer_step digest) st1" using reach_step [OF assms(1)] by blast
  note inv = tracer_system.reachable_safe [OF r]
  have number: "te_instance e \<noteq> NOOP_INSTANCE"
    using tracer_inv_bound [OF inv conjunct1 [OF e]] assms(3) by (simp add: is_noop_provider_def)
  have "only_at (pid, current_hash digest TRACE_CONFIG_NAMES env st) e st1"
    unfolding only_at_def
  proof (intro conjI allI impI)
    show "te_instance e < next_instance st1" using tracer_inv_bound [OF inv conjunct1 [OF e]] by simp
    fix j f
    assume f: "lookup_provider st1 j = Some f" "te_instance f = te_instance e"
    then show "j = (pid, current_hash digest TRACE_CONFIG_NAMES env st)"
      using tracer_inv_unique [OF inv f(1) conjunct1 [OF e] f(2)] number by (simp add: is_noop_provider_def)
    with f(1) conjunct1 [OF e] show "f = e" by simp
  qed
  then have later: "only_at (pid, current_hash digest TRACE_CONFIG_NAMES env st) e st2"
    by (rule only_at_stays [OF assms(4) _ number])
  have "e' \<noteq> no_op_entry" using number assms(6) by (auto simp: no_op_entry_def)
  from stands [OF assms(5) this]
  have e': "lookup_provider st3 (pid', current_hash digest TRACE_CONFIG_NAMES env' st2) = Some e'" "tracer_step digest st2 st3"
    by blast+
  have "only_at (pid, current_hash digest TRACE_CONFIG_NAMES env st) e st3"
    by (rule only_at_stays [OF _ later number]) (use e'(2) in blast)
  with e'(1) assms(6) provider_built [OF r conjunct1 [OF e] assms(3)] show ?thesis by (auto simp: only_at_def)
qed

definition demo_digest :: digest where
  "demo_digest inputs = concat (map snd inputs)"

definition demo_xlib :: exporter_lib where
  "demo_xlib = \<lparr>http_client_builds = (\<lambda>_ _. True), http_exporter_builds = (\<lambda>_ _. True), runtime_starts = True,
     grpc_exporter_builds = (\<lambda>_ _. True), processor_starts = (\<lambda>_. True)\<rparr>"

definition empty_tracer_state :: tracer_state where
  "empty_tracer_state = \<lparr>providers = [], request_hash = None, next_instance = 1\<rparr>"

text \<open>Lookups of a process under a configuration that turns export off: the first makes an entry.\<close>

definition demo_ask :: "nat \<Rightarrow> tracer_state \<Rightarrow> tracer_entry \<times> tracer_state" where
  "demo_ask pid st = get_tracer_provider demo_digest demo_lib demo_xlib False False pid
     [(''OTEL_TRACES_EXPORTER'', ''none'')] (trace_span_limits (attribute_limits_from_env [])) st"

lemma demo_ask_eq:
  assumes "request_hash st = None"
  shows "demo_ask pid st =
    (case lookup_provider st (pid, ''none'') of
       Some e \<Rightarrow> (e, st)
     | None \<Rightarrow>
         let e = \<lparr>te_instance = next_instance st, te_spec = AlwaysOffProvider (trace_span_limits (attribute_limits_from_env [])),
             te_shutdown_timeout = 0\<rparr>
         in (e, insert_provider (pid, ''none'') e (st\<lparr>next_instance := next_instance st + 1\<rparr>)))"
proof -
  let ?env = "[(''OTEL_TRACES_EXPORTER'', ''none'')]"
  have hash: "demo_digest (config_inputs TRACE_CONFIG_NAMES ?env) = ''none''" by code_simp
  have get: "env_get ?env ''OTEL_TRACES_EXPORTER'' = Some ''none''" by code_simp
  have chosen: "choose_provider demo_lib demo_xlib ?env l = (AlwaysOffProvider l, 0)" for l
    unfolding choose_provider_def get Let_def option.case by simp
  have key: "get_tracer_provider_key demo_digest pid ?env st = (pid, ''none'')"
    using assms hash by (simp add: get_tracer_provider_key_def current_hash_def)
  show ?thesis
    unfolding demo_ask_def get_tracer_provider_def tracer_init_once_def key tracer_init_key_def chosen
    by (simp add: store_simps Let_def split: option.split)
qed

text \<open>The process asks, its child (8) asks and makes its own, the process asks again.\<close>

theorem tracer_fork_isolation_witness:
  "\<exists>e st1 st2. demo_ask 7 empty_tracer_state = (e, st1) \<and> te_instance (fst (demo_ask 8 st1)) \<noteq> te_instance e
     \<and> snd (demo_ask 8 st1) = st2 \<and> fst (demo_ask 7 st2) = e
     \<and> (\<exists>s. reachable tracer_init (tracer_step demo_digest) s \<and> built_at demo_digest s 7 ''none'' e)"
proof -
  let ?env = "[(''OTEL_TRACES_EXPORTER'', ''none'')]"
  obtain e st1 where a: "demo_ask 7 empty_tracer_state = (e, st1)" by (cases "demo_ask 7 empty_tracer_state")
  obtain f st2 where b: "demo_ask 8 st1 = (f, st2)" by (cases "demo_ask 8 st1")
  obtain e' st3 where c: "demo_ask 7 st2 = (e', st3)" by (cases "demo_ask 7 st2")
  have start: "reachable tracer_init (tracer_step demo_digest) empty_tracer_state"
    by (rule reach_init) (simp add: tracer_init_def empty_tracer_state_def)
  have st1: "e = \<lparr>te_instance = 1, te_spec = AlwaysOffProvider (trace_span_limits (attribute_limits_from_env [])),
      te_shutdown_timeout = 0\<rparr>" "st1 = insert_provider (7, ''none'') e (empty_tracer_state\<lparr>next_instance := 2\<rparr>)"
    using a by (auto simp: demo_ask_eq empty_tracer_state_def lookup_provider_def Let_def numeral_2_eq_2)
  have hash1: "request_hash st1 = None" by (simp add: st1(2) insert_provider_def empty_tracer_state_def)
  have "lookup_provider st1 (8, ''none'') = None"
    by (simp add: st1(2) store_simps) (simp add: lookup_provider_def empty_tracer_state_def)
  moreover have "next_instance st1 = 2" by (simp add: st1(2))
  ultimately have st2: "te_instance f = 2" "st2 = insert_provider (8, ''none'') f (st1\<lparr>next_instance := 3\<rparr>)"
    using b by (auto simp: demo_ask_eq [OF hash1] Let_def)
  have "request_hash st2 = None" using hash1 by (simp add: st2(2) insert_provider_def)
  then have again: "e' = e" using c by (simp add: demo_ask_eq st2(2) st1(2) store_simps)
  have step: "(tracer_step demo_digest)\<^sup>*\<^sup>* st1 st2"
    using b tracer_step.step_get [of demo_digest st1] unfolding demo_ask_def by (metis r_into_rtranclp snd_conv)
  have hash: "current_hash demo_digest TRACE_CONFIG_NAMES ?env empty_tracer_state = ''none''" by code_simp
  have "te_spec e \<noteq> NoopProvider" "te_instance e' = te_instance e" by (simp_all add: st1(1) again)
  with tracer_fork_isolation [OF start a [unfolded demo_ask_def] _ step c [unfolded demo_ask_def]]
  have "\<exists>s. reachable tracer_init (tracer_step demo_digest) s \<and> built_at demo_digest s 7 ''none'' e"
    unfolding hash by blast
  moreover have "te_instance (fst (demo_ask 8 st1)) \<noteq> te_instance e" by (simp add: b st2(1) st1(1))
  ultimately show ?thesis using a b c again by force
qed



text \<open>
  Within a request a process keeps the provider it first got: later lookups return the same
  provider and change nothing, even after the request has changed its environment or built-in
  settings; a shutdown of another process leaves it alone, and a shutdown of its own process removes
  every provider the process has and no other.
\<close>

lemma tracer_provider_lifecycle:
  "let st1 = tracer_begin_request digest env st;
       (entry, st2) = get_tracer_provider digest lib xlib False False pid env limits st1
   in get_tracer_provider digest lib' xlib' False False pid env' limits' st2 = (entry, st2)
      \<and> (other = pid
         \<or> get_tracer_provider digest lib' xlib' False False pid env' limits' (snd (tracer_shutdown other st2)) =
             (entry, snd (tracer_shutdown other st2)))
      \<and> lookup_provider (snd (tracer_shutdown pid st2)) key = (if fst key = pid then None else lookup_provider st2 key)"
proof -
  define st1 where "st1 = tracer_begin_request digest env st"
  define k where "k = get_tracer_provider_key digest pid env st1"
  obtain entry st2 where g: "get_tracer_provider digest lib xlib False False pid env limits st1 = (entry, st2)"
    by (cases "get_tracer_provider digest lib xlib False False pid env limits st1")
  have st2: "st2 = tracer_init_key lib xlib env limits k st1"
    using snd_get_tracer_provider [of digest lib xlib False False pid env limits st1]
    by (simp add: g tracer_init_once_def k_def)
  have found: "lookup_provider st2 k = Some entry"
    using g tracer_registry.ensure_finds [of lib xlib env limits k st1]
    by (auto simp: get_tracer_provider_def tracer_init_once_def st2 k_def [symmetric] tracer_init_key_present Let_def
        split: option.splits)
  have rh: "request_hash st2 = request_hash st1"
    unfolding st2 tracer_init_key_def by (simp add: insert_provider_def split: prod.split provider_spec.split)
  have key: "get_tracer_provider_key digest pid env' s = k" if "request_hash s = request_hash st1" for s
    using that by (simp add: k_def get_tracer_provider_key_def current_hash_def st1_def tracer_begin_request_def begin_hash_def)
  have kpid: "fst k = pid" by (simp add: k_def get_tracer_provider_key_def)
  have again: "get_tracer_provider digest lib' xlib' False False pid env' limits' s = (entry, s)"
    if "request_hash s = request_hash st1" "lookup_provider s k = Some entry" for s
    by (simp add: get_tracer_provider_def key [OF that(1)] that(2) Let_def)
  have "request_hash (snd (tracer_shutdown other st2)) = request_hash st1"
    by (simp add: tracer_shutdown_def remove_pid_def rh)
  then have "other = pid \<or> get_tracer_provider digest lib' xlib' False False pid env' limits' (snd (tracer_shutdown other st2)) =
      (entry, snd (tracer_shutdown other st2))"
    using again [of "snd (tracer_shutdown other st2)"] found tracer_registry.remove_finds [of other st2 k] kpid
    by (cases "other = pid") simp_all
  with again [OF rh found] tracer_registry.remove_finds [of pid st2 key] show ?thesis
    unfolding st1_def [symmetric] Let_def g by simp
qed

end
