(* ===== verification/Signal_Providers.thy ===== *)
theory Signal_Providers
  imports Tracer_Provider
begin

text \<open>
  The provider tables of logs (\<open>logs/logger_provider.rs\<close>) and metrics
  (\<open>metrics/meter_provider.rs\<close>). Both use the table of theory \<open>Provider_Registry\<close>; a provider carries
  its key, so a provider found under a key was built for it.

  Building an SDK exporter is third-party code: whether it succeeds is the field of \<open>signal_lib\<close> for
  the transport. The resource is handed to the SDK as it is.
\<close>

section \<open>Logs\<close>

record signal_lib =
  http_signal_exporter :: bool
  tokio_runtime :: bool
  grpc_signal_exporter :: bool

datatype log_exporter = LogNone | LogConsole bool | LogMemory bool | LogOtlp protocol

record native_logger_provider =
  lp_exporter :: log_exporter
  lp_enabled :: bool
  lp_key :: provider_key
  lp_shutdown_timeout :: nat

definition LOG_CONFIG_NAMES :: "string list" where
  "LOG_CONFIG_NAMES =
    [''OTEL_SERVICE_NAME'', ''OTEL_RESOURCE_ATTRIBUTES'', ''OTEL_LOGS_EXPORTER'', ''OTEL_LOGS_PROCESSOR'',
     ''OTEL_EXPORTER_OTLP_PROTOCOL'', ''OTEL_EXPORTER_OTLP_LOGS_PROTOCOL'', ''OTEL_EXPORTER_OTLP_ENDPOINT'',
     ''OTEL_EXPORTER_OTLP_LOGS_ENDPOINT'', ''OTEL_EXPORTER_OTLP_HEADERS'', ''OTEL_EXPORTER_OTLP_LOGS_HEADERS'',
     ''OTEL_EXPORTER_OTLP_COMPRESSION'', ''OTEL_EXPORTER_OTLP_LOGS_COMPRESSION'', ''OTEL_EXPORTER_OTLP_TIMEOUT'',
     ''OTEL_EXPORTER_OTLP_LOGS_TIMEOUT'', ''OTEL_EXPORTER_OTLP_CERTIFICATE'',
     ''OTEL_EXPORTER_OTLP_LOGS_CERTIFICATE'', ''OTEL_EXPORTER_OTLP_CLIENT_KEY'',
     ''OTEL_EXPORTER_OTLP_LOGS_CLIENT_KEY'', ''OTEL_EXPORTER_OTLP_CLIENT_CERTIFICATE'',
     ''OTEL_EXPORTER_OTLP_LOGS_CLIENT_CERTIFICATE'', ''OTEL_EXPORTER_OTLP_INSECURE'',
     ''OTEL_EXPORTER_OTLP_LOGS_INSECURE'', ''OTEL_BLRP_SCHEDULE_DELAY'', ''OTEL_BLRP_MAX_QUEUE_SIZE'',
     ''OTEL_BLRP_MAX_EXPORT_BATCH_SIZE'', ''OTEL_BLRP_EXPORT_TIMEOUT'', ''OTEL_PHP_SHUTDOWN_TIMEOUT'']"

definition logger_begin_request ::
  "digest \<Rightarrow> os_env \<Rightarrow> native_logger_provider provider_table \<Rightarrow> native_logger_provider provider_table" where
  "logger_begin_request digest env t = begin_hash digest LOG_CONFIG_NAMES env t"

definition logger_end_request :: "native_logger_provider provider_table \<Rightarrow> native_logger_provider provider_table" where
  "logger_end_request t = end_hash t"

definition logger_provider_key ::
  "digest \<Rightarrow> nat \<Rightarrow> os_env \<Rightarrow> native_logger_provider provider_table \<Rightarrow> provider_key" where
  "logger_provider_key digest pid env t = (pid, current_hash digest LOG_CONFIG_NAMES env t)"

text \<open>In milliseconds: the default is 5 seconds, and any number is brought into 1 to 60000.\<close>

definition logs_shutdown_timeout :: "os_env \<Rightarrow> nat" where
  "logs_shutdown_timeout env =
     (let millis = (case Option.bind (env_get env ''OTEL_PHP_SHUTDOWN_TIMEOUT'') (parse_unsigned usize_max) of
          Some v \<Rightarrow> v | None \<Rightarrow> 5000)
      in max 1 (min 60000 millis))"

definition signal_protocol_name :: "os_env \<Rightarrow> string \<Rightarrow> string" where
  "signal_protocol_name env name =
     (case env_get env name of
        Some v \<Rightarrow> v
      | None \<Rightarrow> (case env_get env ''OTEL_EXPORTER_OTLP_PROTOCOL'' of Some v \<Rightarrow> v | None \<Rightarrow> ''grpc''))"

definition disabled_logger :: "provider_key \<Rightarrow> native_logger_provider" where
  "disabled_logger key = \<lparr>lp_exporter = LogNone, lp_enabled = False, lp_key = key, lp_shutdown_timeout = 0\<rparr>"

definition build_logger_provider :: "signal_lib \<Rightarrow> os_env \<Rightarrow> provider_key \<Rightarrow> native_logger_provider" where
  "build_logger_provider lib env key =
     (let exporter_name = (case env_get env ''OTEL_LOGS_EXPORTER'' of Some v \<Rightarrow> v | None \<Rightarrow> ''otlp'');
          simple_requested = (env_get env ''OTEL_LOGS_PROCESSOR'' = Some ''simple'');
          simple = (simple_requested \<and> (exporter_name = ''memory'' \<or> exporter_name = ''console''));
          provider = (\<lambda>exporter enabled.
            \<lparr>lp_exporter = exporter, lp_enabled = enabled, lp_key = key,
             lp_shutdown_timeout = logs_shutdown_timeout env\<rparr>)
      in if exporter_name = ''none'' then provider LogNone False
         else if exporter_name = ''console'' then provider (LogConsole simple) True
         else if exporter_name = ''memory'' then provider (LogMemory simple) True
         else if exporter_name = ''otlp'' then
           (let name = map to_ascii_lowercase (signal_protocol_name env ''OTEL_EXPORTER_OTLP_LOGS_PROTOCOL'') in
            if name = ''http/protobuf'' then
              (if http_signal_exporter lib then provider (LogOtlp HttpProtobuf) True else provider LogNone False)
            else if name = ''grpc'' then
              (if \<not> tokio_runtime lib then disabled_logger key
               else if grpc_signal_exporter lib then provider (LogOtlp Grpc) True
               else provider LogNone False)
            else disabled_logger key)
         else provider LogNone False)"

definition logger_init_once ::
  "digest \<Rightarrow> signal_lib \<Rightarrow> nat \<Rightarrow> os_env \<Rightarrow> native_logger_provider provider_table \<Rightarrow> native_logger_provider provider_table" where
  "logger_init_once digest lib pid env t =
     table_ensure (build_logger_provider lib env) (logger_provider_key digest pid env t) t"

text \<open>The shared no-op provider has the key of the process that created it first.\<close>

definition noop_logger_provider :: "nat \<Rightarrow> native_logger_provider" where
  "noop_logger_provider first_pid =
     \<lparr>lp_exporter = LogNone, lp_enabled = False, lp_key = (first_pid, ''noop''), lp_shutdown_timeout = 0\<rparr>"

definition get_logger_provider ::
  "digest \<Rightarrow> nat \<Rightarrow> bool \<Rightarrow> nat \<Rightarrow> os_env \<Rightarrow> native_logger_provider provider_table \<Rightarrow> native_logger_provider" where
  "get_logger_provider digest first_pid request_disabled pid env t =
     (if request_disabled then noop_logger_provider first_pid
      else case lookup_provider t (logger_provider_key digest pid env t) of
          Some p \<Rightarrow> p | None \<Rightarrow> noop_logger_provider first_pid)"

definition logger_shutdown ::
  "nat \<Rightarrow> native_logger_provider provider_table \<Rightarrow> (native_logger_provider \<times> nat) list \<times> native_logger_provider provider_table" where
  "logger_shutdown pid t =
     (let (ps, t') = remove_pid pid t in (map (\<lambda>p. (p, lp_shutdown_timeout p)) ps, t'))"

definition logger_state ::
  "('f zval \<Rightarrow> (php_error, (zkey \<times> 'f zval) list) result) \<Rightarrow> (int \<Rightarrow> 'f) \<Rightarrow> attr_limit_config \<Rightarrow>
     native_logger_provider \<Rightarrow> 'f zval list \<Rightarrow> (php_error, 'f scope \<times> bool) result" where
  "logger_state iterable_to_array to_f64 config provider args =
     (if args = [] then Err ArgumentCount
      else result_bind (expect_utf8 (args ! 0)) (\<lambda>name.
        result_bind (if 3 < length args then map_sum id (\<lambda>arr. zval_arr_to_key_value_vec to_f64 config arr Scope)
            (iterable_to_array (args ! 3)) else Ok []) (\<lambda>attributes.
        Ok (\<lparr>scope_name = name, scope_version = optional_text args 1, scope_schema_url = optional_text args 2,
             scope_attributes = attributes\<rparr>, lp_enabled provider))))"

section \<open>Metrics\<close>

datatype metric_exporter = MetricNone | MetricMemory | MetricConsole | MetricOtlp protocol

record native_meter_provider =
  mp_exporter :: metric_exporter
  mp_enabled :: bool
  mp_key :: provider_key

definition METRIC_CONFIG_NAMES :: "string list" where
  "METRIC_CONFIG_NAMES =
    [''OTEL_SERVICE_NAME'', ''OTEL_RESOURCE_ATTRIBUTES'', ''OTEL_METRICS_EXPORTER'', ''OTEL_EXPORTER_OTLP_PROTOCOL'',
     ''OTEL_EXPORTER_OTLP_METRICS_PROTOCOL'', ''OTEL_EXPORTER_OTLP_ENDPOINT'',
     ''OTEL_EXPORTER_OTLP_METRICS_ENDPOINT'', ''OTEL_EXPORTER_OTLP_HEADERS'',
     ''OTEL_EXPORTER_OTLP_METRICS_HEADERS'', ''OTEL_EXPORTER_OTLP_COMPRESSION'',
     ''OTEL_EXPORTER_OTLP_METRICS_COMPRESSION'', ''OTEL_EXPORTER_OTLP_TIMEOUT'',
     ''OTEL_EXPORTER_OTLP_METRICS_TIMEOUT'', ''OTEL_EXPORTER_OTLP_CERTIFICATE'',
     ''OTEL_EXPORTER_OTLP_METRICS_CERTIFICATE'', ''OTEL_EXPORTER_OTLP_CLIENT_KEY'',
     ''OTEL_EXPORTER_OTLP_METRICS_CLIENT_KEY'', ''OTEL_EXPORTER_OTLP_CLIENT_CERTIFICATE'',
     ''OTEL_EXPORTER_OTLP_METRICS_CLIENT_CERTIFICATE'', ''OTEL_EXPORTER_OTLP_INSECURE'',
     ''OTEL_EXPORTER_OTLP_METRICS_INSECURE'', ''OTEL_METRIC_EXPORT_INTERVAL'', ''OTEL_METRIC_EXPORT_TIMEOUT'',
     ''OTEL_EXPORTER_OTLP_METRICS_TEMPORALITY_PREFERENCE'']"

definition meter_begin_request ::
  "digest \<Rightarrow> os_env \<Rightarrow> native_meter_provider provider_table \<Rightarrow> native_meter_provider provider_table" where
  "meter_begin_request digest env t = begin_hash digest METRIC_CONFIG_NAMES env t"

definition meter_end_request :: "native_meter_provider provider_table \<Rightarrow> native_meter_provider provider_table" where
  "meter_end_request t = end_hash t"

definition meter_provider_key ::
  "digest \<Rightarrow> nat \<Rightarrow> os_env \<Rightarrow> native_meter_provider provider_table \<Rightarrow> provider_key" where
  "meter_provider_key digest pid env t = (pid, current_hash digest METRIC_CONFIG_NAMES env t)"

definition build_meter_provider :: "signal_lib \<Rightarrow> os_env \<Rightarrow> provider_key \<Rightarrow> native_meter_provider" where
  "build_meter_provider lib env key =
     (let exporter = (case env_get env ''OTEL_METRICS_EXPORTER'' of Some v \<Rightarrow> v | None \<Rightarrow> ''otlp'');
          provider = (\<lambda>e enabled. \<lparr>mp_exporter = e, mp_enabled = enabled, mp_key = key\<rparr>)
      in if exporter = ''none'' then provider MetricNone False
         else if exporter = ''memory'' then provider MetricMemory True
         else if exporter = ''console'' then provider MetricConsole True
         else if exporter = ''otlp'' then
           (if signal_protocol_name env ''OTEL_EXPORTER_OTLP_METRICS_PROTOCOL'' = ''http/protobuf'' then
              (if http_signal_exporter lib then provider (MetricOtlp HttpProtobuf) True else provider MetricNone False)
            else if \<not> tokio_runtime lib then provider MetricNone False
            else if grpc_signal_exporter lib then provider (MetricOtlp Grpc) True
            else provider MetricNone False)
         else provider MetricNone False)"

definition meter_init_once ::
  "digest \<Rightarrow> signal_lib \<Rightarrow> nat \<Rightarrow> os_env \<Rightarrow> native_meter_provider provider_table \<Rightarrow> native_meter_provider provider_table" where
  "meter_init_once digest lib pid env t =
     table_ensure (build_meter_provider lib env) (meter_provider_key digest pid env t) t"

definition noop_meter_provider :: "nat \<Rightarrow> native_meter_provider" where
  "noop_meter_provider first_pid = \<lparr>mp_exporter = MetricNone, mp_enabled = False, mp_key = (first_pid, ''noop'')\<rparr>"

definition get_meter_provider ::
  "digest \<Rightarrow> nat \<Rightarrow> bool \<Rightarrow> nat \<Rightarrow> os_env \<Rightarrow> native_meter_provider provider_table \<Rightarrow> native_meter_provider" where
  "get_meter_provider digest first_pid request_disabled pid env t =
     (if request_disabled then noop_meter_provider first_pid
      else case lookup_provider t (meter_provider_key digest pid env t) of
          Some p \<Rightarrow> p | None \<Rightarrow> noop_meter_provider first_pid)"

text \<open>The provider \<open>force_flush\<close> flushes, if any.\<close>

definition meter_force_flush ::
  "digest \<Rightarrow> nat \<Rightarrow> os_env \<Rightarrow> native_meter_provider provider_table \<Rightarrow> native_meter_provider option" where
  "meter_force_flush digest pid env t =
     (case lookup_provider t (meter_provider_key digest pid env t) of
        Some p \<Rightarrow> if mp_enabled p then Some p else None | None \<Rightarrow> None)"

definition meter_shutdown ::
  "nat \<Rightarrow> native_meter_provider provider_table \<Rightarrow> native_meter_provider list \<times> native_meter_provider provider_table" where
  "meter_shutdown pid t = remove_pid pid t"

text \<open>The scope key joins name, version and schema URL with newlines.\<close>

definition meter_scope_key :: "'f scope \<Rightarrow> string" where
  "meter_scope_key scope =
     scope_name scope @ [CHR 0x0A] @ (case scope_version scope of Some v \<Rightarrow> v | None \<Rightarrow> [])
       @ [CHR 0x0A] @ (case scope_schema_url scope of Some v \<Rightarrow> v | None \<Rightarrow> [])"

record 'f meter_state =
  ms_scope :: "'f scope"
  ms_enabled :: bool
  ms_provider_key :: provider_key
  ms_scope_key :: string

definition get_meter ::
  "('f zval \<Rightarrow> (php_error, (zkey \<times> 'f zval) list) result) \<Rightarrow> (int \<Rightarrow> 'f) \<Rightarrow> attr_limit_config \<Rightarrow>
     native_meter_provider \<Rightarrow> 'f zval list \<Rightarrow> (php_error, 'f meter_state) result" where
  "get_meter iterable_to_array to_f64 config provider args =
     (if args = [] then Err ArgumentCount
      else result_bind (expect_utf8 (args ! 0)) (\<lambda>name.
        result_bind (if 3 < length args then map_sum id (\<lambda>arr. zval_arr_to_key_value_vec to_f64 config arr Scope)
            (iterable_to_array (args ! 3)) else Ok []) (\<lambda>attributes.
        let scope = \<lparr>scope_name = name, scope_version = optional_text args 1,
                     scope_schema_url = optional_text args 2, scope_attributes = attributes\<rparr>
        in Ok \<lparr>ms_scope = scope, ms_enabled = mp_enabled provider, ms_provider_key = mp_key provider,
               ms_scope_key = meter_scope_key scope\<rparr>)))"

section \<open>Both tables are provider registries\<close>

interpretation logger_registry: provider_registry lookup_provider "table_ensure (build_logger_provider lib env)"
  "\<lambda>pid t. snd (logger_shutdown pid t)"
  for lib env
  by unfold_locales (auto simp: table_ensure_def logger_shutdown_def split_beta store_simps)

interpretation meter_registry: provider_registry lookup_provider "table_ensure (build_meter_provider lib env)"
  "\<lambda>pid t. snd (meter_shutdown pid t)"
  for lib env
  by unfold_locales (auto simp: table_ensure_def meter_shutdown_def store_simps)

lemma build_logger_key [simp]: "lp_key (build_logger_provider lib env key) = key"
  by (simp add: build_logger_provider_def disabled_logger_def Let_def)

lemma build_meter_key [simp]: "mp_key (build_meter_provider lib env key) = key"
  by (simp add: build_meter_provider_def Let_def)

text \<open>A provider stands under its own key.\<close>

definition keyed :: "('p \<Rightarrow> provider_key) \<Rightarrow> 'p provider_table \<Rightarrow> bool" where
  "keyed key_of t \<longleftrightarrow> (\<forall>k p. lookup_provider t k = Some p \<longrightarrow> key_of p = k)"

lemma keyedD: "keyed key_of t \<Longrightarrow> lookup_provider t k = Some p \<Longrightarrow> key_of p = k"
  unfolding keyed_def by blast

lemma keyed_ensure [inv_intros]:
  "keyed key_of t \<Longrightarrow> (\<And>k. key_of (build k) = k) \<Longrightarrow> keyed key_of (table_ensure build k t)"
  unfolding keyed_def table_ensure_def by (auto simp: store_simps simp del: split_paired_All)

lemma keyed_remove [inv_intros]: "keyed key_of t \<Longrightarrow> keyed key_of (snd (remove_pid pid t))"
  unfolding keyed_def by (auto simp: store_simps simp del: split_paired_All split: if_splits)

lemma keyed_hash [inv_intros]:
  "keyed key_of t \<Longrightarrow> keyed key_of (begin_hash digest names env t)"
  "keyed key_of t \<Longrightarrow> keyed key_of (end_hash t)"
  by (simp_all add: keyed_def)

inductive logger_step :: "native_logger_provider provider_table \<Rightarrow> native_logger_provider provider_table \<Rightarrow> bool" where
  "logger_step t (logger_begin_request digest env t)"
| "logger_step t (logger_end_request t)"
| "logger_step t (logger_init_once digest lib pid env t)"
| "logger_step t (snd (logger_shutdown pid t))"

inductive meter_step :: "native_meter_provider provider_table \<Rightarrow> native_meter_provider provider_table \<Rightarrow> bool" where
  meter_step_begin: "meter_step t (meter_begin_request digest env t)"
| meter_step_end: "meter_step t (meter_end_request t)"
| meter_step_init: "meter_step t (meter_init_once digest lib pid env t)"
| meter_step_shutdown: "meter_step t (snd (meter_shutdown pid t))"

definition empty_table :: "'p provider_table \<Rightarrow> bool" where
  "empty_table t \<longleftrightarrow> providers t = [] \<and> request_hash t = None"

lemma keyed_empty [inv_intros]: "empty_table t \<Longrightarrow> keyed key_of t"
  by (simp add: empty_table_def keyed_def lookup_provider_def)

interpretation logger_system: safe_system empty_table logger_step "keyed lp_key"
proof
  show "keyed lp_key s \<Longrightarrow> logger_step s t \<Longrightarrow> keyed lp_key t" for s t
    by (erule logger_step.cases)
      (simp_all add: logger_begin_request_def logger_end_request_def logger_init_once_def logger_shutdown_def
        split_beta inv_intros)
qed (rule keyed_empty)

interpretation meter_system: safe_system empty_table meter_step "keyed mp_key"
proof
  show "keyed mp_key s \<Longrightarrow> meter_step s t \<Longrightarrow> keyed mp_key t" for s t
    by (erule meter_step.cases)
      (simp_all add: meter_begin_request_def meter_end_request_def meter_init_once_def meter_shutdown_def inv_intros)
qed (rule keyed_empty)

text \<open>The metrics protocol is compared as it is written, and every name but one means gRPC.\<close>

lemma metrics_protocol_case:
  "mp_exporter (build_meter_provider \<lparr>http_signal_exporter = True, tokio_runtime = True, grpc_signal_exporter = True\<rparr>
     [(''OTEL_EXPORTER_OTLP_PROTOCOL'', ''HTTP/protobuf'')] key) = MetricOtlp Grpc
   \<and> lp_exporter (build_logger_provider \<lparr>http_signal_exporter = True, tokio_runtime = True, grpc_signal_exporter = True\<rparr>
     [(''OTEL_EXPORTER_OTLP_PROTOCOL'', ''HTTP/protobuf'')] key) = LogOtlp HttpProtobuf"
proof -
  let ?env = "[(''OTEL_EXPORTER_OTLP_PROTOCOL'', ''HTTP/protobuf'')]"
  have m: "env_get ?env ''OTEL_METRICS_EXPORTER'' = None" "env_get ?env ''OTEL_LOGS_EXPORTER'' = None"
    "env_get ?env ''OTEL_LOGS_PROCESSOR'' = None"
    "signal_protocol_name ?env ''OTEL_EXPORTER_OTLP_METRICS_PROTOCOL'' = ''HTTP/protobuf''"
    "map to_ascii_lowercase (signal_protocol_name ?env ''OTEL_EXPORTER_OTLP_LOGS_PROTOCOL'') = ''http/protobuf''"
    by code_simp+
  show ?thesis unfolding build_meter_provider_def build_logger_provider_def m Let_def by simp
qed

section \<open>Property\<close>

text \<open>
  Logs and metrics never leave a process through a provider of another one: whatever requests,
  initialisations and shutdowns went before, the provider a process gets is disabled or was built
  under the identifier of that very process; with the hash of the request cached, it stays the same
  while the environment changes.
\<close>

lemma signal_provider_own_process:
  assumes "reachable empty_table logger_step logs" and "reachable empty_table meter_step metrics"
  shows "(lp_enabled (get_logger_provider digest first off pid env logs) \<longrightarrow>
        fst (lp_key (get_logger_provider digest first off pid env logs)) = pid)
    \<and> (mp_enabled (get_meter_provider digest first off pid env metrics) \<longrightarrow>
        fst (mp_key (get_meter_provider digest first off pid env metrics)) = pid)
    \<and> get_logger_provider digest first off pid env' (logger_begin_request digest env logs) =
        get_logger_provider digest first off pid env (logger_begin_request digest env logs)
    \<and> get_meter_provider digest first off pid env' (meter_begin_request digest env metrics) =
        get_meter_provider digest first off pid env (meter_begin_request digest env metrics)"
proof -
  have logs: "keyed lp_key logs" using assms(1) by (rule logger_system.reachable_safe)
  have metrics: "keyed mp_key metrics" using assms(2) by (rule meter_system.reachable_safe)
  have "lp_enabled (get_logger_provider digest first off pid env logs) \<longrightarrow>
      fst (lp_key (get_logger_provider digest first off pid env logs)) = pid"
    using keyedD [OF logs, of "logger_provider_key digest pid env logs"]
    by (auto simp: get_logger_provider_def noop_logger_provider_def logger_provider_key_def split: option.split)
  moreover have "mp_enabled (get_meter_provider digest first off pid env metrics) \<longrightarrow>
      fst (mp_key (get_meter_provider digest first off pid env metrics)) = pid"
    using keyedD [OF metrics, of "meter_provider_key digest pid env metrics"]
    by (auto simp: get_meter_provider_def noop_meter_provider_def meter_provider_key_def split: option.split)
  ultimately show ?thesis
    by (simp add: get_logger_provider_def get_meter_provider_def logger_provider_key_def meter_provider_key_def
        logger_begin_request_def meter_begin_request_def current_hash_def begin_hash_def)
qed

end
