(* ===== verification/Request_Lifecycle.thy ===== *)
theory Request_Lifecycle
  imports Request_Env Signal_Providers Span_Binding
begin

text \<open>
  The life of a request (\<open>request.rs\<close>, \<open>module.rs\<close>): what starts with it and ends with it in every
  component. \<open>on_request_init\<close> prepares the environment, fixes switches, limits and configuration
  hashes, makes the providers and opens the root span; \<open>on_request_shutdown\<close> closes the span, restores
  the environment and drops everything that belongs to the request.

  The state of the thread and process is the record \<open>request_state\<close>, made of the states of the
  components. What the server says about the request is \<open>request_input\<close>; the third-party parts and the
  SDK's tracers are \<open>request_lib\<close>. A panic is \<^const>\<open>None\<close>. Plugins and the callbacks of observable
  instruments, which are run before anything else at the end, have no part in this state.
\<close>

section \<open>The state of a request\<close>

record ('c, 'sc, 'f) request_state =
  rq_env :: request_env
  rq_capture :: capture_state
  rq_limits :: limits_cache
  rq_tracer :: tracer_state
  rq_logger :: "native_logger_provider provider_table"
  rq_meter :: "native_meter_provider provider_table"
  rq_ctx :: "('c, 'f) ctx_storage"
  rq_guard :: "'c option"
  rq_context_id :: "nat option"
  rq_propagator :: bool
  rq_calls :: "('f, 'sc) span_calls"

record 'f request_input =
  in_module_disabled :: bool
  in_dotenv :: bool
  in_from_server :: bool
  in_metadata :: "path \<Rightarrow> bool"
  in_canonicalize :: "path \<Rightarrow> path option"
  in_from_path_iter :: "path \<Rightarrow> (string \<times> string) option list option"
  in_pid :: nat
  in_server :: "'f server"
  in_info_uri :: "string option"
  in_method :: "string option"
  in_sapi :: string
  in_trace_cli :: bool
  in_response_code :: int
  in_last_error :: "'f zval option"

record ('c, 'sc, 'u, 'f) request_lib =
  lib_digest :: digest
  lib_transport :: transport_lib
  lib_exporter :: exporter_lib
  lib_signal :: signal_lib
  lib_url :: "'u url_api"
  lib_api :: "('c, 'sc) span_api"
  lib_valid :: "'sc \<Rightarrow> bool"
  lib_root_context :: "'c"
  lib_with_span :: "nat \<Rightarrow> 'c \<Rightarrow> 'c"
  lib_build_span :: "tracer_entry \<Rightarrow> string \<Rightarrow> 'f key_value list \<Rightarrow> 'c \<Rightarrow> nat"
  lib_extract :: "(string \<times> string) list \<Rightarrow> 'c"
  lib_unowned :: "('c, 'f) native_context \<Rightarrow> bool"

text \<open>\<open>Context::current()\<close>: below the attached contexts is the one of the request's own guard.\<close>

definition rq_current :: "('c, 'sc, 'u, 'f) request_lib \<Rightarrow> ('c, 'sc, 'f) request_state \<Rightarrow> 'c" where
  "rq_current lib s =
     otel_current (case rq_guard s of Some c \<Rightarrow> c | None \<Rightarrow> lib_root_context lib) (rq_ctx s)"

section \<open>The start of a request\<close>

definition module_disabled :: "string \<Rightarrow> bool \<Rightarrow> bool" where
  "module_disabled sapi cli_enabled \<longleftrightarrow> sapi = ''cli'' \<and> \<not> cli_enabled"

definition begin_caches :: "digest \<Rightarrow> ('c, 'sc, 'f) request_state \<Rightarrow> ('c, 'sc, 'f) request_state" where
  "begin_caches digest s =
     (let env = proc_env (rq_env s) in
      s\<lparr>rq_capture := capture_begin_request env (rq_capture s),
        rq_limits := begin_request_attribute_limits env (rq_limits s),
        rq_tracer := tracer_begin_request digest env (rq_tracer s),
        rq_logger := logger_begin_request digest env (rq_logger s),
        rq_meter := meter_begin_request digest env (rq_meter s)\<rparr>)"

definition rq_disabled :: "'f request_input \<Rightarrow> ('c, 'sc, 'f) request_state \<Rightarrow> bool" where
  "rq_disabled inp s = is_disabled (proc_env (rq_env s)) (in_server inp) (in_info_uri inp)"

definition rq_span_limits :: "('c, 'sc, 'f) request_state \<Rightarrow> span_sdk_limits" where
  "rq_span_limits s = trace_span_limits (fst (attribute_limit_config (proc_env (rq_env s)) (rq_limits s)))"

definition init_providers ::
  "('c, 'sc, 'u, 'f) request_lib \<Rightarrow> 'f request_input \<Rightarrow> ('c, 'sc, 'f) request_state \<Rightarrow> ('c, 'sc, 'f) request_state" where
  "init_providers lib inp s =
     (let env = proc_env (rq_env s) in
      s\<lparr>rq_tracer := tracer_init_once (lib_digest lib) (lib_transport lib) (lib_exporter lib) (in_pid inp) env
          (rq_span_limits s) (rq_tracer s),
        rq_logger := logger_init_once (lib_digest lib) (lib_signal lib) (in_pid inp) env (rq_logger s),
        rq_meter := meter_init_once (lib_digest lib) (lib_signal lib) (in_pid inp) env (rq_meter s)\<rparr>)"

text \<open>The name of the root span; \<^const>\<open>None\<close> when the command line is not traced.\<close>

definition root_span_name :: "'f request_input \<Rightarrow> string option" where
  "root_span_name inp =
     (if in_sapi inp = ''cli'' then (if in_trace_cli inp then Some ''php:cli'' else None)
      else case in_method inp of Some m \<Rightarrow> Some m | None \<Rightarrow> Some ''<unknown>'')"

definition propagated_context ::
  "('c, 'sc, 'u, 'f) request_lib \<Rightarrow> 'f request_input \<Rightarrow> ('c, 'sc, 'f) request_state \<Rightarrow> 'c" where
  "propagated_context lib inp s =
     (case in_server inp of
        None \<Rightarrow> rq_current lib s
      | Some server \<Rightarrow> lib_extract lib (extract_request_headers server))"

definition root_attributes ::
  "('c, 'sc, 'u, 'f) request_lib \<Rightarrow> 'f request_input \<Rightarrow> ('c, 'sc, 'f) request_state \<Rightarrow> 'f key_value list" where
  "root_attributes lib inp s =
     (let env = proc_env (rq_env s);
          uri = (case request_uri (in_server inp) (in_info_uri inp) of Some u \<Rightarrow> u | None \<Rightarrow> []);
          request_method = (case in_method inp of Some m \<Rightarrow> m | None \<Rightarrow> [])
      in limit_key_values (fst (attribute_limit_config env (rq_limits s)))
           [(''url.full'', VString (fst (sanitize_url (lib_url lib) env uri (rq_capture s)))),
            (''http.request.method'', VString request_method)] Span)"

text \<open>\<open>init\<close>: the root span, its context stored under a new id and attached for the whole request.\<close>

definition request_init_span ::
  "('c, 'sc, 'u, 'f) request_lib \<Rightarrow> 'f request_input \<Rightarrow> ('c, 'sc, 'f) request_state \<Rightarrow> ('c, 'sc, 'f) request_state" where
  "request_init_span lib inp s =
     (case root_span_name inp of
        None \<Rightarrow> s
      | Some name \<Rightarrow>
          (case get_tracer_provider (lib_digest lib) (lib_transport lib) (lib_exporter lib) (in_module_disabled inp)
                  (rq_disabled inp s) (in_pid inp) (proc_env (rq_env s)) (rq_span_limits s) (rq_tracer s) of
             (provider, tracer) \<Rightarrow>
               let span = lib_build_span lib provider name (root_attributes lib inp s) (propagated_context lib inp s);
                   ctx = lib_with_span lib span (rq_current lib s);
                   local_root = (\<not> lib_valid lib (ctx_span_context (base_api (lib_api lib)) (rq_current lib s)))
               in case store_context_instance (native_new ctx) (rq_ctx s) of
                    (context_id, st) \<Rightarrow>
                      s\<lparr>rq_tracer := tracer,
                        rq_ctx := (if local_root then store_local_root_span context_id st else st),
                        rq_context_id := context_id, rq_guard := Some ctx\<rparr>))"

definition on_request_init ::
  "('c, 'sc, 'u, 'f) request_lib \<Rightarrow> 'f request_input \<Rightarrow> ('c, 'sc, 'f) request_state \<Rightarrow>
     ('c, 'sc, 'f) request_state option" where
  "on_request_init lib inp s =
     (if in_module_disabled inp then Some s
      else
        map_option (\<lambda>env.
          let s1 = begin_caches (lib_digest lib) (s\<lparr>rq_env := env\<rparr>) in
          if rq_disabled inp s1 then s1
          else request_init_span lib inp ((init_providers lib inp s1)\<lparr>rq_propagator := True\<rparr>))
        (init_environment (in_dotenv inp) (in_from_server inp) (in_metadata inp) (in_canonicalize inp)
          (in_from_path_iter inp) (in_pid inp) (in_server inp) (rq_env s)))"

section \<open>The end of a request\<close>

text \<open>What is recorded on the root span of an HTTP request.\<close>

definition http_end_calls ::
  "'f request_input \<Rightarrow> ('c, 'sc, 'f) request_state \<Rightarrow> ('f, 'sc) span_call list" where
  "http_end_calls inp s =
     (let env = proc_env (rq_env s) in
      if in_sapi inp = ''cli'' then []
      else
        [CallSetAttribute (''http.response.status_code'', VI64 (in_response_code inp))]
        @ (if in_response_code inp \<ge> 500 then
             (case in_last_error inp of
                Some (ZArr a) \<Rightarrow>
                  [CallAddEvent ''exception'' None
                     (limit_key_values (fst (attribute_limit_config env (rq_limits s)))
                       (fst (php_error_to_auto_attributes env (ZArr a) (rq_capture s))) Event)]
              | _ \<Rightarrow> [])
             @ [CallSetStatus (StatusError [])]
           else []))"

definition close_root_span ::
  "('c, 'sc, 'u, 'f) request_lib \<Rightarrow> 'f request_input \<Rightarrow> nat \<Rightarrow> ('c, 'f) native_context \<Rightarrow>
     ('c, 'sc, 'f) request_state \<Rightarrow> ('c, 'sc, 'f) request_state" where
  "close_root_span lib inp context_id n s =
     (if lib_valid lib (ctx_span_context (base_api (lib_api lib)) (otel_context n)) then
        (let i = ctx_span (lib_api lib) (otel_context n) in
         s\<lparr>rq_calls := (rq_calls s)(i := rq_calls s i @ http_end_calls inp s @ [CallEnd None]),
           rq_ctx := maybe_remove_context_instance (lib_unowned lib) (Some context_id) (rq_ctx s)\<rparr>)
      else s)"

text \<open>\<open>shutdown\<close>: without the context of the root span it returns before anything is cleared.\<close>

definition request_shutdown ::
  "('c, 'sc, 'u, 'f) request_lib \<Rightarrow> 'f request_input \<Rightarrow> ('c, 'sc, 'f) request_state \<Rightarrow>
     ('c, 'sc, 'f) request_state option" where
  "request_shutdown lib inp s =
     map_option (\<lambda>env.
       let s1 = s\<lparr>rq_env := env, rq_context_id := None\<rparr> in
       case rq_context_id s of
         None \<Rightarrow> s1\<lparr>rq_ctx := clear_context_storage (rq_ctx s1)\<rparr>
       | Some context_id \<Rightarrow>
           (case get_context_instance (Some context_id) (rq_ctx s1) of
              None \<Rightarrow> s1
            | Some n \<Rightarrow>
                let s2 = (close_root_span lib inp context_id n s1)\<lparr>rq_guard := None\<rparr>
                in s2\<lparr>rq_ctx := clear_context_storage (rq_ctx s2)\<rparr>))
     (restore_env (in_pid inp) (rq_env s))"

definition end_caches :: "('c, 'sc, 'f) request_state \<Rightarrow> ('c, 'sc, 'f) request_state" where
  "end_caches s =
     s\<lparr>rq_tracer := tracer_end_request (rq_tracer s), rq_logger := logger_end_request (rq_logger s),
       rq_meter := meter_end_request (rq_meter s), rq_capture := capture_end_request (rq_capture s),
       rq_limits := end_request_attribute_limits (rq_limits s)\<rparr>"

definition on_request_shutdown ::
  "('c, 'sc, 'u, 'f) request_lib \<Rightarrow> 'f request_input \<Rightarrow> ('c, 'sc, 'f) request_state \<Rightarrow>
     ('c, 'sc, 'f) request_state option" where
  "on_request_shutdown lib inp s =
     (if in_module_disabled inp then
        Some (s\<lparr>rq_ctx := clear_request_state (clear_context_storage (rq_ctx s)),
                rq_capture := capture_end_request (rq_capture s),
                rq_limits := end_request_attribute_limits (rq_limits s)\<rparr>)
      else
        map_option (\<lambda>s1. end_caches (s1\<lparr>rq_ctx := clear_request_state (rq_ctx s1)\<rparr>))
          (request_shutdown lib inp s))"

text \<open>\<open>on_module_shutdown\<close>: the providers of the process that are shut down.\<close>

definition on_module_shutdown ::
  "bool \<Rightarrow> nat \<Rightarrow> ('c, 'sc, 'f) request_state \<Rightarrow> ('c, 'sc, 'f) request_state" where
  "on_module_shutdown off pid s =
     (if off then s
      else s\<lparr>rq_tracer := snd (tracer_shutdown pid (rq_tracer s)), rq_logger := snd (logger_shutdown pid (rq_logger s)),
             rq_meter := snd (meter_shutdown pid (rq_meter s))\<rparr>)"

section \<open>What may happen during a request\<close>

text \<open>
  PHP code changes variables of the environment, works with contexts and scopes other than the one of the request
  (whose id it never learns), calls methods of spans, asks for providers and reads the cached values.
\<close>

fun op_avoids :: "nat option \<Rightarrow> ('c, 'f) storage_op \<Rightarrow> bool" where
  "op_avoids rid (Attach i) \<longleftrightarrow> True"
| "op_avoids rid (Detach i e) \<longleftrightarrow> rid = None \<or> i \<noteq> rid"
| "op_avoids rid (RemoveInstance i) \<longleftrightarrow> rid \<noteq> Some i"
| "op_avoids rid ClearStorage \<longleftrightarrow> False"
| "op_avoids rid _ \<longleftrightarrow> True"

inductive request_step ::
  "('t, 's, 'ts, 'sc, 'f) span_env \<Rightarrow> ('c, 'sc, 'u, 'f) request_lib \<Rightarrow> 'f request_input \<Rightarrow> nat option \<Rightarrow> ('c, 'sc, 'f) request_state \<Rightarrow>
     ('c, 'sc, 'f) request_state \<Rightarrow> bool"
  for env :: "('t, 's, 'ts, 'sc, 'f) span_env" and lib :: "('c, 'sc, 'u, 'f) request_lib" and inp :: "'f request_input" and rid :: "nat option" where
  step_env: "request_step env lib inp rid s (s\<lparr>rq_env := (rq_env s)\<lparr>proc_env := e\<rparr>\<rparr>)"
| step_storage: "op_avoids rid opr \<Longrightarrow>
    request_step env lib inp rid s (s\<lparr>rq_ctx := apply_storage_op (base_api (lib_api lib)) opr (rq_ctx s)\<rparr>)"
| step_detach: "rid = None \<or> get_instance_id (scope_context_id scp) \<noteq> rid \<Longrightarrow>
    request_step env lib inp rid s
      (s\<lparr>rq_ctx := snd (snd (scope_detach (base_api (lib_api lib)) (lib_unowned lib) scp (rq_ctx s)))\<rparr>)"
| step_span: "run_span_method env (lib_api lib) sp m args (rq_calls s, rq_ctx s) = (r, calls, st) \<Longrightarrow>
    request_step env lib inp rid s (s\<lparr>rq_calls := calls, rq_ctx := st\<rparr>)"
| step_tracer: "request_step env lib inp rid s
    (s\<lparr>rq_tracer := snd (get_tracer_provider (lib_digest lib) (lib_transport lib) (lib_exporter lib) False
       (rq_disabled inp s) pid (proc_env (rq_env s)) (rq_span_limits s) (rq_tracer s))\<rparr>)"
| step_signals: "request_step env lib inp rid s
    (s\<lparr>rq_logger := logger_init_once (lib_digest lib) (lib_signal lib) pid (proc_env (rq_env s)) (rq_logger s),
      rq_meter := meter_init_once (lib_digest lib) (lib_signal lib) pid (proc_env (rq_env s)) (rq_meter s)\<rparr>)"
| step_read: "request_step env lib inp rid s
    (s\<lparr>rq_capture := snd (capture (proc_env (rq_env s)) (rq_capture s)),
      rq_limits := snd (attribute_limit_config (proc_env (rq_env s)) (rq_limits s))\<rparr>)"

definition caches_hold :: "digest \<Rightarrow> os_env \<Rightarrow> ('c, 'sc, 'f) request_state \<Rightarrow> bool" where
  "caches_hold digest e0 s \<longleftrightarrow>
     request_capture (rq_capture s) = Some (fst (capture_from_env e0))
   \<and> rq_limits s = Some (attribute_limits_from_env e0)
   \<and> request_hash (rq_tracer s) = Some (compute_config_hash digest e0)
   \<and> request_hash (rq_logger s) = Some (digest (config_inputs LOG_CONFIG_NAMES e0))
   \<and> request_hash (rq_meter s) = Some (digest (config_inputs METRIC_CONFIG_NAMES e0))"

definition root_kept ::
  "'c option \<Rightarrow> nat option \<Rightarrow> ('c, 'f) native_context \<Rightarrow> ('c, 'sc, 'f) request_state \<Rightarrow> bool" where
  "root_kept g rid n s \<longleftrightarrow>
     rq_guard s = g \<and> rq_context_id s = rid
   \<and> (\<forall>i. rid = Some i \<longrightarrow> contexts (rq_ctx s) i = Some n \<and> i < instance_counter (rq_ctx s))"

definition env_kept :: "(nat \<rightharpoonup> (string \<times> string) list) \<Rightarrow> ('c, 'sc, 'f) request_state \<Rightarrow> bool" where
  "env_kept b s \<longleftrightarrow> env_backup (rq_env s) = b"

text \<open>The storage keeps the context of the root span.\<close>

lemma set_active_contexts [simp]:
  "contexts (snd (with_active_stack f st)) = contexts st"
  "instance_counter (snd (with_active_stack f st)) = instance_counter st"
  by (simp_all add: with_active_stack_lens)

lemma detach_keeps:
  assumes "contexts st i = Some n" and "iid \<noteq> Some i"
  shows "contexts (snd (detach_context api iid e st)) i = Some n"
    and "instance_counter (snd (detach_context api iid e st)) = instance_counter st"
  using assms
  by (auto simp: detach_context_def move_detached_span_context_def Let_def split: option.splits list.splits)

lemma storage_op_keeps:
  assumes "op_avoids (Some i) opr" and "contexts st i = Some n" and "i < instance_counter st"
  shows "contexts (apply_storage_op api opr st) i = Some n \<and> i < instance_counter (apply_storage_op api opr st)"
proof (cases opr)
  case (Attach iid)
  with assms show ?thesis
    by (auto simp: attach_context_def Let_def split: option.splits)
next
  case (Detach iid e)
  with assms detach_keeps [OF assms(2), of iid api e] show ?thesis by simp
next
  case Current
  with assms show ?thesis by (simp add: current_context_instance_id_def)
next
  case (Fork e)
  with assms show ?thesis
    using set_active_contexts [of "\<lambda>x. (x, x)" st] by (auto simp: fork_execution_def case_prod_beta')
next
  case (StoreInstance m)
  with assms show ?thesis by (simp add: store_context_instance_def Let_def)
qed (use assms in \<open>auto simp: switch_execution_def destroy_execution_def remove_context_instance_def hook_attach_def hook_release_def split: prod.splits\<close>)

lemma scope_detach_keeps:
  assumes "get_instance_id (scope_context_id scp) \<noteq> Some i" and "contexts st i = Some n"
  shows "contexts (snd (snd (scope_detach api unowned scp st))) i = Some n
    \<and> instance_counter (snd (snd (scope_detach api unowned scp st))) = instance_counter st"
proof -
  have none: "detach_context api None e st \<noteq> (0, u)" for e u by (simp add: detach_context_def DETACHED_def)
  show ?thesis
    using assms detach_keeps [OF assms(2), of "get_instance_id (scope_context_id scp)" api "scope_execution scp"] none
    by (auto simp: scope_detach_def Let_def maybe_remove_local_root_span_def maybe_remove_context_instance_def
        split: prod.splits option.splits)
qed

lemma span_method_keeps:
  "run_span_method env api sp m args (calls, st) = (r, calls', st') \<Longrightarrow>
     contexts st' = contexts st \<and> instance_counter st' = instance_counter st"
  by (auto simp: run_span_method_def remove_detached_span_context_def split: sum.splits span_method.splits option.splits)

lemma tracer_hash_kept [simp]:
  "request_hash (tracer_init_once digest lib xlib pid env limits st) = request_hash st"
  by (simp add: tracer_init_once_def tracer_init_key_def insert_provider_def split: prod.split provider_spec.split)

lemma request_step_keeps:
  assumes "request_step env lib inp rid s t" and "caches_hold digest e0 s" and "root_kept g rid n s" and "env_kept b s"
  shows "caches_hold digest e0 t \<and> root_kept g rid n t \<and> env_kept b t"
  using assms
proof (cases rule: request_step.cases)
  case (step_env e)
  with assms(2-4) show ?thesis by (simp add: caches_hold_def root_kept_def env_kept_def)
next
  case (step_storage opr)
  with assms(2-4) storage_op_keeps [of _ opr "rq_ctx s" n "base_api (lib_api lib)"] show ?thesis
    by (auto simp: caches_hold_def root_kept_def env_kept_def)
next
  case (step_detach scp)
  with assms(2-4) scope_detach_keeps [of scp _ "rq_ctx s" n "base_api (lib_api lib)" "lib_unowned lib"] show ?thesis
    by (auto simp: caches_hold_def root_kept_def env_kept_def)
next
  case (step_span sp m args r calls st)
  with assms(2-4) span_method_keeps [OF step_span(2)] show ?thesis
    by (auto simp: caches_hold_def root_kept_def env_kept_def)
next
  case (step_tracer pid)
  with assms(2-4) show ?thesis
    by (simp add: caches_hold_def root_kept_def env_kept_def snd_get_tracer_provider)
next
  case (step_signals pid)
  with assms(2-4) show ?thesis
    by (simp add: caches_hold_def root_kept_def env_kept_def logger_init_once_def meter_init_once_def)
next
  case step_read
  with assms(2-4) show ?thesis
    by (simp add: caches_hold_def root_kept_def env_kept_def capture_def attribute_limit_config_def)
qed

lemma request_steps_keep:
  assumes "(request_step env lib inp rid)\<^sup>*\<^sup>* s t" and "caches_hold digest e0 s" and "root_kept g rid n s" and "env_kept b s"
  shows "caches_hold digest e0 t \<and> root_kept g rid n t \<and> env_kept b t"
  using assms by (induction rule: rtranclp_induct) (auto dest: request_step_keeps)

section \<open>From start to end\<close>

definition storage_empty :: "('c, 'f) ctx_storage \<Rightarrow> bool" where
  "storage_empty st \<longleftrightarrow>
     contexts st = (\<lambda>_. None) \<and> detached_spans st = (\<lambda>_. None) \<and> guard_stack st = [] \<and> attached st = []
   \<and> main_stack st = []
   \<and> fork_stacks st = (\<lambda>_. None) \<and> current_execution st = None \<and> local_root_span_id st = None"

text \<open>Nothing in the state belongs to a request.\<close>

definition request_clean :: "('c, 'sc, 'f) request_state \<Rightarrow> bool" where
  "request_clean s \<longleftrightarrow>
     rq_guard s = None \<and> rq_context_id s = None \<and> storage_empty (rq_ctx s)
   \<and> request_capture (rq_capture s) = None \<and> rq_limits s = None
   \<and> request_hash (rq_tracer s) = None \<and> request_hash (rq_logger s) = None \<and> request_hash (rq_meter s) = None"

lemma begin_caches_hold: "caches_hold digest (proc_env (rq_env s)) (begin_caches digest s)"
  by (simp add: caches_hold_def begin_caches_def Let_def capture_begin_request_def read_capture_def
      begin_request_attribute_limits_def tracer_begin_request_def logger_begin_request_def meter_begin_request_def
      begin_hash_def compute_config_hash_def split: prod.splits)

lemma begin_caches_frame [simp]:
  "rq_env (begin_caches digest s) = rq_env s" "rq_guard (begin_caches digest s) = rq_guard s"
  "rq_context_id (begin_caches digest s) = rq_context_id s" "rq_ctx (begin_caches digest s) = rq_ctx s"
  "rq_calls (begin_caches digest s) = rq_calls s"
  by (simp_all add: begin_caches_def Let_def)

lemma init_providers_hold:
  "caches_hold digest e0 s \<Longrightarrow> caches_hold digest e0 (init_providers lib inp s)"
  "rq_env (init_providers lib inp s) = rq_env s" "rq_guard (init_providers lib inp s) = rq_guard s"
  "rq_context_id (init_providers lib inp s) = rq_context_id s" "rq_ctx (init_providers lib inp s) = rq_ctx s"
  by (simp_all add: init_providers_def Let_def caches_hold_def logger_init_once_def meter_init_once_def)

lemma request_init_span_cases:
  assumes "caches_hold digest e0 s"
  obtains "request_init_span lib inp s = s"
  | c i where "rq_guard (request_init_span lib inp s) = Some c"
    and "root_kept (Some c) (Some i) (native_new c) (request_init_span lib inp s)"
    and "caches_hold digest e0 (request_init_span lib inp s)"
    and "rq_env (request_init_span lib inp s) = rq_env s"
proof (cases "root_span_name inp")
  case None
  then show thesis using that(1) by (simp add: request_init_span_def)
next
  case (Some name)
  obtain provider tr where g: "get_tracer_provider (lib_digest lib) (lib_transport lib) (lib_exporter lib)
      (in_module_disabled inp) (rq_disabled inp s) (in_pid inp) (proc_env (rq_env s)) (rq_span_limits s) (rq_tracer s)
      = (provider, tr)" by fastforce
  define c where "c = lib_with_span lib (lib_build_span lib provider name (root_attributes lib inp s)
      (propagated_context lib inp s)) (rq_current lib s)"
  let ?t = "request_init_span lib inp s"
  have tr: "request_hash tr = request_hash (rq_tracer s)"
    using snd_get_tracer_provider [of "lib_digest lib" "lib_transport lib" "lib_exporter lib" "in_module_disabled inp"
        "rq_disabled inp s" "in_pid inp" "proc_env (rq_env s)" "rq_span_limits s" "rq_tracer s"] by (simp add: g)
  have t: "rq_guard ?t = Some c" "rq_context_id ?t = Some (instance_counter (rq_ctx s))" "rq_env ?t = rq_env s"
    "contexts (rq_ctx ?t) (instance_counter (rq_ctx s)) = Some (native_new c)"
    "instance_counter (rq_ctx ?t) = instance_counter (rq_ctx s) + 1"
    "rq_capture ?t = rq_capture s" "rq_limits ?t = rq_limits s" "rq_tracer ?t = tr" "rq_logger ?t = rq_logger s"
    "rq_meter ?t = rq_meter s"
    by (simp_all add: request_init_span_def Some g Let_def c_def store_context_instance_def store_local_root_span_def)
  then have "root_kept (Some c) (Some (instance_counter (rq_ctx s))) (native_new c) ?t" by (simp add: root_kept_def)
  moreover have "caches_hold digest e0 ?t" using assms t tr by (simp add: caches_hold_def)
  ultimately show thesis using t that(2) by blast
qed

lemma on_request_init_cases:
  assumes "on_request_init lib inp s0 = Some s1" and "\<not> in_module_disabled inp"
    and "rq_guard s0 = None" and "rq_context_id s0 = None"
  obtains (untraced) "rq_guard s1 = None" and "rq_context_id s1 = None"
    and "caches_hold (lib_digest lib) (proc_env (rq_env s1)) s1"
    and "init_environment (in_dotenv inp) (in_from_server inp) (in_metadata inp) (in_canonicalize inp)
      (in_from_path_iter inp) (in_pid inp) (in_server inp) (rq_env s0) = Some (rq_env s1)"
  | (traced) c i where "rq_guard s1 = Some c" and "root_kept (Some c) (Some i) (native_new c) s1"
    and "caches_hold (lib_digest lib) (proc_env (rq_env s1)) s1"
    and "init_environment (in_dotenv inp) (in_from_server inp) (in_metadata inp) (in_canonicalize inp)
      (in_from_path_iter inp) (in_pid inp) (in_server inp) (rq_env s0) = Some (rq_env s1)"
proof -
  let ?b = "\<lambda>env. begin_caches (lib_digest lib) (s0\<lparr>rq_env := env\<rparr>)"
  let ?p = "\<lambda>env. (init_providers lib inp (?b env))\<lparr>rq_propagator := True\<rparr>"
  from assms(1,2) obtain env where env: "init_environment (in_dotenv inp) (in_from_server inp) (in_metadata inp)
      (in_canonicalize inp) (in_from_path_iter inp) (in_pid inp) (in_server inp) (rq_env s0) = Some env"
    and s1: "s1 = (if rq_disabled inp (?b env) then ?b env else request_init_span lib inp (?p env))"
    by (auto simp: on_request_init_def Let_def)
  have b: "caches_hold (lib_digest lib) (proc_env env) (?b env)"
    using begin_caches_hold [of "lib_digest lib" "s0\<lparr>rq_env := env\<rparr>"] by simp
  have "caches_hold (lib_digest lib) (proc_env env) (init_providers lib inp (?b env))"
    using init_providers_hold(1) [OF b] .
  then have p: "caches_hold (lib_digest lib) (proc_env env) (?p env)" by (simp add: caches_hold_def)
  have frame: "rq_env (?b env) = env" "rq_env (?p env) = env" "rq_guard (?b env) = None" "rq_guard (?p env) = None"
    "rq_context_id (?b env) = None" "rq_context_id (?p env) = None"
    using assms(3,4) by (simp_all add: init_providers_hold)
  consider "s1 = ?b env" | "s1 = request_init_span lib inp (?p env)" using s1 by (auto split: if_splits)
  then show thesis
  proof cases
    case 1
    with b frame env untraced show thesis by simp
  next
    case 2
    from p show thesis
    proof (cases rule: request_init_span_cases [where lib = lib and inp = inp])
      case 1
      with 2 have "s1 = ?p env" by simp
      with p frame env untraced show thesis by simp
    next
      case (2 c i)
      with \<open>s1 = request_init_span lib inp (?p env)\<close> frame env traced show thesis by simp
    qed
  qed
qed

lemma http_end_calls_cached:
  assumes "caches_hold digest e0 s"
  shows "http_end_calls inp (s\<lparr>rq_env := env, rq_context_id := x\<rparr>) = http_end_calls inp s"
proof -
  have "capture e (rq_capture s) = (fst (capture_from_env e0), rq_capture s)"
    "attribute_limit_config e (rq_limits s) = (attribute_limits_from_env e0, rq_limits s)" for e
    using assms by (simp_all add: caches_hold_def capture_def attribute_limit_config_def)
  then show ?thesis by (simp add: http_end_calls_def php_error_to_auto_attributes_def Let_def split: option.splits zval.splits)
qed

text \<open>The end of a request whose root context is still stored.\<close>

lemma on_request_shutdown_clean:
  assumes "\<not> in_module_disabled inp" and env: "restore_env (in_pid inp) (rq_env s) = Some env"
    and caches: "caches_hold digest e0 s"
    and root: "rq_guard s = None \<and> rq_context_id s = None
      \<or> (\<exists>c i. rq_guard s = Some c \<and> root_kept (Some c) (Some i) (native_new c) s)"
  shows "\<exists>s3. on_request_shutdown lib inp s = Some s3 \<and> request_clean s3 \<and> rq_env s3 = env
    \<and> rq_calls s3 = (case rq_guard s of
          Some c \<Rightarrow>
            if lib_valid lib (ctx_span_context (base_api (lib_api lib)) c)
            then (rq_calls s)(ctx_span (lib_api lib) c :=
                    rq_calls s (ctx_span (lib_api lib) c) @ http_end_calls inp s @ [CallEnd None])
            else rq_calls s
        | None \<Rightarrow> rq_calls s)"
  using root
proof
  assume "rq_guard s = None \<and> rq_context_id s = None"
  with assms(1) env show ?thesis
    by (simp add: on_request_shutdown_def request_shutdown_def Let_def end_caches_def request_clean_def
        storage_empty_def clear_context_storage_def clear_request_state_def capture_end_request_def
        end_request_attribute_limits_def tracer_end_request_def logger_end_request_def meter_end_request_def end_hash_def)
next
  assume "\<exists>c i. rq_guard s = Some c \<and> root_kept (Some c) (Some i) (native_new c) s"
  then obtain c i where c: "rq_guard s = Some c" "rq_context_id s = Some i" "contexts (rq_ctx s) i = Some (native_new c)"
    by (auto simp: root_kept_def)
  then have "get_context_instance (Some i) (rq_ctx s) = Some (native_new c)" by (simp add: get_context_instance_def)
  moreover have n: "otel_context (native_new c) = c" by (simp add: native_new_def)
  ultimately show ?thesis
    using assms(1) env c http_end_calls_cached [OF caches]
    by (simp add: n on_request_shutdown_def request_shutdown_def close_root_span_def Let_def end_caches_def
        request_clean_def storage_empty_def clear_context_storage_def clear_request_state_def capture_end_request_def
        end_request_attribute_limits_def tracer_end_request_def logger_end_request_def meter_end_request_def end_hash_def)
qed

section \<open>An instance\<close>

text \<open>
  A GET request of process 7, whose server variables replace \<open>OTEL_SERVICE_NAME\<close>, answered with
  status 500; every context carries the same identity and the root span is span 1.
\<close>

definition example_input :: "unit request_input" where
  "example_input =
     \<lparr>in_module_disabled = False, in_dotenv = False, in_from_server = True, in_metadata = (\<lambda>_. False),
      in_canonicalize = (\<lambda>_. None), in_from_path_iter = (\<lambda>_. None), in_pid = 7,
      in_server = Some [(KStr ''OTEL_SERVICE_NAME'', ZStr ''b'')], in_info_uri = None, in_method = Some ''GET'',
      in_sapi = ''fpm-fcgi'', in_trace_cli = False, in_response_code = 500, in_last_error = None\<rparr>"

definition example_lib :: "(byte_context, byte_context, string, unit) request_lib" where
  "example_lib =
     \<lparr>lib_digest = (\<lambda>kvs. concat (map snd kvs)),
      lib_transport = \<lparr>parse_url = (\<lambda>_. None), fs_read = (\<lambda>_. Err []), pem_certificates = (\<lambda>_. False),
        pem_private_key = (\<lambda>_. False), header_name_from_str = (\<lambda>_. None), header_value_from_bytes = (\<lambda>_. None),
        header_value_visible = (\<lambda>_. False)\<rparr>,
      lib_exporter = \<lparr>http_client_builds = (\<lambda>_ _. False), http_exporter_builds = (\<lambda>_ _. False), runtime_starts = False,
        grpc_exporter_builds = (\<lambda>_ _. False), processor_starts = (\<lambda>_. False)\<rparr>,
      lib_signal = \<lparr>http_signal_exporter = False, tokio_runtime = False, grpc_signal_exporter = False\<rparr>,
      lib_url = text_url_api, lib_api = example_api, lib_valid = (\<lambda>sc. sc \<noteq> sc_empty byte_sdk),
      lib_root_context = sc_empty byte_sdk, lib_with_span = (\<lambda>_ _. example_identity 3),
      lib_build_span = (\<lambda>_ _ _ _. 1), lib_extract = (\<lambda>_. sc_empty byte_sdk), lib_unowned = (\<lambda>_. True)\<rparr>"

definition example_start :: "(byte_context, byte_context, unit) request_state" where
  "example_start =
     \<lparr>rq_env = \<lparr>proc_env = [(''PATH'', ''/bin''), (''OTEL_SERVICE_NAME'', ''a'')], env_backup = Map.empty\<rparr>,
      rq_capture = \<lparr>request_capture = None, invalid_value_warned = False\<rparr>, rq_limits = None,
      rq_tracer = \<lparr>providers = [], request_hash = None, next_instance = 1\<rparr>,
      rq_logger = \<lparr>providers = [], request_hash = None\<rparr>, rq_meter = \<lparr>providers = [], request_hash = None\<rparr>,
      rq_ctx = storage_init 1, rq_guard = None, rq_context_id = None, rq_propagator = False, rq_calls = (\<lambda>_. [])\<rparr>"

lemma example_start_clean: "request_clean example_start"
  by (simp add: request_clean_def example_start_def storage_empty_def storage_init_def)

lemma example_init:
  "\<exists>s1. on_request_init example_lib example_input example_start = Some s1 \<and> rq_guard s1 = Some (example_identity 3)
     \<and> proc_env (rq_env s1) = [(''PATH'', ''/bin''), (''OTEL_SERVICE_NAME'', ''b'')] \<and> rq_calls s1 = (\<lambda>_. [])"
proof -
  let ?env = "[(''PATH'', ''/bin''), (''OTEL_SERVICE_NAME'', ''a'')]"
  let ?env1 = "[(''PATH'', ''/bin''), (''OTEL_SERVICE_NAME'', ''b'')]"
  let ?server = "Some [(KStr ''OTEL_SERVICE_NAME'', ZStr ''b'')] :: unit server"
  have vars: "env_vars ?env = Some ?env" by code_simp
  have svars: "get_server_vars_with_prefix ''OTEL_'' ?server = [(''OTEL_SERVICE_NAME'', ''b'')]" by code_simp
  have set: "set_vars [(''OTEL_SERVICE_NAME'', ''b'')] ?env = Some ?env1" by code_simp
  have "\<exists>b. init_environment False True (\<lambda>_. False) (\<lambda>_. None) (\<lambda>_. None) 7 ?server
      \<lparr>proc_env = ?env, env_backup = Map.empty\<rparr> = Some \<lparr>proc_env = ?env1, env_backup = b\<rparr>"
    unfolding init_environment_def backup_env_def set_env_from_server_def
    by (simp add: vars svars set del: set_vars.simps)
  then obtain b where init: "init_environment False True (\<lambda>_. False) (\<lambda>_. None) (\<lambda>_. None) 7 ?server
      \<lparr>proc_env = ?env, env_backup = Map.empty\<rparr> = Some \<lparr>proc_env = ?env1, env_backup = b\<rparr>" by blast
  have enabled: "\<not> is_disabled ?env1 ?server None" by code_simp
  have "rq_guard (request_init_span example_lib example_input s) = Some (example_identity 3)"
    "rq_env (request_init_span example_lib example_input s) = rq_env s"
    "rq_calls (request_init_span example_lib example_input s) = rq_calls s" for s
    by (simp_all add: request_init_span_def root_span_name_def example_input_def example_lib_def Let_def
        split: prod.split)
  moreover have "in_dotenv example_input = False" "in_from_server example_input = True" "in_metadata example_input = (\<lambda>_. False)"
    "in_canonicalize example_input = (\<lambda>_. None)" "in_from_path_iter example_input = (\<lambda>_. None)"
    "in_pid example_input = 7" "in_server example_input = ?server" "in_info_uri example_input = None"
    "in_module_disabled example_input = False" "rq_env example_start = \<lparr>proc_env = ?env, env_backup = Map.empty\<rparr>"
    "rq_calls example_start = (\<lambda>_. [])"
    by (simp_all add: example_input_def example_start_def)
  moreover have "rq_calls (init_providers example_lib example_input s) = rq_calls s" for s
    by (simp add: init_providers_def Let_def)
  ultimately show ?thesis
    using enabled by (simp add: on_request_init_def init init_providers_hold rq_disabled_def)
qed

text \<open>
  Where the end of a request stops early. The environment is restored first, and \<open>env::vars\<close> panics on a
  variable that is not Unicode: then nothing of the request is cleared. And when the context of the
  root span has gone, the guard and the stored contexts stay.
\<close>

lemma shutdown_stops_at_restore:
  assumes "\<not> in_module_disabled inp" and "env_backup (rq_env s) (in_pid inp) \<noteq> None"
    and "env_vars (proc_env (rq_env s)) = None"
  shows "on_request_shutdown lib inp s = None"
  using assms by (auto simp: on_request_shutdown_def request_shutdown_def restore_env_def)

lemma shutdown_keeps_guard_without_root:
  assumes "\<not> in_module_disabled inp" and "restore_env (in_pid inp) (rq_env s) = Some env"
    and "rq_context_id s = Some i" and "get_context_instance (Some i) (rq_ctx s) = None"
  shows "\<exists>s'. on_request_shutdown lib inp s = Some s' \<and> rq_guard s' = rq_guard s
    \<and> contexts (rq_ctx s') = contexts (rq_ctx s) \<and> guard_stack (rq_ctx s') = guard_stack (rq_ctx s)"
  using assms
  by (simp add: on_request_shutdown_def request_shutdown_def Let_def end_caches_def clear_request_state_def)

section \<open>Properties\<close>

text \<open>What the environment is like when the request is over.\<close>

lemma restore_after_request:
  assumes init: "init_environment d f metadata canonicalize iter pid server st0 = Some st1"
    and "env_backup st0 pid = None" and "env_ok (proc_env st0)"
    and kept: "env_backup st2 = env_backup st1"
    and "env_ok (proc_env st2)"
  shows "if (d \<or> f) \<and> env_vars (proc_env st2) = None then env_backup st2 pid \<noteq> None
    else \<exists>st3. restore_env pid st2 = Some st3 \<and>
      (if d \<or> f then restored_env (proc_env st0) (proc_env st2) (proc_env st3) else proc_env st3 = proc_env st2)"
proof (cases "d \<or> f")
  case True
  note i = init_environment_same [OF init True]
  have b: "env_backup st2 pid = Some (hash_collect (filter (\<lambda>(k, _). otel_name k) (proc_env st0)))"
    using i kept by simp
  show ?thesis
    using restore_env_backup [OF assms(3,5) _ b refl] True b by (cases "env_vars (proc_env st2) = None") auto
next
  case False
  with init have "st1 = st0" by (simp add: init_environment_def)
  with assms(2) kept False show ?thesis by (simp add: restore_env_def)
qed

text \<open>
  C21. A request leaves nothing behind. After any sequence of what PHP code may do during the request,
  the end of the request does not panic unless the environment is to be restored and some variable in it
  is not Unicode (\<open>shutdown_stops_at_restore\<close>). When it does not, no context, scope, guard or local
  root span is kept, no cached configuration survives, every \<open>OTEL_*\<close> variable is as it was before the
  request if the environment was replaced, and the root span, where there is one, has got the data of
  the response and has ended as the last of its calls. The environment is assumed to have unique names
  and \<open>OTEL_*\<close> names and values as an operating system allows them.
\<close>

theorem request_leaves_nothing_behind:
  assumes "on_request_init lib inp s0 = Some s1" and "\<not> in_module_disabled inp"
    and "request_clean s0" and "env_backup (rq_env s0) (in_pid inp) = None" and "env_ok (proc_env (rq_env s0))"
    and "(request_step env lib inp (rq_context_id s1))\<^sup>*\<^sup>* s1 s2"
    and "env_ok (proc_env (rq_env s2))"
  shows "if (in_dotenv inp \<or> in_from_server inp) \<and> env_vars (proc_env (rq_env s2)) = None
    then on_request_shutdown lib inp s2 = None
    else \<exists>s3. on_request_shutdown lib inp s2 = Some s3 \<and> request_clean s3
    \<and> (if in_dotenv inp \<or> in_from_server inp
       then restored_env (proc_env (rq_env s0)) (proc_env (rq_env s2)) (proc_env (rq_env s3))
       else proc_env (rq_env s3) = proc_env (rq_env s2))
    \<and> rq_calls s3 = (case rq_guard s1 of
          Some c \<Rightarrow>
            if lib_valid lib (ctx_span_context (base_api (lib_api lib)) c)
            then (rq_calls s2)(ctx_span (lib_api lib) c :=
                    rq_calls s2 (ctx_span (lib_api lib) c) @ http_end_calls inp s2 @ [CallEnd None])
            else rq_calls s2
        | None \<Rightarrow> rq_calls s2)"
proof -
  from assms(3) have "rq_guard s0 = None" "rq_context_id s0 = None" by (auto simp: request_clean_def)
  note cases = on_request_init_cases [OF assms(1,2) this]
  obtain n where start: "caches_hold (lib_digest lib) (proc_env (rq_env s1)) s1"
      "root_kept (rq_guard s1) (rq_context_id s1) n s1"
      "rq_guard s1 = None \<and> rq_context_id s1 = None \<or> (\<exists>c i. rq_guard s1 = Some c \<and> rq_context_id s1 = Some i \<and> n = native_new c)"
      "init_environment (in_dotenv inp) (in_from_server inp) (in_metadata inp) (in_canonicalize inp)
        (in_from_path_iter inp) (in_pid inp) (in_server inp) (rq_env s0) = Some (rq_env s1)"
    by (rule cases) (auto simp: root_kept_def)
  have "env_kept (env_backup (rq_env s1)) s1" by (simp add: env_kept_def)
  from request_steps_keep [OF assms(6) start(1,2) this]
  have s2: "caches_hold (lib_digest lib) (proc_env (rq_env s1)) s2" "root_kept (rq_guard s1) (rq_context_id s1) n s2"
    "env_backup (rq_env s2) = env_backup (rq_env s1)"
    by (simp_all add: env_kept_def)
  note restored = restore_after_request [OF start(4) assms(4,5) s2(3) assms(7)]
  show ?thesis
  proof (cases "(in_dotenv inp \<or> in_from_server inp) \<and> env_vars (proc_env (rq_env s2)) = None")
    case True
    then have "on_request_shutdown lib inp s2 = None"
      using restored assms(2) by (intro shutdown_stops_at_restore) auto
    with True show ?thesis by simp
  next
    case False
    then obtain e where e: "restore_env (in_pid inp) (rq_env s2) = Some e"
      "if in_dotenv inp \<or> in_from_server inp then restored_env (proc_env (rq_env s0)) (proc_env (rq_env s2)) (proc_env e)
       else proc_env e = proc_env (rq_env s2)" using restored by meson
    have root: "rq_guard s2 = None \<and> rq_context_id s2 = None
        \<or> (\<exists>c i. rq_guard s2 = Some c \<and> root_kept (Some c) (Some i) (native_new c) s2)"
      using start(3) s2(2) by (auto simp: root_kept_def)
    have "rq_guard s2 = rq_guard s1" using s2(2) by (simp add: root_kept_def)
    from on_request_shutdown_clean [OF assms(2) e(1) s2(1) root, of lib] \<open>rq_guard s2 = rq_guard s1\<close> obtain s3
      where "on_request_shutdown lib inp s2 = Some s3" "request_clean s3" "rq_env s3 = e"
        "rq_calls s3 = (case rq_guard s1 of
            Some c \<Rightarrow>
              if lib_valid lib (ctx_span_context (base_api (lib_api lib)) c)
              then (rq_calls s2)(ctx_span (lib_api lib) c :=
                      rq_calls s2 (ctx_span (lib_api lib) c) @ http_end_calls inp s2 @ [CallEnd None])
              else rq_calls s2
          | None \<Rightarrow> rq_calls s2)" by auto
    then show ?thesis unfolding if_not_P [OF False] using e(2) by blast
  qed
qed

theorem request_leaves_nothing_behind_witness:
  "\<exists>s1 s2 s3. on_request_init example_lib example_input example_start = Some s1 \<and> rq_guard s1 \<noteq> None
    \<and> (request_step example_env example_lib example_input (rq_context_id s1))\<^sup>*\<^sup>* s1 s2
    \<and> env_var (proc_env (rq_env s2)) ''OTEL_LOG'' = VarOk ''x''
    \<and> on_request_shutdown example_lib example_input s2 = Some s3 \<and> request_clean s3
    \<and> map_of (proc_env (rq_env s3)) = map_of [(''PATH'', ''/bin''), (''OTEL_SERVICE_NAME'', ''a'')]
    \<and> (\<exists>first. rq_calls s3 0 = first @ [CallEnd None])"
proof -
  let ?e = "[(''PATH'', ''/bin''), (''OTEL_SERVICE_NAME'', ''b''), (''OTEL_LOG'', ''x'')]"
  from example_init obtain s1 where s1: "on_request_init example_lib example_input example_start = Some s1"
    "rq_guard s1 = Some (example_identity 3)" "proc_env (rq_env s1) = [(''PATH'', ''/bin''), (''OTEL_SERVICE_NAME'', ''b'')]"
    by blast
  define s2 where "s2 = s1\<lparr>rq_env := (rq_env s1)\<lparr>proc_env := ?e\<rparr>\<rparr>"
  have steps: "(request_step example_env example_lib example_input (rq_context_id s1))\<^sup>*\<^sup>* s1 s2"
    unfolding s2_def by (intro r_into_rtranclp step_env)
  have e_s2: "proc_env (rq_env s2) = ?e" by (simp add: s2_def)
  have e: "env_ok ?e" "env_vars ?e \<noteq> None" "env_var ?e ''OTEL_LOG'' = VarOk ''x''" by code_simp+
  have ok: "env_ok (proc_env (rq_env s2))" "env_vars (proc_env (rq_env s2)) \<noteq> None"
    "env_var (proc_env (rq_env s2)) ''OTEL_LOG'' = VarOk ''x''"
    using e by (simp_all add: s2_def)
  have e0: "env_ok [(''PATH'', ''/bin''), (''OTEL_SERVICE_NAME'', ''a'')]" by code_simp
  have start: "env_ok (proc_env (rq_env example_start))" "env_backup (rq_env example_start) (in_pid example_input) = None"
    using e0 by (simp_all add: example_start_def)
  have inp: "\<not> in_module_disabled example_input" "in_from_server example_input" by (simp_all add: example_input_def)
  have valid: "lib_valid example_lib (ctx_span_context (base_api (lib_api example_lib)) (example_identity 3))"
    by (simp add: example_lib_def example_api_def example_identity_def byte_sdk_def)
  have "ctx_span (lib_api example_lib) (example_identity 3) = 0" by (simp add: example_lib_def example_api_def)
  with request_leaves_nothing_behind [OF s1(1) inp(1) example_start_clean start(2,1) steps ok(1)]
  obtain s3 where s3: "on_request_shutdown example_lib example_input s2 = Some s3" "request_clean s3"
    "restored_env (proc_env (rq_env example_start)) ?e (proc_env (rq_env s3))"
    "\<exists>first. rq_calls s3 0 = first @ [CallEnd None]"
    using inp(2) s1(2) valid ok(2) e_s2 by auto
  have "otel_name ''OTEL_LOG''" "otel_name ''OTEL_SERVICE_NAME''" by code_simp+
  then have "same_others ?e (proc_env (rq_env example_start))" by (auto simp: same_others_def example_start_def)
  with s3 have "map_of (proc_env (rq_env s3)) = map_of (proc_env (rq_env example_start))" by (simp add: restored_env_eq)
  then show ?thesis using s3(1,2,4) s1(1,2) steps ok(3) by (fastforce simp: example_start_def)
qed

text \<open>
  C22. The configuration of a request is fixed at its start: whatever PHP code does to the environment
  meanwhile, the switch for sensitive data, the attribute limits and the configuration hashes of the
  three kinds of providers are those of the environment with which the request began.
\<close>

theorem request_configuration_fixed:
  assumes "on_request_init lib inp s0 = Some s1" and "\<not> in_module_disabled inp" and "request_clean s0"
    and "(request_step env lib inp (rq_context_id s1))\<^sup>*\<^sup>* s1 s2"
  shows "fst (capture now (rq_capture s2)) = fst (capture_from_env (proc_env (rq_env s1)))
    \<and> fst (attribute_limit_config now (rq_limits s2)) = attribute_limits_from_env (proc_env (rq_env s1))
    \<and> request_hash (rq_tracer s2) = Some (compute_config_hash (lib_digest lib) (proc_env (rq_env s1)))
    \<and> request_hash (rq_logger s2) = Some (lib_digest lib (config_inputs LOG_CONFIG_NAMES (proc_env (rq_env s1))))
    \<and> request_hash (rq_meter s2) = Some (lib_digest lib (config_inputs METRIC_CONFIG_NAMES (proc_env (rq_env s1))))"
proof -
  from assms(3) have "rq_guard s0 = None" "rq_context_id s0 = None" by (auto simp: request_clean_def)
  note cases = on_request_init_cases [OF assms(1,2) this]
  obtain n where start: "caches_hold (lib_digest lib) (proc_env (rq_env s1)) s1"
      "root_kept (rq_guard s1) (rq_context_id s1) n s1"
    by (rule cases) (auto simp: root_kept_def)
  have "env_kept (env_backup (rq_env s1)) s1" by (simp add: env_kept_def)
  from request_steps_keep [OF assms(4) start this]
  have "caches_hold (lib_digest lib) (proc_env (rq_env s1)) s2" by simp
  then show ?thesis by (simp add: caches_hold_def capture_def attribute_limit_config_def)
qed

theorem request_configuration_fixed_witness:
  "\<exists>s1. on_request_init example_lib example_input example_start = Some s1
    \<and> fst (capture [(CAPTURE_SENSITIVE_DATA, ''true'')] (rq_capture s1)) = False"
proof -
  from example_init obtain s1 where s1: "on_request_init example_lib example_input example_start = Some s1"
    "proc_env (rq_env s1) = [(''PATH'', ''/bin''), (''OTEL_SERVICE_NAME'', ''b'')]" by blast
  have inp: "\<not> in_module_disabled example_input" by (simp add: example_input_def)
  have "fst (capture_from_env (proc_env (rq_env s1))) = False" unfolding s1 by code_simp
  with request_configuration_fixed [where env = example_env, OF s1(1) inp example_start_clean rtranclp.rtrancl_refl] s1(1)
  show ?thesis by fastforce
qed

end
