(* ===== verification/Log_Record.thy ===== *)
theory Log_Record
  imports Native_Span
begin

text \<open>
  Log records: \<open>logs/log_record.rs\<close>, \<open>logs/log_record_builder.rs\<close> and \<open>logs/severity.rs\<close>. PHP values become
  values of any depth up to 64; attributes are kept within the limits of the request; severities are
  numbers of the specification or names of PSR-3.

  The text Rust's \<open>Debug\<close> prints for an object, the objects behind handles and calls into PHP are in the
  record \<open>log_env\<close>.
\<close>

section \<open>Values\<close>

datatype (plugins del: size) 'f any_value =
  AnyBoolean bool
| AnyInt int
| AnyDouble 'f
| AnyString string
| AnyList "'f any_value list"
| AnyMap "(string \<times> 'f any_value) list"

definition MAX_VALUE_DEPTH :: nat where "MAX_VALUE_DEPTH = 64"

definition unlimited_any_value_limits :: attr_limits where
  "unlimited_any_value_limits =
     \<lparr>limit_count = usize_max, limit_key_length = usize_max, limit_value_length = usize_max,
      limit_array_length = usize_max\<rparr>"

definition any_key :: "zkey \<Rightarrow> string option" where
  "any_key k = (case k of KIndex i \<Rightarrow> Some (show_int i) | KStr s \<Rightarrow> to_str s)"

definition has_string_key :: "(zkey \<times> 'f zval) list \<Rightarrow> bool" where
  "has_string_key a = list_ex (\<lambda>(k, _). case k of KStr _ \<Rightarrow> True | KIndex _ \<Rightarrow> False) a"

text \<open>
  \<open>any_value_with_limits\<close>. A key that is not UTF-8 makes the whole map unusable; a value that cannot be
  converted is left out of its list or map.
\<close>

function any_value_with_limits :: "(nat \<Rightarrow> string) \<Rightarrow> attr_limits \<Rightarrow> nat \<Rightarrow> 'f zval \<Rightarrow> 'f any_value option"
  and any_items :: "(nat \<Rightarrow> string) \<Rightarrow> attr_limits \<Rightarrow> nat \<Rightarrow> (zkey \<times> 'f zval) list \<Rightarrow> 'f any_value list"
  and any_entries :: "(nat \<Rightarrow> string) \<Rightarrow> attr_limits \<Rightarrow> nat \<Rightarrow> (zkey \<times> 'f zval) list \<Rightarrow>
    (string \<times> 'f any_value) list \<Rightarrow> (string \<times> 'f any_value) list option" where
  "any_value_with_limits debug limits depth v =
     (if depth \<ge> MAX_VALUE_DEPTH then None
      else case v of
          ZNull \<Rightarrow> None
        | ZBool b \<Rightarrow> Some (AnyBoolean b)
        | ZLong i \<Rightarrow> Some (AnyInt i)
        | ZDouble d \<Rightarrow> Some (AnyDouble d)
        | ZStr b \<Rightarrow> map_option (\<lambda>t. AnyString (truncate_string t (limit_value_length limits))) (to_str b)
        | ZArr a \<Rightarrow>
            if has_string_key a
            then map_option AnyMap (any_entries debug limits (depth + 1) (take (limit_array_length limits) a) [])
            else Some (AnyList (any_items debug limits (depth + 1) (take (limit_array_length limits) a)))
        | ZObj h \<Rightarrow> Some (AnyString (truncate_string (debug h) (limit_value_length limits))))"
| "any_items debug limits depth [] = []"
| "any_items debug limits depth (e # es) =
     (case any_value_with_limits debug limits depth (snd e) of
        Some x \<Rightarrow> x # any_items debug limits depth es
      | None \<Rightarrow> any_items debug limits depth es)"
| "any_entries debug limits depth [] acc = Some acc"
| "any_entries debug limits depth (e # es) acc =
     (case any_key (fst e) of
        None \<Rightarrow> None
      | Some key \<Rightarrow>
          (case any_value_with_limits debug limits depth (snd e) of
             Some x \<Rightarrow> any_entries debug limits depth es (AList.update key x acc)
           | None \<Rightarrow> any_entries debug limits depth es acc))"
  by pat_completeness auto
termination
  by (relation "measures [\<lambda>x. case x of Inl (_, _, d, _) \<Rightarrow> MAX_VALUE_DEPTH - d
        | Inr (Inl (_, _, d, _)) \<Rightarrow> MAX_VALUE_DEPTH - d | Inr (Inr (_, _, d, _, _)) \<Rightarrow> MAX_VALUE_DEPTH - d,
      \<lambda>x. case x of Inl _ \<Rightarrow> 0 | Inr (Inl (_, _, _, es)) \<Rightarrow> 1 + length es | Inr (Inr (_, _, _, es, _)) \<Rightarrow> 1 + length es]")
    auto

declare any_value_with_limits.simps [simp del]

fun otel_value_to_any :: "'f otel_value \<Rightarrow> 'f any_value" where
  "otel_value_to_any (VBool b) = AnyBoolean b"
| "otel_value_to_any (VI64 i) = AnyInt i"
| "otel_value_to_any (VF64 d) = AnyDouble d"
| "otel_value_to_any (VString s) = AnyString s"
| "otel_value_to_any (VArray (ABool bs)) = AnyList (map AnyBoolean bs)"
| "otel_value_to_any (VArray (AI64 ints)) = AnyList (map AnyInt ints)"
| "otel_value_to_any (VArray (AF64 fs)) = AnyList (map AnyDouble fs)"
| "otel_value_to_any (VArray (AString ss)) = AnyList (map AnyString ss)"

section \<open>Severities\<close>

definition SEVERITY_CASES :: "(string \<times> int) list" where
  "SEVERITY_CASES =
     [(''TRACE'', 1), (''TRACE2'', 2), (''TRACE3'', 3), (''TRACE4'', 4),
      (''DEBUG'', 5), (''DEBUG2'', 6), (''DEBUG3'', 7), (''DEBUG4'', 8),
      (''INFO'', 9), (''INFO2'', 10), (''INFO3'', 11), (''INFO4'', 12),
      (''WARN'', 13), (''WARN2'', 14), (''WARN3'', 15), (''WARN4'', 16),
      (''ERROR'', 17), (''ERROR2'', 18), (''ERROR3'', 19), (''ERROR4'', 20),
      (''FATAL'', 21), (''FATAL2'', 22), (''FATAL3'', 23), (''FATAL4'', 24)]"

text \<open>\<open>fromPsr3\<close>: the name of the case, or an error with the text of PHP's \<open>ValueError\<close>.\<close>

definition psr3_case :: "string \<Rightarrow> string option" where
  "psr3_case level =
     map_of [(''debug'', ''DEBUG''), (''info'', ''INFO''), (''notice'', ''INFO2''), (''warning'', ''WARN''),
       (''error'', ''ERROR''), (''critical'', ''ERROR2''), (''alert'', ''ERROR3''), (''emergency'', ''FATAL'')] level"

definition from_psr3 :: "'f zval list \<Rightarrow> (php_error, string) result" where
  "from_psr3 args =
     result_bind (result_bind (arg_at args 0) expect_utf8) (\<lambda>text.
     let level = map to_ascii_lowercase text in
     case psr3_case level of
       Some c \<Rightarrow> Ok c
     | None \<Rightarrow> Err (BoxedError (''Unknown severity: '' @ level)))"

datatype otel_severity =
  SevTrace | SevTrace2 | SevTrace3 | SevTrace4 | SevDebug | SevDebug2 | SevDebug3 | SevDebug4
| SevInfo | SevInfo2 | SevInfo3 | SevInfo4 | SevWarn | SevWarn2 | SevWarn3 | SevWarn4
| SevError | SevError2 | SevError3 | SevError4 | SevFatal | SevFatal2 | SevFatal3 | SevFatal4

definition severity_of_number :: "int \<Rightarrow> otel_severity option" where
  "severity_of_number n =
     map_of [(1, SevTrace), (2, SevTrace2), (3, SevTrace3), (4, SevTrace4), (5, SevDebug), (6, SevDebug2),
       (7, SevDebug3), (8, SevDebug4), (9, SevInfo), (10, SevInfo2), (11, SevInfo3), (12, SevInfo4),
       (13, SevWarn), (14, SevWarn2), (15, SevWarn3), (16, SevWarn4), (17, SevError), (18, SevError2),
       (19, SevError3), (20, SevError4), (21, SevFatal), (22, SevFatal2), (23, SevFatal3), (24, SevFatal4)] n"

section \<open>The record\<close>

datatype ('t, 's) log_context = CtxCurrent | CtxNone | CtxExplicit "('t \<times> 's \<times> u8) option"

record ('t, 's, 'f) log_record_state =
  log_body :: "'f any_value option"
  log_severity :: "otel_severity option"
  log_severity_text :: "string option"
  log_attributes :: "(string \<times> 'f any_value) list"
  log_event_name :: "string option"
  log_timestamp :: "int option"
  log_observed :: "int option"
  log_context_choice :: "('t, 's) log_context"

definition log_record_default :: "('t, 's, 'f) log_record_state" where
  "log_record_default =
     \<lparr>log_body = None, log_severity = None, log_severity_text = None, log_attributes = [], log_event_name = None,
      log_timestamp = None, log_observed = None, log_context_choice = CtxCurrent\<rparr>"

record ('t, 's, 'ts, 'sc, 'c, 'f) log_env =
  log_sdk :: "('t, 's, 'ts, 'sc) trace_sdk"
  log_api :: "('c, 'sc) otel_api"
  log_config :: attr_limit_config
  log_iter :: "'f zval \<Rightarrow> (php_error, 'f zval) result"
  log_debug :: "nat \<Rightarrow> string"
  log_property :: "nat \<Rightarrow> 'f zval"
  log_object :: "nat \<Rightarrow> ('c, 'f) context_obj"
  log_throwable :: "nat \<Rightarrow> 'f throwable"

definition any_value :: "('t, 's, 'ts, 'sc, 'c, 'f) log_env \<Rightarrow> 'f zval \<Rightarrow> 'f any_value option" where
  "any_value env v = any_value_with_limits (log_debug env) unlimited_any_value_limits 0 v"

definition attribute_any_value :: "('t, 's, 'ts, 'sc, 'c, 'f) log_env \<Rightarrow> 'f zval \<Rightarrow> 'f any_value option" where
  "attribute_any_value env v = any_value_with_limits (log_debug env) (for_destination (log_config env) Log) 0 v"

definition set_any_attribute ::
  "string \<Rightarrow> 'f any_value \<Rightarrow> attr_limits \<Rightarrow> ('t, 's, 'f) log_record_state \<Rightarrow> ('t, 's, 'f) log_record_state" where
  "set_any_attribute key v limits r =
     (if key \<in> fst ` set (log_attributes r) then r\<lparr>log_attributes := AList.update key v (log_attributes r)\<rparr>
      else if length (log_attributes r) < limit_count limits
      then r\<lparr>log_attributes := log_attributes r @ [(key, v)]\<rparr>
      else r)"

definition set_attribute ::
  "('t, 's, 'ts, 'sc, 'c, 'f) log_env \<Rightarrow> string \<Rightarrow> 'f zval \<Rightarrow> ('t, 's, 'f) log_record_state \<Rightarrow>
     ('t, 's, 'f) log_record_state" where
  "set_attribute env key v r =
     (let limits = for_destination (log_config env) Log in
      if \<not> valid_attribute_key key limits then r
      else case attribute_any_value env v of
          None \<Rightarrow> r
        | Some x \<Rightarrow> set_any_attribute key x limits r)"

definition set_otel_attribute ::
  "('t, 's, 'ts, 'sc, 'c, 'f) log_env \<Rightarrow> 'f key_value \<Rightarrow> ('t, 's, 'f) log_record_state \<Rightarrow>
     ('t, 's, 'f) log_record_state" where
  "set_otel_attribute env kv r =
     (let limits = for_destination (log_config env) Log in
      if \<not> valid_attribute_key (fst kv) limits then r
      else set_any_attribute (fst kv) (otel_value_to_any (snd kv)) limits r)"

text \<open>A key that is not UTF-8 is an error, but what was set before it stays.\<close>

fun set_attributes_loop ::
  "('t, 's, 'ts, 'sc, 'c, 'f) log_env \<Rightarrow> (zkey \<times> 'f zval) list \<Rightarrow> ('t, 's, 'f) log_record_state \<Rightarrow>
     (php_error, unit) result \<times> ('t, 's, 'f) log_record_state" where
  "set_attributes_loop env [] r = (Ok (), r)"
| "set_attributes_loop env (e # es) r =
     (case any_key (fst e) of
        None \<Rightarrow> (Err Utf8Error, r)
      | Some key \<Rightarrow> set_attributes_loop env es (set_attribute env key (snd e) r))"

definition set_attributes ::
  "('t, 's, 'ts, 'sc, 'c, 'f) log_env \<Rightarrow> 'f zval \<Rightarrow> ('t, 's, 'f) log_record_state \<Rightarrow>
     (php_error, unit) result \<times> ('t, 's, 'f) log_record_state" where
  "set_attributes env v r =
     (case result_bind (zval_iterable_to_array (log_iter env) v) expect_arr of
        Inl e \<Rightarrow> (Err e, r)
      | Inr a \<Rightarrow> set_attributes_loop env a r)"

definition severity_number :: "('t, 's, 'ts, 'sc, 'c, 'f) log_env \<Rightarrow> 'f zval \<Rightarrow> (php_error, int) result" where
  "severity_number env v =
     (case v of
        ZLong n \<Rightarrow> Ok n
      | ZObj h \<Rightarrow> expect_long (log_property env h)
      | _ \<Rightarrow> expect_long v)"

definition set_severity ::
  "('t, 's, 'ts, 'sc, 'c, 'f) log_env \<Rightarrow> 'f zval \<Rightarrow> ('t, 's, 'f) log_record_state \<Rightarrow>
     (php_error, unit) result \<times> ('t, 's, 'f) log_record_state" where
  "set_severity env v r =
     (case severity_number env v of
        Inl e \<Rightarrow> (Err e, r)
      | Inr n \<Rightarrow> (Ok (), r\<lparr>log_severity := severity_of_number n\<rparr>))"

text \<open>A \<open>SystemTime\<close> is the number of nanoseconds since the epoch.\<close>

definition nanos_to_system_time :: "int \<Rightarrow> int" where
  "nanos_to_system_time nanos =
     (let duration = nat \<bar>nanos\<bar> in if nanos < 0 then 0 - int duration else 0 + int duration)"

definition trace_context ::
  "('t, 's, 'ts, 'sc, 'c, 'f) log_env \<Rightarrow> 'c \<Rightarrow> ('t \<times> 's \<times> u8) option" where
  "trace_context env c =
     (let sc = ctx_span_context (log_api env) c in
      if sc_valid (log_sdk env) sc
      then Some (sc_trace_id (log_sdk env) sc, sc_span_id (log_sdk env) sc, sc_flags (log_sdk env) sc) else None)"

definition set_context ::
  "('t, 's, 'ts, 'sc, 'c, 'f) log_env \<Rightarrow> ('c, 'f) ctx_storage \<Rightarrow> 'f zval \<Rightarrow> ('t, 's, 'f) log_record_state \<Rightarrow>
     (php_error, unit) result \<times> ('t, 's, 'f) log_record_state" where
  "set_context env st v r =
     (case v of
        ZNull \<Rightarrow> (Ok (), r\<lparr>log_context_choice := CtxCurrent\<rparr>)
      | ZBool False \<Rightarrow> (Ok (), r\<lparr>log_context_choice := CtxNone\<rparr>)
      | ZObj h \<Rightarrow>
          if is_native (log_object env h)
          then (case native_context_from_object (log_object env h) st of
              None \<Rightarrow> (Err (BoxedError ''Context object has no native context state''), r)
            | Some n \<Rightarrow> (Ok (), r\<lparr>log_context_choice := CtxExplicit (trace_context env (otel_context n))\<rparr>))
          else (Err (BoxedError ''unsupported ContextInterface implementation''), r)
      | _ \<Rightarrow> (Err (BoxedError ''unsupported ContextInterface implementation''), r))"

definition selected_trace_context ::
  "('t, 's, 'ts, 'sc, 'c, 'f) log_env \<Rightarrow> 'c \<Rightarrow> ('t, 's) log_context \<Rightarrow> ('t \<times> 's \<times> u8) option" where
  "selected_trace_context env current choice =
     (case choice of
        CtxCurrent \<Rightarrow> trace_context env current
      | CtxNone \<Rightarrow> None
      | CtxExplicit data \<Rightarrow> data)"

section \<open>Methods\<close>

text \<open>The result of a method and the record after it. \<open>on_arg\<close> is a setter that needs one argument.\<close>

type_synonym ('t, 's, 'f) log_outcome = "(php_error, unit) result \<times> ('t, 's, 'f) log_record_state"

definition on_arg ::
  "'f zval list \<Rightarrow> nat \<Rightarrow> ('f zval \<Rightarrow> (php_error, 'a) result) \<Rightarrow> ('a \<Rightarrow> ('t, 's, 'f) log_outcome) \<Rightarrow>
     ('t, 's, 'f) log_record_state \<Rightarrow> ('t, 's, 'f) log_outcome" where
  "on_arg args i conv k r = (case result_bind (arg_at args i) conv of Inl e \<Rightarrow> (Err e, r) | Inr x \<Rightarrow> k x)"

definition log_construct ::
  "('t, 's, 'ts, 'sc, 'c, 'f) log_env \<Rightarrow> 'f zval list \<Rightarrow> ('t, 's, 'f) log_record_state \<Rightarrow> ('t, 's, 'f) log_outcome" where
  "log_construct env args r =
     (Ok (), case args of v # _ \<Rightarrow> r\<lparr>log_body := any_value env v\<rparr> | [] \<Rightarrow> r)"

definition log_set_timestamp ::
  "'f zval list \<Rightarrow> ('t, 's, 'f) log_record_state \<Rightarrow> ('t, 's, 'f) log_outcome" where
  "log_set_timestamp args r =
     on_arg args 0 expect_long (\<lambda>n. (Ok (), r\<lparr>log_timestamp := Some (nanos_to_system_time n)\<rparr>)) r"

definition log_set_observed ::
  "'f zval list \<Rightarrow> ('t, 's, 'f) log_record_state \<Rightarrow> ('t, 's, 'f) log_outcome" where
  "log_set_observed args r =
     (Ok (), r\<lparr>log_observed := map_option nanos_to_system_time (case args of v # _ \<Rightarrow> as_long v | [] \<Rightarrow> None)\<rparr>)"

definition builder_set_observed ::
  "'f zval list \<Rightarrow> ('t, 's, 'f) log_record_state \<Rightarrow> ('t, 's, 'f) log_outcome" where
  "builder_set_observed args r =
     on_arg args 0 expect_long (\<lambda>n. (Ok (), r\<lparr>log_observed := Some (nanos_to_system_time n)\<rparr>)) r"

definition log_set_severity_text ::
  "'f zval list \<Rightarrow> ('t, 's, 'f) log_record_state \<Rightarrow> ('t, 's, 'f) log_outcome" where
  "log_set_severity_text args r = on_arg args 0 expect_utf8 (\<lambda>t. (Ok (), r\<lparr>log_severity_text := Some t\<rparr>)) r"

definition log_set_event_name ::
  "'f zval list \<Rightarrow> ('t, 's, 'f) log_record_state \<Rightarrow> ('t, 's, 'f) log_outcome" where
  "log_set_event_name args r = on_arg args 0 expect_utf8 (\<lambda>t. (Ok (), r\<lparr>log_event_name := Some t\<rparr>)) r"

definition log_set_body ::
  "('t, 's, 'ts, 'sc, 'c, 'f) log_env \<Rightarrow> 'f zval list \<Rightarrow> ('t, 's, 'f) log_record_state \<Rightarrow> ('t, 's, 'f) log_outcome" where
  "log_set_body env args r = on_arg args 0 Ok (\<lambda>v. (Ok (), r\<lparr>log_body := any_value env v\<rparr>)) r"

definition log_set_attribute ::
  "('t, 's, 'ts, 'sc, 'c, 'f) log_env \<Rightarrow> 'f zval list \<Rightarrow> ('t, 's, 'f) log_record_state \<Rightarrow> ('t, 's, 'f) log_outcome" where
  "log_set_attribute env args r =
     on_arg args 0 expect_utf8 (\<lambda>key. on_arg args 1 Ok (\<lambda>v. (Ok (), set_attribute env key v r)) r) r"

definition builder_set_exception ::
  "('t, 's, 'ts, 'sc, 'c, 'f) log_env \<Rightarrow> 'f zval list \<Rightarrow> ('t, 's, 'f) log_record_state \<Rightarrow> ('t, 's, 'f) log_outcome" where
  "builder_set_exception env args r =
     on_arg args 0 expect_obj (\<lambda>h.
       (Ok (), fold (set_otel_attribute env)
          (limit_key_values (log_config env) (php_exception_to_attributes (log_throwable env h)) Log) r)) r"

datatype log_method =
  LSetTimestamp | LSetObserved | LSetContext | LSetSeverity | LSetSeverityText | LSetBody | LSetAttribute
| LSetAttributes | LSetEventName | LConstruct | BSetObserved | BSetException

text \<open>The methods of a record, and of a builder (where \<open>setObservedTimestamp\<close> is another and
  \<open>setException\<close> is added).\<close>

definition record_method :: "log_method \<Rightarrow> bool" where
  "record_method m \<longleftrightarrow> m \<noteq> BSetObserved \<and> m \<noteq> BSetException"

definition builder_method :: "log_method \<Rightarrow> bool" where
  "builder_method m \<longleftrightarrow> m \<noteq> LSetObserved \<and> m \<noteq> LConstruct"

fun run_log_method ::
  "('t, 's, 'ts, 'sc, 'c, 'f) log_env \<Rightarrow> ('c, 'f) ctx_storage \<Rightarrow> log_method \<Rightarrow> 'f zval list \<Rightarrow>
     ('t, 's, 'f) log_record_state \<Rightarrow> ('t, 's, 'f) log_outcome" where
  "run_log_method env st LSetTimestamp args r = log_set_timestamp args r"
| "run_log_method env st LSetObserved args r = log_set_observed args r"
| "run_log_method env st LSetContext args r = on_arg args 0 Ok (\<lambda>v. set_context env st v r) r"
| "run_log_method env st LSetSeverity args r = on_arg args 0 Ok (\<lambda>v. set_severity env v r) r"
| "run_log_method env st LSetSeverityText args r = log_set_severity_text args r"
| "run_log_method env st LSetBody args r = log_set_body env args r"
| "run_log_method env st LSetAttribute args r = log_set_attribute env args r"
| "run_log_method env st LSetAttributes args r = on_arg args 0 Ok (\<lambda>v. set_attributes env v r) r"
| "run_log_method env st LSetEventName args r = log_set_event_name args r"
| "run_log_method env st LConstruct args r = log_construct env args r"
| "run_log_method env st BSetObserved args r = builder_set_observed args r"
| "run_log_method env st BSetException args r = builder_set_exception env args r"

definition run_log_methods ::
  "('t, 's, 'ts, 'sc, 'c, 'f) log_env \<Rightarrow> ('c, 'f) ctx_storage \<Rightarrow> (log_method \<times> 'f zval list) list \<Rightarrow>
     ('t, 's, 'f) log_record_state \<Rightarrow> ('t, 's, 'f) log_record_state" where
  "run_log_methods env st calls r = fold (\<lambda>(m, args) r. snd (run_log_method env st m args r)) calls r"

section \<open>Records within the limits\<close>

text \<open>A value nested at most \<open>n\<close> deep whose texts and collections fit.\<close>

primrec any_within :: "attr_limits \<Rightarrow> nat \<Rightarrow> 'f any_value \<Rightarrow> bool" where
  "any_within limits 0 x \<longleftrightarrow> False"
| "any_within limits (Suc n) x \<longleftrightarrow>
     (case x of
        AnyString s \<Rightarrow> fits (limit_value_length limits) s
      | AnyList xs \<Rightarrow> length xs \<le> limit_array_length limits \<and> (\<forall>y\<in>set xs. any_within limits n y)
      | AnyMap es \<Rightarrow> length es \<le> limit_array_length limits \<and> distinct (map fst es)
          \<and> (\<forall>e\<in>set es. any_within limits n (snd e))
      | _ \<Rightarrow> True)"

lemma length_any_items: "length (any_items debug limits depth es) \<le> length es"
  by (induction es) (auto split: option.split)

lemma length_update_le: "length (AList.update k v es) \<le> Suc (length es)"
  by (induction es) auto

lemma any_value_within:
  fixes v :: "'f zval" and items es :: "(zkey \<times> 'f zval) list"
  shows "any_value_with_limits debug limits depth v = Some x \<Longrightarrow> any_within limits (MAX_VALUE_DEPTH - depth) x"
  "\<forall>x\<in>set (any_items debug limits depth items). any_within limits (MAX_VALUE_DEPTH - depth) x"
  "any_entries debug limits depth es acc = Some m \<Longrightarrow> distinct (map fst acc) \<Longrightarrow>
     \<forall>e\<in>set acc. any_within limits (MAX_VALUE_DEPTH - depth) (snd e) \<Longrightarrow>
     distinct (map fst m) \<and> length m \<le> length acc + length es
       \<and> (\<forall>e\<in>set m. any_within limits (MAX_VALUE_DEPTH - depth) (snd e))"
proof (induction debug limits depth v and debug limits depth items and debug limits depth es acc
    arbitrary: x and and m rule: any_value_with_limits_any_items_any_entries.induct)
  case (1 debug limits depth v)
  note step = "1.prems" [unfolded any_value_with_limits.simps [of debug limits depth v]]
  from step have d: "\<not> MAX_VALUE_DEPTH \<le> depth" by (auto split: if_splits)
  then have n: "MAX_VALUE_DEPTH - depth = Suc (MAX_VALUE_DEPTH - (depth + 1))" by simp
  show ?case
  proof (cases v)
    case (ZArr a)
    let ?a = "take (limit_array_length limits) a"
    show ?thesis
    proof (cases "has_string_key a")
      case True
      with step d ZArr obtain m where m: "any_entries debug limits (depth + 1) ?a [] = Some m" "x = AnyMap m"
        by auto
      with "1.IH"(1) [OF d ZArr True m(1)] show ?thesis unfolding n by simp
    next
      case False
      with step d ZArr have "x = AnyList (any_items debug limits (depth + 1) ?a)" by simp
      with "1.IH"(2) [OF d ZArr False] length_any_items [of debug limits "depth + 1" ?a] show ?thesis
        unfolding n by simp
    qed
  qed (use step d n truncate_fits in auto)
next
  case (5 debug limits depth e es acc)
  obtain key where key: "any_key (fst e) = Some key" using "5.prems"(1) by (auto split: option.splits)
  show ?case
  proof (cases "any_value_with_limits debug limits depth (snd e)")
    case None
    with "5.prems"(1) key have "any_entries debug limits depth es acc = Some m" by simp
    from "5.IH"(2) [OF key None this "5.prems"(2,3)] show ?thesis by auto
  next
    case (Some y)
    with "5.prems"(1) key have m: "any_entries debug limits depth es (AList.update key y acc) = Some m" by simp
    have y: "any_within limits (MAX_VALUE_DEPTH - depth) y" using "5.IH"(1) [OF key Some] .
    have "snd f = y \<or> f \<in> set acc" if "f \<in> set (AList.update key y acc)" for f
      using that by (induction acc) (auto split: if_splits)
    with "5.prems"(3) y have "\<forall>f\<in>set (AList.update key y acc). any_within limits (MAX_VALUE_DEPTH - depth) (snd f)"
      by blast
    from "5.IH"(3) [OF key Some m distinct_update [OF "5.prems"(2)] this] length_update_le [of key y acc]
    show ?thesis by auto
  qed
qed (auto split: option.splits)

lemma otel_value_any_within:
  "any_within limits (Suc (Suc n)) (otel_value_to_any (limit_value v limits))"
  by (induction v limits rule: limit_value.induct) (auto simp: truncate_fits)

definition attributes_bounded :: "attr_limits \<Rightarrow> (string \<times> 'f any_value) list \<Rightarrow> bool" where
  "attributes_bounded limits as \<longleftrightarrow>
     distinct (map fst as) \<and> length as \<le> limit_count limits
   \<and> (\<forall>(k, v)\<in>set as. valid_attribute_key k limits \<and> any_within limits MAX_VALUE_DEPTH v)"

definition record_within ::
  "('t, 's, 'ts, 'sc, 'c, 'f) log_env \<Rightarrow> ('t, 's, 'f) log_record_state \<Rightarrow> bool" where
  "record_within env r \<longleftrightarrow>
     attributes_bounded (for_destination (log_config env) Log) (log_attributes r)
   \<and> (case log_body r of None \<Rightarrow> True | Some x \<Rightarrow> any_within unlimited_any_value_limits MAX_VALUE_DEPTH x)"

lemma record_withinI [inv_intros]:
  assumes "record_within env r" and "log_attributes r' = log_attributes r" and "log_body r' = log_body r"
  shows "record_within env r'"
  using assms by (simp add: record_within_def)

lemma body_within [inv_intros]: "record_within env r \<Longrightarrow> record_within env (r\<lparr>log_body := any_value env v\<rparr>)"
  using any_value_within(1) [of "log_debug env" unlimited_any_value_limits 0 v]
  by (auto simp: record_within_def any_value_def split: option.split)

lemma set_any_attribute_within:
  assumes "record_within env r" and "valid_attribute_key key (for_destination (log_config env) Log)"
    and "any_within (for_destination (log_config env) Log) MAX_VALUE_DEPTH x"
  shows "record_within env (set_any_attribute key x (for_destination (log_config env) Log) r)"
proof -
  have update: "k \<in> fst ` set es \<Longrightarrow> length (AList.update k v es) = length es" for k and v :: "'f any_value" and es
    by (induction es) auto
  have update2: "p = (k, v) \<or> p \<in> set es" if "p \<in> set (AList.update k v es)" for p k and v :: "'f any_value" and es
    using that by (induction es) (auto split: if_splits)
  let ?l = "for_destination (log_config env) Log" and ?as = "log_attributes r"
  from assms have as: "distinct (map fst ?as)" "length ?as \<le> limit_count ?l"
    "\<And>p. p \<in> set ?as \<Longrightarrow> valid_attribute_key (fst p) ?l \<and> any_within ?l MAX_VALUE_DEPTH (snd p)"
    by (auto simp: record_within_def attributes_bounded_def)
  have "attributes_bounded ?l (log_attributes (set_any_attribute key x ?l r))"
  proof (cases "key \<in> fst ` set ?as")
    case True
    with as(1,2) update [OF True, of x] have "distinct (map fst (AList.update key x ?as))" "length (AList.update key x ?as) \<le> limit_count ?l"
      by (simp_all add: distinct_update)
    moreover have "valid_attribute_key (fst p) ?l \<and> any_within ?l MAX_VALUE_DEPTH (snd p)"
      if "p \<in> set (AList.update key x ?as)" for p
      using update2 [OF that] as(3) [of p] assms(2,3) by (elim disjE) simp_all
    ultimately show ?thesis using True by (auto simp: attributes_bounded_def set_any_attribute_def)
  next
    case False
    with as assms(2,3) show ?thesis by (auto simp: attributes_bounded_def set_any_attribute_def)
  qed
  moreover have "log_body (set_any_attribute key x ?l r) = log_body r" by (simp add: set_any_attribute_def)
  ultimately show ?thesis using assms(1) by (simp add: record_within_def)
qed

lemma set_attribute_within [inv_intros]:
  assumes "record_within env r"
  shows "record_within env (set_attribute env key v r)"
proof -
  have "any_within (for_destination (log_config env) Log) MAX_VALUE_DEPTH x" if "attribute_any_value env v = Some x" for x
    using any_value_within(1) [of "log_debug env" "for_destination (log_config env) Log" 0 v x] that
    by (simp add: attribute_any_value_def)
  with assms set_any_attribute_within show ?thesis
    by (auto simp: set_attribute_def Let_def split: option.split)
qed

lemma set_attributes_loop_within: "record_within env r \<Longrightarrow> record_within env (snd (set_attributes_loop env es r))"
  by (induction env es r rule: set_attributes_loop.induct) (auto simp: set_attribute_within split: option.split)

lemma exception_within:
  assumes "record_within env r"
  shows "record_within env (fold (set_otel_attribute env) (limit_key_values (log_config env) kvs Log) r)"
proof -
  let ?l = "for_destination (log_config env) Log"
  have "\<exists>w. snd kv = limit_value w ?l" if "kv \<in> set (limit_key_values (log_config env) kvs Log)" for kv
    using that unfolding limit_key_values_def Let_def List.map_filter_def
    by (auto dest!: in_set_takeD split: if_splits) blast
  moreover have "any_within ?l MAX_VALUE_DEPTH (otel_value_to_any (limit_value w ?l))" for w :: "'f otel_value"
    using otel_value_any_within [of ?l 62 w] by (simp add: MAX_VALUE_DEPTH_def eval_nat_numeral)
  ultimately have "\<forall>kv\<in>set (limit_key_values (log_config env) kvs Log).
      any_within ?l MAX_VALUE_DEPTH (otel_value_to_any (snd kv))" by fastforce
  moreover have "record_within env (fold (set_otel_attribute env) xs r)"
    if "\<forall>kv\<in>set xs. any_within ?l MAX_VALUE_DEPTH (otel_value_to_any (snd kv))" for xs
    using that assms
  proof (induction xs arbitrary: r)
    case (Cons kv xs)
    then have "record_within env (set_otel_attribute env kv r)"
      by (simp add: set_otel_attribute_def Let_def set_any_attribute_within del: for_destination.simps)
    with Cons.IH Cons.prems(1) show ?case by (simp del: for_destination.simps)
  qed simp
  ultimately show ?thesis by blast
qed

lemma run_log_method_within:
  "record_within env r \<Longrightarrow> record_within env (snd (run_log_method env st m args r))"
proof (cases m)
  case LSetContext
  assume "record_within env r"
  with LSetContext show ?thesis
    by (auto simp: on_arg_def set_context_def split: sum.split zval.split option.split bool.split
        intro: record_withinI)
next
  case LSetAttribute
  assume "record_within env r"
  with LSetAttribute show ?thesis
    by (auto simp: on_arg_def log_set_attribute_def set_attribute_within split: sum.split)
next
  case LSetAttributes
  assume "record_within env r"
  with LSetAttributes show ?thesis
    by (auto simp: on_arg_def set_attributes_def set_attributes_loop_within split: sum.split)
qed (auto simp: on_arg_def log_set_timestamp_def log_set_observed_def builder_set_observed_def log_set_severity_text_def
    log_set_event_name_def log_set_body_def builder_set_exception_def log_construct_def set_severity_def body_within
    exception_within split: sum.split list.split intro: record_withinI)

section \<open>Severities\<close>

lemma severity_cases_agree:
  "map_of SEVERITY_CASES c = Some n \<Longrightarrow> 1 \<le> n \<and> n \<le> 24"
  by (auto simp: SEVERITY_CASES_def split: if_splits)

definition PSR3_LEVELS :: "string list" where
  "PSR3_LEVELS = [''debug'', ''info'', ''notice'', ''warning'', ''error'', ''critical'', ''alert'', ''emergency'']"

definition psr3_number :: "string \<Rightarrow> int option" where
  "psr3_number level = Option.bind (psr3_case level) (map_of SEVERITY_CASES)"

text \<open>The levels of PSR-3, from \<open>debug\<close> to \<open>emergency\<close>, have increasing numbers, all of them valid.\<close>

lemma psr3_numbers: "map psr3_number PSR3_LEVELS = map Some [5, 9, 10, 13, 17, 18, 19, 21]"
  by (simp add: PSR3_LEVELS_def psr3_number_def psr3_case_def SEVERITY_CASES_def)

lemma psr3_level: "psr3_case level \<noteq> None \<longleftrightarrow> level \<in> set PSR3_LEVELS"
  by (simp add: psr3_case_def PSR3_LEVELS_def)

lemma from_psr3_cases:
  assumes "valid_utf8 b"
  shows "from_psr3 [ZStr b] =
    (case psr3_case (map to_ascii_lowercase b) of
       Some c \<Rightarrow> Ok c | None \<Rightarrow> Err (BoxedError (''Unknown severity: '' @ map to_ascii_lowercase b)))"
  using assms by (simp add: from_psr3_def arg_at_def expect_utf8_def to_str_def Let_def)

section \<open>Properties\<close>

text \<open>
  C36. Whatever methods PHP code calls on a log record or a builder, with whatever values, the attributes of
  the record stay within the limits of the request: their keys are distinct, valid and no more than
  allowed, and texts and collections in their values fit at every level. The body is exempt from these
  limits; what holds of the body is that, like the attribute values, it is not nested deeper than 64.
\<close>

theorem log_record_within_limits:
  "record_within env (run_log_methods env st calls log_record_default)"
proof -
  have "record_within env r \<Longrightarrow> record_within env (run_log_methods env st calls r)" for r
  proof (induction calls arbitrary: r)
    case (Cons c calls)
    then show ?case
      by (cases c) (simp add: run_log_methods_def run_log_method_within del: run_log_method.simps)
  qed (simp add: run_log_methods_def)
  moreover have "record_within env log_record_default"
    by (simp add: record_within_def attributes_bounded_def log_record_default_def)
  ultimately show ?thesis by blast
qed

end
