(* ===== verification/Logger.thy ===== *)
theory Logger
  imports Log_Record
begin

text \<open>
  Emitting log records: \<open>logs/logger.rs\<close>, \<open>logs/event_logger.rs\<close> and the \<open>emit\<close> of
  \<open>logs/log_record_builder.rs\<close>. The texts the SDK keeps for ever are interned, at most 4096 of them in a
  process. The SDK's loggers are a type parameter; what is handed to them is a list of records.
\<close>

section \<open>Interned texts\<close>

definition MAX_INTERNED_LOG_STRINGS :: nat where "MAX_INTERNED_LOG_STRINGS = 4096"

definition CARDINALITY_FALLBACK :: string where "CARDINALITY_FALLBACK = ''<otel-cardinality-limit>''"

text \<open>The statics: the set of texts and whether the warning was logged.\<close>

record log_strings =
  log_strings :: "string set"
  cardinality_warning :: bool

definition no_log_strings :: log_strings where
  "no_log_strings = \<lparr>log_strings = {}, cardinality_warning = False\<rparr>"

definition intern_log_string :: "string \<Rightarrow> log_strings \<Rightarrow> string \<times> log_strings" where
  "intern_log_string v i =
     (if v \<in> log_strings i then (v, i)
      else if card (log_strings i) \<ge> MAX_INTERNED_LOG_STRINGS
      then (CARDINALITY_FALLBACK, i\<lparr>cardinality_warning := True\<rparr>)
      else (v, i\<lparr>log_strings := insert v (log_strings i)\<rparr>))"

definition intern_option :: "string option \<Rightarrow> log_strings \<Rightarrow> string option \<times> log_strings" where
  "intern_option v i =
     (case v of None \<Rightarrow> (None, i) | Some t \<Rightarrow> (let (u, i') = intern_log_string t i in (Some u, i')))"

section \<open>Emitting a record\<close>

text \<open>What the setters of the SDK's log record were called with; \<open>None\<close> when they were not.\<close>

record ('t, 's, 'f) sdk_log_record =
  out_severity :: "otel_severity option"
  out_body :: "'f any_value option"
  out_severity_text :: "string option"
  out_event_name :: "string option"
  out_timestamp :: "int option"
  out_observed :: "int option"
  out_trace_context :: "('t \<times> 's \<times> u8) option"
  out_attributes :: "(string \<times> 'f any_value) list"

text \<open>The process: the interned texts and the records given to each logger, in order.\<close>

record ('l, 't, 's, 'f) log_process =
  interner :: log_strings
  emitted :: "('l \<times> ('t, 's, 'f) sdk_log_record) list"

definition log_process_start :: "('l, 't, 's, 'f) log_process" where
  "log_process_start = \<lparr>interner = no_log_strings, emitted = []\<rparr>"

definition emit_state ::
  "('t, 's, 'ts, 'sc, 'c, 'f) log_env \<Rightarrow> 'c \<Rightarrow> 'l \<Rightarrow> ('t, 's, 'f) log_record_state \<Rightarrow>
     ('l, 't, 's, 'f) log_process \<Rightarrow> ('l, 't, 's, 'f) log_process" where
  "emit_state env current logger r p =
     (let (text, i1) = intern_option (log_severity_text r) (interner p);
          (event, i2) = intern_option (log_event_name r) i1;
          out = \<lparr>out_severity = log_severity r, out_body = log_body r, out_severity_text = text,
                 out_event_name = event, out_timestamp = log_timestamp r, out_observed = log_observed r,
                 out_trace_context = selected_trace_context env current (log_context_choice r),
                 out_attributes = log_attributes r\<rparr>
      in \<lparr>interner = i2, emitted = emitted p @ [(logger, out)]\<rparr>)"

section \<open>Loggers, builders and event loggers\<close>

text \<open>The state of a \<open>Logger\<close> and of an \<open>EventLogger\<close>.\<close>

record 'l logger_obj =
  logger_sdk :: "'l option"
  logger_enabled :: bool

record ('l, 't, 's, 'f) log_builder =
  builder_logger :: "'l option"
  builder_enabled :: bool
  builder_record :: "('t, 's, 'f) log_record_state"

text \<open>\<open>Logger::emit\<close>; \<open>records\<close> are the states of the record objects.\<close>

definition logger_emit ::
  "('t, 's, 'ts, 'sc, 'c, 'f) log_env \<Rightarrow> 'c \<Rightarrow> (nat \<Rightarrow> ('t, 's, 'f) log_record_state) \<Rightarrow> 'l logger_obj \<Rightarrow>
     'f zval list \<Rightarrow> ('l, 't, 's, 'f) log_process \<Rightarrow> (php_error, unit) result \<times> ('l, 't, 's, 'f) log_process" where
  "logger_emit env current records this args p =
     (if \<not> logger_enabled this then (Ok (), p)
      else case logger_sdk this of
          None \<Rightarrow> (Ok (), p)
        | Some logger \<Rightarrow>
            (case result_bind (arg_at args 0) expect_obj of
               Inl e \<Rightarrow> (Err e, p)
             | Inr h \<Rightarrow> (Ok (), emit_state env current logger (records h) p)))"

definition log_record_builder :: "'l logger_obj \<Rightarrow> ('l, 't, 's, 'f) log_builder" where
  "log_record_builder this =
     \<lparr>builder_logger = logger_sdk this, builder_enabled = logger_enabled this, builder_record = log_record_default\<rparr>"

definition logger_is_enabled :: "'l logger_obj \<Rightarrow> bool" where
  "logger_is_enabled this = logger_enabled this"

definition builder_emit ::
  "('t, 's, 'ts, 'sc, 'c, 'f) log_env \<Rightarrow> 'c \<Rightarrow> ('l, 't, 's, 'f) log_builder \<Rightarrow>
     ('l, 't, 's, 'f) log_process \<Rightarrow> ('l, 't, 's, 'f) log_process" where
  "builder_emit env current this p =
     (case (builder_enabled this, builder_logger this) of
        (True, Some logger) \<Rightarrow> emit_state env current logger (builder_record this) p
      | _ \<Rightarrow> p)"

text \<open>The methods of the builder work on the record in it.\<close>

definition on_record ::
  "(('t, 's, 'f) log_record_state \<Rightarrow> ('t, 's, 'f) log_outcome) \<Rightarrow> ('l, 't, 's, 'f) log_builder \<Rightarrow> (php_error, unit) result \<times> ('l, 't, 's, 'f) log_builder" where
  "on_record f b = (let (result, r) = f (builder_record b) in (result, b\<lparr>builder_record := r\<rparr>))"

definition builder_set_timestamp :: "'f zval list \<Rightarrow> ('l, 't, 's, 'f) log_builder \<Rightarrow> (php_error, unit) result \<times> ('l, 't, 's, 'f) log_builder" where
  "builder_set_timestamp args = on_record (log_set_timestamp args)"

definition builder_set_context :: "('t, 's, 'ts, 'sc, 'c, 'f) log_env \<Rightarrow> ('c, 'f) ctx_storage \<Rightarrow> 'f zval list \<Rightarrow> ('l, 't, 's, 'f) log_builder \<Rightarrow> (php_error, unit) result \<times> ('l, 't, 's, 'f) log_builder" where
  "builder_set_context env st args = on_record (\<lambda>r. on_arg args 0 Ok (\<lambda>v. set_context env st v r) r)"

definition builder_set_severity :: "('t, 's, 'ts, 'sc, 'c, 'f) log_env \<Rightarrow> 'f zval list \<Rightarrow> ('l, 't, 's, 'f) log_builder \<Rightarrow> (php_error, unit) result \<times> ('l, 't, 's, 'f) log_builder" where
  "builder_set_severity env args = on_record (\<lambda>r. on_arg args 0 Ok (\<lambda>v. set_severity env v r) r)"

definition builder_set_severity_text :: "'f zval list \<Rightarrow> ('l, 't, 's, 'f) log_builder \<Rightarrow> (php_error, unit) result \<times> ('l, 't, 's, 'f) log_builder" where
  "builder_set_severity_text args = on_record (log_set_severity_text args)"

definition builder_set_body :: "('t, 's, 'ts, 'sc, 'c, 'f) log_env \<Rightarrow> 'f zval list \<Rightarrow> ('l, 't, 's, 'f) log_builder \<Rightarrow> (php_error, unit) result \<times> ('l, 't, 's, 'f) log_builder" where
  "builder_set_body env args = on_record (log_set_body env args)"

definition log_builder_set_attribute :: "('t, 's, 'ts, 'sc, 'c, 'f) log_env \<Rightarrow> 'f zval list \<Rightarrow> ('l, 't, 's, 'f) log_builder \<Rightarrow> (php_error, unit) result \<times> ('l, 't, 's, 'f) log_builder" where
  "log_builder_set_attribute env args = on_record (log_set_attribute env args)"

definition log_builder_set_attributes :: "('t, 's, 'ts, 'sc, 'c, 'f) log_env \<Rightarrow> 'f zval list \<Rightarrow> ('l, 't, 's, 'f) log_builder \<Rightarrow> (php_error, unit) result \<times> ('l, 't, 's, 'f) log_builder" where
  "log_builder_set_attributes env args = on_record (\<lambda>r. on_arg args 0 Ok (\<lambda>v. set_attributes env v r) r)"

definition builder_set_event_name :: "'f zval list \<Rightarrow> ('l, 't, 's, 'f) log_builder \<Rightarrow> (php_error, unit) result \<times> ('l, 't, 's, 'f) log_builder" where
  "builder_set_event_name args = on_record (log_set_event_name args)"

fun builder_call :: "('t, 's, 'ts, 'sc, 'c, 'f) log_env \<Rightarrow> ('c, 'f) ctx_storage \<Rightarrow> log_method \<Rightarrow> 'f zval list \<Rightarrow> ('l, 't, 's, 'f) log_builder \<Rightarrow> (php_error, unit) result \<times> ('l, 't, 's, 'f) log_builder" where
  "builder_call env st LSetTimestamp args b = builder_set_timestamp args b"
| "builder_call env st LSetContext args b = builder_set_context env st args b"
| "builder_call env st LSetSeverity args b = builder_set_severity env args b"
| "builder_call env st LSetSeverityText args b = builder_set_severity_text args b"
| "builder_call env st LSetBody args b = builder_set_body env args b"
| "builder_call env st LSetAttribute args b = log_builder_set_attribute env args b"
| "builder_call env st LSetAttributes args b = log_builder_set_attributes env args b"
| "builder_call env st LSetEventName args b = builder_set_event_name args b"
| "builder_call env st m args b = on_record (run_log_method env st m args) b"

lemmas builder_methods = on_record_def builder_set_timestamp_def builder_set_context_def builder_set_severity_def
  builder_set_severity_text_def builder_set_body_def log_builder_set_attribute_def log_builder_set_attributes_def
  builder_set_event_name_def

text \<open>So a builder keeps within the limits as a record does.\<close>

lemma builder_call_record: "builder_call env st m args b = on_record (run_log_method env st m args) b"
  by (cases m) (simp_all add: builder_methods)

text \<open>\<open>EventLogger::emit\<close>: the arguments after the name may be missing.\<close>

definition opt_arg :: "'f zval list \<Rightarrow> nat \<Rightarrow> 'f zval option" where
  "opt_arg args i = (if i < length args then Some (args ! i) else None)"

definition event_body ::
  "('t, 's, 'ts, 'sc, 'c, 'f) log_env \<Rightarrow> 'f zval list \<Rightarrow> ('t, 's, 'f) log_record_state \<Rightarrow> ('t, 's, 'f) log_record_state" where
  "event_body env args r = (case opt_arg args 1 of None \<Rightarrow> r | Some v \<Rightarrow> r\<lparr>log_body := any_value env v\<rparr>)"

definition event_timestamp :: "'f zval list \<Rightarrow> ('t, 's, 'f) log_record_state \<Rightarrow> ('t, 's, 'f) log_record_state" where
  "event_timestamp args r =
     (case Option.bind (opt_arg args 2) as_long of
        None \<Rightarrow> r | Some n \<Rightarrow> r\<lparr>log_timestamp := Some (nanos_to_system_time n)\<rparr>)"

definition event_context ::
  "('t, 's, 'ts, 'sc, 'c, 'f) log_env \<Rightarrow> ('c, 'f) ctx_storage \<Rightarrow> 'f zval list \<Rightarrow>
     ('t, 's, 'f) log_record_state \<Rightarrow> (php_error, ('t, 's, 'f) log_record_state) result" where
  "event_context env st args r =
     (case opt_arg args 3 of
        None \<Rightarrow> Ok r
      | Some v \<Rightarrow> (case set_context env st v r of (Inl e, _) \<Rightarrow> Err e | (Inr _, r') \<Rightarrow> Ok r'))"

definition event_severity ::
  "('t, 's, 'ts, 'sc, 'c, 'f) log_env \<Rightarrow> 'f zval list \<Rightarrow> ('t, 's, 'f) log_record_state \<Rightarrow>
     (php_error, ('t, 's, 'f) log_record_state) result" where
  "event_severity env args r =
     (case opt_arg args 4 of
        None \<Rightarrow> Ok r
      | Some v \<Rightarrow>
          if v = ZNull then Ok r
          else result_bind (severity_number env v) (\<lambda>n. Ok (r\<lparr>log_severity := severity_of_number n\<rparr>)))"

definition event_attributes ::
  "('t, 's, 'ts, 'sc, 'c, 'f) log_env \<Rightarrow> 'f zval list \<Rightarrow> ('t, 's, 'f) log_record_state \<Rightarrow>
     (php_error, ('t, 's, 'f) log_record_state) result" where
  "event_attributes env args r =
     (case opt_arg args 5 of
        None \<Rightarrow> Ok r
      | Some v \<Rightarrow> (case set_attributes env v r of (Inl e, _) \<Rightarrow> Err e | (Inr _, r') \<Rightarrow> Ok r'))"

definition event_record ::
  "('t, 's, 'ts, 'sc, 'c, 'f) log_env \<Rightarrow> ('c, 'f) ctx_storage \<Rightarrow> 'f zval list \<Rightarrow>
     (php_error, ('t, 's, 'f) log_record_state) result" where
  "event_record env st args =
     result_bind (result_bind (arg_at args 0) expect_utf8) (\<lambda>name.
     let r = event_timestamp args (event_body env args (log_record_default\<lparr>log_event_name := Some name\<rparr>)) in
     result_bind (event_context env st args r) (\<lambda>r.
     result_bind (event_severity env args r) (\<lambda>r.
     event_attributes env args r)))"

definition event_emit ::
  "('t, 's, 'ts, 'sc, 'c, 'f) log_env \<Rightarrow> ('c, 'f) ctx_storage \<Rightarrow> 'c \<Rightarrow> 'l logger_obj \<Rightarrow> 'f zval list \<Rightarrow>
     ('l, 't, 's, 'f) log_process \<Rightarrow> (php_error, unit) result \<times> ('l, 't, 's, 'f) log_process" where
  "event_emit env st current this args p =
     (if \<not> logger_enabled this then (Ok (), p)
      else case logger_sdk this of
          None \<Rightarrow> (Ok (), p)
        | Some logger \<Rightarrow>
            (case event_record env st args of
               Inl e \<Rightarrow> (Err e, p)
             | Inr r \<Rightarrow> (Ok (), emit_state env current logger r p)))"


section \<open>A process that emits\<close>

text \<open>The calls that can hand a record to the SDK, with the context that is current at each.\<close>

datatype ('l, 't, 's, 'c, 'f) emit_call =
  EmitRecord 'c "nat \<Rightarrow> ('t, 's, 'f) log_record_state" "'l logger_obj" "'f zval list"
| EmitBuilder 'c "('l, 't, 's, 'f) log_builder"
| EmitEvent 'c "('c, 'f) ctx_storage" "'l logger_obj" "'f zval list"

fun run_emit ::
  "('t, 's, 'ts, 'sc, 'c, 'f) log_env \<Rightarrow> ('l, 't, 's, 'c, 'f) emit_call \<Rightarrow>
     ('l, 't, 's, 'f) log_process \<Rightarrow> ('l, 't, 's, 'f) log_process" where
  "run_emit env (EmitRecord c records this args) p = snd (logger_emit env c records this args p)"
| "run_emit env (EmitBuilder c this) p = builder_emit env c this p"
| "run_emit env (EmitEvent c st this args) p = snd (event_emit env st c this args p)"

text \<open>The records a call asks to be emitted, and what the SDK should get for them.\<close>

definition on_logger :: "'l option \<Rightarrow> bool \<Rightarrow> (php_error, 'r) result \<Rightarrow> ('l \<times> 'r) list" where
  "on_logger logger enabled r =
     (case (enabled, logger, r) of (True, Some l, Inr x) \<Rightarrow> [(l, x)] | _ \<Rightarrow> [])"

fun asked ::
  "('t, 's, 'ts, 'sc, 'c, 'f) log_env \<Rightarrow> ('l, 't, 's, 'c, 'f) emit_call \<Rightarrow> ('l \<times> 'c \<times> ('t, 's, 'f) log_record_state) list" where
  "asked env (EmitRecord c records this args) =
     on_logger (logger_sdk this) (logger_enabled this)
       (map_sum id (\<lambda>h. (c, records h)) (result_bind (arg_at args 0) expect_obj))"
| "asked env (EmitBuilder c this) =
     on_logger (builder_logger this) (builder_enabled this) (Ok (c, builder_record this))"
| "asked env (EmitEvent c st this args) =
     on_logger (logger_sdk this) (logger_enabled this) (map_sum id (Pair c) (event_record env st args))"

definition faithful ::
  "('t, 's, 'ts, 'sc, 'c, 'f) log_env \<Rightarrow> 'l \<times> 'c \<times> ('t, 's, 'f) log_record_state \<Rightarrow> 'l \<times> ('t, 's, 'f) sdk_log_record" where
  "faithful env = (\<lambda>(l, c, r).
     (l, \<lparr>out_severity = log_severity r, out_body = log_body r, out_severity_text = log_severity_text r,
          out_event_name = log_event_name r, out_timestamp = log_timestamp r, out_observed = log_observed r,
          out_trace_context = selected_trace_context env c (log_context_choice r),
          out_attributes = log_attributes r\<rparr>))"

definition texts_of :: "('l \<times> 'c \<times> ('t, 's, 'f) log_record_state) list \<Rightarrow> string set" where
  "texts_of reqs =
     (\<Union>(l, c, r)\<in>set reqs. Option.set_option (log_severity_text r) \<union> Option.set_option (log_event_name r))"

definition same_text :: "string option \<Rightarrow> string option \<Rightarrow> bool" where
  "same_text t u \<longleftrightarrow> u = t \<or> t \<noteq> None \<and> u = Some CARDINALITY_FALLBACK"

text \<open>The record of the SDK, up to texts replaced by the fallback.\<close>

definition renders ::
  "'l \<times> ('t, 's, 'f) sdk_log_record \<Rightarrow> 'l \<times> ('t, 's, 'f) sdk_log_record \<Rightarrow> bool" where
  "renders want got \<longleftrightarrow>
     same_text (out_severity_text (snd want)) (out_severity_text (snd got))
   \<and> same_text (out_event_name (snd want)) (out_event_name (snd got))
   \<and> got = (fst want, (snd want)\<lparr>out_severity_text := out_severity_text (snd got),
                               out_event_name := out_event_name (snd got)\<rparr>)"

section \<open>Lemmas\<close>

definition wf_strings :: "log_strings \<Rightarrow> bool" where
  "wf_strings i \<longleftrightarrow> finite (log_strings i) \<and> card (log_strings i) \<le> MAX_INTERNED_LOG_STRINGS"

lemma intern_log_string_cases:
  assumes "wf_strings i" and "intern_log_string v i = (t, i')"
  shows "wf_strings i'" and "log_strings i' \<subseteq> insert v (log_strings i)" and "t = v \<or> t = CARDINALITY_FALLBACK"
    and "card (insert v (log_strings i)) \<le> MAX_INTERNED_LOG_STRINGS \<Longrightarrow>
      t = v \<and> log_strings i' = insert v (log_strings i)"
  using assms by (auto simp: wf_strings_def intern_log_string_def insert_absorb card_insert_if split: if_splits)

lemma intern_option_cases:
  assumes "wf_strings i" and "intern_option v i = (t, i')"
  shows "wf_strings i'" and "log_strings i' \<subseteq> Option.set_option v \<union> log_strings i" and "same_text v t"
    and "card (Option.set_option v \<union> log_strings i) \<le> MAX_INTERNED_LOG_STRINGS \<Longrightarrow>
      t = v \<and> log_strings i' = Option.set_option v \<union> log_strings i"
proof -
  have "wf_strings i' \<and> log_strings i' \<subseteq> Option.set_option v \<union> log_strings i \<and> same_text v t
    \<and> (card (Option.set_option v \<union> log_strings i) \<le> MAX_INTERNED_LOG_STRINGS \<longrightarrow>
      t = v \<and> log_strings i' = Option.set_option v \<union> log_strings i)"
  proof (cases v)
    case None
    with assms show ?thesis by (simp add: intern_option_def same_text_def)
  next
    case (Some x)
    obtain u where u: "intern_log_string x i = (u, i')" "t = Some u"
      using assms(2) Some by (simp add: intern_option_def split: prod.splits)
    note cases = intern_log_string_cases [OF assms(1) u(1)]
    show ?thesis using cases(1,2,3) cases(4) u(2) Some by (simp add: same_text_def)
  qed
  then show "wf_strings i'" and "log_strings i' \<subseteq> Option.set_option v \<union> log_strings i" and "same_text v t"
    and "card (Option.set_option v \<union> log_strings i) \<le> MAX_INTERNED_LOG_STRINGS \<Longrightarrow>
      t = v \<and> log_strings i' = Option.set_option v \<union> log_strings i" by simp_all
qed

lemma run_emit_asked: "run_emit env call p = fold (\<lambda>(l, c, r). emit_state env c l r) (asked env call) p"
  by (cases call)
    (auto simp: logger_emit_def builder_emit_def event_emit_def on_logger_def split: option.split sum.split bool.split)

lemma run_emits_asked:
  "fold (run_emit env) calls p = fold (\<lambda>(l, c, r). emit_state env c l r) (concat (map (asked env) calls)) p"
  by (induction calls arbitrary: p) (simp_all add: run_emit_asked)

lemma texts_of_snoc [simp]:
  "texts_of (reqs @ [(l, c, r)]) =
     Option.set_option (log_severity_text r) \<union> Option.set_option (log_event_name r) \<union> texts_of reqs"
  by (auto simp: texts_of_def)

lemma finite_texts_of [simp]: "finite (texts_of reqs)"
  by (auto simp: texts_of_def)

lemma emits_invariant:
  fixes env :: "('t, 's, 'ts, 'sc, 'c, 'f) log_env"
  defines "emit \<equiv> \<lambda>(l, c, r). emit_state env c l r"
  shows "wf_strings (interner (fold emit reqs log_process_start))
    \<and> log_strings (interner (fold emit reqs log_process_start)) \<subseteq> texts_of reqs
    \<and> list_all2 renders (map (faithful env) reqs) (emitted (fold emit reqs log_process_start))
    \<and> (card (texts_of reqs) \<le> MAX_INTERNED_LOG_STRINGS \<longrightarrow>
        log_strings (interner (fold emit reqs log_process_start)) = texts_of reqs
      \<and> emitted (fold emit reqs log_process_start) = map (faithful env) reqs)"
proof (induction reqs rule: rev_induct)
  case Nil
  show ?case by (simp add: log_process_start_def no_log_strings_def wf_strings_def texts_of_def)
next
  case (snoc req reqs)
  obtain l c r where req: "req = (l, c, r)" by (cases req)
  define p where "p = fold emit reqs log_process_start"
  obtain t1 i1 where 1: "intern_option (log_severity_text r) (interner p) = (t1, i1)" by (cases "intern_option (log_severity_text r) (interner p)")
  obtain t2 i2 where 2: "intern_option (log_event_name r) i1 = (t2, i2)" by (cases "intern_option (log_event_name r) i1")
  have wf: "wf_strings (interner p)" and sub: "log_strings (interner p) \<subseteq> texts_of reqs"
    and outs: "list_all2 renders (map (faithful env) reqs) (emitted p)"
    and small: "card (texts_of reqs) \<le> MAX_INTERNED_LOG_STRINGS \<Longrightarrow>
      log_strings (interner p) = texts_of reqs \<and> emitted p = map (faithful env) reqs"
    using snoc.IH by (simp_all add: p_def)
  note first = intern_option_cases [OF wf 1]
  note second = intern_option_cases [OF first(1) 2]
  have step: "fold emit (reqs @ [req]) log_process_start =
      \<lparr>interner = i2, emitted = emitted p @ [(l, (snd (faithful env req))\<lparr>out_severity_text := t1, out_event_name := t2\<rparr>)]\<rparr>"
  proof -
    have "fold emit (reqs @ [req]) log_process_start = emit_state env c l r p"
      by (simp add: p_def req emit_def)
    then show ?thesis using 1 2 by (simp add: req emit_state_def faithful_def)
  qed
  have renders: "renders (faithful env req) (l, (snd (faithful env req))\<lparr>out_severity_text := t1, out_event_name := t2\<rparr>)"
    using first(3) second(3) by (simp add: renders_def req faithful_def)
  have "log_strings i2 = texts_of (reqs @ [req]) \<and> t1 = log_severity_text r \<and> t2 = log_event_name r
      \<and> emitted p = map (faithful env) reqs"
    if le: "card (texts_of (reqs @ [req])) \<le> MAX_INTERNED_LOG_STRINGS"
  proof -
    have mono: "card S \<le> MAX_INTERNED_LOG_STRINGS" if "S \<subseteq> texts_of (reqs @ [req])" for S
      using card_mono [OF finite_texts_of that] le by simp
    have reqs: "log_strings (interner p) = texts_of reqs" "emitted p = map (faithful env) reqs"
      using small mono [of "texts_of reqs"] req by auto
    have 3: "t1 = log_severity_text r" "log_strings i1 = Option.set_option (log_severity_text r) \<union> texts_of reqs"
      using first(4) mono [of "Option.set_option (log_severity_text r) \<union> texts_of reqs"] reqs req by auto
    have "t2 = log_event_name r \<and> log_strings i2 = Option.set_option (log_event_name r) \<union> log_strings i1"
      using second(4) mono [of "Option.set_option (log_event_name r) \<union> log_strings i1"] 3 req by auto
    with 3 reqs req show ?thesis by auto
  qed
  moreover have "faithful env req = (l, (snd (faithful env req))\<lparr>out_severity_text := log_severity_text r, out_event_name := log_event_name r\<rparr>)"
    by (simp add: req faithful_def)
  moreover have "log_strings i2 \<subseteq> texts_of (reqs @ [req])"
    using first(2) second(2) sub req by auto
  ultimately show ?case unfolding step using second(1) outs renders by (auto simp: list_all2_appendI)
qed

text \<open>\<open>EventLogger::emit\<close> as the calls of a builder; an error ends them.\<close>

fun run_until_error ::
  "('t, 's, 'ts, 'sc, 'c, 'f) log_env \<Rightarrow> ('c, 'f) ctx_storage \<Rightarrow> (log_method \<times> 'f zval list) list \<Rightarrow>
     ('l, 't, 's, 'f) log_builder \<Rightarrow> (php_error, ('l, 't, 's, 'f) log_builder) result" where
  "run_until_error env st [] b = Ok b"
| "run_until_error env st ((m, args) # calls) b =
     (case builder_call env st m args b of
        (Inl e, _) \<Rightarrow> Err e
      | (Inr _, b') \<Rightarrow> run_until_error env st calls b')"

definition call_if :: "log_method \<Rightarrow> 'f zval option \<Rightarrow> (log_method \<times> 'f zval list) list" where
  "call_if m v = (case v of None \<Rightarrow> [] | Some x \<Rightarrow> [(m, [x])])"

definition event_calls :: "'f zval list \<Rightarrow> (log_method \<times> 'f zval list) list" where
  "event_calls args =
     (LSetEventName, args)
     # call_if LSetBody (opt_arg args 1)
     @ call_if LSetTimestamp (map_option ZLong (Option.bind (opt_arg args 2) as_long))
     @ call_if LSetContext (opt_arg args 3)
     @ call_if LSetSeverity (case opt_arg args 4 of Some ZNull \<Rightarrow> None | v \<Rightarrow> v)
     @ call_if LSetAttributes (opt_arg args 5)"

lemma run_until_error_append:
  "run_until_error env st (as @ bs) b = result_bind (run_until_error env st as b) (run_until_error env st bs)"
  by (induction env st as b rule: run_until_error.induct)
    (auto simp: result_bind_def split: sum.split prod.split)

text \<open>Each part of an event is the call of the builder, when there is one.\<close>

abbreviation with_record ::
  "('l, 't, 's, 'f) log_builder \<Rightarrow> ('t, 's, 'f) log_record_state \<Rightarrow> ('l, 't, 's, 'f) log_builder" where
  "with_record b r \<equiv> b\<lparr>builder_record := r\<rparr>"

lemma event_part_calls:
  "run_until_error env st [(LSetEventName, args)] b =
     map_sum id (\<lambda>t. with_record b ((builder_record b)\<lparr>log_event_name := Some t\<rparr>))
       (result_bind (arg_at args 0) expect_utf8)"
  "run_until_error env st (call_if LSetBody (opt_arg args 1)) b = Ok (with_record b (event_body env args (builder_record b)))"
  "run_until_error env st (call_if LSetTimestamp (map_option ZLong (Option.bind (opt_arg args 2) as_long))) b =
     Ok (with_record b (event_timestamp args (builder_record b)))"
  "run_until_error env st (call_if LSetContext (opt_arg args 3)) b =
     map_sum id (with_record b) (event_context env st args (builder_record b))"
  "run_until_error env st (call_if LSetSeverity (case opt_arg args 4 of Some ZNull \<Rightarrow> None | v \<Rightarrow> v)) b =
     map_sum id (with_record b) (event_severity env args (builder_record b))"
  "run_until_error env st (call_if LSetAttributes (opt_arg args 5)) b =
     map_sum id (with_record b) (event_attributes env args (builder_record b))"
  by (auto simp: call_if_def builder_methods on_arg_def log_set_event_name_def log_set_body_def log_set_timestamp_def
      set_severity_def arg_at_def result_bind_def event_body_def event_timestamp_def event_context_def
      event_severity_def event_attributes_def split: option.split sum.split prod.split zval.split)

lemma event_calls_record:
  "run_until_error env st (event_calls args) b =
     result_bind (result_bind (arg_at args 0) expect_utf8) (\<lambda>name.
     let r = event_timestamp args (event_body env args ((builder_record b)\<lparr>log_event_name := Some name\<rparr>)) in
     map_sum id (with_record b) (result_bind (event_context env st args r) (\<lambda>r.
     result_bind (event_severity env args r) (\<lambda>r.
     event_attributes env args r))))"
proof -
  have calls: "event_calls args = [(LSetEventName, args)] @ call_if LSetBody (opt_arg args 1)
     @ call_if LSetTimestamp (map_option ZLong (Option.bind (opt_arg args 2) as_long))
     @ call_if LSetContext (opt_arg args 3)
     @ call_if LSetSeverity (case opt_arg args 4 of Some ZNull \<Rightarrow> None | v \<Rightarrow> v)
     @ call_if LSetAttributes (opt_arg args 5)" by (simp add: event_calls_def)
  show ?thesis unfolding calls run_until_error_append event_part_calls
    by (simp add: result_bind_def map_sum_def event_part_calls Let_def split: sum.split)
qed

section \<open>Properties\<close>

text \<open>
  C35. Whatever a process emits through loggers, builders and event loggers, each record that was asked
  for reaches its logger exactly once, in order, with its severity, body, timestamps, trace context and
  attributes; a disabled logger asks for none. The process keeps at most 4096 texts for ever, all of
  them from its records; as long as the records use no more than that, their texts are kept as they
  are, and after that a text may only be replaced by the fallback.
\<close>

theorem log_records_emitted:
  fixes env :: "('t, 's, 'ts, 'sc, 'c, 'f) log_env"
    and calls :: "('l, 't, 's, 'c, 'f) emit_call list"
  defines "p \<equiv> fold (run_emit env) calls log_process_start"
    and "reqs \<equiv> concat (map (asked env) calls)"
  shows "finite (log_strings (interner p)) \<and> card (log_strings (interner p)) \<le> MAX_INTERNED_LOG_STRINGS
    \<and> log_strings (interner p) \<subseteq> texts_of reqs
    \<and> list_all2 renders (map (faithful env) reqs) (emitted p)
    \<and> (if card (texts_of reqs) \<le> MAX_INTERNED_LOG_STRINGS then emitted p = map (faithful env) reqs
       else length (emitted p) = length reqs)"
proof -
  note emits_invariant [of env reqs]
  moreover have "length (emitted p) = length reqs" if "list_all2 renders (map (faithful env) reqs) (emitted p)"
    using list_all2_lengthD [OF that] by simp
  ultimately show ?thesis unfolding p_def run_emits_asked reqs_def by (simp add: wf_strings_def)
qed

text \<open>
  An event logger does what the builder of the same logger does with the calls \<open>setEventName\<close>,
  \<open>setBody\<close>, \<open>setTimestamp\<close>, \<open>setContext\<close>, \<open>setSeverityNumber\<close>, \<open>setAttributes\<close> and \<open>emit\<close>, leaving out
  those whose argument is missing, a severity that is null and a timestamp that is no integer: the same
  record, or the same first error and nothing emitted.
\<close>

lemma event_logger_is_builder:
  "event_emit env st current this args p =
     (if logger_enabled this \<and> logger_sdk this \<noteq> None
      then case run_until_error env st (event_calls args) (log_record_builder this) of
          Inl e \<Rightarrow> (Err e, p)
        | Inr b \<Rightarrow> (Ok (), builder_emit env current b p)
      else (Ok (), p))"
proof -
  have "run_until_error env st (event_calls args) (log_record_builder this) =
      map_sum id (with_record (log_record_builder this)) (event_record env st args)"
    unfolding event_calls_record by (auto simp: event_record_def log_record_builder_def result_bind_def Let_def split: sum.split)
  then show ?thesis
    by (auto simp: event_emit_def builder_emit_def log_record_builder_def split: option.split sum.split bool.split)
qed

end
