(* ===== verification/Observable.thy ===== *)
theory Observable
  imports Attributes Interfaces
begin

text \<open>
  Observable metrics: \<open>metrics/observable.rs\<close> and the cache of \<open>metrics/instrument.rs\<close>. A callback is
  registered for some instruments; when it is called it gets an observer for each, and what it observes
  is put in the caches of the instruments, under the number of the registration. The SDK only reads the
  caches.

  Callbacks are PHP code. What the extension sees of a call is the sequence of operations it performs; a
  callback is a function that gives this sequence for each call in the life of the process, so that any
  behaviour, with memory or not, is covered.
\<close>

section \<open>Caches\<close>

record 'f metric_env =
  metric_iter :: "'f zval \<Rightarrow> (php_error, 'f zval) result"
  metric_to_f64 :: "int \<Rightarrow> 'f"
  metric_config :: attr_limit_config

record 'f observation =
  obs_value :: 'f
  obs_attributes :: "'f key_value list"

text \<open>\<open>AsyncCache\<close>: the observations of each registration.\<close>

type_synonym 'f async_cache = "(usize \<times> 'f observation list) list"

definition cache_replace :: "usize \<Rightarrow> 'f observation list \<Rightarrow> 'f async_cache \<Rightarrow> 'f async_cache" where
  "cache_replace registration_id os c = AList.update registration_id os c"

definition cache_remove :: "usize \<Rightarrow> 'f async_cache \<Rightarrow> 'f async_cache" where
  "cache_remove registration_id c = AList.delete registration_id c"

definition cache_push :: "usize \<Rightarrow> 'f observation \<Rightarrow> 'f async_cache \<Rightarrow> 'f async_cache" where
  "cache_push registration_id ob c =
     AList.update registration_id ((case map_of c registration_id of Some os \<Rightarrow> os | None \<Rightarrow> []) @ [ob]) c"

definition cache_snapshot :: "'f async_cache \<Rightarrow> 'f observation list" where
  "cache_snapshot c = concat (map snd c)"

section \<open>Arguments\<close>

definition numeric_value :: "'f metric_env \<Rightarrow> 'f zval \<Rightarrow> (php_error, 'f) result" where
  "numeric_value env v =
     (case v of ZDouble d \<Rightarrow> Ok d | ZLong n \<Rightarrow> Ok (metric_to_f64 env n) | _ \<Rightarrow> Err TypeMismatch)"

definition iterable_key_values :: "'f metric_env \<Rightarrow> 'f zval \<Rightarrow> (php_error, 'f key_value list) result" where
  "iterable_key_values env v =
     result_bind (zval_iterable_to_array (metric_iter env) v) (\<lambda>arr.
     result_bind (expect_arr arr) (\<lambda>a.
     Ok (zval_arr_to_key_value_vec (metric_to_f64 env) (metric_config env) a Metric)))"

definition metric_attributes :: "'f metric_env \<Rightarrow> 'f zval list \<Rightarrow> nat \<Rightarrow> (php_error, 'f key_value list) result" where
  "metric_attributes env args i = (if i < length args then iterable_key_values env (args ! i) else Ok [])"

definition read_observation :: "'f metric_env \<Rightarrow> 'f zval list \<Rightarrow> (php_error, 'f observation) result" where
  "read_observation env args =
     result_bind (result_bind (arg_at args 0) (numeric_value env)) (\<lambda>amount.
     result_bind (metric_attributes env args 1) (\<lambda>attributes.
     Ok \<lparr>obs_value = amount, obs_attributes = attributes\<rparr>))"

section \<open>State\<close>

text \<open>
  What a callback does: \<open>observe\<close> on the observer it got as its \<open>i\<close>-th argument, or on one it kept from
  an earlier call; \<open>detach\<close> on a token; registering another callback for some caches; raising an
  exception; or something of this whose exception it catches.
\<close>

datatype 'f php_action =
  ObserveArg nat "'f zval list"
| ObserveKept nat "'f zval list"
| DetachToken nat
| Register "nat list" "nat \<Rightarrow> 'f php_action list"
| Raise
| Caught "'f php_action"

text \<open>\<open>CallbackRegistration\<close>; a target is a cache and the number of the registration.\<close>

record 'f registration =
  reg_targets :: "(nat \<times> usize) list"
  reg_code :: "nat \<Rightarrow> 'f php_action list"

text \<open>
  The statics and the objects: caches and observers (\<open>ObserverState\<close>) by address, the tokens
  (\<open>ObservableCallbackState\<close>), how many callbacks have been called, and what the SDK collected when a
  request flushed.
\<close>

record 'f metrics =
  caches :: "nat \<Rightarrow> 'f async_cache"
  callbacks :: "(usize \<times> 'f registration) list"
  next_callback_id :: usize
  observers :: "(nat \<times> usize) list"
  tokens :: "usize option list"
  invocations :: nat
  collected :: "(nat \<Rightarrow> 'f observation list) list"

definition on_cache :: "nat \<Rightarrow> ('f async_cache \<Rightarrow> 'f async_cache) \<Rightarrow> 'f metrics \<Rightarrow> 'f metrics" where
  "on_cache c f s = s\<lparr>caches := (caches s)(c := f (caches s c))\<rparr>"

section \<open>Operations\<close>

type_synonym 'f metric_step = "'f metrics \<Rightarrow> (php_error, unit) result \<times> 'f metrics"

text \<open>\<open>observe\<close> of an observer.\<close>

definition observer_observe :: "'f metric_env \<Rightarrow> nat \<Rightarrow> 'f zval list \<Rightarrow> 'f metric_step" where
  "observer_observe env h args s =
     (case read_observation env args of
        Inl e \<Rightarrow> (Err e, s)
      | Inr ob \<Rightarrow>
          (Ok (), if h < length (observers s)
             then (case observers s ! h of (c, registration_id) \<Rightarrow> on_cache c (cache_push registration_id ob) s)
             else s))"

definition detach_callback :: "usize \<Rightarrow> 'f metrics \<Rightarrow> 'f metrics" where
  "detach_callback registration_id s =
     (case map_of (callbacks s) registration_id of
        None \<Rightarrow> s
      | Some reg \<Rightarrow>
          fold (\<lambda>(c, i). on_cache c (cache_remove i)) (reg_targets reg)
            (s\<lparr>callbacks := AList.delete registration_id (callbacks s)\<rparr>))"

text \<open>\<open>detach\<close> of a token: at most once.\<close>

definition token_detach :: "nat \<Rightarrow> 'f metrics \<Rightarrow> 'f metrics" where
  "token_detach t s =
     (if t < length (tokens s)
      then case tokens s ! t of
          None \<Rightarrow> s
        | Some registration_id \<Rightarrow> detach_callback registration_id (s\<lparr>tokens := (tokens s)[t := None]\<rparr>)
      else s)"

text \<open>The call of PHP code: its operations in order, up to the first error.\<close>

fun run_all :: "'f metric_step list \<Rightarrow> 'f metric_step" where
  "run_all [] s = (Ok (), s)"
| "run_all (a # as) s = (case a s of (Inl e, s') \<Rightarrow> (Err e, s') | (Inr _, s') \<Rightarrow> run_all as s')"

text \<open>
  \<open>invoke_callback\<close> once the registration was found: the old observations are dropped, an observer is
  made for each target, and the callback is called. \<open>run\<close> gives what it does, from the number of the
  call and its observers.
\<close>

definition call_registered ::
  "(nat \<Rightarrow> (nat list \<Rightarrow> 'f metric_step) list) \<Rightarrow> (nat \<times> usize) list \<Rightarrow> 'f metric_step" where
  "call_registered run targets s =
     (let s1 = fold (\<lambda>(c, i). on_cache c (cache_replace i [])) targets s;
          s2 = s1\<lparr>observers := observers s1 @ targets, invocations := Suc (invocations s1)\<rparr>;
          args = [length (observers s1) ..< length (observers s1) + length targets]
      in run_all (map (\<lambda>f. f args) (run (invocations s1))) s2)"

text \<open>\<open>register_callback\<close>.\<close>

definition register_with ::
  "(nat \<Rightarrow> (nat list \<Rightarrow> 'f metric_step) list) \<Rightarrow> (nat \<Rightarrow> 'f php_action list) \<Rightarrow> nat list \<Rightarrow> 'f metric_step" where
  "register_with run code cs s =
     (let registration_id = next_callback_id s;
          targets = map (\<lambda>c. (c, registration_id)) cs;
          s1 = s\<lparr>next_callback_id := registration_id + 1,
                 callbacks := AList.update registration_id \<lparr>reg_targets = targets, reg_code = code\<rparr> (callbacks s)\<rparr>
      in case call_registered run targets s1 of
          (Inl e, s2) \<Rightarrow> (Err e, detach_callback registration_id s2)
        | (Inr _, s2) \<Rightarrow> (Ok (), s2\<lparr>tokens := tokens s2 @ [Some registration_id]\<rparr>))"

primrec run_action :: "'f metric_env \<Rightarrow> 'f php_action \<Rightarrow> nat list \<Rightarrow> 'f metric_step" where
  "run_action env (ObserveArg i zs) =
     (\<lambda>args s. if i < length args then observer_observe env (args ! i) zs s else (Err ArgumentCount, s))"
| "run_action env (ObserveKept h zs) = (\<lambda>args. observer_observe env h zs)"
| "run_action env (DetachToken t) = (\<lambda>args s. (Ok (), token_detach t s))"
| "run_action env (Register cs code) = (\<lambda>args. register_with (\<lambda>k. map (run_action env) (code k)) (\<lambda>k. code k) cs)"
| "run_action env Raise = (\<lambda>args s. (Err (BoxedError ''exception''), s))"
| "run_action env (Caught a) = (\<lambda>args s. (Ok (), snd (run_action env a args s)))"

definition code_runs ::
  "'f metric_env \<Rightarrow> (nat \<Rightarrow> 'f php_action list) \<Rightarrow> nat \<Rightarrow> (nat list \<Rightarrow> 'f metric_step) list" where
  "code_runs env code k = map (run_action env) (code k)"

definition register_callback :: "'f metric_env \<Rightarrow> (nat \<Rightarrow> 'f php_action list) \<Rightarrow> nat list \<Rightarrow> 'f metric_step" where
  "register_callback env code = register_with (code_runs env code) code"

definition invoke_callback :: "'f metric_env \<Rightarrow> usize \<Rightarrow> 'f metric_step" where
  "invoke_callback env registration_id s =
     (case map_of (callbacks s) registration_id of
        None \<Rightarrow> (Ok (), s)
      | Some reg \<Rightarrow> call_registered (code_runs env (reg_code reg)) (reg_targets reg) s)"

lemma run_register [simp]: "run_action env (Register cs code) args = register_callback env code cs"
proof -
  have "(\<lambda>k. map (run_action env) (code k)) = code_runs env code" by (simp add: code_runs_def fun_eq_iff)
  then show ?thesis by (simp add: register_callback_def)
qed

declare run_action.simps(4) [simp del]

text \<open>
  \<open>flush_and_clear_request_callbacks\<close>. \<open>order\<close> is the order in which the map gives its keys, \<open>flush\<close>
  whether there is an enabled provider, which then collects what is in the caches.
\<close>

definition flush_and_clear_request_callbacks ::
  "'f metric_env \<Rightarrow> (usize list \<Rightarrow> usize list) \<Rightarrow> bool \<Rightarrow> 'f metrics \<Rightarrow> 'f metrics" where
  "flush_and_clear_request_callbacks env order flush s =
     (let ids = order (map fst (callbacks s)) in
      if ids = [] then s
      else let s1 = fold (\<lambda>i s. snd (invoke_callback env i s)) ids s;
               s2 = (if flush then s1\<lparr>collected := collected s1 @ [\<lambda>c. cache_snapshot (caches s1 c)]\<rparr> else s1)
           in fold detach_callback ids s2)"

text \<open>A request: operations of the script, then the end. An exception that is not caught ends the script.\<close>

definition run_script :: "'f metric_env \<Rightarrow> 'f php_action list \<Rightarrow> 'f metric_step" where
  "run_script env script = run_all (map (\<lambda>a. run_action env a []) script)"

definition metrics_start :: "'f metrics" where
  "metrics_start = \<lparr>caches = \<lambda>_. [], callbacks = [], next_callback_id = 1, observers = [], tokens = [],
                    invocations = 0, collected = []\<rparr>"

section \<open>What callbacks do to the state\<close>

text \<open>The numbers under which there is something in a cache, and the targets of the registrations.\<close>

definition entries :: "'f metrics \<Rightarrow> (nat \<times> usize) set" where
  "entries s = {(c, i). map_of (caches s c) i \<noteq> None}"

definition targeted :: "'f metrics \<Rightarrow> (nat \<times> usize) set" where
  "targeted s = {(c, i). \<exists>reg. map_of (callbacks s) i = Some reg \<and> (c, i) \<in> set (reg_targets reg)}"

text \<open>A plain operation of a callback observes with the arguments it got, or raises.\<close>

primrec plain :: "'f php_action \<Rightarrow> bool" where
  "plain (ObserveArg i zs) = True"
| "plain (ObserveKept h zs) = False"
| "plain (DetachToken t) = False"
| "plain (Register cs code) = False"
| "plain Raise = True"
| "plain (Caught a) = plain a"

definition plain_code :: "(nat \<Rightarrow> 'f php_action list) \<Rightarrow> bool" where
  "plain_code code \<longleftrightarrow> (\<forall>k. \<forall>a\<in>set (code k). plain a)"

lemma entries_on_cache [simp]:
  "entries (on_cache c (cache_push i ob) s) = insert (c, i) (entries s)"
  "entries (on_cache c (cache_replace i os) s) = insert (c, i) (entries s)"
  "entries (on_cache c (cache_remove i) s) = entries s - {(c, i)}"
  by (auto simp: entries_def on_cache_def cache_push_def cache_replace_def cache_remove_def update_conv' delete_conv'
      split: if_splits)

lemma on_cache_frame [simp]:
  "callbacks (on_cache c f s) = callbacks s" "next_callback_id (on_cache c f s) = next_callback_id s"
  "observers (on_cache c f s) = observers s" "tokens (on_cache c f s) = tokens s"
  "invocations (on_cache c f s) = invocations s" "collected (on_cache c f s) = collected s"
  by (simp_all add: on_cache_def)

lemma on_cache_caches: "on_cache c f s = s\<lparr>caches := caches (on_cache c f s)\<rparr>"
  by (simp add: on_cache_def)

lemma entries_fields [simp]:
  "entries (s\<lparr>callbacks := x\<rparr>) = entries s" "entries (s\<lparr>observers := o'\<rparr>) = entries s"
  "entries (s\<lparr>invocations := n\<rparr>) = entries s" "entries (s\<lparr>tokens := ts\<rparr>) = entries s"
  "entries (s\<lparr>next_callback_id := k\<rparr>) = entries s" "entries (s\<lparr>collected := cs\<rparr>) = entries s"
  by (simp_all add: entries_def)

lemma targeted_fields [simp]:
  "targeted (s\<lparr>caches := x\<rparr>) = targeted s" "targeted (s\<lparr>observers := o'\<rparr>) = targeted s"
  "targeted (s\<lparr>invocations := n\<rparr>) = targeted s" "targeted (s\<lparr>tokens := ts\<rparr>) = targeted s"
  "targeted (s\<lparr>next_callback_id := k\<rparr>) = targeted s" "targeted (s\<lparr>collected := cs\<rparr>) = targeted s"
  by (simp_all add: targeted_def)

text \<open>All targets of a registration at once. \<open>others\<close> is what is in the caches under other numbers.\<close>

definition others :: "usize \<Rightarrow> 'f metrics \<Rightarrow> nat \<Rightarrow> 'f async_cache" where
  "others i s = (\<lambda>c. AList.delete i (caches s c))"

lemma others_on_cache [simp]:
  "others i (on_cache c (cache_push i ob) s) = others i s"
  "others i (on_cache c (cache_replace i os) s) = others i s"
  "others i (on_cache c (cache_remove i) s) = others i s"
  by (auto simp: others_def on_cache_def cache_push_def cache_replace_def cache_remove_def delete_update_same delete_idem)

lemma others_fields [simp]:
  "others i (s\<lparr>callbacks := x\<rparr>) = others i s" "others i (s\<lparr>observers := o'\<rparr>) = others i s"
  "others i (s\<lparr>invocations := n\<rparr>) = others i s" "others i (s\<lparr>tokens := ts\<rparr>) = others i s"
  "others i (s\<lparr>next_callback_id := k\<rparr>) = others i s"
  by (simp_all add: others_def)

lemma others_absent: "(\<forall>c. (c, i) \<notin> entries s) \<Longrightarrow> others i s = caches s"
  by (auto simp: others_def entries_def map_of_None_iff_key intro!: delete_notin_dom)

definition only_caches :: "'f metrics \<Rightarrow> 'f metrics \<Rightarrow> bool" where
  "only_caches s s' \<longleftrightarrow> s' = s\<lparr>caches := caches s'\<rparr>"

lemma only_caches_refl [simp]: "only_caches s s"
  by (simp add: only_caches_def)

lemma only_caches_on_cache [simp]: "only_caches s (on_cache c f s)"
  by (simp add: only_caches_def on_cache_def)

lemma only_caches_trans: "only_caches s t \<Longrightarrow> only_caches t u \<Longrightarrow> only_caches s u"
  unfolding only_caches_def by (metis metrics.surjective metrics.update_convs(1))

lemma only_caches_fields:
  "only_caches s t \<Longrightarrow> callbacks t = callbacks s \<and> next_callback_id t = next_callback_id s \<and> observers t = observers s
     \<and> tokens t = tokens s \<and> invocations t = invocations s \<and> collected t = collected s \<and> targeted t = targeted s"
  unfolding only_caches_def targeted_def by (metis metrics.select_convs metrics.surjective metrics.update_convs(1))

lemma only_caches_from:
  assumes "only_caches u v" and "u = s\<lparr>caches := d, observers := o', invocations := n\<rparr>"
  shows "v = s\<lparr>caches := caches v, observers := o', invocations := n\<rparr>"
  using only_caches_fields [OF assms(1)] assms(2) by (intro metrics.equality) simp_all

lemma only_caches_each_target: "only_caches s (fold (\<lambda>(c, i). on_cache c (f i)) ts s)"
proof (induction ts arbitrary: s)
  case (Cons t ts)
  then show ?case using only_caches_trans [OF only_caches_on_cache Cons.IH] by (cases t) simp
qed simp

lemma entries_each_target [simp]:
  "entries (fold (\<lambda>(c, i). on_cache c (cache_replace i [])) ts s) = entries s \<union> set ts"
  "entries (fold (\<lambda>(c, i). on_cache c (cache_remove i)) ts s) = entries s - set ts"
  by (induction ts arbitrary: s) auto

lemma others_each_target:
  assumes "\<And>c s. others i (on_cache c (f i) s) = others i s" and "\<forall>t\<in>set ts. snd t = i"
  shows "others i (fold (\<lambda>(c, i). on_cache c (f i)) ts s) = others i s"
  using assms(2) by (induction ts arbitrary: s) (auto simp: assms(1))

text \<open>Plain operations change the caches only, under the numbers of the observers they got.\<close>

definition owners :: "'f metrics \<Rightarrow> nat list \<Rightarrow> (nat \<times> usize) set" where
  "owners s args = (\<lambda>h. observers s ! h) ` set args"

lemma plain_action:
  assumes "plain a" and "\<forall>h\<in>set args. h < length (observers s)"
  shows "only_caches s (snd (run_action env a args s))"
    and "entries (snd (run_action env a args s)) \<subseteq> entries s \<union> owners s args"
    and "snd ` owners s args \<subseteq> {i} \<Longrightarrow> others i (snd (run_action env a args s)) = others i s"
proof -
  have "only_caches s (snd (run_action env a args s)) \<and> entries (snd (run_action env a args s)) \<subseteq> entries s \<union> owners s args
    \<and> (snd ` owners s args \<subseteq> {i} \<longrightarrow> others i (snd (run_action env a args s)) = others i s)"
    using assms(1)
  proof (induction a)
    case (ObserveArg n zs)
    show ?case
    proof (cases "n < length args")
      case True
      obtain c j where h: "observers s ! (args ! n) = (c, j)" by (cases "observers s ! (args ! n)")
      have "(c, j) \<in> owners s args" unfolding owners_def h [symmetric] using True by simp
      moreover have "j \<in> snd ` owners s args" using image_eqI [OF _ calculation, of j snd] by simp
      ultimately show ?thesis using True assms(2) h
        by (auto simp: observer_observe_def split: sum.split)
    qed simp
  qed simp_all
  then show "only_caches s (snd (run_action env a args s))"
    and "entries (snd (run_action env a args s)) \<subseteq> entries s \<union> owners s args"
    and "snd ` owners s args \<subseteq> {i} \<Longrightarrow> others i (snd (run_action env a args s)) = others i s" by simp_all
qed

lemma plain_actions:
  assumes "\<forall>a\<in>set as. plain a" and "\<forall>h\<in>set args. h < length (observers s)"
  shows "only_caches s (snd (run_all (map (\<lambda>f. f args) (map (run_action env) as)) s))
    \<and> entries (snd (run_all (map (\<lambda>f. f args) (map (run_action env) as)) s)) \<subseteq> entries s \<union> owners s args
    \<and> (\<forall>i. snd ` owners s args \<subseteq> {i} \<longrightarrow>
        others i (snd (run_all (map (\<lambda>f. f args) (map (run_action env) as)) s)) = others i s)"
  using assms
proof (induction as arbitrary: s)
  case (Cons a as)
  let ?t = "snd (run_action env a args s)"
  have a: "only_caches s ?t" "entries ?t \<subseteq> entries s \<union> owners s args"
    "\<And>i. snd ` owners s args \<subseteq> {i} \<Longrightarrow> others i ?t = others i s"
    using plain_action [where a = a and args = args and s = s and env = env] Cons.prems by auto
  have same: "observers ?t = observers s" using only_caches_fields [OF a(1)] by simp
  with Cons.IH [of ?t] Cons.prems a show ?case
    by (cases "run_action env a args s") (auto simp: owners_def split: sum.split intro: only_caches_trans)
qed simp

lemma call_plain:
  assumes "plain_code code" and targets: "\<forall>t\<in>set targets. snd t = i"
  shows "snd (call_registered (code_runs env code) targets s) =
      s\<lparr>caches := caches (snd (call_registered (code_runs env code) targets s)), observers := observers s @ targets,
        invocations := Suc (invocations s)\<rparr>"
    and "entries (snd (call_registered (code_runs env code) targets s)) \<subseteq> entries s \<union> set targets"
    and "others i (snd (call_registered (code_runs env code) targets s)) = others i s"
proof -
  let ?t = "fold (\<lambda>(c, i). on_cache c (cache_replace i [])) targets s"
  let ?args = "[length (observers s) ..< length (observers s) + length targets]"
  define u where "u = ?t\<lparr>observers := observers s @ targets, invocations := Suc (invocations s)\<rparr>"
  note t = only_caches_fields [OF only_caches_each_target [of s "\<lambda>i. cache_replace i []" targets]]
  have call: "snd (call_registered (code_runs env code) targets s) = snd (run_all (map (\<lambda>f. f ?args) (code_runs env code (invocations s))) u)"
    using t by (simp add: call_registered_def Let_def u_def)
  have owners: "owners u ?args = set targets"
  proof -
    have "map ((!) (observers s @ targets)) ?args = targets"
      by (rule nth_equalityI) (auto simp: nth_append)
    then have "set (map ((!) (observers s @ targets)) ?args) = set targets" by simp
    then show ?thesis by (simp add: owners_def u_def)
  qed
  have "\<forall>a\<in>set (code (invocations s)). plain a" using assms(1) by (simp add: plain_code_def)
  moreover have "\<forall>h\<in>set ?args. h < length (observers u)" by (auto simp: u_def)
  ultimately have plain: "only_caches u (snd (call_registered (code_runs env code) targets s))"
    "entries (snd (call_registered (code_runs env code) targets s)) \<subseteq> entries u \<union> set targets"
    "\<forall>j. snd ` set targets \<subseteq> {j} \<longrightarrow> others j (snd (call_registered (code_runs env code) targets s)) = others j u"
    using plain_actions [where as = "code (invocations s)" and args = ?args and s = u and env = env] unfolding call code_runs_def owners by simp_all
  have t_eq: "?t = s\<lparr>caches := caches ?t\<rparr>" using only_caches_each_target by (simp add: only_caches_def)
  have "u = s\<lparr>caches := caches ?t, observers := observers s @ targets, invocations := Suc (invocations s)\<rparr>"
    unfolding u_def by (subst t_eq) simp
  then show "snd (call_registered (code_runs env code) targets s) =
      s\<lparr>caches := caches (snd (call_registered (code_runs env code) targets s)), observers := observers s @ targets,
        invocations := Suc (invocations s)\<rparr>"
    by (rule only_caches_from [OF plain(1)])
  show "entries (snd (call_registered (code_runs env code) targets s)) \<subseteq> entries s \<union> set targets"
    using plain(2) by (simp add: u_def)
  have "others i ?t = others i s" using targets by (intro others_each_target) auto
  then show "others i (snd (call_registered (code_runs env code) targets s)) = others i s"
    using plain(3) targets by (auto simp: u_def)
qed

lemma detach_frame:
  "detach_callback i s = s\<lparr>callbacks := AList.delete i (callbacks s), caches := caches (detach_callback i s)\<rparr>"
proof (cases "map_of (callbacks s) i")
  case None
  then have "AList.delete i (callbacks s) = callbacks s" by (simp add: map_of_None_iff_key delete_notin_dom)
  with None show ?thesis by (simp add: detach_callback_def)
next
  case (Some reg)
  then show ?thesis
    using only_caches_each_target [of "s\<lparr>callbacks := AList.delete i (callbacks s)\<rparr>" cache_remove "reg_targets reg"]
    by (simp add: detach_callback_def only_caches_def)
qed

lemma detach_entries:
  "entries (detach_callback i s) =
     entries s - (case map_of (callbacks s) i of None \<Rightarrow> {} | Some reg \<Rightarrow> set (reg_targets reg))"
  by (auto simp: detach_callback_def split: option.split)

lemma detach_others:
  assumes "\<And>reg. map_of (callbacks s) i = Some reg \<Longrightarrow> \<forall>t\<in>set (reg_targets reg). snd t = i"
  shows "others i (detach_callback i s) = others i s"
proof (cases "map_of (callbacks s) i")
  case (Some reg)
  have "others i (fold (\<lambda>(c, i). on_cache c (cache_remove i)) (reg_targets reg)
      (s\<lparr>callbacks := AList.delete i (callbacks s)\<rparr>)) = others i (s\<lparr>callbacks := AList.delete i (callbacks s)\<rparr>)"
    by (rule others_each_target) (use assms Some in auto)
  with Some show ?thesis by (simp add: detach_callback_def)
qed (simp add: detach_callback_def)

section \<open>Registrations own what is in the caches\<close>

definition owned :: "'f metrics \<Rightarrow> bool" where
  "owned s \<longleftrightarrow>
     distinct (map fst (callbacks s))
   \<and> (\<forall>(i, reg)\<in>set (callbacks s). unat i < unat (next_callback_id s) \<and> plain_code (reg_code reg)
        \<and> (\<forall>t\<in>set (reg_targets reg). snd t = i))
   \<and> entries s \<subseteq> targeted s"

lemma owned_registration:
  assumes "owned s" and "map_of (callbacks s) i = Some reg"
  shows "unat i < unat (next_callback_id s)" and "plain_code (reg_code reg)" and "\<forall>t\<in>set (reg_targets reg). snd t = i"
  using assms(1) map_of_SomeD [OF assms(2)] by (auto simp: owned_def)

lemma owned_fresh:
  assumes "owned s"
  shows "next_callback_id s \<notin> fst ` set (callbacks s)" and "(c, next_callback_id s) \<notin> entries s"
proof -
  show fresh: "next_callback_id s \<notin> fst ` set (callbacks s)" using assms by (auto simp: owned_def)
  then have "map_of (callbacks s) (next_callback_id s) = None" by (simp add: map_of_None_iff_key)
  then have "(c, next_callback_id s) \<notin> targeted s" by (simp add: targeted_def)
  with assms show "(c, next_callback_id s) \<notin> entries s" by (auto simp: owned_def)
qed

lemma owned_invoke:
  assumes "owned s"
  shows "owned (snd (invoke_callback env i s))" and "callbacks (snd (invoke_callback env i s)) = callbacks s"
    and "next_callback_id (snd (invoke_callback env i s)) = next_callback_id s"
proof -
  have "owned (snd (invoke_callback env i s)) \<and> callbacks (snd (invoke_callback env i s)) = callbacks s
    \<and> next_callback_id (snd (invoke_callback env i s)) = next_callback_id s"
  proof (cases "map_of (callbacks s) i")
    case (Some reg)
    let ?t = "snd (call_registered (code_runs env (reg_code reg)) (reg_targets reg) s)"
    note reg = owned_registration [OF assms Some]
    note call = call_plain [OF reg(2,3), of env s]
    have same: "callbacks ?t = callbacks s" "next_callback_id ?t = next_callback_id s"
      by (subst call(1), simp)+
    have "set (reg_targets reg) \<subseteq> targeted s" using Some reg(3) by (auto simp: targeted_def)
    with call(2) assms have "entries ?t \<subseteq> targeted s" by (auto simp: owned_def)
    moreover have "targeted ?t = targeted s" by (simp add: targeted_def same)
    ultimately show ?thesis using assms same Some by (simp add: owned_def invoke_callback_def)
  qed (use assms in \<open>simp add: invoke_callback_def\<close>)
  then show "owned (snd (invoke_callback env i s))" and "callbacks (snd (invoke_callback env i s)) = callbacks s"
    and "next_callback_id (snd (invoke_callback env i s)) = next_callback_id s" by simp_all
qed

lemma owned_detach:
  assumes "owned s"
  shows "owned (detach_callback i s)" and "callbacks (detach_callback i s) = AList.delete i (callbacks s)"
    and "next_callback_id (detach_callback i s) = next_callback_id s"
proof -
  show same: "callbacks (detach_callback i s) = AList.delete i (callbacks s)"
    and nxt: "next_callback_id (detach_callback i s) = next_callback_id s"
    by (subst detach_frame, simp)+
  have "targeted (detach_callback i s) = {p \<in> targeted s. snd p \<noteq> i}"
    by (auto simp: targeted_def same delete_conv' split: if_splits)
  moreover have "entries (detach_callback i s) \<subseteq> {p \<in> targeted s. snd p \<noteq> i}"
    using assms by (auto simp: detach_entries owned_def targeted_def split: option.splits)
  moreover have "set (AList.delete i (callbacks s)) \<subseteq> set (callbacks s)"
    by (auto simp: AList.delete_eq)
  ultimately show "owned (detach_callback i s)"
    using assms distinct_delete [of "callbacks s" i] unfolding owned_def same nxt by (intro conjI) blast+
qed

lemma register_owned:
  fixes env :: "'f metric_env" and cs :: "nat list" and s :: "'f metrics"
  assumes "owned s" and "plain_code code" and "unat (next_callback_id s) + 1 < 2 ^ 64"
  defines "s' \<equiv> snd (register_callback env code cs s)"
  shows "owned s'" and "unat (next_callback_id s') = unat (next_callback_id s) + 1"
    and "fst (register_callback env code cs s) \<noteq> Ok () \<Longrightarrow> caches s' = caches s \<and> callbacks s' = callbacks s"
proof -
  let ?i = "next_callback_id s" and ?ts = "map (\<lambda>c. (c, next_callback_id s)) cs"
  define s1 where "s1 = s\<lparr>next_callback_id := ?i + 1,
    callbacks := AList.update ?i \<lparr>reg_targets = ?ts, reg_code = code\<rparr> (callbacks s)\<rparr>"
  define s2 where "s2 = snd (call_registered (code_runs env code) ?ts s1)"
  note fresh = owned_fresh [OF assms(1)]
  have nxt: "unat (?i + 1) = unat ?i + 1"
    using assms(3) by (simp add: unat_word_ariths)
  have ts: "\<forall>t\<in>set ?ts. snd t = ?i" by simp
  note call = call_plain [OF assms(2) ts, of env s1, folded s2_def]
  have upd: "set (callbacks s1) = insert (?i, \<lparr>reg_targets = ?ts, reg_code = code\<rparr>) (set (callbacks s))"
    using fresh(1) by (simp add: s1_def update_new)
  have "targeted s1 = targeted s \<union> set ?ts"
    using fresh(1) by (auto simp: targeted_def s1_def update_conv' map_of_None_iff_key dest: map_of_Some_key)
  with assms(1,2) upd nxt have owned1: "owned s1"
    by (auto simp: owned_def s1_def distinct_update)
  have inv: "s2 = snd (invoke_callback env ?i s1)"
    by (simp add: s2_def invoke_callback_def s1_def update_conv')
  note owned2 = owned_invoke [OF owned1, of env ?i, folded inv]
  have reg: "register_callback env code cs s =
      (case call_registered (code_runs env code) ?ts s1 of
          (Inl e, s2) \<Rightarrow> (Err e, detach_callback ?i s2)
        | (Inr _, s2) \<Rightarrow> (Ok (), s2\<lparr>tokens := tokens s2 @ [Some ?i]\<rparr>))"
    by (simp add: register_callback_def register_with_def Let_def s1_def)
  note owned3 = owned_detach [OF owned2(1), of ?i]
  have err: "caches (detach_callback ?i s2) = caches s \<and> callbacks (detach_callback ?i s2) = callbacks s"
  proof
    have cb: "callbacks s2 = AList.update ?i \<lparr>reg_targets = ?ts, reg_code = code\<rparr> (callbacks s)"
      using owned2(2) by (simp add: s1_def)
    then show "callbacks (detach_callback ?i s2) = callbacks s"
      using owned3(2) fresh(1) by (simp add: delete_update_same delete_notin_dom)
    have "(c, ?i) \<notin> entries (detach_callback ?i s2)" for c
      using call(2) fresh(2) by (auto simp: detach_entries cb update_conv' s1_def)
    then have "caches (detach_callback ?i s2) = others ?i (detach_callback ?i s2)" by (simp add: others_absent)
    also have "\<dots> = others ?i s2" by (rule detach_others) (auto simp: cb update_conv')
    also have "\<dots> = others ?i s" using call(3) by (simp add: s1_def)
    also have "\<dots> = caches s" using fresh(2) by (simp add: others_absent)
    finally show "caches (detach_callback ?i s2) = caches s" .
  qed
  have owned_tokens: "owned (s2\<lparr>tokens := ts\<rparr>)" for ts using owned2(1) by (simp add: owned_def)
  show "owned s'" and "unat (next_callback_id s') = unat ?i + 1"
    and "fst (register_callback env code cs s) \<noteq> Ok () \<Longrightarrow> caches s' = caches s \<and> callbacks s' = callbacks s"
    unfolding s'_def reg using s2_def owned3 owned_tokens owned2(3) nxt err
    by (auto simp: s1_def split: prod.splits sum.splits)
qed

section \<open>Requests\<close>

text \<open>Operations of a script that keep no observer of a callback and register plain callbacks.\<close>

primrec disciplined :: "'f php_action \<Rightarrow> bool" where
  "disciplined (ObserveArg i zs) = True"
| "disciplined (ObserveKept h zs) = False"
| "disciplined (DetachToken t) = True"
| "disciplined (Register cs code) = plain_code (\<lambda>k. code k)"
| "disciplined Raise = True"
| "disciplined (Caught a) = disciplined a"

lemma disciplined_action:
  assumes "owned s" and "disciplined a" and "unat (next_callback_id s) + 1 < 2 ^ 64"
  shows "owned (snd (run_action env a [] s))
    \<and> unat (next_callback_id (snd (run_action env a [] s))) \<le> unat (next_callback_id s) + 1"
  using assms(2)
proof (induction a)
  case (DetachToken t)
  have "owned (s\<lparr>tokens := ts\<rparr>)" for ts using assms(1) by (simp add: owned_def)
  from owned_detach [OF this] assms(1) show ?case by (auto simp: token_detach_def split: option.split)
next
  case (Register cs code)
  with register_owned [OF assms(1) _ assms(3), of code env cs] show ?case by simp
qed (use assms in simp_all)

lemma disciplined_script:
  assumes "owned s" and "\<forall>a\<in>set script. disciplined a" and "unat (next_callback_id s) + length script < 2 ^ 64"
  shows "owned (snd (run_script env script s))"
  using assms
proof (induction script arbitrary: s)
  case (Cons a script)
  let ?t = "snd (run_action env a [] s)"
  from disciplined_action [of s a env] Cons.prems
  have t: "owned ?t" "unat (next_callback_id ?t) \<le> unat (next_callback_id s) + 1" by simp_all
  with Cons.prems have "owned (snd (run_script env script ?t))" by (intro Cons.IH) auto
  with t(1) show ?case by (cases "run_action env a [] s") (auto simp: run_script_def split: sum.split)
qed (simp add: run_script_def)

lemma owned_invokes:
  "owned s \<Longrightarrow> owned (fold (\<lambda>i s. snd (invoke_callback env i s)) ids s)
     \<and> callbacks (fold (\<lambda>i s. snd (invoke_callback env i s)) ids s) = callbacks s"
  by (induction ids arbitrary: s) (simp_all add: owned_invoke)

lemma owned_detaches:
  "owned s \<Longrightarrow> owned (fold detach_callback ids s)
     \<and> callbacks (fold detach_callback ids s) = filter (\<lambda>(i, _). i \<notin> set ids) (callbacks s)"
proof (induction ids arbitrary: s)
  case (Cons i ids)
  from Cons.IH [OF owned_detach(1) [OF Cons.prems, of i]] show ?case
    by (auto simp: owned_detach [OF Cons.prems] AList.delete_eq filter_filter intro: filter_cong)
qed simp

lemma owned_no_callbacks: "owned s \<Longrightarrow> callbacks s = [] \<Longrightarrow> caches s = (\<lambda>_. [])"
  by (auto simp: owned_def targeted_def entries_def fun_eq_iff map_of_eq_None_iff)

lemma flush_releases:
  fixes env :: "'f metric_env" and flush :: bool and s :: "'f metrics"
  assumes "owned s" and "\<And>ids. set (order ids) = set ids"
  defines "s' \<equiv> flush_and_clear_request_callbacks env order flush s"
  shows "callbacks s' = []" and "caches s' = (\<lambda>_. [])"
proof -
  let ?ids = "order (map fst (callbacks s))"
  define s1 where "s1 = fold (\<lambda>i s. snd (invoke_callback env i s)) ?ids s"
  define s2 where "s2 = (if flush then s1\<lparr>collected := collected s1 @ [\<lambda>c. cache_snapshot (caches s1 c)]\<rparr> else s1)"
  have "owned s1 \<and> callbacks s1 = callbacks s" unfolding s1_def by (rule owned_invokes [OF assms(1)])
  then have s1: "owned s1" "callbacks s1 = callbacks s" by simp_all
  then have s2: "owned s2" by (simp add: s2_def owned_def)
  have s2_callbacks: "callbacks s2 = callbacks s" using s1(2) by (simp add: s2_def)
  have "owned s' \<and> callbacks s' = []"
  proof (cases "?ids = []")
    case True
    then have "callbacks s = []" using assms(2) [of "map fst (callbacks s)"] by simp
    with True assms(1) show ?thesis by (simp add: s'_def flush_and_clear_request_callbacks_def)
  next
    case False
    then have "s' = fold detach_callback ?ids s2"
      by (simp add: s'_def flush_and_clear_request_callbacks_def Let_def s1_def s2_def)
    moreover have "filter (\<lambda>(i, _). i \<notin> set ?ids) (callbacks s) = []"
      unfolding assms(2) by (force simp: filter_empty_conv)
    ultimately show ?thesis using owned_detaches [OF s2, of ?ids] s2_callbacks by simp
  qed
  then show "callbacks s' = []" and "caches s' = (\<lambda>_. [])" using owned_no_callbacks by auto
qed

section \<open>What a callback observed\<close>

text \<open>
  The observations of plain operations with \<open>n\<close> observers, each with the position of its observer, and
  whether the operations came to their end.
\<close>

primrec observed_by :: "'f metric_env \<Rightarrow> nat \<Rightarrow> 'f php_action \<Rightarrow> (nat \<times> 'f observation) list \<times> bool" where
  "observed_by env n (ObserveArg i zs) =
     (case read_observation env zs of
        Inl e \<Rightarrow> ([], False) | Inr ob \<Rightarrow> if i < n then ([(i, ob)], True) else ([], False))"
| "observed_by env n (ObserveKept h zs) = ([], True)"
| "observed_by env n (DetachToken t) = ([], True)"
| "observed_by env n (Register cs code) = ([], True)"
| "observed_by env n Raise = ([], False)"
| "observed_by env n (Caught a) = (fst (observed_by env n a), True)"

fun observed :: "'f metric_env \<Rightarrow> nat \<Rightarrow> 'f php_action list \<Rightarrow> (nat \<times> 'f observation) list" where
  "observed env n [] = []"
| "observed env n (a # as) =
     (case observed_by env n a of (os, ended) \<Rightarrow> os @ (if ended then observed env n as else []))"

definition push_all :: "'f metrics \<Rightarrow> nat list \<Rightarrow> (nat \<times> 'f observation) list \<Rightarrow> 'f metrics \<Rightarrow> 'f metrics" where
  "push_all s0 args os s =
     fold (\<lambda>(j, ob). case observers s0 ! (args ! j) of (c, i) \<Rightarrow> on_cache c (cache_push i ob)) os s"

lemma push_all_append: "push_all s0 args (os @ os') s = push_all s0 args os' (push_all s0 args os s)"
  by (simp add: push_all_def)

lemma plain_action_pushes:
  assumes "plain a" and "\<forall>h\<in>set args. h < length (observers s)" and "observers s0 = observers s"
  shows "snd (run_action env a args s) = push_all s0 args (fst (observed_by env (length args) a)) s
    \<and> ((fst (run_action env a args s) = Ok ()) = snd (observed_by env (length args) a))"
  using assms(1)
proof (induction a)
  case (ObserveArg i zs)
  then show ?case using assms(2,3)
    by (auto simp: observer_observe_def push_all_def split: sum.split prod.split)
qed (simp_all add: push_all_def)

lemma observers_push_all [simp]: "observers (push_all s0 args os s) = observers s"
  by (induction os arbitrary: s) (auto simp: push_all_def split: prod.split)

lemma plain_actions_push:
  assumes "\<forall>a\<in>set as. plain a" and "\<forall>h\<in>set args. h < length (observers s)" and "observers s0 = observers s"
  shows "snd (run_all (map (\<lambda>f. f args) (map (run_action env) as)) s) = push_all s0 args (observed env (length args) as) s"
  using assms
proof (induction as arbitrary: s)
  case (Cons a as)
  obtain r t where rt: "run_action env a args s = (r, t)" by (cases "run_action env a args s")
  obtain os ended where os: "observed_by env (length args) a = (os, ended)" by (cases "observed_by env (length args) a")
  from plain_action_pushes [of a args s s0 env] Cons.prems rt os
  have t: "t = push_all s0 args os s" "(r = Ok ()) = ended" by auto
  with Cons.IH [of t] Cons.prems rt os show ?case by (cases r) (auto simp: push_all_append)
qed (simp add: push_all_def)

lemma push_all_lookup:
  assumes "map_of (caches s c) i = Some old" and "\<forall>(j, ob)\<in>set os. j < length ts" and
    "\<forall>j<length ts. observers s0 ! (args ! j) = ts ! j"
  shows "map_of (caches (push_all s0 args os s) c) i = Some (old @ map snd (filter (\<lambda>(j, ob). ts ! j = (c, i)) os))"
  using assms(1,2)
proof (induction os arbitrary: s old)
  case (Cons p os)
  obtain j ob where p: "p = (j, ob)" by (cases p)
  obtain d k where t: "ts ! j = (d, k)" by (cases "ts ! j")
  let ?t = "on_cache d (cache_push k ob) s"
  have step: "push_all s0 args (p # os) s = push_all s0 args os ?t"
    using assms(3) Cons.prems(2) p t by (simp add: push_all_def)
  have "map_of (caches ?t c) i = Some (if (d, k) = (c, i) then old @ [ob] else old)"
    using Cons.prems(1) by (auto simp: on_cache_def cache_push_def update_conv')
  from Cons.IH [OF this] Cons.prems(2) show ?case unfolding step using p t by auto
qed (simp add: push_all_def)

lemma observed_in_range: "(j, ob) \<in> set (observed env n as) \<Longrightarrow> j < n"
proof (induction as)
  case (Cons a as)
  have "(j, ob) \<in> set (fst (observed_by env n a)) \<Longrightarrow> j < n"
    by (induction a) (auto split: sum.splits if_splits)
  with Cons show ?case by (cases "observed_by env n a") (auto split: if_splits)
qed simp

lemma replaced_lookup:
  "(c, i) \<in> set ts \<Longrightarrow> map_of (caches (fold (\<lambda>(c, i). on_cache c (cache_replace i [])) ts s) c) i = Some []"
proof (induction ts rule: rev_induct)
  case (snoc t ts)
  then show ?case by (cases t) (auto simp: on_cache_def cache_replace_def update_conv')
qed simp

section \<open>Properties\<close>

text \<open>
  C26. Nothing of a disciplined request stays in the metrics state. A script is disciplined when the
  callbacks it registers only observe through the observers they are given, raise and catch (they
  register nothing, detach nothing and use no observer of another call), and it uses no observer itself
  after the call the observer was made for. When a request starts with no callback and empty caches and
  its script is disciplined, then after the flush at the end no callback is registered and every cache
  is empty, whatever was observed, detached, raised or caught in between. For other scripts this fails:
  see \<open>kept_observer_outlives_request\<close> and \<open>callback_registered_in_flush_survives\<close>. The numbers of
  registrations are assumed not to wrap around 64 bits.
\<close>

theorem request_metrics_released:
  fixes env :: "'f metric_env"
  assumes "callbacks s = []" and "caches s = (\<lambda>_. [])" and "\<forall>a\<in>set script. disciplined a"
    and "unat (next_callback_id s) + length script < 2 ^ 64" and "\<And>ids. set (order ids) = set ids"
  shows "callbacks (flush_and_clear_request_callbacks env order flush (snd (run_script env script s))) = []
    \<and> caches (flush_and_clear_request_callbacks env order flush (snd (run_script env script s))) = (\<lambda>_. [])"
proof -
  have "owned s" using assms(1,2) by (simp add: owned_def entries_def)
  from flush_releases [OF disciplined_script [OF this assms(3,4)] assms(5)] show ?thesis by blast
qed

text \<open>A callback that counts its calls for two instruments, one that raises, and a detached token.\<close>

definition example_metric_env :: "int metric_env" where
  "example_metric_env =
     \<lparr>metric_iter = \<lambda>_. Err TypeMismatch, metric_to_f64 = \<lambda>n. n, metric_config = attribute_limits_from_env []\<rparr>"

definition example_script :: "int php_action list" where
  "example_script =
     [Register [0, 1] (\<lambda>k. [ObserveArg 0 [ZLong (int k)], ObserveArg 1 [ZDouble 7]]),
      DetachToken 0, Register [1] (\<lambda>_. [Caught Raise, ObserveArg 0 [ZLong 3]]), Caught (Register [0] (\<lambda>_. [Raise]))]"

theorem request_metrics_released_witness:
  "callbacks (flush_and_clear_request_callbacks example_metric_env rev True (snd (run_script example_metric_env example_script metrics_start))) = []
   \<and> caches (flush_and_clear_request_callbacks example_metric_env rev True (snd (run_script example_metric_env example_script metrics_start))) = (\<lambda>_. [])"
  by (rule request_metrics_released) (auto simp: metrics_start_def example_script_def plain_code_def)

text \<open>
  C27. A callback whose code is plain, that is, only observes through the observers of the call, raises
  and catches: after a call of it, the cache of each of its instruments holds for this registration
  exactly what it observed in this call for that instrument, in order, up to the exception that ended
  it, if any; nothing of earlier calls is left, and what other registrations observed is untouched. A
  callback that detaches itself, registers others or uses an observer it kept is not covered.
\<close>

theorem callback_latest_values:
  assumes "map_of (callbacks s) i = Some reg" and "plain_code (reg_code reg)"
    and "\<forall>t\<in>set (reg_targets reg). snd t = i" and "(c, i) \<in> set (reg_targets reg)"
  shows "map_of (caches (snd (invoke_callback env i s)) c) i =
      Some (map snd (filter (\<lambda>(j, ob). reg_targets reg ! j = (c, i))
        (observed env (length (reg_targets reg)) (reg_code reg (invocations s)))))
    \<and> others i (snd (invoke_callback env i s)) = others i s"
proof -
  let ?ts = "reg_targets reg" and ?as = "reg_code reg (invocations s)"
  let ?t = "fold (\<lambda>(c, i). on_cache c (cache_replace i [])) ?ts s"
  let ?args = "[length (observers s) ..< length (observers s) + length ?ts]"
  define u where "u = ?t\<lparr>observers := observers s @ ?ts, invocations := Suc (invocations s)\<rparr>"
  note t = only_caches_fields [OF only_caches_each_target [of s "\<lambda>i. cache_replace i []" ?ts]]
  have "snd (invoke_callback env i s) = snd (run_all (map (\<lambda>f. f ?args) (map (run_action env) ?as)) u)"
    using t by (simp add: invoke_callback_def assms(1) call_registered_def Let_def u_def code_runs_def)
  also have "\<dots> = push_all u ?args (observed env (length ?args) ?as) u"
    using assms(2) by (intro plain_actions_push) (auto simp: u_def plain_code_def)
  finally have invoke: "snd (invoke_callback env i s) = push_all u ?args (observed env (length ?ts) ?as) u" by simp
  have "map_of (caches u c) i = Some []" using replaced_lookup [OF assms(4)] by (simp add: u_def)
  from push_all_lookup [OF this, of "observed env (length ?ts) ?as" ?ts u ?args] invoke
  have "map_of (caches (snd (invoke_callback env i s)) c) i =
      Some (map snd (filter (\<lambda>(j, ob). ?ts ! j = (c, i)) (observed env (length ?ts) ?as)))"
    by (auto simp: u_def nth_append dest: observed_in_range)
  moreover have "others i (snd (invoke_callback env i s)) = others i s"
    using call_plain(3) [OF assms(2,3), of env s] by (simp add: invoke_callback_def assms(1))
  ultimately show ?thesis by simp
qed

theorem callback_latest_values_witness:
  "map_of (caches (snd (invoke_callback example_metric_env 5
       (metrics_start\<lparr>callbacks := [(5, \<lparr>reg_targets = [(0, 5), (1, 5)],
          reg_code = \<lambda>k. [ObserveArg 0 [ZDouble 7], ObserveArg 1 [ZDouble 8], Raise, ObserveArg 0 [ZDouble 9]]\<rparr>)],
         caches := \<lambda>_. [(5, [\<lparr>obs_value = 1, obs_attributes = []\<rparr>])]\<rparr>))) 0) 5 =
     Some [\<lparr>obs_value = 7, obs_attributes = []\<rparr>]"
proof -
  let ?reg = "\<lparr>reg_targets = [(0::nat, 5::usize), (1, 5)],
    reg_code = \<lambda>k. [ObserveArg 0 [ZDouble (7::int)], ObserveArg 1 [ZDouble 8], Raise, ObserveArg 0 [ZDouble 9]]\<rparr>"
  show ?thesis
    using callback_latest_values [of "metrics_start\<lparr>callbacks := [(5, ?reg)],
      caches := \<lambda>_. [(5, [\<lparr>obs_value = 1, obs_attributes = []\<rparr>])]\<rparr>" 5 ?reg 0 example_metric_env]
    by (simp add: plain_code_def metrics_start_def read_observation_def arg_at_def numeric_value_def metric_attributes_def)
qed

text \<open>
  C29. In a state where every entry of a cache belongs to a registration with plain code (\<open>owned\<close>), a
  registration of plain code whose first call fails leaves nothing behind: the callback is not
  registered, and all caches hold what they held before. Code that registers another callback or
  writes through an observer of another registration before it raises is not covered: what that did stays
  (\<open>failed_registration_leaves_nested\<close>).
\<close>

theorem failed_registration_leaves_nothing:
  assumes "owned s" and "plain_code code" and "unat (next_callback_id s) + 1 < 2 ^ 64"
    and "fst (register_callback env code cs s) \<noteq> Ok ()"
  shows "caches (snd (register_callback env code cs s)) = caches s
    \<and> callbacks (snd (register_callback env code cs s)) = callbacks s"
  by (rule register_owned(3) [OF assms])

theorem failed_registration_leaves_nothing_witness:
  "caches (snd (register_callback example_metric_env (\<lambda>_. [ObserveArg 0 [ZLong 1], Raise]) [0, 1] metrics_start)) = (\<lambda>_. [])"
proof -
  have "fst (register_callback example_metric_env (\<lambda>_. [ObserveArg 0 [ZLong 1], Raise]) [0, 1] metrics_start) \<noteq> Ok ()"
    by (simp add: register_callback_def register_with_def Let_def call_registered_def code_runs_def metrics_start_def
        observer_observe_def on_cache_def read_observation_def arg_at_def numeric_value_def metric_attributes_def)
  from failed_registration_leaves_nothing [OF _ _ _ this] show ?thesis
    by (simp add: owned_def metrics_start_def plain_code_def entries_def)
qed

section \<open>Where callbacks do stay behind\<close>

text \<open>
  An observer that is used after its registration was detached puts an observation in the cache of the
  process, where no registration removes it: it is exported for ever after.
\<close>

lemma kept_observer_outlives_request:
  fixes env :: "int metric_env"
  defines "script \<equiv> [Register [0] (\<lambda>_. []), DetachToken 0, ObserveKept 0 [ZDouble 7]]"
  assumes "order [] = []"
  shows "cache_snapshot (caches (flush_and_clear_request_callbacks env order flush
      (snd (run_script env script metrics_start))) 0) = [\<lparr>obs_value = 7, obs_attributes = []\<rparr>]"
  using assms(2)
  by (simp add: script_def run_script_def register_callback_def register_with_def Let_def call_registered_def
      code_runs_def metrics_start_def token_detach_def detach_callback_def observer_observe_def on_cache_def
      read_observation_def arg_at_def numeric_value_def metric_attributes_def cache_replace_def cache_remove_def
      cache_push_def cache_snapshot_def flush_and_clear_request_callbacks_def)

text \<open>What the first call of a failing registration registered itself stays registered.\<close>

lemma failed_registration_leaves_nested:
  fixes env :: "int metric_env"
  defines "r \<equiv> register_callback env (\<lambda>_. [Register [1] (\<lambda>_. []), Raise]) [0] metrics_start"
  shows "fst r \<noteq> Ok () \<and> map fst (callbacks (snd r)) \<noteq> []"
  by (simp add: r_def register_callback_def register_with_def Let_def call_registered_def
      code_runs_def metrics_start_def detach_callback_def on_cache_def
      cache_replace_def cache_remove_def)

text \<open>A callback registered by a callback while the request is flushed is not released.\<close>

lemma callback_registered_in_flush_survives:
  fixes env :: "int metric_env"
  defines "script \<equiv> [Register [0] (\<lambda>k. if k = 0 then [] else [Register [1] (\<lambda>_. [])])]"
  shows "map fst (callbacks (flush_and_clear_request_callbacks env id flush
      (snd (run_script env script metrics_start)))) = [2]"
  by (simp add: script_def run_script_def register_callback_def register_with_def Let_def call_registered_def
      code_runs_def metrics_start_def detach_callback_def invoke_callback_def on_cache_def
      cache_replace_def cache_remove_def flush_and_clear_request_callbacks_def)

end
