(* ===== verification/Meter.thy ===== *)
theory Meter
  imports Observable Signal_Providers
begin

text \<open>
  Meters and instruments: \<open>metrics/meter.rs\<close> and \<open>metrics/instrument.rs\<close>. Synchronous instruments pass
  measurements to the SDK; observable ones share a cache by provider, scope, kind, name, unit and
  description.

  An instrument of the SDK is the description it was built from. What callable values do when they are
  called is a parameter (\<open>callable\<close>), as are the states behind object handles (\<open>instruments\<close>) and the
  test \<open>amount >= 0.0\<close> (\<open>nonneg\<close>), which is false for NaN.
\<close>

section \<open>Synchronous instruments\<close>

datatype sync_kind = SyncCounter | SyncUpDownCounter | SyncHistogram | SyncGauge

record 'f sdk_instrument =
  si_meter :: "'f scope"
  si_kind :: sync_kind
  si_name :: string
  si_unit :: "string option"
  si_description :: "string option"
  si_boundaries :: "'f list option"

datatype 'f sync_instrument =
  CounterI "'f sdk_instrument" bool
| UpDownCounterI "'f sdk_instrument" bool
| HistogramI "'f sdk_instrument" bool
| GaugeI "'f sdk_instrument" bool
| EmptyI

text \<open>What was handed to the SDK: instrument, amount and attributes.\<close>

type_synonym 'f measurement = "'f sdk_instrument \<times> 'f \<times> 'f key_value list"

definition record_measurement ::
  "'f metric_env \<Rightarrow> ('f \<Rightarrow> bool) \<Rightarrow> 'f sync_instrument \<Rightarrow> 'f zval list \<Rightarrow> 'f measurement list \<Rightarrow>
     (php_error, unit) result \<times> 'f measurement list" where
  "record_measurement env nonneg this args out =
     (case result_bind (arg_at args 0) (numeric_value env) of
        Inl e \<Rightarrow> (Err e, out)
      | Inr amount \<Rightarrow>
     (case metric_attributes env args 1 of
        Inl e \<Rightarrow> (Err e, out)
      | Inr attributes \<Rightarrow>
     (Ok (), case this of
        CounterI i True \<Rightarrow> if nonneg amount then out @ [(i, amount, attributes)] else out
      | UpDownCounterI i True \<Rightarrow> out @ [(i, amount, attributes)]
      | HistogramI i True \<Rightarrow> if nonneg amount then out @ [(i, amount, attributes)] else out
      | GaugeI i True \<Rightarrow> out @ [(i, amount, attributes)]
      | _ \<Rightarrow> out)))"

fun instrument_enabled :: "'f sync_instrument \<Rightarrow> bool" where
  "instrument_enabled (CounterI i e) = e"
| "instrument_enabled (UpDownCounterI i e) = e"
| "instrument_enabled (HistogramI i e) = e"
| "instrument_enabled (GaugeI i e) = e"
| "instrument_enabled EmptyI = False"

section \<open>Meters\<close>

text \<open>\<open>MeterState\<close>; a meter of the SDK is its scope.\<close>

record 'f meter_obj =
  mo_meter :: "'f scope option"
  mo_enabled :: bool
  mo_provider_key :: provider_key
  mo_scope_key :: string

definition meter_object :: "'f meter_state \<Rightarrow> 'f meter_obj" where
  "meter_object m =
     \<lparr>mo_meter = Some (ms_scope m), mo_enabled = ms_enabled m, mo_provider_key = ms_provider_key m,
      mo_scope_key = ms_scope_key m\<rparr>"

definition optional_string :: "'f zval list \<Rightarrow> nat \<Rightarrow> string option" where
  "optional_string args i =
     (if i < length args then (case args ! i of ZStr b \<Rightarrow> to_str b | _ \<Rightarrow> None) else None)"

definition instrument_name :: "'f zval list \<Rightarrow> (php_error, string) result" where
  "instrument_name args = result_bind (arg_at args 0) expect_utf8"

definition configured_builder ::
  "'f sdk_instrument \<Rightarrow> string option \<Rightarrow> string option \<Rightarrow> 'f sdk_instrument" where
  "configured_builder b unit description =
     (let b1 = (case unit of Some u \<Rightarrow> b\<lparr>si_unit := Some u\<rparr> | None \<Rightarrow> b)
      in case description of Some d \<Rightarrow> b1\<lparr>si_description := Some d\<rparr> | None \<Rightarrow> b1)"

definition new_builder :: "'f scope \<Rightarrow> sync_kind \<Rightarrow> string \<Rightarrow> 'f sdk_instrument" where
  "new_builder m kind name =
     \<lparr>si_meter = m, si_kind = kind, si_name = name, si_unit = None, si_description = None, si_boundaries = None\<rparr>"

definition meter_of :: "'f meter_obj \<Rightarrow> (php_error, 'f scope) result" where
  "meter_of this = (case mo_meter this of Some m \<Rightarrow> Ok m | None \<Rightarrow> Err (BoxedError ''meter is not initialized''))"

definition create_counter :: "'f meter_obj \<Rightarrow> 'f zval list \<Rightarrow> (php_error, 'f sync_instrument) result" where
  "create_counter this args =
     result_bind (meter_of this) (\<lambda>m.
     result_bind (instrument_name args) (\<lambda>name.
     Ok (CounterI (configured_builder (new_builder m SyncCounter name) (optional_string args 1) (optional_string args 2))
       (mo_enabled this))))"

definition create_up_down_counter :: "'f meter_obj \<Rightarrow> 'f zval list \<Rightarrow> (php_error, 'f sync_instrument) result" where
  "create_up_down_counter this args =
     result_bind (meter_of this) (\<lambda>m.
     result_bind (instrument_name args) (\<lambda>name.
     Ok (UpDownCounterI
       (configured_builder (new_builder m SyncUpDownCounter name) (optional_string args 1) (optional_string args 2))
       (mo_enabled this))))"

definition create_gauge :: "'f meter_obj \<Rightarrow> 'f zval list \<Rightarrow> (php_error, 'f sync_instrument) result" where
  "create_gauge this args =
     result_bind (meter_of this) (\<lambda>m.
     result_bind (instrument_name args) (\<lambda>name.
     Ok (GaugeI (configured_builder (new_builder m SyncGauge name) (optional_string args 1) (optional_string args 2))
       (mo_enabled this))))"

text \<open>The boundaries of a histogram: the numbers of an array in the advisory argument.\<close>

definition boundary :: "'f metric_env \<Rightarrow> 'f zval \<Rightarrow> 'f option" where
  "boundary env v = (case v of ZDouble d \<Rightarrow> Some d | ZLong n \<Rightarrow> Some (metric_to_f64 env n) | _ \<Rightarrow> None)"

definition advisory_boundaries :: "'f metric_env \<Rightarrow> 'f zval list \<Rightarrow> 'f list option" where
  "advisory_boundaries env args =
     (if 3 < length args
      then (case args ! 3 of
          ZArr a \<Rightarrow>
            (case map_of a (symtable_key ''ExplicitBucketBoundaries'') of
               Some (ZArr bs) \<Rightarrow> Some (List.map_filter (\<lambda>(_, v). boundary env v) bs)
             | _ \<Rightarrow> None)
        | _ \<Rightarrow> None)
      else None)"

definition create_histogram ::
  "'f metric_env \<Rightarrow> 'f meter_obj \<Rightarrow> 'f zval list \<Rightarrow> (php_error, 'f sync_instrument) result" where
  "create_histogram env this args =
     result_bind (meter_of this) (\<lambda>m.
     result_bind (instrument_name args) (\<lambda>name.
     let b = new_builder m SyncHistogram name;
         b1 = (case optional_string args 1 of Some u \<Rightarrow> b\<lparr>si_unit := Some u\<rparr> | None \<Rightarrow> b);
         b2 = (case optional_string args 2 of Some d \<Rightarrow> b1\<lparr>si_description := Some d\<rparr> | None \<Rightarrow> b1);
         b3 = (case advisory_boundaries env args of Some bs \<Rightarrow> b2\<lparr>si_boundaries := Some bs\<rparr> | None \<Rightarrow> b2)
     in Ok (HistogramI b3 (mo_enabled this))))"

section \<open>Observable instruments\<close>

datatype async_kind = AsyncCounter | AsyncUpDownCounter | AsyncGauge

record async_key =
  ak_provider :: provider_key
  ak_scope :: string
  ak_kind :: async_kind
  ak_name :: string
  ak_unit :: "string option"
  ak_description :: "string option"

text \<open>
  \<open>ASYNC_CACHES\<close> and the heap of caches: the table of shared caches, the next free address, and the
  instruments built by the SDK, each reading one cache.
\<close>

record 'f meter_world =
  world_metrics :: "'f metrics"
  async_caches :: "(async_key \<times> nat) list"
  next_cache :: nat
  built :: "('f scope \<times> async_key \<times> nat) list"

text \<open>\<open>AsynchronousInstrumentState\<close>.\<close>

record async_obj =
  ao_cache :: "nat option"
  ao_enabled :: bool
  ao_provider_key :: "provider_key option"
  ao_scope_key :: string

definition remove_async_caches :: "nat \<Rightarrow> 'f meter_world \<Rightarrow> 'f meter_world" where
  "remove_async_caches pid w =
     w\<lparr>async_caches := filter (\<lambda>(k, _). fst (ak_provider k) \<noteq> pid) (async_caches w)\<rparr>"

definition new_cache :: "'f meter_world \<Rightarrow> nat \<times> 'f meter_world" where
  "new_cache w =
     (next_cache w, w\<lparr>next_cache := next_cache w + 1,
        world_metrics := on_cache (next_cache w) (\<lambda>_. []) (world_metrics w)\<rparr>)"

definition build_async_cache :: "'f scope \<Rightarrow> async_key \<Rightarrow> 'f meter_world \<Rightarrow> nat \<times> 'f meter_world" where
  "build_async_cache m key w = (let (c, w1) = new_cache w in (c, w1\<lparr>built := built w1 @ [(m, key, c)]\<rparr>))"

text \<open>What the callback of a built instrument reports to the SDK's observer.\<close>

definition reported :: "'f meter_world \<Rightarrow> nat \<Rightarrow> ('f \<times> 'f key_value list) list" where
  "reported w c = map (\<lambda>ob. (obs_value ob, obs_attributes ob)) (cache_snapshot (caches (world_metrics w) c))"

definition async_instrument_key ::
  "'f meter_obj \<Rightarrow> async_kind \<Rightarrow> string \<Rightarrow> string option \<Rightarrow> string option \<Rightarrow> async_key" where
  "async_instrument_key this kind name unit description =
     \<lparr>ak_provider = mo_provider_key this, ak_scope = mo_scope_key this, ak_kind = kind, ak_name = name,
      ak_unit = unit, ak_description = description\<rparr>"

definition create_async_cache ::
  "'f meter_obj \<Rightarrow> async_kind \<Rightarrow> string \<Rightarrow> string option \<Rightarrow> string option \<Rightarrow> 'f meter_world \<Rightarrow>
     (php_error, nat) result \<times> 'f meter_world" where
  "create_async_cache this kind name unit description w =
     (if \<not> mo_enabled this then (let (c, w1) = new_cache w in (Ok c, w1))
      else case meter_of this of
          Inl e \<Rightarrow> (Err e, w)
        | Inr m \<Rightarrow>
            (let key = async_instrument_key this kind name unit description in
             case map_of (async_caches w) key of
               Some c \<Rightarrow> (Ok c, w)
             | None \<Rightarrow>
                 (let (c, w1) = build_async_cache m key w
                  in (Ok c, w1\<lparr>async_caches := async_caches w1 @ [(key, c)]\<rparr>))))"

definition initialize_async_object :: "'f meter_obj \<Rightarrow> nat \<Rightarrow> async_obj" where
  "initialize_async_object this c =
     \<lparr>ao_cache = Some c, ao_enabled = mo_enabled this, ao_provider_key = Some (mo_provider_key this),
      ao_scope_key = mo_scope_key this\<rparr>"

definition callback_arguments :: "'f zval list \<Rightarrow> 'f zval list" where
  "callback_arguments args =
     (if 3 < length args \<and> (case args ! 3 of ZArr _ \<Rightarrow> False | _ \<Rightarrow> True) then [args ! 3] else []) @ drop 4 args"

definition noop_callback :: "'f metrics \<Rightarrow> 'f metrics" where
  "noop_callback s = s\<lparr>tokens := tokens s @ [None]\<rparr>"

definition register_in ::
  "'f metric_env \<Rightarrow> ('f zval \<Rightarrow> nat \<Rightarrow> 'f php_action list) \<Rightarrow> 'f zval \<Rightarrow> nat list \<Rightarrow> 'f meter_world \<Rightarrow>
     (php_error, unit) result \<times> 'f meter_world" where
  "register_in env callable v cs w =
     (let (result, s) = register_callback env (callable v) cs (world_metrics w) in (result, w\<lparr>world_metrics := s\<rparr>))"

fun register_initial_callbacks ::
  "'f metric_env \<Rightarrow> ('f zval \<Rightarrow> nat \<Rightarrow> 'f php_action list) \<Rightarrow> 'f zval list \<Rightarrow> nat \<Rightarrow> 'f meter_world \<Rightarrow>
     (php_error, unit) result \<times> 'f meter_world" where
  "register_initial_callbacks env callable [] c w = (Ok (), w)"
| "register_initial_callbacks env callable (v # vs) c w =
     (case register_in env callable v [c] w of
        (Inl e, w') \<Rightarrow> (Err e, w')
      | (Inr _, w') \<Rightarrow> register_initial_callbacks env callable vs c w')"

text \<open>The factories of observable instruments.\<close>

definition create_observable ::
  "'f metric_env \<Rightarrow> ('f zval \<Rightarrow> nat \<Rightarrow> 'f php_action list) \<Rightarrow> async_kind \<Rightarrow> 'f meter_obj \<Rightarrow> 'f zval list \<Rightarrow>
     'f meter_world \<Rightarrow> (php_error, async_obj) result \<times> 'f meter_world" where
  "create_observable env callable kind this args w =
     (case instrument_name args of
        Inl e \<Rightarrow> (Err e, w)
      | Inr name \<Rightarrow>
     (case create_async_cache this kind name (optional_string args 1) (optional_string args 2) w of
        (Inl e, w1) \<Rightarrow> (Err e, w1)
      | (Inr c, w1) \<Rightarrow>
          if mo_enabled this
          then (case register_initial_callbacks env callable (callback_arguments args) c w1 of
              (Inl e, w2) \<Rightarrow> (Err e, w2)
            | (Inr _, w2) \<Rightarrow> (Ok (initialize_async_object this c), w2))
          else (Ok (initialize_async_object this c), w1)))"

text \<open>\<open>observe\<close> of an observable instrument, and \<open>batchObserve\<close> of a meter.\<close>

definition async_observe ::
  "'f metric_env \<Rightarrow> ('f zval \<Rightarrow> nat \<Rightarrow> 'f php_action list) \<Rightarrow> async_obj \<Rightarrow> 'f zval list \<Rightarrow> 'f meter_world \<Rightarrow>
     (php_error, unit) result \<times> 'f meter_world" where
  "async_observe env callable this args w =
     (if \<not> ao_enabled this then (Ok (), w\<lparr>world_metrics := noop_callback (world_metrics w)\<rparr>)
      else case arg_at args 0 of
          Inl e \<Rightarrow> (Err e, w)
        | Inr v \<Rightarrow>
            (case ao_cache this of
               None \<Rightarrow> (Err (BoxedError ''observable instrument is not initialized''), w)
             | Some c \<Rightarrow> register_in env callable v [c] w))"

fun batch_caches ::
  "(nat \<Rightarrow> async_obj) \<Rightarrow> 'f meter_obj \<Rightarrow> 'f zval list \<Rightarrow> (php_error, nat list) result" where
  "batch_caches instruments this [] = Ok []"
| "batch_caches instruments this (v # vs) =
     result_bind (expect_obj v) (\<lambda>h.
     if ao_provider_key (instruments h) \<noteq> Some (mo_provider_key this) \<or> ao_scope_key (instruments h) \<noteq> mo_scope_key this
     then Err (BoxedError ''batchObserve instruments must be created by this meter'')
     else case ao_cache (instruments h) of
         None \<Rightarrow> Err (BoxedError ''observable instrument is not initialized'')
       | Some c \<Rightarrow> result_bind (batch_caches instruments this vs) (\<lambda>cs. Ok (c # cs)))"

definition batch_observe ::
  "'f metric_env \<Rightarrow> ('f zval \<Rightarrow> nat \<Rightarrow> 'f php_action list) \<Rightarrow> (nat \<Rightarrow> async_obj) \<Rightarrow> 'f meter_obj \<Rightarrow> 'f zval list \<Rightarrow>
     'f meter_world \<Rightarrow> (php_error, unit) result \<times> 'f meter_world" where
  "batch_observe env callable instruments this args w =
     (if \<not> mo_enabled this then (Ok (), w\<lparr>world_metrics := noop_callback (world_metrics w)\<rparr>)
      else case arg_at args 0 of
          Inl e \<Rightarrow> (Err e, w)
        | Inr v \<Rightarrow>
            (case batch_caches instruments this (drop 1 args) of
               Inl e \<Rightarrow> (Err e, w)
             | Inr cs \<Rightarrow> register_in env callable v cs w))"

section \<open>Lemmas\<close>

definition meter_world_start :: "'f meter_world" where
  "meter_world_start = \<lparr>world_metrics = metrics_start, async_caches = [], next_cache = 0, built = []\<rparr>"

text \<open>Requests for caches, by meter, kind, name, unit and description.\<close>

type_synonym 'f cache_request = "'f meter_obj \<times> async_kind \<times> string \<times> string option \<times> string option"

fun create_all :: "'f cache_request list \<Rightarrow> 'f meter_world \<Rightarrow> (php_error, nat) result list \<times> 'f meter_world" where
  "create_all [] w = ([], w)"
| "create_all ((this, kind, name, unit, description) # reqs) w =
     (let (r, w1) = create_async_cache this kind name unit description w; (rs, w2) = create_all reqs w1 in (r # rs, w2))"

fun request_key :: "'f cache_request \<Rightarrow> async_key" where
  "request_key (this, kind, name, unit, description) = async_instrument_key this kind name unit description"

definition async_wf :: "'f meter_world \<Rightarrow> bool" where
  "async_wf w \<longleftrightarrow>
     distinct (map fst (async_caches w)) \<and> distinct (map snd (async_caches w))
   \<and> (\<forall>c\<in>snd ` set (async_caches w). c < next_cache w)
   \<and> map (\<lambda>(m, k, c). (k, c)) (built w) = async_caches w"

text \<open>What one request gives, in a world that may have grown since.\<close>

definition answers :: "'f cache_request \<Rightarrow> (php_error, nat) result \<Rightarrow> 'f meter_world \<Rightarrow> bool" where
  "answers req r w \<longleftrightarrow>
     (if \<not> mo_enabled (fst req) then \<exists>c. r = Ok c \<and> c < next_cache w \<and> c \<notin> snd ` set (async_caches w)
      else if mo_meter (fst req) = None then r = Err (BoxedError ''meter is not initialized'')
      else \<exists>c. r = Ok c \<and> map_of (async_caches w) (request_key req) = Some c)"

definition grows :: "'f meter_world \<Rightarrow> 'f meter_world \<Rightarrow> bool" where
  "grows w w' \<longleftrightarrow> next_cache w \<le> next_cache w'
     \<and> (\<exists>new. async_caches w' = async_caches w @ new \<and> (\<forall>c\<in>snd ` set new. next_cache w \<le> c))"

lemma grows_trans: "grows u v \<Longrightarrow> grows v w \<Longrightarrow> grows u w"
  unfolding grows_def
proof (elim conjE exE)
  fix new new'
  assume "next_cache u \<le> next_cache v" and "next_cache v \<le> next_cache w"
    and "async_caches v = async_caches u @ new" and "async_caches w = async_caches v @ new'"
    and "\<forall>c\<in>snd ` set new. next_cache u \<le> c" and "\<forall>c\<in>snd ` set new'. next_cache v \<le> c"
  then show "next_cache u \<le> next_cache w \<and>
      (\<exists>n. async_caches w = async_caches u @ n \<and> (\<forall>c\<in>snd ` set n. next_cache u \<le> c))"
    by (intro conjI exI [of _ "new @ new'"]) fastforce+
qed

lemma answers_grow: "answers req r w \<Longrightarrow> grows w w' \<Longrightarrow> answers req r w'"
  by (fastforce simp: answers_def grows_def map_add_def map_of_append split: if_splits option.splits)

lemma create_async_cache_step:
  assumes "create_async_cache this kind name unit description w = (r, w')" and "async_wf w"
  shows "async_wf w' \<and> grows w w' \<and> answers (this, kind, name, unit, description) r w'"
proof (cases "mo_enabled this \<and> mo_meter this \<noteq> None
    \<and> map_of (async_caches w) (async_instrument_key this kind name unit description) = None")
  case True
  let ?key = "async_instrument_key this kind name unit description"
  from True obtain m where m: "mo_meter this = Some m" by auto
  with True assms(1) have w': "r = Ok (next_cache w)" "async_caches w' = async_caches w @ [(?key, next_cache w)]"
    "next_cache w' = Suc (next_cache w)" "built w' = built w @ [(m, ?key, next_cache w)]"
    by (auto simp: create_async_cache_def meter_of_def build_async_cache_def new_cache_def Let_def)
  from True have "?key \<notin> fst ` set (async_caches w)" by (simp add: map_of_None_iff_key)
  with assms(2) True m w' show ?thesis
    by (auto simp: async_wf_def grows_def answers_def map_add_def less_SucI)
next
  case False
  have below: "c < next_cache w \<and> c \<noteq> next_cache w" if "(k, c) \<in> set (async_caches w)" for k c
    using assms(2) that by (force simp: async_wf_def)
  then have fresh: "(k, next_cache w) \<notin> set (async_caches w)" for k by blast
  from False assms below fresh show ?thesis
    by (auto simp: create_async_cache_def meter_of_def new_cache_def Let_def async_wf_def grows_def answers_def less_SucI
        split: option.splits if_splits)
qed

lemma create_all_answers:
  "create_all reqs w = (rs, w') \<Longrightarrow> async_wf w \<Longrightarrow>
     async_wf w' \<and> grows w w' \<and> list_all2 (\<lambda>req r. answers req r w') reqs rs"
proof (induction reqs w arbitrary: rs w' rule: create_all.induct)
  case (1 w)
  then show ?case by (simp add: grows_def)
next
  case (2 this kind name unit description reqs w)
  obtain r w1 where 1: "create_async_cache this kind name unit description w = (r, w1)"
    by (cases "create_async_cache this kind name unit description w")
  obtain rs' where 3: "create_all reqs w1 = (rs', w')" "rs = r # rs'"
    using "2.prems"(1) 1 by (cases "create_all reqs w1") simp
  note step = create_async_cache_step [OF 1 "2.prems"(2)]
  with "2.IH" [OF 1 [symmetric] refl 3(1)] have "async_wf w' \<and> grows w1 w' \<and> list_all2 (\<lambda>req r. answers req r w') reqs rs'"
    by simp
  with step answers_grow grows_trans 3(2) show ?case by blast
qed

text \<open>Which instruments a meter makes, and the measurements of a sequence of calls.\<close>

definition made_by :: "'f metric_env \<Rightarrow> 'f meter_obj \<Rightarrow> 'f sync_instrument \<Rightarrow> bool" where
  "made_by env this i \<longleftrightarrow>
     (\<exists>args. create_counter this args = Ok i \<or> create_up_down_counter this args = Ok i
        \<or> create_gauge this args = Ok i \<or> create_histogram env this args = Ok i)"

fun sdk_of :: "'f sync_instrument \<Rightarrow> 'f sdk_instrument option" where
  "sdk_of (CounterI i e) = Some i"
| "sdk_of (UpDownCounterI i e) = Some i"
| "sdk_of (HistogramI i e) = Some i"
| "sdk_of (GaugeI i e) = Some i"
| "sdk_of EmptyI = None"

fun kind_of :: "'f sync_instrument \<Rightarrow> sync_kind option" where
  "kind_of (CounterI i e) = Some SyncCounter"
| "kind_of (UpDownCounterI i e) = Some SyncUpDownCounter"
| "kind_of (HistogramI i e) = Some SyncHistogram"
| "kind_of (GaugeI i e) = Some SyncGauge"
| "kind_of EmptyI = None"

lemma configured_kind [simp]: "si_kind (configured_builder b u d) = si_kind b" "si_meter (configured_builder b u d) = si_meter b"
  by (simp_all add: configured_builder_def Let_def split: option.split)

lemma made_by_facts:
  assumes "made_by env this i"
  shows "map_option si_kind (sdk_of i) = kind_of i" and "instrument_enabled i = mo_enabled this"
    and "map_option si_meter (sdk_of i) = mo_meter this"
  using assms
  by (auto simp: made_by_def create_counter_def create_up_down_counter_def create_gauge_def create_histogram_def
      meter_of_def new_builder_def Let_def result_bind_Inr_conv split: option.splits)

definition record_all ::
  "'f metric_env \<Rightarrow> ('f \<Rightarrow> bool) \<Rightarrow> ('f sync_instrument \<times> 'f zval list) list \<Rightarrow> 'f measurement list \<Rightarrow> 'f measurement list" where
  "record_all env nonneg calls out = fold (\<lambda>(i, args) out. snd (record_measurement env nonneg i args out)) calls out"

definition legal :: "'f metric_env \<Rightarrow> ('f \<Rightarrow> bool) \<Rightarrow> 'f meter_obj \<Rightarrow> 'f measurement \<Rightarrow> bool" where
  "legal env nonneg this = (\<lambda>(i, amount, attributes).
     mo_enabled this \<and> mo_meter this = Some (si_meter i)
   \<and> (si_kind i = SyncCounter \<or> si_kind i = SyncHistogram \<longrightarrow> nonneg amount)
   \<and> length attributes \<le> limit_count (metric_limits (metric_config env))
   \<and> (\<forall>kv\<in>set attributes. within_limits (metric_limits (metric_config env)) kv))"

lemma metric_attributes_within:
  assumes "metric_attributes env args i = Ok attributes"
  shows "length attributes \<le> limit_count (metric_limits (metric_config env))
    \<and> (\<forall>kv\<in>set attributes. within_limits (metric_limits (metric_config env)) kv)"
proof (cases "i < length args")
  case True
  with assms obtain a where "attributes = zval_arr_to_key_value_vec (metric_to_f64 env) (metric_config env) a Metric"
    by (auto simp: metric_attributes_def iterable_key_values_def result_bind_Inr_conv)
  with converted_length [of "metric_to_f64 env" "metric_config env" a Metric]
    converted_within [of _ "metric_to_f64 env" "metric_config env" a Metric] show ?thesis by auto
qed (use assms in \<open>simp add: metric_attributes_def\<close>)

lemma record_measurement_legal:
  assumes "made_by env this i" and "\<forall>m\<in>set out. legal env nonneg this m"
  shows "\<forall>m\<in>set (snd (record_measurement env nonneg i args out)). legal env nonneg this m"
  using assms(2) made_by_facts [OF assms(1)]
  by (cases i) (auto simp: record_measurement_def legal_def dest!: metric_attributes_within
      split: sum.split bool.split)

lemma batch_caches_own:
  "batch_caches instruments this vs = Ok cs \<Longrightarrow>
     list_all2 (\<lambda>v c. \<exists>h. v = ZObj h \<and> ao_cache (instruments h) = Some c
       \<and> ao_provider_key (instruments h) = Some (mo_provider_key this) \<and> ao_scope_key (instruments h) = mo_scope_key this) vs cs"
proof (induction vs arbitrary: cs)
  case (Cons v vs)
  then show ?case
    by (cases v) (auto simp: expect_obj_def result_bind_Inr_conv split: option.splits if_splits)
qed simp

lemma removed_pid: "k \<in> fst ` set (async_caches (remove_async_caches pid w)) \<Longrightarrow> fst (ak_provider k) \<noteq> pid"
  by (auto simp: remove_async_caches_def)

text \<open>
  The key has no scope attributes: a meter that differs from an earlier one only in these gets the
  instrument of the earlier one.
\<close>

lemma scope_attributes_share_instrument:
  assumes "mo_meter this = Some m" and "mo_enabled this"
    and "that = this\<lparr>mo_meter := Some (m\<lparr>scope_attributes := attributes\<rparr>)\<rparr>"
    and "create_async_cache this kind name u d meter_world_start = (r, w)"
  shows "create_async_cache that kind name u d w = (r, w) \<and> map fst (built w) = [m]"
  using assms
  by (auto simp: create_async_cache_def meter_of_def build_async_cache_def new_cache_def Let_def
      async_instrument_key_def meter_world_start_def)

section \<open>Properties\<close>

text \<open>
  However often PHP code asks for observable instruments, requests with the same provider, scope,
  kind, name, unit and description get the same cache and the SDK builds one instrument for them, and
  requests that differ in any of these get different ones; a disabled meter gets a cache of its own that
  no instrument reads, and a meter that was not initialized an error.
\<close>

lemma async_caches_by_key:
  fixes reqs :: "'f cache_request list"
  defines "rs \<equiv> fst (create_all reqs meter_world_start)" and "w \<equiv> snd (create_all reqs meter_world_start)"
  shows "list_all2 (\<lambda>req r. answers req r w) reqs rs
    \<and> distinct (map fst (async_caches w)) \<and> distinct (map snd (async_caches w))
    \<and> map (\<lambda>(m, k, c). (k, c)) (built w) = async_caches w"
proof -
  have "async_wf (meter_world_start :: 'f meter_world)" by (simp add: async_wf_def meter_world_start_def)
  from create_all_answers [OF _ this, of reqs rs w] show ?thesis by (simp add: rs_def w_def async_wf_def)
qed

text \<open>
  C28. What the instruments of a meter hand to the SDK is legal, for any sequence of calls with any
  arguments: nothing when the meter is disabled, no negative amount and no NaN on counters and
  histograms, and attributes within the limits for metrics.
\<close>

theorem measurements_legal:
  assumes "\<forall>(i, args)\<in>set calls. made_by env this i"
  shows "\<forall>m\<in>set (record_all env nonneg calls []). legal env nonneg this m"
proof -
  have "\<forall>m\<in>set out. legal env nonneg this m \<Longrightarrow> \<forall>m\<in>set (record_all env nonneg calls out). legal env nonneg this m" for out
    using assms
  proof (induction calls arbitrary: out)
    case (Cons call calls)
    obtain i args where call: "call = (i, args)" by (cases call)
    with Cons.prems record_measurement_legal [of env this i out nonneg args] Cons.IH show ?case
      by (simp add: record_all_def)
  qed (simp add: record_all_def)
  from this [of "[]"] show ?thesis by simp
qed

definition example_meter :: "int meter_obj" where
  "example_meter =
     \<lparr>mo_meter = Some \<lparr>scope_name = ''shop'', scope_version = None, scope_schema_url = None, scope_attributes = []\<rparr>,
      mo_enabled = True, mo_provider_key = (1, ''a''), mo_scope_key = ''shop''\<rparr>"

definition example_counter :: "int sdk_instrument" where
  "example_counter = new_builder \<lparr>scope_name = ''shop'', scope_version = None, scope_schema_url = None, scope_attributes = []\<rparr>
     SyncCounter ''orders''"

theorem measurements_legal_witness:
  "record_all example_metric_env (\<lambda>x. 0 \<le> x)
      [(CounterI example_counter True, [ZLong 3]), (CounterI example_counter True, [ZLong (-1)])] []
     = [(example_counter, 3, [])]
   \<and> legal example_metric_env (\<lambda>x. 0 \<le> x) example_meter (example_counter, 3, [])"
proof
  let ?calls = "[(CounterI example_counter True, [ZLong 3]), (CounterI example_counter True, [ZLong (-1)])]"
  show run: "record_all example_metric_env (\<lambda>x. 0 \<le> x) ?calls [] = [(example_counter, 3, [])]"
    by (simp add: record_all_def record_measurement_def arg_at_def numeric_value_def metric_attributes_def
        example_metric_env_def)
  have "valid_utf8 ''orders''" by (rule valid_utf8_ascii) simp
  then have "create_counter example_meter [ZStr ''orders''] = Ok (CounterI example_counter True)"
    by (simp add: create_counter_def meter_of_def example_meter_def instrument_name_def arg_at_def expect_utf8_def
        expect_str_def optional_string_def configured_builder_def example_counter_def to_str_def)
  then have "made_by example_metric_env example_meter (CounterI example_counter True)" by (auto simp: made_by_def)
  then show "legal example_metric_env (\<lambda>x. 0 \<le> x) example_meter (example_counter, 3, [])"
    using measurements_legal [of ?calls example_metric_env example_meter "\<lambda>x. 0 \<le> x"] unfolding run by simp
qed

end
