(* ===== verification/Auto_Hooks.thy ===== *)
theory Auto_Hooks
  imports Diagnostics Attributes
begin

text \<open>
  Hooks around PHP functions: \<open>auto/plugin.rs\<close>, \<open>auto/plugin_manager.rs\<close>, \<open>auto/execute.rs\<close> (PHP 7),
  \<open>auto/observer.rs\<close> (PHP 8) and \<open>auto/execute_data.rs\<close>. Plugins bring handlers with targets and
  callbacks; for a function that is called, the callbacks of the matching handlers run before and after
  it, and a panic in them is contained.

  What callbacks and PHP functions work on is the type \<open>'w\<close>; it includes arguments, return value and
  pending exception. A call is named by the address of its execute data. Which classes are instances of
  which interfaces is the argument \<open>instance_of\<close>.
\<close>

section \<open>Functions\<close>

text \<open>\<open>full_name\<close> is what the engine binding gives as \<open>class::method\<close> or function name.\<close>

record php_function =
  fn_name :: "bytes option"
  fn_class :: "bytes option"
  full_name :: bytes
  fn_file :: "bytes option"
  fn_line :: "nat option"

definition get_function_and_class_name :: "php_function \<Rightarrow> (string option \<times> string option) option" where
  "get_function_and_class_name f =
     (let text = (\<lambda>b. case b of None \<Rightarrow> Some None | Some x \<Rightarrow> map_option Some (to_str x)) in
      case text (fn_name f) of
        None \<Rightarrow> None
      | Some function \<Rightarrow> (case text (fn_class f) of None \<Rightarrow> None | Some c \<Rightarrow> Some (function, c)))"

definition get_fqn :: "php_function \<Rightarrow> string option" where
  "get_fqn f =
     (case (case get_function_and_class_name f of Some p \<Rightarrow> p | None \<Rightarrow> (None, None)) of
        (Some function, Some c) \<Rightarrow> Some (c @ ''::'' @ function)
      | (Some function, None) \<Rightarrow> Some function
      | _ \<Rightarrow> None)"

definition get_file_and_line :: "php_function \<Rightarrow> (string \<times> nat) option" where
  "get_file_and_line f =
     (case (fn_file f, fn_line f) of
        (Some file, Some line) \<Rightarrow> Some (case to_str file of Some t \<Rightarrow> t | None \<Rightarrow> '''', line)
      | _ \<Rightarrow> None)"

definition get_default_attributes :: "php_function \<Rightarrow> 'f key_value list" where
  "get_default_attributes f =
     (case get_fqn f of Some fqn \<Rightarrow> [(''code.function.name'', VString fqn)] | None \<Rightarrow> [])
     @ (case get_file_and_line f of
          Some (file, line) \<Rightarrow> [(''code.file.path'', VString file), (''code.line.number'', VI64 (int line))]
        | None \<Rightarrow> [])"

section \<open>Plugins\<close>

type_synonym 'w hook = "nat \<Rightarrow> 'w \<Rightarrow> unit outcome \<times> 'w"

type_synonym target = "string option \<times> string"

record 'w handler =
  handler_targets :: "target list"
  pre_observe :: "'w hook option"
  post_observe :: "'w hook option"

record 'w plugin =
  plugin_name :: string
  plugin_handlers :: "'w handler list"
  plugin_shutdown :: "'w \<Rightarrow> 'w"

record 'w function_observer =
  pre_hooks :: "'w hook list"
  post_hooks :: "'w hook list"

definition observer_new :: "'w function_observer" where
  "observer_new = \<lparr>pre_hooks = [], post_hooks = []\<rparr>"

definition add_pre_hook :: "'w hook \<Rightarrow> 'w function_observer \<Rightarrow> 'w function_observer" where
  "add_pre_hook h ob = ob\<lparr>pre_hooks := pre_hooks ob @ [h]\<rparr>"

definition add_post_hook :: "'w hook \<Rightarrow> 'w function_observer \<Rightarrow> 'w function_observer" where
  "add_post_hook h ob = ob\<lparr>post_hooks := post_hooks ob @ [h]\<rparr>"

definition has_hooks :: "'w function_observer \<Rightarrow> bool" where
  "has_hooks ob \<longleftrightarrow> pre_hooks ob \<noteq> [] \<or> post_hooks ob \<noteq> []"

section \<open>The plugin manager\<close>

definition get_disabled_plugins :: "bytes option \<Rightarrow> string set" where
  "get_disabled_plugins ini =
     (let v = (case Option.bind ini to_str of Some t \<Rightarrow> t | None \<Rightarrow> '''')
      in set (filter (\<lambda>s. s \<noteq> []) (map trim (split_on (CHR '','') v))))"

text \<open>\<open>PluginManager::new\<close>; \<open>builtin\<close> gives the plugins by name, \<open>with_test\<close> is the feature \<open>test\<close>.\<close>

definition manager_new :: "(string \<Rightarrow> 'w plugin) \<Rightarrow> bool \<Rightarrow> bytes option \<Rightarrow> 'w plugin list" where
  "manager_new builtin with_test ini =
     (let disabled = get_disabled_plugins ini;
          push = (\<lambda>name. if name \<in> disabled then [] else [builtin name])
      in push ''laravel'' @ push ''laminas'' @ push ''psr18'' @ push ''symfony'' @ push ''zf1''
         @ (if with_test then push ''test'' else []))"

text \<open>\<open>PluginManager::request_shutdown\<close>: what the plugins keep for a request is dropped.\<close>

definition manager_request_shutdown :: "'w plugin list \<Rightarrow> 'w \<Rightarrow> 'w" where
  "manager_request_shutdown plugins w = fold plugin_shutdown plugins w"

definition method_of :: "string \<Rightarrow> target" where
  "method_of name =
     (case find_str ''::'' name of
        Some n \<Rightarrow> (Some (take n name), drop (n + 2) name)
      | None \<Rightarrow> (None, name))"

definition should_trace :: "(bytes \<Rightarrow> string \<Rightarrow> bool) \<Rightarrow> php_function \<Rightarrow> target list \<Rightarrow> bool" where
  "should_trace instance_of f targets =
     (case to_str (full_name f) of
        None \<Rightarrow> False
      | Some name \<Rightarrow>
          (let observed = method_of name in
           if observed \<in> set targets then True
           else if fst observed = None then False
           else case fn_class f of
               None \<Rightarrow> False
             | Some c \<Rightarrow>
                 list_ex (\<lambda>(target_class, target_method).
                   (case target_class of
                      Some interface \<Rightarrow> target_method = snd observed \<and> instance_of c interface
                    | None \<Rightarrow> False)) targets))"

definition add_handler ::
  "(bytes \<Rightarrow> string \<Rightarrow> bool) \<Rightarrow> php_function \<Rightarrow> 'w handler \<Rightarrow> 'w function_observer \<Rightarrow> 'w function_observer" where
  "add_handler instance_of f h ob =
     (if should_trace instance_of f (handler_targets h)
      then let ob1 = (case pre_observe h of Some pre \<Rightarrow> add_pre_hook pre ob | None \<Rightarrow> ob)
           in case post_observe h of Some post \<Rightarrow> add_post_hook post ob1 | None \<Rightarrow> ob1
      else ob)"

definition build_observer ::
  "(bytes \<Rightarrow> string \<Rightarrow> bool) \<Rightarrow> 'w plugin list \<Rightarrow> php_function \<Rightarrow> 'w function_observer" where
  "build_observer instance_of plugins f =
     fold (\<lambda>p. fold (add_handler instance_of f) (plugin_handlers p)) plugins observer_new"

text \<open>The statics, next to the world the hooks work on. \<open>function_observers\<close> exists once the observer API is used.\<close>

record 'w auto_state =
  auto_world :: 'w
  auto_panics :: panic_state
  observer_cache :: "(string \<times> 'w function_observer) list"
  function_observers :: "(string \<times> 'w function_observer) list option"

definition get_function_observer ::
  "(bytes \<Rightarrow> string \<Rightarrow> bool) \<Rightarrow> 'w plugin list \<Rightarrow> php_function \<Rightarrow> 'w auto_state \<Rightarrow>
     'w function_observer option \<times> 'w auto_state" where
  "get_function_observer instance_of plugins f s =
     (case get_fqn f of
        None \<Rightarrow> (None, s)
      | Some fqn \<Rightarrow>
          (case map_of (observer_cache s) fqn of
             Some ob \<Rightarrow> (Some ob, s)
           | None \<Rightarrow>
               (let ob = build_observer instance_of plugins f in
                if has_hooks ob then (Some ob, s\<lparr>observer_cache := AList.update fqn ob (observer_cache s)\<rparr>)
                else (None, s))))"

section \<open>Running hooks\<close>

fun run_hooks :: "'w hook list \<Rightarrow> 'w hook" where
  "run_hooks [] ed w = (Returned (), w)"
| "run_hooks (h # hs) ed w =
     (case h ed w of (Panicked info, w') \<Rightarrow> (Panicked info, w') | (Returned _, w') \<Rightarrow> run_hooks hs ed w')"

definition contained :: "(string \<Rightarrow> bool) \<Rightarrow> ('w \<Rightarrow> unit outcome \<times> 'w) \<Rightarrow> 'w auto_state \<Rightarrow> 'w auto_state" where
  "contained sink f s =
     (case f (auto_world s) of
        (r, w) \<Rightarrow> s\<lparr>auto_world := w, auto_panics := snd (contain sink r (auto_panics s))\<rparr>)"

text \<open>
  \<open>handle_execution\<close>, with the function that was replaced (\<open>upstream\<close>) and what to run afterwards.
  There is no execute data when the engine passes a null pointer.
\<close>

definition handle_execution ::
  "(string \<Rightarrow> bool) \<Rightarrow> (bytes \<Rightarrow> string \<Rightarrow> bool) \<Rightarrow> 'w plugin list option \<Rightarrow> (nat \<times> php_function) option \<Rightarrow>
     (nat option \<Rightarrow> 'w auto_state \<Rightarrow> 'w auto_state) \<Rightarrow>
     ('w plugin list \<Rightarrow> nat \<Rightarrow> php_function \<Rightarrow> 'w auto_state \<Rightarrow> 'w auto_state) \<Rightarrow> 'w auto_state \<Rightarrow> 'w auto_state" where
  "handle_execution sink instance_of manager exec_data upstream run_post_hooks s =
     (case exec_data of
        None \<Rightarrow> upstream None s
      | Some (ed, f) \<Rightarrow>
          (case manager of
             None \<Rightarrow> upstream (Some ed) s
           | Some plugins \<Rightarrow>
               (case get_function_observer instance_of plugins f s of
                  (None, s1) \<Rightarrow> upstream (Some ed) s1
                | (Some ob, s1) \<Rightarrow>
                    run_post_hooks plugins ed f (upstream (Some ed) (contained sink (run_hooks (pre_hooks ob) ed) s1)))))"

text \<open>The closure \<open>execute_ex\<close> and \<open>execute_internal\<close> pass: the observer is looked up again.\<close>

definition execute_post ::
  "(string \<Rightarrow> bool) \<Rightarrow> (bytes \<Rightarrow> string \<Rightarrow> bool) \<Rightarrow> 'w plugin list \<Rightarrow> nat \<Rightarrow> php_function \<Rightarrow>
     'w auto_state \<Rightarrow> 'w auto_state" where
  "execute_post sink instance_of plugins ed f s =
     (case get_function_observer instance_of plugins f s of
        (Some ob, s1) \<Rightarrow> contained sink (run_hooks (post_hooks ob) ed) s1
      | (None, s1) \<Rightarrow> s1)"

definition execute_ex ::
  "(string \<Rightarrow> bool) \<Rightarrow> (bytes \<Rightarrow> string \<Rightarrow> bool) \<Rightarrow> 'w plugin list option \<Rightarrow> (nat option \<Rightarrow> 'w auto_state \<Rightarrow> 'w auto_state) \<Rightarrow>
     (nat \<times> php_function) option \<Rightarrow> 'w auto_state \<Rightarrow> 'w auto_state" where
  "execute_ex sink instance_of manager upstream exec_data =
     handle_execution sink instance_of manager exec_data upstream (execute_post sink instance_of)"

definition execute_internal ::
  "(string \<Rightarrow> bool) \<Rightarrow> (bytes \<Rightarrow> string \<Rightarrow> bool) \<Rightarrow> 'w plugin list option \<Rightarrow> (nat option \<Rightarrow> 'w auto_state \<Rightarrow> 'w auto_state) \<Rightarrow>
     (nat \<times> php_function) option \<Rightarrow> 'w auto_state \<Rightarrow> 'w auto_state" where
  "execute_internal sink instance_of manager upstream exec_data =
     handle_execution sink instance_of manager exec_data upstream (execute_post sink instance_of)"

section \<open>The observer API\<close>

text \<open>\<open>instrument\<close>: whether the engine should call the hooks for this function.\<close>

definition instrument ::
  "(bytes \<Rightarrow> string \<Rightarrow> bool) \<Rightarrow> 'w plugin list option \<Rightarrow> php_function option \<Rightarrow> 'w auto_state \<Rightarrow> bool \<times> 'w auto_state" where
  "instrument instance_of manager exec_data s =
     (case exec_data of
        None \<Rightarrow> (False, s)
      | Some f \<Rightarrow>
     (case get_fqn f of
        None \<Rightarrow> (False, s)
      | Some fqn \<Rightarrow>
     (case manager of
        None \<Rightarrow> (False, s)
      | Some plugins \<Rightarrow>
     (case get_function_observer instance_of plugins f s of
        (None, s1) \<Rightarrow> (False, s1)
      | (Some ob, s1) \<Rightarrow>
          (case function_observers s1 of
             None \<Rightarrow> (False, s1)
           | Some obs \<Rightarrow> (True, s1\<lparr>function_observers := Some (AList.update fqn ob obs)\<rparr>))))))"

definition observer_for :: "string \<Rightarrow> 'w auto_state \<Rightarrow> 'w function_observer option" where
  "observer_for fqn s = Option.bind (function_observers s) (\<lambda>obs. map_of obs fqn)"

definition pre_observe_hooks ::
  "(string \<Rightarrow> bool) \<Rightarrow> (nat \<times> php_function) option \<Rightarrow> 'w auto_state \<Rightarrow> 'w auto_state" where
  "pre_observe_hooks sink exec_data s =
     (case exec_data of
        None \<Rightarrow> s
      | Some (ed, f) \<Rightarrow>
          (case Option.bind (get_fqn f) (\<lambda>fqn. observer_for fqn s) of
             None \<Rightarrow> s | Some ob \<Rightarrow> contained sink (run_hooks (pre_hooks ob) ed) s))"

definition post_observe_hooks ::
  "(string \<Rightarrow> bool) \<Rightarrow> (nat \<times> php_function) option \<Rightarrow> 'w auto_state \<Rightarrow> 'w auto_state" where
  "post_observe_hooks sink exec_data s =
     (case exec_data of
        None \<Rightarrow> s
      | Some (ed, f) \<Rightarrow>
          (case Option.bind (get_fqn f) (\<lambda>fqn. observer_for fqn s) of
             None \<Rightarrow> s | Some ob \<Rightarrow> contained sink (run_hooks (post_hooks ob) ed) s))"

section \<open>Flags of calls\<close>

type_synonym exec_flags = "(nat \<times> bool) list"

definition set_exec_data_flag :: "nat \<Rightarrow> bool \<Rightarrow> exec_flags \<Rightarrow> exec_flags" where
  "set_exec_data_flag ed v m = AList.update ed v m"

definition get_exec_data_flag :: "nat \<Rightarrow> exec_flags \<Rightarrow> bool option" where
  "get_exec_data_flag ed m = map_of m ed"

definition remove_exec_data_flag :: "nat \<Rightarrow> exec_flags \<Rightarrow> exec_flags" where
  "remove_exec_data_flag ed m = AList.delete ed m"

section \<open>Lookups\<close>

lemma get_function_observer_cached:
  assumes "get_function_observer instance_of plugins f s = (Some ob, s1)"
  shows "\<exists>fqn. get_fqn f = Some fqn \<and> map_of (observer_cache s1) fqn = Some ob"
  using assms by (auto simp: get_function_observer_def Let_def update_conv' split: option.splits if_splits)

lemma get_function_observer_None:
  "get_function_observer instance_of plugins f s = (None, s1) \<Longrightarrow> s1 = s"
  by (auto simp: get_function_observer_def Let_def split: option.splits if_splits)

lemma get_function_observer_again:
  assumes "get_fqn f = Some fqn" and "map_of (observer_cache s) fqn = Some ob"
  shows "get_function_observer instance_of plugins f s = (Some ob, s)"
  using assms by (simp add: get_function_observer_def)

lemma contained_frame [simp]:
  "observer_cache (contained sink h s) = observer_cache s" "function_observers (contained sink h s) = function_observers s"
  by (simp_all add: contained_def split: prod.split)

definition keeps_observers :: "('w auto_state \<Rightarrow> 'w auto_state) \<Rightarrow> bool" where
  "keeps_observers f \<longleftrightarrow> (\<forall>s k ob. map_of (observer_cache s) k = Some ob \<longrightarrow> map_of (observer_cache (f s)) k = Some ob)"

text \<open>Every operation of this theory keeps what was cached.\<close>

lemma get_function_observer_keeps: "keeps_observers (\<lambda>s. snd (get_function_observer instance_of plugins f s))"
  by (auto simp: keeps_observers_def get_function_observer_def Let_def update_conv' split: option.split)

lemma keeps_comp: "keeps_observers f \<Longrightarrow> keeps_observers g \<Longrightarrow> keeps_observers (\<lambda>s. f (g s))"
  by (simp add: keeps_observers_def)

lemma execute_post_keeps: "keeps_observers (execute_post sink instance_of plugins ed f)"
  using get_function_observer_keeps [of instance_of plugins f]
  by (fastforce simp: keeps_observers_def execute_post_def split: prod.split option.split)

lemma execute_keeps:
  fixes upstream :: "nat option \<Rightarrow> 'w auto_state \<Rightarrow> 'w auto_state"
  assumes "\<And>ed. keeps_observers (upstream ed)"
  shows "keeps_observers (execute_ex sink instance_of manager upstream exec_data)"
  unfolding keeps_observers_def
proof (intro allI impI)
  fix s :: "'w auto_state" and k ob assume k: "map_of (observer_cache s) k = Some ob"
  show "map_of (observer_cache (execute_ex sink instance_of manager upstream exec_data s)) k = Some ob"
  proof (cases "exec_data = None \<or> manager = None")
    case True
    with assms k show ?thesis
      by (auto simp: execute_ex_def handle_execution_def keeps_observers_def split: option.split)
  next
    case False
    then obtain ed f plugins where some: "exec_data = Some (ed, f)" "manager = Some plugins" by auto
    obtain r s1 where 1: "get_function_observer instance_of plugins f s = (r, s1)"
      by (cases "get_function_observer instance_of plugins f s")
    with get_function_observer_keeps [of instance_of plugins f, unfolded keeps_observers_def, rule_format, OF k]
    have "map_of (observer_cache s1) k = Some ob" by simp
    with assms execute_post_keeps [of sink instance_of plugins ed f] 1 some show ?thesis
      by (auto simp: execute_ex_def handle_execution_def keeps_observers_def split: option.split)
  qed
qed

lemma execute_ex_run:
  assumes "\<And>ed. keeps_observers (upstream ed)" and "get_function_observer instance_of plugins f s = (r, s1)"
  shows "execute_ex sink instance_of (Some plugins) upstream (Some (ed, f)) s =
      (case r of
         None \<Rightarrow> upstream (Some ed) s
       | Some ob \<Rightarrow> contained sink (run_hooks (post_hooks ob) ed)
           (upstream (Some ed) (contained sink (run_hooks (pre_hooks ob) ed) s1)))"
proof (cases r)
  case None
  with assms(2) get_function_observer_None [of instance_of plugins f s s1] show ?thesis
    by (simp add: execute_ex_def handle_execution_def)
next
  case (Some ob)
  let ?t = "upstream (Some ed) (contained sink (run_hooks (pre_hooks ob) ed) s1)"
  obtain fqn where fqn: "get_fqn f = Some fqn" "map_of (observer_cache s1) fqn = Some ob"
    using get_function_observer_cached assms(2) Some by blast
  with assms(1) have "map_of (observer_cache ?t) fqn = Some ob" by (simp add: keeps_observers_def)
  from get_function_observer_again [OF fqn(1) this] Some assms(2) show ?thesis
    by (simp add: execute_ex_def handle_execution_def execute_post_def)
qed

text \<open>The answers of a sequence of lookups.\<close>

fun lookups ::
  "(bytes \<Rightarrow> string \<Rightarrow> bool) \<Rightarrow> 'w plugin list \<Rightarrow> php_function list \<Rightarrow> 'w auto_state \<Rightarrow> 'w function_observer option list" where
  "lookups instance_of plugins [] s = []"
| "lookups instance_of plugins (f # fs) s =
     (case get_function_observer instance_of plugins f s of (r, s1) \<Rightarrow> r # lookups instance_of plugins fs s1)"

definition fresh_answer ::
  "(bytes \<Rightarrow> string \<Rightarrow> bool) \<Rightarrow> 'w plugin list \<Rightarrow> php_function \<Rightarrow> 'w function_observer option" where
  "fresh_answer instance_of plugins f =
     (let ob = build_observer instance_of plugins f in
      if get_fqn f \<noteq> None \<and> has_hooks ob then Some ob else None)"

definition cache_current ::
  "(bytes \<Rightarrow> string \<Rightarrow> bool) \<Rightarrow> 'w plugin list \<Rightarrow> php_function set \<Rightarrow> 'w auto_state \<Rightarrow> bool" where
  "cache_current instance_of plugins F s \<longleftrightarrow>
     (\<forall>f\<in>F. \<forall>fqn ob. get_fqn f = Some fqn \<longrightarrow> map_of (observer_cache s) fqn = Some ob \<longrightarrow>
        fresh_answer instance_of plugins f = Some ob)"

lemma lookup_current:
  assumes "cache_current instance_of plugins F s" and "f \<in> F"
    and same: "\<And>g h. g \<in> F \<Longrightarrow> h \<in> F \<Longrightarrow> get_fqn g = get_fqn h \<Longrightarrow>
      build_observer instance_of plugins g = build_observer instance_of plugins h"
  shows "fst (get_function_observer instance_of plugins f s) = fresh_answer instance_of plugins f
    \<and> cache_current instance_of plugins F (snd (get_function_observer instance_of plugins f s))"
proof (cases "get_fqn f")
  case None
  then show ?thesis using assms(1) by (simp add: get_function_observer_def fresh_answer_def)
next
  case (Some fqn)
  show ?thesis
  proof (cases "map_of (observer_cache s) fqn")
    case cached: (Some ob)
    with assms(1,2) Some show ?thesis by (auto simp: cache_current_def get_function_observer_def)
  next
    case None
    let ?ob = "build_observer instance_of plugins f"
    show ?thesis
    proof (cases "has_hooks ?ob")
      case True
      with Some None have get: "get_function_observer instance_of plugins f s =
          (Some ?ob, s\<lparr>observer_cache := AList.update fqn ?ob (observer_cache s)\<rparr>)"
        by (simp add: get_function_observer_def Let_def)
      have "fresh_answer instance_of plugins g = Some ?ob" if "g \<in> F" "get_fqn g = Some fqn" for g
        using same [OF that(1) assms(2)] that Some True by (simp add: fresh_answer_def Let_def)
      then have "cache_current instance_of plugins F (s\<lparr>observer_cache := AList.update fqn ?ob (observer_cache s)\<rparr>)"
        using assms(1) unfolding cache_current_def by (simp add: update_conv')
      with True Some get show ?thesis by (simp add: fresh_answer_def)
    next
      case False
      with Some None assms(1) show ?thesis by (simp add: get_function_observer_def fresh_answer_def Let_def)
    qed
  qed
qed

text \<open>The hooks of the first function of that name that had any.\<close>

definition first_answer ::
  "(bytes \<Rightarrow> string \<Rightarrow> bool) \<Rightarrow> 'w plugin list \<Rightarrow> php_function list \<Rightarrow> string \<Rightarrow> 'w function_observer option" where
  "first_answer instance_of plugins seen fqn =
     map_option (build_observer instance_of plugins)
       (find (\<lambda>g. get_fqn g = Some fqn \<and> has_hooks (build_observer instance_of plugins g)) seen)"

fun first_answers ::
  "(bytes \<Rightarrow> string \<Rightarrow> bool) \<Rightarrow> 'w plugin list \<Rightarrow> php_function list \<Rightarrow> php_function list \<Rightarrow>
     'w function_observer option list" where
  "first_answers instance_of plugins seen [] = []"
| "first_answers instance_of plugins seen (f # fs) =
     Option.bind (get_fqn f) (first_answer instance_of plugins (seen @ [f])) #
     first_answers instance_of plugins (seen @ [f]) fs"

lemma find_append: "find P (xs @ ys) = (case find P xs of None \<Rightarrow> find P ys | Some x \<Rightarrow> Some x)"
  by (induction xs) auto

lemma lookups_first:
  "\<forall>fqn. map_of (observer_cache s) fqn = first_answer instance_of plugins seen fqn \<Longrightarrow>
     lookups instance_of plugins fs s = first_answers instance_of plugins seen fs"
proof (induction fs arbitrary: s seen)
  case (Cons f fs)
  let ?r = "get_function_observer instance_of plugins f s"
  have "fst ?r = Option.bind (get_fqn f) (first_answer instance_of plugins (seen @ [f]))
      \<and> (\<forall>fqn. map_of (observer_cache (snd ?r)) fqn = first_answer instance_of plugins (seen @ [f]) fqn)"
    using Cons.prems
    by (auto simp: get_function_observer_def first_answer_def find_append Let_def update_conv' split: option.splits)
  with Cons.IH [of "snd ?r" "seen @ [f]"] show ?case by (simp add: case_prod_unfold)
qed simp

lemma lookups_current:
  assumes "cache_current instance_of plugins F s" and "set fs \<subseteq> F"
    and "\<And>g h. g \<in> F \<Longrightarrow> h \<in> F \<Longrightarrow> get_fqn g = get_fqn h \<Longrightarrow>
      build_observer instance_of plugins g = build_observer instance_of plugins h"
  shows "lookups instance_of plugins fs s = map (fresh_answer instance_of plugins) fs"
  using assms(1,2)
proof (induction fs arbitrary: s)
  case (Cons f fs)
  have "f \<in> F" using Cons.prems(2) by simp
  have step: "fst (get_function_observer instance_of plugins f s) = fresh_answer instance_of plugins f"
    "cache_current instance_of plugins F (snd (get_function_observer instance_of plugins f s))"
    using lookup_current [OF Cons.prems(1) \<open>f \<in> F\<close>] assms(3) by blast+
  have "lookups instance_of plugins fs (snd (get_function_observer instance_of plugins f s)) =
      map (fresh_answer instance_of plugins) fs"
    using Cons.IH [OF step(2)] Cons.prems(2) by simp
  with step show ?case by (simp add: case_prod_unfold)
qed simp

section \<open>Matching handlers\<close>

definition all_handlers :: "'w plugin list \<Rightarrow> 'w handler list" where
  "all_handlers plugins = concat (map plugin_handlers plugins)"

definition matching ::
  "(bytes \<Rightarrow> string \<Rightarrow> bool) \<Rightarrow> 'w plugin list \<Rightarrow> php_function \<Rightarrow> 'w handler list" where
  "matching instance_of plugins f = filter (\<lambda>h. should_trace instance_of f (handler_targets h)) (all_handlers plugins)"

lemma add_handlers:
  "fold (add_handler instance_of f) hs ob =
     (let ms = filter (\<lambda>h. should_trace instance_of f (handler_targets h)) hs in
      ob\<lparr>pre_hooks := pre_hooks ob @ List.map_filter pre_observe ms,
        post_hooks := post_hooks ob @ List.map_filter post_observe ms\<rparr>)"
  by (induction hs arbitrary: ob)
    (auto simp: add_handler_def add_pre_hook_def add_post_hook_def Let_def map_filter_simps split: option.split)

lemma build_observer_matching:
  "build_observer instance_of plugins f =
     \<lparr>pre_hooks = List.map_filter pre_observe (matching instance_of plugins f),
      post_hooks = List.map_filter post_observe (matching instance_of plugins f)\<rparr>"
proof -
  have "fold (\<lambda>p. fold (add_handler instance_of f) (plugin_handlers p)) plugins ob =
      fold (add_handler instance_of f) (all_handlers plugins) ob" for ob
    by (induction plugins arbitrary: ob) (simp_all add: all_handlers_def)
  then show ?thesis
    by (simp add: build_observer_def add_handlers matching_def Let_def observer_new_def)
qed

section \<open>Calls of calls\<close>

text \<open>
  A call at an address, with what its function does (\<open>body\<close>) and the calls it makes in turn. Steps of a
  function between two calls are calls of functions without a name.
\<close>

datatype call_tree = Call nat php_function "call_tree list"

primrec run_calls ::
  "(string \<Rightarrow> bool) \<Rightarrow> (bytes \<Rightarrow> string \<Rightarrow> bool) \<Rightarrow> 'w plugin list \<Rightarrow> (nat \<Rightarrow> 'w \<Rightarrow> 'w) \<Rightarrow> call_tree \<Rightarrow>
     'w auto_state \<Rightarrow> 'w auto_state" where
  "run_calls sink instance_of plugins body (Call ed f calls) =
     execute_ex sink instance_of (Some plugins)
       (\<lambda>_ s. fold (\<lambda>run. run) (map (run_calls sink instance_of plugins body) calls)
         (s\<lparr>auto_world := body ed (auto_world s)\<rparr>))
       (Some (ed, f))"

text \<open>The addresses of calls that are running at the same time differ, and none is in \<open>A\<close>.\<close>

primrec fresh_calls :: "call_tree \<Rightarrow> nat set \<Rightarrow> bool" where
  "fresh_calls (Call ed f calls) =
     (\<lambda>A. ed \<notin> A \<and> list_all (\<lambda>fresh. fresh (insert ed A)) (map fresh_calls calls))"

primrec called_functions :: "call_tree \<Rightarrow> php_function set" where
  "called_functions (Call ed f calls) = insert f (\<Union> (set (map called_functions calls)))"

lemma fold_keeps: "(\<And>g. g \<in> set gs \<Longrightarrow> keeps_observers g) \<Longrightarrow> keeps_observers (fold (\<lambda>run. run) gs)"
  by (induction gs) (auto simp: keeps_observers_def)

lemma run_calls_keeps: "keeps_observers (run_calls sink instance_of plugins body t)"
proof (induction t)
  case (Call ed f calls)
  have "keeps_observers (fold (\<lambda>run. run) (map (run_calls sink instance_of plugins body) calls))"
    by (rule fold_keeps) (use Call.IH in auto)
  then have "keeps_observers (\<lambda>s. fold (\<lambda>run. run) (map (run_calls sink instance_of plugins body) calls)
      (s\<lparr>auto_world := body ed (auto_world s)\<rparr>))"
    by (simp add: keeps_observers_def)
  from execute_keeps [OF this] show ?case by simp
qed

text \<open>What all hooks of the plugins and all functions keep, calls keep.\<close>

definition hook_keeps :: "('w \<Rightarrow> bool) \<Rightarrow> 'w hook \<Rightarrow> bool" where
  "hook_keeps I f \<longleftrightarrow> (\<forall>ed w. I w \<longrightarrow> I (snd (f ed w)))"

definition observer_keeps :: "('w \<Rightarrow> bool) \<Rightarrow> 'w function_observer \<Rightarrow> bool" where
  "observer_keeps I ob \<longleftrightarrow> list_all (hook_keeps I) (pre_hooks ob) \<and> list_all (hook_keeps I) (post_hooks ob)"

definition state_keeps :: "('w \<Rightarrow> bool) \<Rightarrow> 'w auto_state \<Rightarrow> bool" where
  "state_keeps I s \<longleftrightarrow> I (auto_world s) \<and> (\<forall>k ob. map_of (observer_cache s) k = Some ob \<longrightarrow> observer_keeps I ob)"

definition handlers_keep :: "('w \<Rightarrow> bool) \<Rightarrow> 'w plugin list \<Rightarrow> bool" where
  "handlers_keep I plugins \<longleftrightarrow> (\<forall>h\<in>set (all_handlers plugins). \<forall>f.
     pre_observe h = Some f \<or> post_observe h = Some f \<longrightarrow> hook_keeps I f)"

lemma run_hooks_keep: "list_all (hook_keeps I) hs \<Longrightarrow> I w \<Longrightarrow> I (snd (run_hooks hs ed w))"
  by (induction hs arbitrary: w) (auto simp: hook_keeps_def split: prod.split outcome.split, (metis snd_conv)+)

lemma contained_keeps:
  assumes "list_all (hook_keeps I) hs" and "state_keeps I s"
  shows "state_keeps I (contained sink (run_hooks hs ed) s)"
  using run_hooks_keep [OF assms(1), of "auto_world s" ed] assms(2)
  by (simp add: state_keeps_def contained_def split: prod.split) (metis snd_conv)

lemma lookup_keeps:
  assumes "handlers_keep I plugins" and "state_keeps I s"
  shows "state_keeps I (snd (get_function_observer instance_of plugins f s))
    \<and> (\<forall>ob. fst (get_function_observer instance_of plugins f s) = Some ob \<longrightarrow> observer_keeps I ob)"
proof -
  have "set (matching instance_of plugins f) \<subseteq> set (all_handlers plugins)" by (auto simp: matching_def)
  with assms(1) have "observer_keeps I (build_observer instance_of plugins f)"
    by (auto simp: observer_keeps_def build_observer_matching handlers_keep_def list_all_iff map_filter_def)
  with assms(2) show ?thesis
    by (auto simp: get_function_observer_def Let_def state_keeps_def update_conv' split: option.split)
qed

lemma execute_ex_keeps:
  assumes "handlers_keep I plugins" and "state_keeps I s"
    and "\<And>s. state_keeps I s \<Longrightarrow> state_keeps I (upstream (Some ed) s)"
  shows "state_keeps I (execute_ex sink instance_of (Some plugins) upstream (Some (ed, f)) s)"
proof -
  obtain r s1 where 1: "get_function_observer instance_of plugins f s = (r, s1)"
    by (cases "get_function_observer instance_of plugins f s")
  with lookup_keeps [OF assms(1,2), of instance_of f] have s1: "state_keeps I s1" "\<And>ob. r = Some ob \<Longrightarrow> observer_keeps I ob"
    by auto
  show ?thesis
  proof (cases r)
    case None
    with 1 s1(1) assms(3) show ?thesis by (simp add: execute_ex_def handle_execution_def)
  next
    case (Some ob)
    let ?t = "upstream (Some ed) (contained sink (run_hooks (pre_hooks ob) ed) s1)"
    have t: "state_keeps I ?t"
      using s1(2) [OF Some] by (intro assms(3) contained_keeps s1(1)) (simp add: observer_keeps_def)
    obtain r2 s2 where 2: "get_function_observer instance_of plugins f ?t = (r2, s2)"
      by (cases "get_function_observer instance_of plugins f ?t")
    with lookup_keeps [OF assms(1) t, of instance_of f] have "state_keeps I s2" "\<And>ob. r2 = Some ob \<Longrightarrow> observer_keeps I ob"
      by auto
    then have "state_keeps I (execute_post sink instance_of plugins ed f ?t)"
      using 2 by (cases r2) (auto simp: execute_post_def observer_keeps_def intro: contained_keeps)
    with 1 Some show ?thesis by (simp add: execute_ex_def handle_execution_def)
  qed
qed

lemma run_calls_invariant:
  assumes "handlers_keep I plugins" and "\<And>ed w. I w \<Longrightarrow> I (body ed w)" and "state_keeps I s"
  shows "state_keeps I (run_calls sink instance_of plugins body t s)"
  using assms(3)
proof (induction t arbitrary: s)
  case (Call ed f calls)
  let ?run = "run_calls sink instance_of plugins body"
  have fold: "state_keeps I (fold (\<lambda>run. run) gs s)"
    if "\<And>g s. g \<in> set gs \<Longrightarrow> state_keeps I s \<Longrightarrow> state_keeps I (g s)" "state_keeps I s" for gs s
    using that by (induction gs arbitrary: s) auto
  have "state_keeps I (fold (\<lambda>run. run) (map ?run calls) (s\<lparr>auto_world := body ed (auto_world s)\<rparr>))"
    if "state_keeps I s" for s
  proof (rule fold)
    fix g s assume "g \<in> set (map ?run calls)" "state_keeps I s"
    then show "state_keeps I (g s)" using Call.IH by auto
  qed (use that assms(2) in \<open>simp add: state_keeps_def\<close>)
  then show ?case unfolding run_calls.simps by (intro execute_ex_keeps [OF assms(1) Call.prems])
qed

section \<open>Properties\<close>

text \<open>
  C33. A PHP function that is called through the replaced \<open>zend_execute_ex\<close> or
  \<open>zend_execute_internal\<close> runs exactly once, whatever the hooks do: the hooks of its observer run before
  it up to the first that panics, the function runs, and then the hooks of the same observer run after
  it, up to the first that panics; with no observer only the function runs. The observer API of PHP 8
  runs the same hooks for it.
\<close>

theorem hooked_function_runs_once:
  assumes "\<And>ed. keeps_observers (upstream ed)" and "get_function_observer instance_of plugins f s = (r, s1)"
  shows "execute_ex sink instance_of (Some plugins) upstream (Some (ed, f)) s =
      (case r of
         None \<Rightarrow> upstream (Some ed) s
       | Some ob \<Rightarrow> contained sink (run_hooks (post_hooks ob) ed)
           (upstream (Some ed) (contained sink (run_hooks (pre_hooks ob) ed) s1)))
    \<and> execute_internal sink instance_of (Some plugins) upstream (Some (ed, f)) s =
        execute_ex sink instance_of (Some plugins) upstream (Some (ed, f)) s
    \<and> (function_observers s1 = None \<or> (fst (instrument instance_of (Some plugins) (Some f) s) = (r \<noteq> None)
      \<and> observer_for (the (get_fqn f)) (snd (instrument instance_of (Some plugins) (Some f) s)) =
          (if r = None then observer_for (the (get_fqn f)) s else r)))"
proof (intro conjI execute_ex_run assms)
  show "function_observers s1 = None \<or> (fst (instrument instance_of (Some plugins) (Some f) s) = (r \<noteq> None)
      \<and> observer_for (the (get_fqn f)) (snd (instrument instance_of (Some plugins) (Some f) s)) =
          (if r = None then observer_for (the (get_fqn f)) s else r))"
  proof (cases r)
    case None
    with assms(2) get_function_observer_None [of instance_of plugins f s s1] show ?thesis
      by (auto simp: instrument_def split: option.split)
  next
    case (Some ob)
    with get_function_observer_cached [of instance_of plugins f s ob s1] assms(2) show ?thesis
      by (auto simp: instrument_def observer_for_def update_conv' split: option.split)
  qed
qed (simp add: execute_ex_def execute_internal_def)

text \<open>A handler that logs, and one whose hook before the function panics.\<close>

definition example_function :: php_function where
  "example_function =
     \<lparr>fn_name = Some ''run'', fn_class = Some ''App'', full_name = ''App::run'', fn_file = None, fn_line = None\<rparr>"

definition example_plugin :: "string list plugin" where
  "example_plugin =
     \<lparr>plugin_name = ''example'',
      plugin_handlers =
        [\<lparr>handler_targets = [(Some ''App'', ''run'')], pre_observe = Some (\<lambda>ed w. (Returned (), w @ [''before''])),
           post_observe = Some (\<lambda>ed w. (Returned (), w @ [''after'']))\<rparr>,
         \<lparr>handler_targets = [(Some ''App'', ''run'')],
           pre_observe = Some (\<lambda>ed w. (Panicked \<lparr>panic_payload = OtherPayload, panic_location = None\<rparr>, w @ [''panic''])),
           post_observe = None\<rparr>],
      plugin_shutdown = id\<rparr>"

definition example_auto :: "string list auto_state" where
  "example_auto = \<lparr>auto_world = [], auto_panics = panic_init, observer_cache = [], function_observers = None\<rparr>"

lemma example_function_facts:
  "get_fqn example_function = Some ''App::run''" "to_str (full_name example_function) = Some ''App::run''"
  by (simp_all add: example_function_def get_fqn_def get_function_and_class_name_def Let_def to_str_def byte_in_def)

lemma example_traced: "should_trace instance_of example_function [(Some ''App'', ''run'')]"
  by (simp add: should_trace_def example_function_facts method_of_def)

theorem hooked_function_runs_once_witness:
  "auto_world (execute_ex (\<lambda>_. True) (\<lambda>_ _. False) (Some [example_plugin])
       (\<lambda>_ s. s\<lparr>auto_world := auto_world s @ [''function'']\<rparr>) (Some (1, example_function)) example_auto)
     = [''before'', ''panic'', ''function'', ''after'']"
proof -
  let ?up = "\<lambda>(_::nat option) s. s\<lparr>auto_world := auto_world s @ [''function'']\<rparr> :: string list auto_state"
  have keeps: "keeps_observers (?up ed)" for ed by (simp add: keeps_observers_def)
  obtain r s1 where 1: "get_function_observer (\<lambda>_ _. False) [example_plugin] example_function example_auto = (r, s1)"
    by (cases "get_function_observer (\<lambda>_ _. False) [example_plugin] example_function example_auto")
  then have "r = Some (build_observer (\<lambda>_ _. False) [example_plugin] example_function)" "auto_world s1 = []"
    by (auto simp: get_function_observer_def example_function_facts example_auto_def Let_def has_hooks_def
        build_observer_def add_handler_def example_plugin_def example_traced add_pre_hook_def add_post_hook_def
        observer_new_def)
  with hooked_function_runs_once [where upstream = ?up, OF keeps 1, of "\<lambda>_. True" 1] show ?thesis
    by (simp add: build_observer_def add_handler_def example_plugin_def example_traced add_pre_hook_def add_post_hook_def
        observer_new_def contained_def split: prod.split)
qed

text \<open>
  C34. What the cache of observers does, from an empty cache and for any sequence of lookups: a function
  without a qualified name gets no hooks; any other gets those of the first function looked up so far (itself
  included) that has the same qualified name and matched some handler, and none if there is no such
  function. So the cache does not change what is traced if functions with the same qualified name match
  the same handlers; it does when they do not, as when a class name means another class in the next
  request (\<open>cached_observer_outlives_class\<close>).
\<close>

theorem observer_cache_transparent:
  assumes "observer_cache s = []"
  shows "lookups instance_of plugins fs s = first_answers instance_of plugins [] fs
    \<and> ((\<forall>g\<in>set fs. \<forall>h\<in>set fs. get_fqn g = get_fqn h \<longrightarrow>
          build_observer instance_of plugins g = build_observer instance_of plugins h) \<longrightarrow>
        lookups instance_of plugins fs s = map (fresh_answer instance_of plugins) fs)"
proof
  show "lookups instance_of plugins fs s = first_answers instance_of plugins [] fs"
    by (rule lookups_first) (simp add: assms first_answer_def)
  have "cache_current instance_of plugins (set fs) s" using assms by (simp add: cache_current_def)
  then show "(\<forall>g\<in>set fs. \<forall>h\<in>set fs. get_fqn g = get_fqn h \<longrightarrow>
          build_observer instance_of plugins g = build_observer instance_of plugins h) \<longrightarrow>
        lookups instance_of plugins fs s = map (fresh_answer instance_of plugins) fs"
    using lookups_current [where F = "set fs"] by blast
qed

theorem observer_cache_transparent_witness:
  "map (map_option (length \<circ> pre_hooks))
     (lookups (\<lambda>_ _. False) [example_plugin] [example_function, example_function] example_auto) = [Some 2, Some 2]"
proof -
  have "observer_cache example_auto = []" by (simp add: example_auto_def)
  note t = observer_cache_transparent [OF this, of "\<lambda>_ _. False" "[example_plugin]" "[example_function, example_function]"]
  have "lookups (\<lambda>_ _. False) [example_plugin] [example_function, example_function] example_auto =
      map (fresh_answer (\<lambda>_ _. False) [example_plugin]) [example_function, example_function]"
    by (rule mp [OF conjunct2 [OF t]]) simp
  then show ?thesis
    by (simp add: fresh_answer_def example_function_facts Let_def has_hooks_def build_observer_def add_handler_def
        example_plugin_def example_traced add_pre_hook_def add_post_hook_def observer_new_def)
qed

section \<open>A redefined class\<close>

text \<open>
  The cache lives as long as the process, but a class name can mean another class in the next request:
  a function whose class no longer implements the interface still gets the hooks.
\<close>

lemma cached_observer_outlives_class:
  assumes "get_fqn f = get_fqn g" and "get_fqn f \<noteq> None"
    and "has_hooks (build_observer instance_of plugins f)" and "observer_cache s = []"
  shows "lookups instance_of plugins [f, g] s =
    [Some (build_observer instance_of plugins f), Some (build_observer instance_of plugins f)]"
  using assms by (auto simp: get_function_observer_def Let_def)

end
