(* ===== verification/Auto_Spans.thy ===== *)
theory Auto_Spans
  imports Auto_Hooks Native_Span "HOL-Library.State_Monad"
begin

text \<open>
  What the hooks of the plugins share: \<open>auto/utils.rs\<close>, the guards kept between the hook before and the
  hook after a call (\<open>context/storage.rs\<close>) and the reading of PHP values. A hook is a program in the
  state monad over the record \<open>auto_world\<close>.

  The SDK's attached contexts, spans and propagators, the URL parser, the naming of SQL (\<open>Sql_Names\<close>), and
  calls of PHP methods and reads of properties are the record \<open>auto_lib\<close>; a call may change the world.
\<close>

section \<open>The world of the hooks\<close>

record 'f frame =
  fr_function :: php_function
  fr_this :: "nat option"
  fr_args :: "'f zval list"
  fr_num_args :: nat
  fr_retval :: "'f zval"
  fr_exception :: "nat option"

record ('c, 'sc, 'f) started_span =
  started_by :: string
  started_builder :: "('f, 'sc) span_builder"
  started_parent :: 'c

text \<open>What the database plugins remember of a connection and of a prepared statement.\<close>

record ('f, 'sc) connection_info =
  info_attributes :: "'f key_value list"
  info_context :: 'sc

record ('f, 'sc) statement_info = "('f, 'sc) connection_info" +
  info_name :: string

text \<open>
  \<open>aw_attached\<close> are the contexts attached in the thread, \<open>aw_guards\<close> is \<open>CONTEXT_GUARD_MAP\<close>, the four
  tables are the statics of the database plugins. A span is named by its place among those started.
\<close>

record ('c, 'sc, 'f, 'g, 's) auto_world =
  aw_attached :: 's
  aw_guards :: "(nat \<times> 'g) list"
  aw_flags :: exec_flags
  aw_frames :: "nat \<Rightarrow> 'f frame option"
  aw_started :: "('c, 'sc, 'f) started_span list"
  aw_calls :: "('f, 'sc) span_calls"
  aw_local_root :: "'c option"
  aw_capture :: capture_state
  laminas_connections :: "(nat \<times> ('f, 'sc) connection_info) list"
  laminas_statements :: "(nat \<times> ('f, 'sc) statement_info) list"
  zf1_connections :: "(nat \<times> ('f, 'sc) connection_info) list"
  zf1_statements :: "(nat \<times> ('f, 'sc) statement_info) list"

type_synonym ('c, 'sc, 'f, 'g, 's, 'a) act = "(('c, 'sc, 'f, 'g, 's) auto_world, 'a) state"

record ('c, 'sc, 'f, 'g, 's, 'u) auto_lib =
  al_api :: "('c, 'sc) span_api"
  al_with_span :: "nat \<Rightarrow> 'c \<Rightarrow> 'c"
  al_attach :: "'c \<Rightarrow> 's \<Rightarrow> 'g \<times> 's"
  al_drop :: "'g \<Rightarrow> 's \<Rightarrow> 's"
  al_current :: "'s \<Rightarrow> 'c"
  al_inject :: "'c \<Rightarrow> (string \<times> string) list"
  al_record_error :: "string \<Rightarrow> ('f, 'sc) span_call"
  al_url :: "'u url_api"
  al_sql_name :: "string \<Rightarrow> string option"
  al_env :: os_env
  al_limits :: attr_limit_config
  al_request_method :: "string option"
  al_throwable :: "nat \<Rightarrow> 'f throwable"
  al_display :: "nat \<Rightarrow> string"
  al_instance :: "nat \<Rightarrow> string \<Rightarrow> bool"
  al_call :: "nat \<Rightarrow> string \<Rightarrow> 'f zval list \<Rightarrow> ('c, 'sc, 'f, 'g, 's) auto_world \<Rightarrow>
    'f zval option \<times> ('c, 'sc, 'f, 'g, 's) auto_world"
  al_property :: "nat \<Rightarrow> string \<Rightarrow> ('c, 'sc, 'f, 'g, 's) auto_world \<Rightarrow>
    'f zval \<times> ('c, 'sc, 'f, 'g, 's) auto_world"

section \<open>Reading PHP values\<close>

definition php_call ::
  "('c, 'sc, 'f, 'g, 's, 'u) auto_lib \<Rightarrow> nat \<Rightarrow> string \<Rightarrow> 'f zval list \<Rightarrow> ('c, 'sc, 'f, 'g, 's, 'f zval option) act" where
  "php_call lib h m args = State (al_call lib h m args)"

definition php_property ::
  "('c, 'sc, 'f, 'g, 's, 'u) auto_lib \<Rightarrow> nat \<Rightarrow> string \<Rightarrow> ('c, 'sc, 'f, 'g, 's, 'f zval) act" where
  "php_property lib h p = State (al_property lib h p)"

definition call_text ::
  "('c, 'sc, 'f, 'g, 's, 'u) auto_lib \<Rightarrow> nat \<Rightarrow> string \<Rightarrow> 'f zval list \<Rightarrow> ('c, 'sc, 'f, 'g, 's, string option) act" where
  "call_text lib h m args = do {
     r \<leftarrow> php_call lib h m args;
     State_Monad.return (Option.bind r utf8_text)
   }"

definition call_string ::
  "('c, 'sc, 'f, 'g, 's, 'u) auto_lib \<Rightarrow> nat \<Rightarrow> string \<Rightarrow> ('c, 'sc, 'f, 'g, 's, string option) act" where
  "call_string lib h m = call_text lib h m []"

definition reads :: "('w \<Rightarrow> 'a) \<Rightarrow> ('w, 'a) state" where
  "reads f = do { w \<leftarrow> State_Monad.get; State_Monad.return (f w) }"

text \<open>The frame of a call; what is not there reads as null.\<close>

definition frame_this :: "nat \<Rightarrow> ('c, 'sc, 'f, 'g, 's, nat option) act" where
  "frame_this ed = reads (\<lambda>w. Option.bind (aw_frames w ed) fr_this)"

definition frame_arg :: "nat \<Rightarrow> nat \<Rightarrow> ('c, 'sc, 'f, 'g, 's, 'f zval) act" where
  "frame_arg ed i = reads (\<lambda>w. case aw_frames w ed of
     Some f \<Rightarrow> (case nth_arg (fr_args f) i of Some v \<Rightarrow> v | None \<Rightarrow> ZNull) | None \<Rightarrow> ZNull)"

definition frame_num_args :: "nat \<Rightarrow> ('c, 'sc, 'f, 'g, 's, nat) act" where
  "frame_num_args ed = reads (\<lambda>w. case aw_frames w ed of Some f \<Rightarrow> fr_num_args f | None \<Rightarrow> 0)"

definition frame_retval :: "nat \<Rightarrow> ('c, 'sc, 'f, 'g, 's, 'f zval) act" where
  "frame_retval ed = reads (\<lambda>w. case aw_frames w ed of Some f \<Rightarrow> fr_retval f | None \<Rightarrow> ZNull)"

definition frame_exception :: "nat \<Rightarrow> ('c, 'sc, 'f, 'g, 's, nat option) act" where
  "frame_exception ed = reads (\<lambda>w. Option.bind (aw_frames w ed) fr_exception)"

definition set_frame_arg :: "nat \<Rightarrow> nat \<Rightarrow> 'f zval \<Rightarrow> ('c, 'sc, 'f, 'g, 's, unit) act" where
  "set_frame_arg ed i v = State_Monad.update (\<lambda>w. w\<lparr>aw_frames := (\<lambda>a. if a = ed
     then map_option (\<lambda>f. f\<lparr>fr_args := (fr_args f)[i := v]\<rparr>) (aw_frames w a) else aw_frames w a)\<rparr>)"

section \<open>Contexts, spans and guards\<close>

definition auto_current :: "('c, 'sc, 'f, 'g, 's, 'u) auto_lib \<Rightarrow> ('c, 'sc, 'f, 'g, 's, 'c) act" where
  "auto_current lib = reads (\<lambda>w. al_current lib (aw_attached w))"

definition local_root :: "('c, 'sc, 'f, 'g, 's, 'c option) act" where
  "local_root = reads aw_local_root"

definition capturing :: "('c, 'sc, 'f, 'g, 's, 'u) auto_lib \<Rightarrow> ('c, 'sc, 'f, 'g, 's, bool) act" where
  "capturing lib = State (\<lambda>w. let (v, cap) = capture (al_env lib) (aw_capture w) in (v, w\<lparr>aw_capture := cap\<rparr>))"

definition sanitized :: "('c, 'sc, 'f, 'g, 's, 'u) auto_lib \<Rightarrow> string \<Rightarrow> ('c, 'sc, 'f, 'g, 's, string) act" where
  "sanitized lib v = do {
     cap \<leftarrow> capturing lib;
     State_Monad.return (sanitize_url_value (al_url lib) v cap)
   }"

definition ask ::
  "('c, 'sc, 'f, 'g, 's, 'u) auto_lib \<Rightarrow> 'c \<Rightarrow> ('f, 'sc) span_call \<Rightarrow> ('c, 'sc, 'f, 'g, 's, unit) act" where
  "ask lib c x = State_Monad.update (\<lambda>w. w\<lparr>aw_calls := deliver (Some (ctx_span (al_api lib) c)) (Some x) (aw_calls w)\<rparr>)"

definition current_span_context :: "('c, 'sc, 'f, 'g, 's, 'u) auto_lib \<Rightarrow> ('c, 'sc, 'f, 'g, 's, 'sc) act" where
  "current_span_context lib = do {
     c \<leftarrow> auto_current lib;
     State_Monad.return (ctx_span_context (base_api (al_api lib)) c)
   }"

text \<open>Storing a guard under an address that has one drops the old guard.\<close>

definition drop_guard ::
  "('c, 'sc, 'f, 'g, 's, 'u) auto_lib \<Rightarrow> 'g option \<Rightarrow> ('c, 'sc, 'f, 'g, 's, unit) act" where
  "drop_guard lib guard = State_Monad.update (\<lambda>w. case guard of
     Some g \<Rightarrow> w\<lparr>aw_attached := al_drop lib g (aw_attached w)\<rparr> | None \<Rightarrow> w)"

definition store_guard ::
  "('c, 'sc, 'f, 'g, 's, 'u) auto_lib \<Rightarrow> nat \<Rightarrow> 'g \<Rightarrow> ('c, 'sc, 'f, 'g, 's, unit) act" where
  "store_guard lib ed g = do {
     old \<leftarrow> reads (\<lambda>w. map_of (aw_guards w) ed);
     State_Monad.update (\<lambda>w. w\<lparr>aw_guards := AList.update ed g (aw_guards w)\<rparr>);
     drop_guard lib old
   }"

definition take_guard :: "nat \<Rightarrow> ('c, 'sc, 'f, 'g, 's, 'g option) act" where
  "take_guard ed = do {
     g \<leftarrow> reads (\<lambda>w. map_of (aw_guards w) ed);
     State_Monad.update (\<lambda>w. w\<lparr>aw_guards := AList.delete ed (aw_guards w)\<rparr>);
     State_Monad.return g
   }"

definition set_flag :: "nat \<Rightarrow> bool \<Rightarrow> ('c, 'sc, 'f, 'g, 's, unit) act" where
  "set_flag ed v = State_Monad.update (\<lambda>w. w\<lparr>aw_flags := set_exec_data_flag ed v (aw_flags w)\<rparr>)"

definition take_flag :: "nat \<Rightarrow> ('c, 'sc, 'f, 'g, 's, bool) act" where
  "take_flag ed = do {
     v \<leftarrow> reads (\<lambda>w. get_exec_data_flag ed (aw_flags w));
     State_Monad.update (\<lambda>w. w\<lparr>aw_flags := remove_exec_data_flag ed (aw_flags w)\<rparr>);
     State_Monad.return (v = Some True)
   }"

text \<open>A span is started under the current context and made current.\<close>

definition start_and_activate_span ::
  "('c, 'sc, 'f, 'g, 's, 'u) auto_lib \<Rightarrow> string \<Rightarrow> string \<Rightarrow> 'f key_value list \<Rightarrow> nat \<Rightarrow> span_kind \<Rightarrow>
     ('c, 'sc, 'f, 'g, 's, unit) act" where
  "start_and_activate_span lib tracer name attributes ed kind = do {
     frame \<leftarrow> reads (\<lambda>w. aw_frames w ed);
     case frame of
       None \<Rightarrow> State_Monad.return ()
     | Some f \<Rightarrow> do {
         c \<leftarrow> auto_current lib;
         n \<leftarrow> reads (\<lambda>w. length (aw_started w));
         State_Monad.update (\<lambda>w. w\<lparr>aw_started := aw_started w @
           [\<lparr>started_by = tracer,
             started_builder = \<lparr>builder_name = name,
               builder_attributes = Some (limit_key_values (al_limits lib) (get_default_attributes (fr_function f) @ attributes) Span),
               builder_start = None, builder_links = None, builder_kind = Some kind\<rparr>,
             started_parent = c\<rparr>]\<rparr>);
         g \<leftarrow> State (\<lambda>w. case al_attach lib (al_with_span lib n c) (aw_attached w) of
           (g, s) \<Rightarrow> (g, w\<lparr>aw_attached := s\<rparr>));
         store_guard lib ed g
       }
   }"

definition auto_exception_attributes ::
  "('c, 'sc, 'f, 'g, 's, 'u) auto_lib \<Rightarrow> nat \<Rightarrow> ('c, 'sc, 'f, 'g, 's, 'f key_value list) act" where
  "auto_exception_attributes lib h = State (\<lambda>w.
     case php_exception_to_auto_attributes (al_env lib) (al_throwable lib h) (aw_capture w) of
       (kvs, cap) \<Rightarrow> (kvs, w\<lparr>aw_capture := cap\<rparr>))"

definition record_exception ::
  "('c, 'sc, 'f, 'g, 's, 'u) auto_lib \<Rightarrow> 'c \<Rightarrow> nat \<Rightarrow> ('c, 'sc, 'f, 'g, 's, unit) act" where
  "record_exception lib c h = do {
     attributes \<leftarrow> auto_exception_attributes lib h;
     ask lib c (CallAddEvent ''exception'' None (limit_key_values (al_limits lib) attributes Event));
     cap \<leftarrow> capturing lib;
     ask lib c (CallSetStatus (StatusError
       (if cap then (case text_result (get_message (al_throwable lib h)) of Some m \<Rightarrow> m | None \<Rightarrow> []) else [])))
   }"

text \<open>\<open>if let Some(exception) = exception { record_exception(&Context::current(), exception) }\<close>.\<close>

definition record_pending ::
  "('c, 'sc, 'f, 'g, 's, 'u) auto_lib \<Rightarrow> nat \<Rightarrow> ('c, 'sc, 'f, 'g, 's, unit) act" where
  "record_pending lib ed = do {
     e \<leftarrow> frame_exception ed;
     case e of
       Some h \<Rightarrow> do { c \<leftarrow> auto_current lib; record_exception lib c h }
     | None \<Rightarrow> State_Monad.return ()
   }"

text \<open>The hook after a call of most handlers: the span ends with it.\<close>

definition span_ended ::
  "('c, 'sc, 'f, 'g, 's, 'u) auto_lib \<Rightarrow> nat \<Rightarrow> ('c, 'sc, 'f, 'g, 's, unit) act" where
  "span_ended lib ed = do {
     guard \<leftarrow> take_guard ed;
     record_pending lib ed;
     drop_guard lib guard
   }"

definition text_attribute :: "string \<Rightarrow> string option \<Rightarrow> 'f key_value list" where
  "text_attribute k v = (case v of Some t \<Rightarrow> [(k, VString t)] | None \<Rightarrow> [])"

definition set_framework_name ::
  "('c, 'sc, 'f, 'g, 's, 'u) auto_lib \<Rightarrow> string \<Rightarrow> ('c, 'sc, 'f, 'g, 's, unit) act" where
  "set_framework_name lib name = do {
     root \<leftarrow> local_root;
     case root of
       Some c \<Rightarrow> ask lib c (CallSetAttribute (''php.framework.name'', VString name))
     | None \<Rightarrow> State_Monad.return ()
   }"

definition hook_of :: "(nat \<Rightarrow> ('w, unit) state) \<Rightarrow> 'w hook" where
  "hook_of f ed w = (Returned (), snd (run_state (f ed) w))"

end
