(* ===== verification/Auto_Frameworks.thy ===== *)
theory Auto_Frameworks
  imports Auto_Spans
begin

text \<open>
  The hooks for HTTP clients (\<open>auto/plugin/psr18.rs\<close>), Laravel (\<open>laravel.rs\<close>) and Symfony
  (\<open>symfony.rs\<close>). Requests rename the local root span after their route; commands and sent requests get
  a span of their own.
\<close>

section \<open>Names\<close>

text \<open>\<open>str::rsplit_once\<close> at a text.\<close>

fun rsplit_once_str :: "string \<Rightarrow> string \<Rightarrow> (string \<times> string) option" where
  "rsplit_once_str p [] = (if p = [] then Some ([], []) else None)"
| "rsplit_once_str p (c # s) =
     (case rsplit_once_str p s of
        Some (a, b) \<Rightarrow> Some (c # a, b)
      | None \<Rightarrow> if prefix p (c # s) then Some ([], drop (length p) (c # s)) else None)"

definition both_nonempty :: "(string \<times> string) option \<Rightarrow> (string \<times> string) option" where
  "both_nonempty r = (case r of Some (a, b) \<Rightarrow> if a = [] \<or> b = [] then None else Some (a, b) | None \<Rightarrow> None)"

definition normalize_route :: "string \<Rightarrow> string" where
  "normalize_route route = (if prefix ''/'' route then route else ''/'' @ route)"

definition split_action_name :: "string \<Rightarrow> (string \<times> string) option" where
  "split_action_name action_name =
     (if eq_ignore_ascii_case action_name ''closure'' then None
      else both_nonempty (case rsplit_once_str ''::'' action_name of
          Some p \<Rightarrow> Some p | None \<Rightarrow> rsplit_once (CHR ''@'') action_name))"

definition split_controller_name :: "string \<Rightarrow> (string \<times> string) option" where
  "split_controller_name controller_name =
     both_nonempty (case rsplit_once_str ''::'' controller_name of
       Some p \<Rightarrow> Some p | None \<Rightarrow> rsplit_once (CHR '':'') controller_name)"

definition nonempty :: "string option \<Rightarrow> string option" where
  "nonempty v = (case v of Some t \<Rightarrow> if t = [] then None else Some t | None \<Rightarrow> None)"

definition or_else :: "string option \<Rightarrow> string option \<Rightarrow> string \<Rightarrow> string" where
  "or_else a b d = (case a of Some t \<Rightarrow> t | None \<Rightarrow> (case b of Some t \<Rightarrow> t | None \<Rightarrow> d))"

section \<open>Shared by the frameworks\<close>

definition set_controller ::
  "('c, 'sc, 'f, 'g, 's, 'u) auto_lib \<Rightarrow> 'c \<Rightarrow> (string \<times> string) option \<Rightarrow> ('c, 'sc, 'f, 'g, 's, unit) act" where
  "set_controller lib c names =
     (case names of
        Some (controller, action) \<Rightarrow> do {
          ask lib c (CallSetAttribute (''php.framework.controller.name'', VString controller));
          ask lib c (CallSetAttribute (''php.framework.action.name'', VString action))
        }
      | None \<Rightarrow> State_Monad.return ())"

definition command_name ::
  "('c, 'sc, 'f, 'g, 's, 'u) auto_lib \<Rightarrow> nat \<Rightarrow> ('c, 'sc, 'f, 'g, 's, string) act" where
  "command_name lib ed = do {
     this \<leftarrow> frame_this ed;
     name \<leftarrow> (case this of Some h \<Rightarrow> call_string lib h ''getName'' | None \<Rightarrow> State_Monad.return None);
     State_Monad.return (case nonempty name of Some t \<Rightarrow> t | None \<Rightarrow> ''unknown'')
   }"

definition command_started ::
  "('c, 'sc, 'f, 'g, 's, 'u) auto_lib \<Rightarrow> string \<Rightarrow> string \<Rightarrow> nat \<Rightarrow> ('c, 'sc, 'f, 'g, 's, unit) act" where
  "command_started lib tracer framework ed = do {
     command \<leftarrow> command_name lib ed;
     start_and_activate_span lib tracer (''Command '' @ command)
       [(''php.framework.name'', VString framework), (''console.command'', VString command)] ed Internal
   }"

text \<open>The end of a command: an exception or an exit code that is not zero is an error.\<close>

definition command_ended ::
  "('c, 'sc, 'f, 'g, 's, 'u) auto_lib \<Rightarrow> nat \<Rightarrow> ('c, 'sc, 'f, 'g, 's, unit) act" where
  "command_ended lib ed = do {
     guard \<leftarrow> take_guard ed;
     c \<leftarrow> auto_current lib;
     e \<leftarrow> frame_exception ed;
     v \<leftarrow> frame_retval ed;
     (case e of
        Some h \<Rightarrow> record_exception lib c h
      | None \<Rightarrow>
          (case as_long v of
             Some code \<Rightarrow> if code \<noteq> 0 then ask lib c (CallSetStatus (StatusError [])) else State_Monad.return ()
           | None \<Rightarrow> State_Monad.return ()));
     drop_guard lib guard
   }"

section \<open>PSR-18 clients\<close>

definition uri_attributes ::
  "('c, 'sc, 'f, 'g, 's, 'u) auto_lib \<Rightarrow> nat \<Rightarrow> ('c, 'sc, 'f, 'g, 's, 'f key_value list) act" where
  "uri_attributes lib uri = do {
     text \<leftarrow> call_string lib uri ''__toString'';
     full \<leftarrow> (case text of
        Some t \<Rightarrow> do { u \<leftarrow> sanitized lib t; State_Monad.return [(''url.full'', VString u)] }
      | None \<Rightarrow> State_Monad.return []);
     scheme \<leftarrow> call_string lib uri ''getScheme'';
     path \<leftarrow> call_string lib uri ''getPath'';
     host \<leftarrow> call_string lib uri ''getHost'';
     port \<leftarrow> php_call lib uri ''getPort'' [];
     State_Monad.return (full @ text_attribute ''url.scheme'' scheme @ text_attribute ''url.path'' path
       @ text_attribute ''server.address'' host
       @ (case Option.bind port as_long of Some n \<Rightarrow> [(''server.port'', VI64 n)] | None \<Rightarrow> []))
   }"

fun inject_headers ::
  "('c, 'sc, 'f, 'g, 's, 'u) auto_lib \<Rightarrow> (string \<times> string) list \<Rightarrow> 'f zval \<Rightarrow> ('c, 'sc, 'f, 'g, 's, 'f zval) act" where
  "inject_headers lib [] request = State_Monad.return request"
| "inject_headers lib ((k, v) # carrier) request = do {
     updated \<leftarrow> (case request of
        ZObj h \<Rightarrow> php_call lib h ''withHeader'' [ZStr k, ZStr v] | _ \<Rightarrow> State_Monad.return None);
     inject_headers lib carrier (case updated of Some r \<Rightarrow> r | None \<Rightarrow> request)
   }"

definition psr18_request ::
  "('c, 'sc, 'f, 'g, 's, 'u) auto_lib \<Rightarrow> 'f zval \<Rightarrow> ('c, 'sc, 'f, 'g, 's, string \<times> 'f key_value list) act" where
  "psr18_request lib request =
     (case request of
        ZObj h \<Rightarrow> do {
          uri \<leftarrow> php_call lib h ''getUri'' [];
          attributes \<leftarrow> (case uri of Some (ZObj u) \<Rightarrow> uri_attributes lib u | _ \<Rightarrow> State_Monad.return []);
          request_method \<leftarrow> call_string lib h ''getMethod'';
          State_Monad.return (case request_method of
            Some m \<Rightarrow> (m, attributes @ [(''http.request.method'', VString m)])
          | None \<Rightarrow> (''psr18.request'', attributes))
        }
      | _ \<Rightarrow> State_Monad.return (''psr18.request'', []))"

definition psr18_pre ::
  "('c, 'sc, 'f, 'g, 's, 'u) auto_lib \<Rightarrow> nat \<Rightarrow> ('c, 'sc, 'f, 'g, 's, unit) act" where
  "psr18_pre lib ed = do {
     request \<leftarrow> frame_arg ed 0;
     (name, attributes) \<leftarrow> psr18_request lib request;
     start_and_activate_span lib ''php.otel.auto.psr18'' name attributes ed Client;
     c \<leftarrow> auto_current lib;
     modified \<leftarrow> inject_headers lib (al_inject lib c) request;
     set_frame_arg ed 0 modified
   }"

definition psr18_response ::
  "('c, 'sc, 'f, 'g, 's, 'u) auto_lib \<Rightarrow> 'c \<Rightarrow> 'f zval \<Rightarrow> ('c, 'sc, 'f, 'g, 's, unit) act" where
  "psr18_response lib c response =
     (case response of
        ZObj h \<Rightarrow> do {
          code \<leftarrow> php_call lib h ''getStatusCode'' [];
          case Option.bind code as_long of
            Some n \<Rightarrow> ask lib c (CallSetAttribute (''http.response.status_code'', VI64 n))
          | None \<Rightarrow> State_Monad.return ()
        }
      | _ \<Rightarrow> State_Monad.return ())"

definition psr18_post ::
  "('c, 'sc, 'f, 'g, 's, 'u) auto_lib \<Rightarrow> nat \<Rightarrow> ('c, 'sc, 'f, 'g, 's, unit) act" where
  "psr18_post lib ed = do {
     guard \<leftarrow> take_guard ed;
     c \<leftarrow> auto_current lib;
     e \<leftarrow> frame_exception ed;
     response \<leftarrow> frame_retval ed;
     (case e of Some h \<Rightarrow> record_exception lib c h | None \<Rightarrow> psr18_response lib c response);
     drop_guard lib guard
   }"

definition psr18_handler :: "('c, 'sc, 'f, 'g, 's, 'u) auto_lib \<Rightarrow> ('c, 'sc, 'f, 'g, 's) auto_world handler" where
  "psr18_handler lib =
     \<lparr>handler_targets = [(Some (class_path [''Psr'', ''Http'', ''Client'', ''ClientInterface'']), ''sendRequest'')],
      pre_observe = Some (hook_of (psr18_pre lib)),
      post_observe = Some (hook_of (psr18_post lib))\<rparr>"

definition psr18_plugin :: "('c, 'sc, 'f, 'g, 's, 'u) auto_lib \<Rightarrow> ('c, 'sc, 'f, 'g, 's) auto_world plugin" where
  "psr18_plugin lib =
     \<lparr>plugin_name = ''psr-18'',
      plugin_handlers =
        [psr18_handler lib],
      plugin_shutdown = id\<rparr>"

section \<open>Laravel\<close>

definition laravel_command_pre ::
  "('c, 'sc, 'f, 'g, 's, 'u) auto_lib \<Rightarrow> nat \<Rightarrow> ('c, 'sc, 'f, 'g, 's, unit) act" where
  "laravel_command_pre lib ed = command_started lib ''php.otel.auto.laravel'' ''laravel'' ed"

definition laravel_route ::
  "('c, 'sc, 'f, 'g, 's, 'u) auto_lib \<Rightarrow> 'c \<Rightarrow> string \<Rightarrow> nat \<Rightarrow> ('c, 'sc, 'f, 'g, 's, unit) act" where
  "laravel_route lib c request_method route = do {
     uri \<leftarrow> call_string lib route ''uri'';
     case nonempty uri of
       None \<Rightarrow> State_Monad.return ()
     | Some u \<Rightarrow> do {
         ask lib c (CallUpdateName (request_method @ '' '' @ normalize_route u));
         ask lib c (CallSetAttribute (''http.route'', VString (normalize_route u)));
         action \<leftarrow> call_string lib route ''getActionName'';
         set_controller lib c (Option.bind action split_action_name)
       }
   }"

definition laravel_http_post ::
  "('c, 'sc, 'f, 'g, 's, 'u) auto_lib \<Rightarrow> nat \<Rightarrow> ('c, 'sc, 'f, 'g, 's, unit) act" where
  "laravel_http_post lib ed = do {
     root \<leftarrow> local_root;
     request \<leftarrow> frame_arg ed 0;
     case (root, request) of
       (Some c, ZObj h) \<Rightarrow> do {
         m \<leftarrow> call_string lib h ''method'';
         route \<leftarrow> php_call lib h ''route'' [];
         case route of
           Some (ZObj r) \<Rightarrow> laravel_route lib c (or_else m (al_request_method lib) ''unknown'') r
         | _ \<Rightarrow> State_Monad.return ()
       }
     | _ \<Rightarrow> State_Monad.return ()
   }"

definition laravel_http_handler :: "('c, 'sc, 'f, 'g, 's, 'u) auto_lib \<Rightarrow> ('c, 'sc, 'f, 'g, 's) auto_world handler" where
  "laravel_http_handler lib =
     \<lparr>handler_targets = [(Some (class_path [''Illuminate'', ''Contracts'', ''Http'', ''Kernel'']), ''handle'')],
      pre_observe = Some (hook_of (\<lambda>ed. set_framework_name lib ''laravel'')),
      post_observe = Some (hook_of (laravel_http_post lib))\<rparr>"

definition laravel_command_handler :: "('c, 'sc, 'f, 'g, 's, 'u) auto_lib \<Rightarrow> ('c, 'sc, 'f, 'g, 's) auto_world handler" where
  "laravel_command_handler lib =
     \<lparr>handler_targets = [(Some (class_path [''Illuminate'', ''Console'', ''Command'']), ''execute'')],
      pre_observe = Some (hook_of (laravel_command_pre lib)),
      post_observe = Some (hook_of (command_ended lib))\<rparr>"

definition laravel_plugin :: "('c, 'sc, 'f, 'g, 's, 'u) auto_lib \<Rightarrow> ('c, 'sc, 'f, 'g, 's) auto_world plugin" where
  "laravel_plugin lib =
     \<lparr>plugin_name = ''laravel'',
      plugin_handlers =
        [laravel_http_handler lib, laravel_command_handler lib],
      plugin_shutdown = id\<rparr>"

section \<open>Symfony\<close>

definition is_laravel_command ::
  "('c, 'sc, 'f, 'g, 's, 'u) auto_lib \<Rightarrow> nat \<Rightarrow> ('c, 'sc, 'f, 'g, 's, bool) act" where
  "is_laravel_command lib ed = do {
     this \<leftarrow> frame_this ed;
     State_Monad.return (case this of Some h \<Rightarrow> al_instance lib h (class_path [''Illuminate'', ''Console'', ''Command'']) | None \<Rightarrow> False)
   }"

definition symfony_command_pre ::
  "('c, 'sc, 'f, 'g, 's, 'u) auto_lib \<Rightarrow> nat \<Rightarrow> ('c, 'sc, 'f, 'g, 's, unit) act" where
  "symfony_command_pre lib ed = do {
     laravel \<leftarrow> is_laravel_command lib ed;
     if laravel then set_flag ed False
     else do {
       set_flag ed True;
       command_started lib ''php.otel.auto.symfony'' ''symfony'' ed
     }
   }"

definition symfony_command_post ::
  "('c, 'sc, 'f, 'g, 's, 'u) auto_lib \<Rightarrow> nat \<Rightarrow> ('c, 'sc, 'f, 'g, 's, unit) act" where
  "symfony_command_post lib ed = do {
     traced \<leftarrow> take_flag ed;
     if traced then command_ended lib ed else State_Monad.return ()
   }"

definition parameter_bag_string ::
  "('c, 'sc, 'f, 'g, 's, 'u) auto_lib \<Rightarrow> nat \<Rightarrow> string \<Rightarrow> ('c, 'sc, 'f, 'g, 's, string option) act" where
  "parameter_bag_string lib attributes key = call_text lib attributes ''get'' [ZStr key]"

definition symfony_route ::
  "('c, 'sc, 'f, 'g, 's, 'u) auto_lib \<Rightarrow> 'c \<Rightarrow> string \<Rightarrow> nat \<Rightarrow> ('c, 'sc, 'f, 'g, 's, unit) act" where
  "symfony_route lib c request_method attributes = do {
     route \<leftarrow> parameter_bag_string lib attributes ''_route'';
     (case nonempty route of
        Some r \<Rightarrow> do {
          ask lib c (CallUpdateName (request_method @ '' '' @ r));
          ask lib c (CallSetAttribute (''http.route'', VString r))
        }
      | None \<Rightarrow> State_Monad.return ());
     controller \<leftarrow> parameter_bag_string lib attributes ''_controller'';
     set_controller lib c (Option.bind controller split_controller_name)
   }"

text \<open>A request that is not the main one leaves the root span alone.\<close>

definition symfony_http_post ::
  "('c, 'sc, 'f, 'g, 's, 'u) auto_lib \<Rightarrow> nat \<Rightarrow> ('c, 'sc, 'f, 'g, 's, unit) act" where
  "symfony_http_post lib ed = do {
     root \<leftarrow> local_root;
     n \<leftarrow> frame_num_args ed;
     kind \<leftarrow> frame_arg ed 1;
     case root of
       None \<Rightarrow> State_Monad.return ()
     | Some c \<Rightarrow>
         if n > 1 \<and> as_long kind \<noteq> Some 1 then State_Monad.return ()
         else do {
           ask lib c (CallSetAttribute (''php.framework.name'', VString ''symfony''));
           request \<leftarrow> frame_arg ed 0;
           case request of
             ZObj h \<Rightarrow> do {
               m \<leftarrow> call_string lib h ''getMethod'';
               attributes \<leftarrow> php_property lib h ''attributes'';
               case attributes of
                 ZObj a \<Rightarrow> symfony_route lib c (or_else m (al_request_method lib) ''unknown'') a
               | _ \<Rightarrow> State_Monad.return ()
             }
           | _ \<Rightarrow> State_Monad.return ()
         }
   }"

definition symfony_http_handler :: "('c, 'sc, 'f, 'g, 's, 'u) auto_lib \<Rightarrow> ('c, 'sc, 'f, 'g, 's) auto_world handler" where
  "symfony_http_handler lib =
     \<lparr>handler_targets = [(Some (class_path [''Symfony'', ''Component'', ''HttpKernel'', ''HttpKernel'']), ''handle'')],
      pre_observe = None,
      post_observe = Some (hook_of (symfony_http_post lib))\<rparr>"

definition symfony_command_handler :: "('c, 'sc, 'f, 'g, 's, 'u) auto_lib \<Rightarrow> ('c, 'sc, 'f, 'g, 's) auto_world handler" where
  "symfony_command_handler lib =
     \<lparr>handler_targets = [(Some (class_path [''Symfony'', ''Component'', ''Console'', ''Command'', ''Command'']), ''run'')],
      pre_observe = Some (hook_of (symfony_command_pre lib)),
      post_observe = Some (hook_of (symfony_command_post lib))\<rparr>"

definition symfony_plugin :: "('c, 'sc, 'f, 'g, 's, 'u) auto_lib \<Rightarrow> ('c, 'sc, 'f, 'g, 's) auto_world plugin" where
  "symfony_plugin lib =
     \<lparr>plugin_name = ''symfony'',
      plugin_handlers =
        [symfony_http_handler lib, symfony_command_handler lib],
      plugin_shutdown = id\<rparr>"

lemmas framework_handler_defs = psr18_handler_def laravel_http_handler_def laravel_command_handler_def symfony_http_handler_def
  symfony_command_handler_def

end
