(* ===== verification/Auto_Databases.thy ===== *)
theory Auto_Databases
  imports Auto_Spans
begin

text \<open>
  The hooks for Laminas (\<open>auto/plugin/laminas.rs\<close>) and Zend Framework 1 (\<open>zf1.rs\<close>). Next to routes and
  errors they trace database connections and prepared statements: what a connection is known by is
  remembered under its address and given to its statements, which are linked to the spans that
  connected and prepared.
\<close>

section \<open>Names of database systems\<close>

definition LAMINAS_NAMESPACE_KEYS :: "string list" where
  "LAMINAS_NAMESPACE_KEYS =
     [''database'', ''dbname'', ''connection'', ''hostname'', ''instance'', ''connection_string'']"

definition extract_laminas_db_namespace :: "(zkey \<times> 'f zval) list \<Rightarrow> string" where
  "extract_laminas_db_namespace a =
     (case filter (\<lambda>t. t \<noteq> []) (List.map_filter (arr_text a) LAMINAS_NAMESPACE_KEYS) of
        [] \<Rightarrow> [] | t # _ \<Rightarrow> t)"

text \<open>The names are ASCII, so lower-casing ASCII letters is enough to compare with them.\<close>

definition LAMINAS_DRIVERS :: "(string \<times> string) list" where
  "LAMINAS_DRIVERS =
     [(''mysqli'', ''mysql''), (''pdo_mysql'', ''mysql''), (''pgsql'', ''postgresql''), (''pdo_pgsql'', ''postgresql''),
      (''sqlite'', ''sqlite''), (''pdo_sqlite'', ''sqlite''), (''oci8'', ''oracle''), (''pdo_oci'', ''oracle''),
      (''sqlsrv'', ''mssql''), (''pdo_sqlsrv'', ''mssql''), (''pdo_dblib'', ''mssql''), (''ibm_db2'', ''db2''),
      (''pdo_firebird'', ''firebird''), (''pdo_odbc'', ''odbc'')]"

definition DSN_SYSTEMS :: "(string \<times> string) list" where
  "DSN_SYSTEMS =
     [(''mysql'', ''mysql''), (''pgsql'', ''postgresql''), (''sqlite'', ''sqlite''), (''oci'', ''oracle''), (''oracle'', ''oracle''),
      (''sqlsrv'', ''mssql''), (''ibm'', ''db2''), (''db2'', ''db2''), (''firebird'', ''firebird'')]"

definition system_or_other :: "(string \<times> string) list \<Rightarrow> string \<Rightarrow> string" where
  "system_or_other table k = (case map_of table k of Some s \<Rightarrow> s | None \<Rightarrow> ''other_sql'')"

definition map_laminas_driver_to_semconv :: "string \<Rightarrow> (zkey \<times> 'f zval) list \<Rightarrow> string" where
  "map_laminas_driver_to_semconv driver params =
     (let d = map to_ascii_lowercase driver in
      if d = ''pdo'' then
        (case arr_text params ''dsn'' of
           Some dsn \<Rightarrow> system_or_other DSN_SYSTEMS (map to_ascii_lowercase (hd (split_on (CHR '':'') dsn)))
         | None \<Rightarrow> ''other_sql'')
      else system_or_other LAMINAS_DRIVERS d)"

definition ZF1_ADAPTERS :: "(string \<times> string) list" where
  "ZF1_ADAPTERS =
     [(''Zend_Db_Adapter_Pdo_Mysql'', ''mysql''), (''Zend_Db_Adapter_Pdo_Pgsql'', ''postgresql''),
      (''Zend_Db_Adapter_Pdo_Sqlite'', ''sqlite''), (''Zend_Db_Adapter_Pdo_Oci'', ''oracle.db''),
      (''Zend_Db_Adapter_Pdo_Ibm'', ''ibm.db2''), (''Zend_Db_Adapter_Pdo_Mssql'', ''microsoft.sql_server''),
      (''Zend_Db_Adapter_Mysqli'', ''mysql''), (''Zend_Db_Adapter_Oracle'', ''oracle.db''),
      (''Zend_Db_Adapter_Db2'', ''ibm.db2''), (''Zend_Db_Adapter_Sqlsrv'', ''microsoft.sql_server'')]"

definition map_adapter_class_to_db_system :: "string \<Rightarrow> string" where
  "map_adapter_class_to_db_system c = system_or_other ZF1_ADAPTERS c"

definition named_or :: "string \<Rightarrow> string option \<Rightarrow> string" where
  "named_or d v = (case v of Some t \<Rightarrow> t | None \<Rightarrow> d)"

text \<open>The text of a query, only when sensitive data may be captured.\<close>

definition query_text ::
  "('c, 'sc, 'f, 'g, 's, 'u) auto_lib \<Rightarrow> string \<Rightarrow> ('c, 'sc, 'f, 'g, 's, 'f key_value list) act" where
  "query_text lib sql = do {
     cap \<leftarrow> capturing lib;
     State_Monad.return (if cap then [(''db.query.text'', VString sql)] else [])
   }"

definition set_text_attribute ::
  "('c, 'sc, 'f, 'g, 's, 'u) auto_lib \<Rightarrow> 'c \<Rightarrow> string \<Rightarrow> string option \<Rightarrow> ('c, 'sc, 'f, 'g, 's, unit) act" where
  "set_text_attribute lib c k v =
     (case v of Some t \<Rightarrow> ask lib c (CallSetAttribute (k, VString t)) | None \<Rightarrow> State_Monad.return ())"

section \<open>Laminas: application and routes\<close>

definition laminas_run_pre ::
  "('c, 'sc, 'f, 'g, 's, 'u) auto_lib \<Rightarrow> nat \<Rightarrow> ('c, 'sc, 'f, 'g, 's, unit) act" where
  "laminas_run_pre lib ed = do {
     set_framework_name lib ''laminas'';
     start_and_activate_span lib ''php.otel.auto.laminas'' ''Application::run'' [] ed Internal
   }"

definition laminas_run_post ::
  "('c, 'sc, 'f, 'g, 's, 'u) auto_lib \<Rightarrow> nat \<Rightarrow> ('c, 'sc, 'f, 'g, 's, unit) act" where
  "laminas_run_post lib ed = do { guard \<leftarrow> take_guard ed; drop_guard lib guard }"

definition laminas_error ::
  "('c, 'sc, 'f, 'g, 's, 'u) auto_lib \<Rightarrow> 'c \<Rightarrow> nat \<Rightarrow> ('c, 'sc, 'f, 'g, 's, unit) act" where
  "laminas_error lib c event = do {
     e \<leftarrow> php_call lib event ''getParam'' [ZStr ''exception''];
     case e of
       Some (ZObj h) \<Rightarrow> do {
         attributes \<leftarrow> auto_exception_attributes lib h;
         ask lib c (CallAddEvent ''exception'' None attributes);
         ask lib c (CallSetStatus (StatusError []))
       }
     | _ \<Rightarrow> do {
         cap \<leftarrow> capturing lib;
         if cap then do {
           error \<leftarrow> call_string lib event ''getError'';
           ask lib c (al_record_error lib (named_or ''Unknown error'' error));
           ask lib c (CallSetStatus (StatusError (named_or ''Unknown error'' error)))
         }
         else ask lib c (CallSetStatus (StatusError []))
       }
   }"

definition laminas_complete_pre ::
  "('c, 'sc, 'f, 'g, 's, 'u) auto_lib \<Rightarrow> nat \<Rightarrow> ('c, 'sc, 'f, 'g, 's, unit) act" where
  "laminas_complete_pre lib ed = do {
     event \<leftarrow> frame_arg ed 0;
     case event of
       ZObj h \<Rightarrow> do {
         is_error \<leftarrow> php_call lib h ''isError'' [];
         if Option.bind is_error as_bool = Some True
         then do { c \<leftarrow> auto_current lib; laminas_error lib c h }
         else State_Monad.return ()
       }
     | _ \<Rightarrow> State_Monad.return ()
   }"

definition laminas_route_pre ::
  "('c, 'sc, 'f, 'g, 's, 'u) auto_lib \<Rightarrow> nat \<Rightarrow> ('c, 'sc, 'f, 'g, 's, unit) act" where
  "laminas_route_pre lib ed = do {
     root \<leftarrow> local_root;
     route \<leftarrow> frame_arg ed 0;
     case (root, route) of
       (Some c, ZObj h) \<Rightarrow> do {
         name \<leftarrow> call_string lib h ''getMatchedRouteName'';
         action \<leftarrow> call_text lib h ''getParam'' [ZStr ''action''];
         controller \<leftarrow> call_text lib h ''getParam'' [ZStr ''controller''];
         case name of
           Some n \<Rightarrow> do {
             ask lib c (CallUpdateName (named_or ''GET'' (al_request_method lib) @ '' '' @ n));
             set_text_attribute lib c ''php.framework.controller.name'' controller;
             set_text_attribute lib c ''php.framework.action.name'' action
           }
         | None \<Rightarrow> State_Monad.return ()
       }
     | _ \<Rightarrow> State_Monad.return ()
   }"

section \<open>Laminas: databases\<close>

definition laminas_connection_attributes :: "(zkey \<times> 'f zval) list \<Rightarrow> 'f key_value list" where
  "laminas_connection_attributes params =
     (let namespace = extract_laminas_db_namespace params in
      (if namespace \<noteq> [] then [(''db.namespace'', VString namespace)] else [])
      @ [(''db.system.name'', VString (case arr_text params ''driver'' of
           Some driver \<Rightarrow> map_laminas_driver_to_semconv driver params | None \<Rightarrow> []))])"

definition laminas_connect_pre ::
  "('c, 'sc, 'f, 'g, 's, 'u) auto_lib \<Rightarrow> nat \<Rightarrow> ('c, 'sc, 'f, 'g, 's, unit) act" where
  "laminas_connect_pre lib ed = do {
     start_and_activate_span lib ''php.otel.auto.laminas.db'' ''connect'' [] ed Client;
     this \<leftarrow> frame_this ed;
     case this of
       None \<Rightarrow> State_Monad.return ()
     | Some h \<Rightarrow> do {
         params \<leftarrow> php_call lib h ''getConnectionParameters'' [];
         attributes \<leftarrow> (case params of
            Some (ZArr a) \<Rightarrow> do {
              c \<leftarrow> auto_current lib;
              ask lib c (CallSetAttributes (laminas_connection_attributes a));
              State_Monad.return (laminas_connection_attributes a)
            }
          | _ \<Rightarrow> State_Monad.return []);
         sc \<leftarrow> current_span_context lib;
         State_Monad.update (\<lambda>w. w\<lparr>laminas_connections :=
           AList.update h \<lparr>info_attributes = attributes, info_context = sc\<rparr> (laminas_connections w)\<rparr>)
       }
   }"

definition laminas_prepare_pre ::
  "('c, 'sc, 'f, 'g, 's, 'u) auto_lib \<Rightarrow> nat \<Rightarrow> ('c, 'sc, 'f, 'g, 's, unit) act" where
  "laminas_prepare_pre lib ed = start_and_activate_span lib ''php.otel.auto.laminas.db'' ''prepare'' [] ed Client"

definition laminas_connection_of ::
  "('c, 'sc, 'f, 'g, 's, 'u) auto_lib \<Rightarrow> nat \<Rightarrow> ('c, 'sc, 'f, 'g, 's, ('f, 'sc) connection_info option) act" where
  "laminas_connection_of lib statement = do {
     driver \<leftarrow> php_property lib statement ''driver'';
     case driver of
       ZObj d \<Rightarrow> do {
         connection \<leftarrow> php_call lib d ''getConnection'' [];
         case connection of
           Some (ZObj k) \<Rightarrow> reads (\<lambda>w. map_of (laminas_connections w) k)
         | _ \<Rightarrow> State_Monad.return None
       }
     | _ \<Rightarrow> State_Monad.return None
   }"

text \<open>
  The attributes of the statement and of the span that prepares it (\<open>attributes\<close> and
  \<open>prepare_attributes\<close>) are always the same list. The result is that list, and the name of the span.
\<close>

definition laminas_prepared ::
  "('c, 'sc, 'f, 'g, 's, 'u) auto_lib \<Rightarrow> nat \<Rightarrow> string option \<Rightarrow>
     ('c, 'sc, 'f, 'g, 's, string \<times> 'f key_value list) act" where
  "laminas_prepared lib h sql_from_param = do {
     sql \<leftarrow> (case sql_from_param of
        Some t \<Rightarrow> State_Monad.return (Some t) | None \<Rightarrow> call_string lib h ''getSql'');
     texts \<leftarrow> (case sql of Some t \<Rightarrow> query_text lib t | None \<Rightarrow> State_Monad.return []);
     info \<leftarrow> laminas_connection_of lib h;
     (case info of
        Some i \<Rightarrow> do { c \<leftarrow> auto_current lib; ask lib c (CallAddLink (info_context i) []) }
      | None \<Rightarrow> State_Monad.return ());
     sc \<leftarrow> current_span_context lib;
     let attributes = texts @ (case info of Some i \<Rightarrow> info_attributes i | None \<Rightarrow> []);
         sql_name = named_or ''OTHER'' (Option.bind sql (al_sql_name lib))
     in do {
       State_Monad.update (\<lambda>w. w\<lparr>laminas_statements := AList.update h
         \<lparr>info_attributes = attributes, info_context = sc, info_name = sql_name\<rparr> (laminas_statements w)\<rparr>);
       State_Monad.return (case sql of Some _ \<Rightarrow> ''prepare '' @ sql_name | None \<Rightarrow> ''prepare'', attributes)
     }
   }"

definition laminas_prepare_post ::
  "('c, 'sc, 'f, 'g, 's, 'u) auto_lib \<Rightarrow> nat \<Rightarrow> ('c, 'sc, 'f, 'g, 's, unit) act" where
  "laminas_prepare_post lib ed = do {
     guard \<leftarrow> take_guard ed;
     record_pending lib ed;
     n \<leftarrow> frame_num_args ed;
     v \<leftarrow> frame_arg ed 0;
     this \<leftarrow> frame_this ed;
     (name, attributes) \<leftarrow> (case this of
        Some h \<Rightarrow> laminas_prepared lib h (if n > 0 then utf8_text v else None)
      | None \<Rightarrow> State_Monad.return (''prepare'', []));
     c \<leftarrow> auto_current lib;
     ask lib c (CallUpdateName name);
     ask lib c (CallSetAttributes attributes);
     drop_guard lib guard
   }"

definition laminas_execute_pre ::
  "('c, 'sc, 'f, 'g, 's, 'u) auto_lib \<Rightarrow> nat \<Rightarrow> ('c, 'sc, 'f, 'g, 's, unit) act" where
  "laminas_execute_pre lib ed =
     start_and_activate_span lib ''php.otel.auto.laminas.db'' ''Statement::execute'' [] ed Client"

definition laminas_execute_post ::
  "('c, 'sc, 'f, 'g, 's, 'u) auto_lib \<Rightarrow> nat \<Rightarrow> ('c, 'sc, 'f, 'g, 's, unit) act" where
  "laminas_execute_post lib ed = do {
     guard \<leftarrow> take_guard ed;
     record_pending lib ed;
     this \<leftarrow> frame_this ed;
     info \<leftarrow> reads (\<lambda>w. Option.bind this (map_of (laminas_statements w)));
     (case info of
        Some i \<Rightarrow> do {
          c \<leftarrow> auto_current lib;
          ask lib c (CallSetAttributes (info_attributes i));
          ask lib c (CallUpdateName (info_name i));
          ask lib c (CallAddLink (info_context i) [])
        }
      | None \<Rightarrow> State_Monad.return ());
     drop_guard lib guard
   }"

definition laminas_connection_execute_pre ::
  "('c, 'sc, 'f, 'g, 's, 'u) auto_lib \<Rightarrow> nat \<Rightarrow> ('c, 'sc, 'f, 'g, 's, unit) act" where
  "laminas_connection_execute_pre lib ed = do {
     v \<leftarrow> frame_arg ed 0;
     attributes \<leftarrow> query_text lib (named_or [] (utf8_text v));
     start_and_activate_span lib ''php.otel.auto.laminas.db''
       (named_or ''execute'' (al_sql_name lib (named_or [] (utf8_text v)))) attributes ed Client
   }"

definition laminas_shutdown :: "('c, 'sc, 'f, 'g, 's) auto_world \<Rightarrow> ('c, 'sc, 'f, 'g, 's) auto_world" where
  "laminas_shutdown w = w\<lparr>laminas_connections := [], laminas_statements := []\<rparr>"

definition laminas_run_handler :: "('c, 'sc, 'f, 'g, 's, 'u) auto_lib \<Rightarrow> ('c, 'sc, 'f, 'g, 's) auto_world handler" where
  "laminas_run_handler lib =
     \<lparr>handler_targets = [(Some (class_path [''Laminas'', ''Mvc'', ''Application'']), ''run'')],
      pre_observe = Some (hook_of (laminas_run_pre lib)),
      post_observe = Some (hook_of (laminas_run_post lib))\<rparr>"

definition laminas_complete_handler :: "('c, 'sc, 'f, 'g, 's, 'u) auto_lib \<Rightarrow> ('c, 'sc, 'f, 'g, 's) auto_world handler" where
  "laminas_complete_handler lib =
     \<lparr>handler_targets = [(Some (class_path [''Laminas'', ''Mvc'', ''Application'']), ''completeRequest'')],
      pre_observe = Some (hook_of (laminas_complete_pre lib)),
      post_observe = None\<rparr>"

definition laminas_route_handler :: "('c, 'sc, 'f, 'g, 's, 'u) auto_lib \<Rightarrow> ('c, 'sc, 'f, 'g, 's) auto_world handler" where
  "laminas_route_handler lib =
     \<lparr>handler_targets = [(Some (class_path [''Laminas'', ''Mvc'', ''MvcEvent'']), ''setRouteMatch'')],
      pre_observe = Some (hook_of (laminas_route_pre lib)),
      post_observe = None\<rparr>"

definition laminas_connect_handler :: "('c, 'sc, 'f, 'g, 's, 'u) auto_lib \<Rightarrow> ('c, 'sc, 'f, 'g, 's) auto_world handler" where
  "laminas_connect_handler lib =
     \<lparr>handler_targets = [(Some (class_path [''Laminas'', ''Db'', ''Adapter'', ''Driver'', ''AbstractConnection'']), ''connect'')],
      pre_observe = Some (hook_of (laminas_connect_pre lib)),
      post_observe = Some (hook_of (span_ended lib))\<rparr>"

definition laminas_prepare_handler :: "('c, 'sc, 'f, 'g, 's, 'u) auto_lib \<Rightarrow> ('c, 'sc, 'f, 'g, 's) auto_world handler" where
  "laminas_prepare_handler lib =
     \<lparr>handler_targets = [(Some (class_path [''Laminas'', ''Db'', ''Adapter'', ''Driver'', ''StatementInterface'']), ''prepare'')],
      pre_observe = Some (hook_of (laminas_prepare_pre lib)),
      post_observe = Some (hook_of (laminas_prepare_post lib))\<rparr>"

definition laminas_execute_handler :: "('c, 'sc, 'f, 'g, 's, 'u) auto_lib \<Rightarrow> ('c, 'sc, 'f, 'g, 's) auto_world handler" where
  "laminas_execute_handler lib =
     \<lparr>handler_targets = [(Some (class_path [''Laminas'', ''Db'', ''Adapter'', ''Driver'', ''StatementInterface'']), ''execute'')],
      pre_observe = Some (hook_of (laminas_execute_pre lib)),
      post_observe = Some (hook_of (laminas_execute_post lib))\<rparr>"

definition laminas_connection_execute_handler :: "('c, 'sc, 'f, 'g, 's, 'u) auto_lib \<Rightarrow> ('c, 'sc, 'f, 'g, 's) auto_world handler" where
  "laminas_connection_execute_handler lib =
     \<lparr>handler_targets = [(Some (class_path [''Laminas'', ''Db'', ''Adapter'', ''Driver'', ''ConnectionInterface'']), ''execute'')],
      pre_observe = Some (hook_of (laminas_connection_execute_pre lib)),
      post_observe = Some (hook_of (span_ended lib))\<rparr>"

definition laminas_plugin :: "('c, 'sc, 'f, 'g, 's, 'u) auto_lib \<Rightarrow> ('c, 'sc, 'f, 'g, 's) auto_world plugin" where
  "laminas_plugin lib =
     \<lparr>plugin_name = ''laminas'',
      plugin_handlers =
        [laminas_run_handler lib, laminas_complete_handler lib, laminas_route_handler lib, laminas_connect_handler lib,
         laminas_prepare_handler lib, laminas_execute_handler lib, laminas_connection_execute_handler lib],
      plugin_shutdown = laminas_shutdown\<rparr>"

section \<open>Zend Framework 1: routes and errors\<close>

definition zf1_route_post ::
  "('c, 'sc, 'f, 'g, 's, 'u) auto_lib \<Rightarrow> nat \<Rightarrow> ('c, 'sc, 'f, 'g, 's, unit) act" where
  "zf1_route_post lib ed = do {
     root \<leftarrow> local_root;
     case root of
       None \<Rightarrow> State_Monad.return ()
     | Some c \<Rightarrow> do {
         ask lib c (CallSetAttribute (''php.framework.name'', VString ''zf1''));
         v \<leftarrow> frame_retval ed;
         a \<leftarrow> frame_arg ed 0;
         case (if v \<noteq> ZNull then v else a) of
           ZObj h \<Rightarrow> do {
             m \<leftarrow> call_string lib h ''getMethod'';
             module \<leftarrow> call_string lib h ''getModuleName'';
             controller \<leftarrow> call_string lib h ''getControllerName'';
             action \<leftarrow> call_string lib h ''getActionName'';
             ask lib c (CallUpdateName (named_or ''GET'' m @ '' '' @ named_or ''default'' module @ ''/''
               @ named_or ''unknown_controller'' controller @ ''/'' @ named_or ''unknown_action'' action));
             set_text_attribute lib c ''php.framework.module.name'' module;
             set_text_attribute lib c ''php.framework.controller.name'' controller;
             set_text_attribute lib c ''php.framework.action.name'' action
           }
         | _ \<Rightarrow> State_Monad.return ()
       }
   }"

text \<open>The exception a response carries; the result is the description of the status.\<close>

definition zf1_exception ::
  "('c, 'sc, 'f, 'g, 's, 'u) auto_lib \<Rightarrow> 'c \<Rightarrow> nat \<Rightarrow> ('c, 'sc, 'f, 'g, 's, string) act" where
  "zf1_exception lib c h = do {
     cap \<leftarrow> capturing lib;
     if cap then do {
       (if al_instance lib h ''Throwable'' then ask lib c (al_record_error lib (al_display lib h))
        else State_Monad.return ());
       m \<leftarrow> call_string lib h ''getMessage'';
       State_Monad.return (named_or [] m)
     }
     else do {
       attributes \<leftarrow> auto_exception_attributes lib h;
       ask lib c (CallAddEvent ''exception'' None attributes);
       State_Monad.return []
     }
   }"

definition zf1_send_response_post ::
  "('c, 'sc, 'f, 'g, 's, 'u) auto_lib \<Rightarrow> nat \<Rightarrow> ('c, 'sc, 'f, 'g, 's, unit) act" where
  "zf1_send_response_post lib ed = do {
     this \<leftarrow> frame_this ed;
     case this of
       None \<Rightarrow> State_Monad.return ()
     | Some r \<Rightarrow> do {
         code \<leftarrow> php_call lib r ''getHttpResponseCode'' [];
         is_exception \<leftarrow> php_call lib r ''isException'' [];
         root \<leftarrow> local_root;
         case (Option.bind is_exception as_bool, root) of
           (Some True, Some c) \<Rightarrow> do {
             exceptions \<leftarrow> php_call lib r ''getException'' [];
             description \<leftarrow> (case exceptions of
                Some (ZArr ((_, ZObj h) # _)) \<Rightarrow> zf1_exception lib c h
              | _ \<Rightarrow> State_Monad.return []);
             if (case Option.bind code as_long of Some n \<Rightarrow> n | None \<Rightarrow> 200) \<ge> 500
             then ask lib c (CallSetStatus (StatusError description)) else State_Monad.return ()
           }
         | _ \<Rightarrow> State_Monad.return ()
       }
   }"

section \<open>Zend Framework 1: databases\<close>

text \<open>\<open>_connect\<close> is called before every query; a span is started only while there is no connection.\<close>

definition zf1_connect_span ::
  "('c, 'sc, 'f, 'g, 's, 'u) auto_lib \<Rightarrow> nat \<Rightarrow> nat \<Rightarrow> string option \<Rightarrow> ('c, 'sc, 'f, 'g, 's, unit) act" where
  "zf1_connect_span lib ed h c = do {
     config \<leftarrow> php_property lib h ''_config'';
     let attributes =
       (case c of Some t \<Rightarrow> [(''db.system.name'', VString (map_adapter_class_to_db_system t))] | None \<Rightarrow> [])
       @ (case config of
            ZArr a \<Rightarrow> (case map_of a (symtable_key ''dbname'') of
               Some v \<Rightarrow> [(''db.namespace'', VString (named_or [] (utf8_text v)))] | None \<Rightarrow> [])
          | _ \<Rightarrow> [])
     in do {
       start_and_activate_span lib ''php.otel.auto.zf1.db'' ''connect'' attributes ed Client;
       sc \<leftarrow> current_span_context lib;
       State_Monad.update (\<lambda>w. w\<lparr>zf1_connections :=
         AList.update h \<lparr>info_attributes = attributes, info_context = sc\<rparr> (zf1_connections w)\<rparr>)
     }
   }"

definition zf1_connect_pre ::
  "('c, 'sc, 'f, 'g, 's, 'u) auto_lib \<Rightarrow> nat \<Rightarrow> ('c, 'sc, 'f, 'g, 's, unit) act" where
  "zf1_connect_pre lib ed = do {
     this \<leftarrow> frame_this ed;
     frame \<leftarrow> reads (\<lambda>w. aw_frames w ed);
     case this of
       None \<Rightarrow> State_Monad.return ()
     | Some h \<Rightarrow> do {
         connection \<leftarrow> php_property lib h ''_connection'';
         let c = Option.bind (Option.bind frame (\<lambda>f. get_function_and_class_name (fr_function f))) snd;
             should_start_span = (\<not> suffix ''_Abstract'' (named_or [] c) \<and> connection = ZNull)
         in do {
           (if should_start_span then zf1_connect_span lib ed h c else State_Monad.return ());
           set_flag ed should_start_span
         }
       }
   }"

definition zf1_connect_post ::
  "('c, 'sc, 'f, 'g, 's, 'u) auto_lib \<Rightarrow> nat \<Rightarrow> ('c, 'sc, 'f, 'g, 's, unit) act" where
  "zf1_connect_post lib ed = do {
     did_start_span \<leftarrow> reads (\<lambda>w. get_exec_data_flag ed (aw_flags w) = Some True);
     guard \<leftarrow> (if did_start_span then take_guard ed else State_Monad.return None);
     record_pending lib ed;
     State_Monad.update (\<lambda>w. w\<lparr>aw_flags := remove_exec_data_flag ed (aw_flags w)\<rparr>);
     drop_guard lib guard
   }"

definition zf1_prepare_pre ::
  "('c, 'sc, 'f, 'g, 's, 'u) auto_lib \<Rightarrow> nat \<Rightarrow> ('c, 'sc, 'f, 'g, 's, unit) act" where
  "zf1_prepare_pre lib ed = do {
     v \<leftarrow> frame_arg ed 0;
     attributes \<leftarrow> (case utf8_text v of Some sql \<Rightarrow> query_text lib sql | None \<Rightarrow> State_Monad.return []);
     start_and_activate_span lib ''php.otel.auto.zf1.db''
       (case utf8_text v of
          Some sql \<Rightarrow> ''prepare '' @ named_or ''OTHER'' (al_sql_name lib sql) | None \<Rightarrow> ''prepare'')
       attributes ed Client
   }"

text \<open>The prepared statement is the returned object.\<close>

definition zf1_prepared ::
  "('c, 'sc, 'f, 'g, 's, 'u) auto_lib \<Rightarrow> nat \<Rightarrow> nat \<Rightarrow> ('c, 'sc, 'f, 'g, 's, unit) act" where
  "zf1_prepared lib ed statement = do {
     this \<leftarrow> frame_this ed;
     info \<leftarrow> reads (\<lambda>w. Option.bind this (map_of (zf1_connections w)));
     c \<leftarrow> auto_current lib;
     (case info of Some i \<Rightarrow> ask lib c (CallAddLink (info_context i) []) | None \<Rightarrow> State_Monad.return ());
     v \<leftarrow> frame_arg ed 0;
     case utf8_text v of
       None \<Rightarrow> State_Monad.return ()
     | Some sql \<Rightarrow> do {
         ask lib c (CallUpdateName (''prepare '' @ named_or ''OTHER'' (al_sql_name lib sql)));
         texts \<leftarrow> query_text lib sql;
         let attributes = (case info of Some i \<Rightarrow> info_attributes i | None \<Rightarrow> []) @ texts
         in do {
           ask lib c (CallSetAttributes attributes);
           sc \<leftarrow> current_span_context lib;
           State_Monad.update (\<lambda>w. w\<lparr>zf1_statements := AList.update statement
             \<lparr>info_attributes = attributes, info_context = sc, info_name = named_or ''OTHER'' (al_sql_name lib sql)\<rparr>
             (zf1_statements w)\<rparr>)
         }
       }
   }"

definition zf1_prepare_post ::
  "('c, 'sc, 'f, 'g, 's, 'u) auto_lib \<Rightarrow> nat \<Rightarrow> ('c, 'sc, 'f, 'g, 's, unit) act" where
  "zf1_prepare_post lib ed = do {
     guard \<leftarrow> take_guard ed;
     record_pending lib ed;
     v \<leftarrow> frame_retval ed;
     (case v of ZObj statement \<Rightarrow> zf1_prepared lib ed statement | _ \<Rightarrow> State_Monad.return ());
     drop_guard lib guard
   }"

definition zf1_execute_pre ::
  "('c, 'sc, 'f, 'g, 's, 'u) auto_lib \<Rightarrow> nat \<Rightarrow> ('c, 'sc, 'f, 'g, 's, unit) act" where
  "zf1_execute_pre lib ed = do {
     this \<leftarrow> frame_this ed;
     info \<leftarrow> reads (\<lambda>w. Option.bind this (map_of (zf1_statements w)));
     start_and_activate_span lib ''php.otel.auto.zf1.db''
       (case info of Some i \<Rightarrow> info_name i | None \<Rightarrow> ''Statement::execute'')
       (case info of Some i \<Rightarrow> info_attributes i | None \<Rightarrow> []) ed Client;
     case info of
       Some i \<Rightarrow> do { c \<leftarrow> auto_current lib; ask lib c (CallAddLink (info_context i) []) }
     | None \<Rightarrow> State_Monad.return ()
   }"

definition zf1_shutdown :: "('c, 'sc, 'f, 'g, 's) auto_world \<Rightarrow> ('c, 'sc, 'f, 'g, 's) auto_world" where
  "zf1_shutdown w = w\<lparr>zf1_statements := [], zf1_connections := []\<rparr>"

definition zf1_route_handler :: "('c, 'sc, 'f, 'g, 's, 'u) auto_lib \<Rightarrow> ('c, 'sc, 'f, 'g, 's) auto_world handler" where
  "zf1_route_handler lib =
     \<lparr>handler_targets = [(Some ''Zend_Controller_Router_Interface'', ''route'')],
      pre_observe = None,
      post_observe = Some (hook_of (zf1_route_post lib))\<rparr>"

definition zf1_send_response_handler :: "('c, 'sc, 'f, 'g, 's, 'u) auto_lib \<Rightarrow> ('c, 'sc, 'f, 'g, 's) auto_world handler" where
  "zf1_send_response_handler lib =
     \<lparr>handler_targets = [(Some ''Zend_Controller_Response_Abstract'', ''sendResponse'')],
      pre_observe = None,
      post_observe = Some (hook_of (zf1_send_response_post lib))\<rparr>"

definition zf1_connect_handler :: "('c, 'sc, 'f, 'g, 's, 'u) auto_lib \<Rightarrow> ('c, 'sc, 'f, 'g, 's) auto_world handler" where
  "zf1_connect_handler lib =
     \<lparr>handler_targets = [(Some ''Zend_Db_Adapter_Abstract'', ''_connect'')],
      pre_observe = Some (hook_of (zf1_connect_pre lib)),
      post_observe = Some (hook_of (zf1_connect_post lib))\<rparr>"

definition zf1_prepare_handler :: "('c, 'sc, 'f, 'g, 's, 'u) auto_lib \<Rightarrow> ('c, 'sc, 'f, 'g, 's) auto_world handler" where
  "zf1_prepare_handler lib =
     \<lparr>handler_targets = [(Some ''Zend_Db_Adapter_Abstract'', ''prepare'')],
      pre_observe = Some (hook_of (zf1_prepare_pre lib)),
      post_observe = Some (hook_of (zf1_prepare_post lib))\<rparr>"

definition zf1_execute_handler :: "('c, 'sc, 'f, 'g, 's, 'u) auto_lib \<Rightarrow> ('c, 'sc, 'f, 'g, 's) auto_world handler" where
  "zf1_execute_handler lib =
     \<lparr>handler_targets = [(Some ''Zend_Db_Statement_Interface'', ''execute'')],
      pre_observe = Some (hook_of (zf1_execute_pre lib)),
      post_observe = Some (hook_of (span_ended lib))\<rparr>"

definition zf1_plugin :: "('c, 'sc, 'f, 'g, 's, 'u) auto_lib \<Rightarrow> ('c, 'sc, 'f, 'g, 's) auto_world plugin" where
  "zf1_plugin lib =
     \<lparr>plugin_name = ''zf1'',
      plugin_handlers =
        [zf1_route_handler lib, zf1_send_response_handler lib, zf1_connect_handler lib, zf1_prepare_handler lib,
         zf1_execute_handler lib],
      plugin_shutdown = zf1_shutdown\<rparr>"

lemmas database_handler_defs = laminas_run_handler_def laminas_complete_handler_def laminas_route_handler_def laminas_connect_handler_def
  laminas_prepare_handler_def laminas_execute_handler_def laminas_connection_execute_handler_def zf1_route_handler_def
  zf1_send_response_handler_def zf1_connect_handler_def zf1_prepare_handler_def zf1_execute_handler_def

end
