(* ===== verification/Auto_Plugins.thy ===== *)
theory Auto_Plugins
  imports Auto_Frameworks Auto_Databases
begin

text \<open>
  The plugins together: which plugin has which name, and what all their hooks have in common. Around a
  call, whatever happens in it, the attached contexts, the stored guards and the flags are as before;
  and with the capture of sensitive data off nothing sensitive reaches a span.
\<close>

section \<open>The plugins by name\<close>

definition builtin_plugin ::
  "('c, 'sc, 'f, 'g, 's, 'u) auto_lib \<Rightarrow> string \<Rightarrow> ('c, 'sc, 'f, 'g, 's) auto_world plugin" where
  "builtin_plugin lib name =
     (if name = ''laravel'' then laravel_plugin lib
      else if name = ''laminas'' then laminas_plugin lib
      else if name = ''psr18'' then psr18_plugin lib
      else if name = ''symfony'' then symfony_plugin lib
      else zf1_plugin lib)"

definition builtin_manager ::
  "('c, 'sc, 'f, 'g, 's, 'u) auto_lib \<Rightarrow> bytes option \<Rightarrow> ('c, 'sc, 'f, 'g, 's) auto_world plugin list" where
  "builtin_manager lib ini = manager_new (builtin_plugin lib) False ini"

lemma builtin_handlers:
  assumes "h \<in> set (all_handlers (builtin_manager lib ini))"
  shows "h \<in> set (plugin_handlers (laravel_plugin lib)) \<or> h \<in> set (plugin_handlers (laminas_plugin lib))
    \<or> h \<in> set (plugin_handlers (psr18_plugin lib)) \<or> h \<in> set (plugin_handlers (symfony_plugin lib))
    \<or> h \<in> set (plugin_handlers (zf1_plugin lib))"
  using assms by (auto simp: all_handlers_def builtin_manager_def manager_new_def builtin_plugin_def Let_def split: if_splits)

section \<open>What a hook leaves alone\<close>

text \<open>
  The documented behaviour of attached contexts, by the list \<open>live\<close> of those attached: attaching makes a
  context current and gives a guard of its own, dropping a guard takes its context out of the list.
\<close>

definition guard_laws ::
  "('c, 'sc, 'f, 'g, 's, 'u) auto_lib \<Rightarrow> ('s \<Rightarrow> ('g \<times> 'c) list) \<Rightarrow> 'c \<Rightarrow> bool" where
  "guard_laws lib live ground \<longleftrightarrow>
     (\<forall>c s. case al_attach lib c s of (g, s') \<Rightarrow> live s' = (g, c) # live s \<and> g \<notin> fst ` set (live s))
     \<and> (\<forall>g s. live (al_drop lib g s) = filter (\<lambda>p. fst p \<noteq> g) (live s))
     \<and> (\<forall>s. al_current lib s = (case live s of [] \<Rightarrow> ground | (_, c) # _ \<Rightarrow> c))"

type_synonym ('c, 'g) view = "('g \<times> 'c) list \<times> (nat \<times> 'g) list \<times> exec_flags"

definition view :: "('s \<Rightarrow> ('g \<times> 'c) list) \<Rightarrow> ('c, 'sc, 'f, 'g, 's) auto_world \<Rightarrow> ('c, 'g) view" where
  "view live w = (live (aw_attached w), aw_guards w, aw_flags w)"

definition silent :: "('s \<Rightarrow> ('g \<times> 'c) list) \<Rightarrow> ('c, 'sc, 'f, 'g, 's, 'a) act \<Rightarrow> bool" where
  "silent live m \<longleftrightarrow> (\<forall>w. view live (snd (run_state m w)) = view live w)"

text \<open>PHP code that hooks call detaches what it attached, and calls of it restore guards and flags.\<close>

definition balanced_php :: "('c, 'sc, 'f, 'g, 's, 'u) auto_lib \<Rightarrow> ('s \<Rightarrow> ('g \<times> 'c) list) \<Rightarrow> bool" where
  "balanced_php lib live \<longleftrightarrow>
     (\<forall>h m args. silent live (php_call lib h m args)) \<and> (\<forall>h p. silent live (php_property lib h p))"

named_theorems silent_rules \<open>programs that leave the view alone\<close>

lemma run_state_update [simp]: "run_state (State_Monad.update f) w = ((), f w)"
  by (simp add: State_Monad.update_def)

lemma silent_return [silent_rules]: "silent live (State_Monad.return x)"
  by (simp add: silent_def)

lemma silent_bind [silent_rules]:
  "silent live m \<Longrightarrow> (\<And>x. silent live (f x)) \<Longrightarrow> silent live (State_Monad.bind m f)"
  by (simp add: silent_def split: prod.split) (metis snd_conv)

lemma silent_reads [silent_rules]: "silent live (reads f)"
  by (simp add: silent_def reads_def)

lemma silent_if [silent_rules]: "silent live m \<Longrightarrow> silent live n \<Longrightarrow> silent live (if b then m else n)"
  by simp

lemma silent_option [silent_rules]:
  "silent live m \<Longrightarrow> (\<And>x. silent live (f x)) \<Longrightarrow> silent live (case v of None \<Rightarrow> m | Some x \<Rightarrow> f x)"
  by (cases v) auto

lemma silent_prod [silent_rules]: "(\<And>a b. silent live (f a b)) \<Longrightarrow> silent live (case p of (a, b) \<Rightarrow> f a b)"
  by (cases p) auto

lemma silent_list [silent_rules]:
  "silent live m \<Longrightarrow> (\<And>x xs. silent live (f x xs)) \<Longrightarrow> silent live (case l of [] \<Rightarrow> m | x # xs \<Rightarrow> f x xs)"
  by (cases l) auto

lemma silent_bool [silent_rules]:
  "silent live m \<Longrightarrow> silent live n \<Longrightarrow> silent live (case b of True \<Rightarrow> m | False \<Rightarrow> n)"
  by (cases b) auto

lemma silent_zval [silent_rules]:
  assumes "silent live n" "\<And>b. silent live (fb b)" "\<And>i. silent live (fi i)" "\<And>d. silent live (fd d)"
    "\<And>t. silent live (fs t)" "\<And>a. silent live (fa a)" "\<And>h. silent live (fo h)"
  shows "silent live (case v of ZNull \<Rightarrow> n | ZBool b \<Rightarrow> fb b | ZLong i \<Rightarrow> fi i | ZDouble d \<Rightarrow> fd d
    | ZStr t \<Rightarrow> fs t | ZArr a \<Rightarrow> fa a | ZObj h \<Rightarrow> fo h)"
  using assms by (cases v) auto

lemma silent_let [silent_rules]: "silent live (f x) \<Longrightarrow> silent live (Let x f)"
  by simp

lemma silent_updates [silent_rules]:
  "silent live (State_Monad.update (\<lambda>w. w\<lparr>laminas_connections := lc w\<rparr>))"
  "silent live (State_Monad.update (\<lambda>w. w\<lparr>laminas_statements := ls w\<rparr>))"
  "silent live (State_Monad.update (\<lambda>w. w\<lparr>zf1_connections := zc w\<rparr>))"
  "silent live (State_Monad.update (\<lambda>w. w\<lparr>zf1_statements := zs w\<rparr>))"
  "silent live (State_Monad.update (\<lambda>w. w\<lparr>aw_started := st w\<rparr>))"
  by (simp_all add: silent_def view_def)

lemma silent_ask [silent_rules]: "silent live (ask lib c x)"
  by (simp add: silent_def ask_def view_def)

lemma silent_capturing [silent_rules]: "silent live (capturing lib)"
  by (simp add: silent_def capturing_def view_def Let_def split: prod.split)

lemma silent_exception_attributes [silent_rules]: "silent live (auto_exception_attributes lib h)"
  by (simp add: silent_def auto_exception_attributes_def view_def split: prod.split)

lemma silent_set_frame_arg [silent_rules]: "silent live (set_frame_arg ed i v)"
  by (simp add: silent_def set_frame_arg_def view_def)

lemma silent_php:
  assumes "balanced_php lib live"
  shows "silent live (php_call lib h m args)" "silent live (php_property lib h p)"
  using assms by (simp_all add: balanced_php_def)

lemmas frame_defs = frame_this_def frame_arg_def frame_num_args_def frame_retval_def frame_exception_def
  auto_current_def local_root_def current_span_context_def

lemma silent_texts:
  assumes "balanced_php lib live"
  shows "silent live (call_text lib h m args)" "silent live (call_string lib h m)" "silent live (sanitized lib t)"
    "silent live (query_text lib t)" "silent live (set_text_attribute lib c k v)"
    "silent live (record_exception lib c e)" "silent live (record_pending lib ed)"
    "silent live (set_framework_name lib t)" "silent live (set_controller lib c names)"
    "silent live (command_name lib ed)" "silent live (parameter_bag_string lib h k)"
  unfolding call_text_def call_string_def sanitized_def query_text_def set_text_attribute_def record_exception_def
    record_pending_def set_framework_name_def set_controller_def command_name_def parameter_bag_string_def frame_defs
  by (intro silent_rules silent_php [OF assms])+

lemma silent_headers:
  assumes "balanced_php lib live"
  shows "silent live (inject_headers lib carrier request)"
  by (induction carrier arbitrary: request)
    (force intro!: silent_rules silent_php [OF assms])+

lemma silent_frameworks:
  assumes "balanced_php lib live"
  shows "silent live (uri_attributes lib u)" "silent live (psr18_request lib v)" "silent live (psr18_response lib c v)"
    "silent live (laravel_route lib c t r)" "silent live (laravel_http_post lib ed)"
    "silent live (is_laravel_command lib ed)" "silent live (symfony_route lib c t a)"
    "silent live (symfony_http_post lib ed)"
  unfolding uri_attributes_def psr18_request_def psr18_response_def laravel_route_def laravel_http_post_def
    is_laravel_command_def symfony_route_def symfony_http_post_def frame_defs
  by (intro silent_rules silent_php [OF assms] silent_texts [OF assms])+

lemma silent_databases:
  assumes "balanced_php lib live"
  shows "silent live (laminas_error lib c h)" "silent live (laminas_complete_pre lib ed)"
    "silent live (laminas_route_pre lib ed)" "silent live (laminas_connection_of lib h)"
    "silent live (laminas_prepared lib h t)" "silent live (zf1_route_post lib ed)" "silent live (zf1_exception lib c h)"
    "silent live (zf1_send_response_post lib ed)" "silent live (zf1_prepared lib ed h)"
  unfolding laminas_error_def laminas_complete_pre_def laminas_route_pre_def laminas_connection_of_def
    laminas_prepared_def zf1_route_post_def zf1_exception_def zf1_send_response_post_def zf1_prepared_def frame_defs
  by (intro silent_rules silent_php [OF assms] silent_texts [OF assms])+

section \<open>What a pair of hooks leaves behind\<close>

text \<open>Hoare triples over the view; the result of the program is the first argument after it.\<close>

definition vtriple ::
  "('s \<Rightarrow> ('g \<times> 'c) list) \<Rightarrow> (('c, 'g) view \<Rightarrow> bool) \<Rightarrow> ('c, 'sc, 'f, 'g, 's, 'a) act \<Rightarrow>
     ('a \<Rightarrow> ('c, 'g) view \<Rightarrow> bool) \<Rightarrow> bool" where
  "vtriple live P m Q \<longleftrightarrow>
     (\<forall>w. P (view live w) \<longrightarrow> Q (fst (run_state m w)) (view live (snd (run_state m w))))"

lemma vtriple_silent: "silent live m \<Longrightarrow> (\<And>x u. P u \<Longrightarrow> Q x u) \<Longrightarrow> vtriple live P m Q"
  by (simp add: vtriple_def silent_def)

lemma vtriple_bind:
  assumes "vtriple live P m R" and "\<And>x. vtriple live (R x) (f x) Q"
  shows "vtriple live P (State_Monad.bind m f) Q"
  using assms by (simp add: vtriple_def split: prod.split) (metis fst_conv snd_conv)

lemma vtriple_silent_bind:
  "silent live m \<Longrightarrow> (\<And>x. vtriple live P (f x) Q) \<Longrightarrow> vtriple live P (State_Monad.bind m f) Q"
  by (rule vtriple_bind [where R = "\<lambda>_. P"]) (auto intro: vtriple_silent)

lemma vtriple_bind_silent:
  assumes "vtriple live P m (\<lambda>_. Q)" and "\<And>x. silent live (f x)"
  shows "vtriple live P (State_Monad.bind m f) (\<lambda>_. Q)"
  by (rule vtriple_bind [OF assms(1)]) (auto intro: vtriple_silent assms(2))

lemma vtriple_weaken: "vtriple live P m Q \<Longrightarrow> (\<And>x u. Q x u \<Longrightarrow> R x u) \<Longrightarrow> vtriple live P m R"
  by (simp add: vtriple_def)

lemma vtriple_if: "vtriple live P m Q \<Longrightarrow> vtriple live P n Q \<Longrightarrow> vtriple live P (if b then m else n) Q"
  by simp

lemma vtriple_option:
  "vtriple live P m Q \<Longrightarrow> (\<And>x. vtriple live P (f x) Q) \<Longrightarrow>
    vtriple live P (case v of None \<Rightarrow> m | Some x \<Rightarrow> f x) Q"
  by (cases v) auto

lemma vtriple_prod: "(\<And>a b. vtriple live P (f a b) Q) \<Longrightarrow> vtriple live P (case p of (a, b) \<Rightarrow> f a b) Q"
  by (cases p) auto

text \<open>The view between the hooks of a call at \<open>ed\<close>: perhaps one more context, whose guard is stored.\<close>

definition unused :: "nat \<Rightarrow> ('c, 'g) view \<Rightarrow> bool" where
  "unused ed v \<longleftrightarrow> ed \<notin> fst ` set (fst (snd v)) \<and> ed \<notin> fst ` set (snd (snd v))"

definition opened :: "nat \<Rightarrow> ('c, 'g) view \<Rightarrow> ('c, 'g) view \<Rightarrow> bool" where
  "opened ed v u \<longleftrightarrow> u = v \<or> (\<exists>g c. g \<notin> fst ` set (fst v) \<and>
     u = ((g, c) # fst v, AList.update ed g (fst (snd v)), snd (snd v)))"

text \<open>Handlers with a flag open a span only when the flag says so.\<close>

definition flagged :: "nat \<Rightarrow> ('c, 'g) view \<Rightarrow> ('c, 'g) view \<Rightarrow> bool" where
  "flagged ed v u \<longleftrightarrow> u = v \<or> u = (fst v, fst (snd v), AList.update ed False (snd (snd v)))
     \<or> (\<exists>u'. opened ed v u' \<and> u = (fst u', fst (snd u'), AList.update ed True (snd (snd v))))"

lemma start_opens:
  fixes lib :: "('c, 'sc, 'f, 'g, 's, 'u) auto_lib"
  assumes "guard_laws lib live ground" and "ed \<notin> fst ` set (fst (snd v))"
  shows "vtriple live (\<lambda>u. u = v) (start_and_activate_span lib t name kvs ed k) (\<lambda>_. opened ed v)"
  unfolding vtriple_def
proof (intro allI impI)
  fix w :: "('c, 'sc, 'f, 'g, 's) auto_world" assume w: "view live w = v"
  show "opened ed v (view live (snd (run_state (start_and_activate_span lib t name kvs ed k) w)))"
  proof (cases "aw_frames w ed")
    case None
    with w show ?thesis by (simp add: start_and_activate_span_def reads_def opened_def)
  next
    case (Some f)
    let ?c = "al_current lib (aw_attached w)" and ?n = "length (aw_started w)"
    obtain g s where att: "al_attach lib (al_with_span lib ?n ?c) (aw_attached w) = (g, s)" by fastforce
    with assms(1) have "live s = (g, al_with_span lib ?n ?c) # live (aw_attached w)" "g \<notin> fst ` set (live (aw_attached w))"
      by (auto simp: guard_laws_def split: prod.splits)
    moreover have "map_of (aw_guards w) ed = None"
      using assms(2) w by (auto simp: view_def map_of_eq_None_iff)
    ultimately show ?thesis using Some att w
      by (auto simp: start_and_activate_span_def reads_def auto_current_def store_guard_def drop_guard_def opened_def view_def)
  qed
qed

lemma delete_unused: "k \<notin> fst ` set l \<Longrightarrow> AList.delete k (AList.update k x l) = l"
  by (simp add: AList.delete_update_same delete_idem)

definition taken :: "('c, 'g) view \<Rightarrow> 'g option \<Rightarrow> ('c, 'g) view \<Rightarrow> bool" where
  "taken v g u \<longleftrightarrow> (g = None \<and> u = v) \<or>
     (\<exists>k c. g = Some k \<and> k \<notin> fst ` set (fst v) \<and> u = ((k, c) # fst v, snd v))"

lemma take_opened:
  assumes "ed \<notin> fst ` set (fst (snd v))"
  shows "vtriple live (opened ed v) (take_guard ed) (taken v)"
proof -
  have "map_of (fst (snd v)) ed = None" "AList.delete ed (fst (snd v)) = fst (snd v)"
    using assms by (auto simp: map_of_eq_None_iff delete_idem)
  then show ?thesis using assms
    by (auto simp: vtriple_def take_guard_def reads_def opened_def taken_def view_def update_conv' delete_unused)
qed

lemma filter_unused: "k \<notin> fst ` set l \<Longrightarrow> filter (\<lambda>p. fst p \<noteq> k) l = l"
  by (rule filter_True) force

lemma drop_taken:
  assumes "guard_laws lib live ground"
  shows "vtriple live (taken v g) (drop_guard lib g) (\<lambda>_ u. u = v)"
proof -
  have "live (al_drop lib k s) = filter (\<lambda>p. fst p \<noteq> k) (live s)" for k s
    using assms by (simp add: guard_laws_def)
  then show ?thesis
    by (cases v) (auto simp: vtriple_def drop_guard_def taken_def view_def filter_unused)
qed

lemma ends_restore:
  assumes "guard_laws lib live ground" and "balanced_php lib live" and "ed \<notin> fst ` set (fst (snd v))"
  shows "vtriple live (opened ed v) (span_ended lib ed) (\<lambda>_ u. u = v)"
    "vtriple live (opened ed v) (command_ended lib ed) (\<lambda>_ u. u = v)"
    "vtriple live (opened ed v) (psr18_post lib ed) (\<lambda>_ u. u = v)"
    "vtriple live (opened ed v) (laminas_run_post lib ed) (\<lambda>_ u. u = v)"
    "vtriple live (opened ed v) (laminas_prepare_post lib ed) (\<lambda>_ u. u = v)"
    "vtriple live (opened ed v) (laminas_execute_post lib ed) (\<lambda>_ u. u = v)"
    "vtriple live (opened ed v) (zf1_prepare_post lib ed) (\<lambda>_ u. u = v)"
  unfolding span_ended_def command_ended_def psr18_post_def laminas_run_post_def laminas_prepare_post_def
    laminas_execute_post_def zf1_prepare_post_def frame_defs
  by (rule vtriple_bind [OF take_opened [OF assms(3)]],
      intro vtriple_silent_bind drop_taken [OF assms(1)] silent_rules silent_texts [OF assms(2)]
        silent_frameworks [OF assms(2)] silent_databases [OF assms(2)] silent_php [OF assms(2)] vtriple_prod)+

lemma starts_open:
  assumes "guard_laws lib live ground" and "balanced_php lib live" and "ed \<notin> fst ` set (fst (snd v))"
  shows "vtriple live (\<lambda>u. u = v) (command_started lib t n ed) (\<lambda>_. opened ed v)"
    "vtriple live (\<lambda>u. u = v) (psr18_pre lib ed) (\<lambda>_. opened ed v)"
    "vtriple live (\<lambda>u. u = v) (laminas_run_pre lib ed) (\<lambda>_. opened ed v)"
    "vtriple live (\<lambda>u. u = v) (laminas_connect_pre lib ed) (\<lambda>_. opened ed v)"
    "vtriple live (\<lambda>u. u = v) (laminas_prepare_pre lib ed) (\<lambda>_. opened ed v)"
    "vtriple live (\<lambda>u. u = v) (laminas_execute_pre lib ed) (\<lambda>_. opened ed v)"
    "vtriple live (\<lambda>u. u = v) (laminas_connection_execute_pre lib ed) (\<lambda>_. opened ed v)"
    "vtriple live (\<lambda>u. u = v) (zf1_prepare_pre lib ed) (\<lambda>_. opened ed v)"
    "vtriple live (\<lambda>u. u = v) (zf1_execute_pre lib ed) (\<lambda>_. opened ed v)"
    "vtriple live (\<lambda>u. u = v) (zf1_connect_span lib ed h cl) (\<lambda>_. opened ed v)"
proof -
  note start = start_opens [OF assms(1,3)]
  note silents = silent_rules silent_texts [OF assms(2)] silent_frameworks [OF assms(2)] silent_headers [OF assms(2)]
    silent_databases [OF assms(2)] silent_php [OF assms(2)]
  show "vtriple live (\<lambda>u. u = v) (command_started lib t n ed) (\<lambda>_. opened ed v)"
    unfolding command_started_def by (intro vtriple_silent_bind start silents)
  show "vtriple live (\<lambda>u. u = v) (psr18_pre lib ed) (\<lambda>_. opened ed v)"
    unfolding psr18_pre_def frame_defs
    by (intro vtriple_silent_bind [OF silent_reads] vtriple_silent_bind [OF silent_frameworks(2) [OF assms(2)]] vtriple_prod;
        rule vtriple_bind_silent [OF start]; intro silents)
  show "vtriple live (\<lambda>u. u = v) (laminas_run_pre lib ed) (\<lambda>_. opened ed v)"
    unfolding laminas_run_pre_def by (intro vtriple_silent_bind start silents)
  show "vtriple live (\<lambda>u. u = v) (laminas_connect_pre lib ed) (\<lambda>_. opened ed v)"
    unfolding laminas_connect_pre_def frame_defs by (rule vtriple_bind_silent [OF start], intro silents)
  show "vtriple live (\<lambda>u. u = v) (laminas_prepare_pre lib ed) (\<lambda>_. opened ed v)"
    "vtriple live (\<lambda>u. u = v) (laminas_execute_pre lib ed) (\<lambda>_. opened ed v)"
    unfolding laminas_prepare_pre_def laminas_execute_pre_def by (rule start)+
  show "vtriple live (\<lambda>u. u = v) (laminas_connection_execute_pre lib ed) (\<lambda>_. opened ed v)"
    "vtriple live (\<lambda>u. u = v) (zf1_prepare_pre lib ed) (\<lambda>_. opened ed v)"
    unfolding laminas_connection_execute_pre_def zf1_prepare_pre_def frame_defs
    by (intro vtriple_silent_bind start silents)+
  show "vtriple live (\<lambda>u. u = v) (zf1_execute_pre lib ed) (\<lambda>_. opened ed v)"
    unfolding zf1_execute_pre_def frame_defs
    by (intro vtriple_silent_bind [OF silent_reads]; rule vtriple_bind_silent [OF start]; intro silents)
  show "vtriple live (\<lambda>u. u = v) (zf1_connect_span lib ed h cl) (\<lambda>_. opened ed v)"
    unfolding zf1_connect_span_def Let_def frame_defs
    by (intro vtriple_silent_bind [OF silent_php(2) [OF assms(2)]]; rule vtriple_bind_silent [OF start]; intro silents)
qed

lemma flag_unused:
  assumes "unused ed v"
  shows "map_of (snd (snd v)) ed = None" "AList.delete ed (snd (snd v)) = snd (snd v)"
    "AList.delete ed (AList.update ed b (snd (snd v))) = snd (snd v)"
  using assms by (auto simp: unused_def map_of_eq_None_iff delete_idem delete_unused)

lemma opened_flags: "opened ed v u \<Longrightarrow> snd (snd u) = snd (snd v)"
  by (auto simp: opened_def)

lemma flagged_cases:
  assumes "flagged ed v u"
  obtains (fresh) "u = v"
  | (off) "u = (fst v, fst (snd v), AList.update ed False (snd (snd v)))"
  | (on) u' where "opened ed v u'" "snd (snd u') = snd (snd v)" "u = (fst u', fst (snd u'), AList.update ed True (snd (snd v)))"
  using assms opened_flags unfolding flagged_def by blast

lemma opened_flagged:
  assumes "opened ed (fst v, fst (snd v), AList.update ed True (snd (snd v))) u"
  shows "flagged ed v u"
proof -
  have "opened ed v v" by (simp add: opened_def)
  moreover have "opened ed v ((g, c) # fst v, AList.update ed g (fst (snd v)), snd (snd v))"
    if "g \<notin> fst ` set (fst v)" for g c
    using that by (auto simp: opened_def)
  ultimately show ?thesis using assms unfolding flagged_def opened_def [of ed "(_, _)"] by fastforce
qed

lemma take_flagged:
  fixes v :: "('c, 'g) view"
  assumes "unused ed v"
  shows "vtriple live (flagged ed v) (take_flag ed :: ('c, 'sc, 'f, 'g, 's, bool) act) (\<lambda>b u. if b then opened ed v u else u = v)"
  unfolding vtriple_def
proof (intro allI impI)
  fix w :: "('c, 'sc, 'f, 'g, 's) auto_world" assume "flagged ed v (view live w)"
  note run = take_flag_def reads_def get_exec_data_flag_def remove_exec_data_flag_def update_conv' flag_unused [OF assms]
  from \<open>flagged ed v (view live w)\<close>
  show "if fst (run_state (take_flag ed) w) then opened ed v (view live (snd (run_state (take_flag ed) w)))
    else view live (snd (run_state (take_flag ed) w)) = v"
  proof (cases rule: flagged_cases)
    case fresh
    then have "aw_flags w = snd (snd v)" by (auto simp: view_def)
    with fresh show ?thesis by (simp add: run) (simp add: view_def)
  next
    case off
    then have "aw_flags w = AList.update ed False (snd (snd v))" by (auto simp: view_def)
    then have "map_of (aw_flags w) ed = Some False" "AList.delete ed (aw_flags w) = snd (snd v)"
      by (simp_all add: update_conv' flag_unused [OF assms])
    moreover have "live (aw_attached w) = fst v" "aw_guards w = fst (snd v)" using off by (simp_all add: view_def)
    ultimately show ?thesis by (simp add: take_flag_def reads_def get_exec_data_flag_def remove_exec_data_flag_def view_def)
  next
    case (on u')
    then have "aw_flags w = AList.update ed True (snd (snd v))" by (auto simp: view_def)
    then have "map_of (aw_flags w) ed = Some True" "AList.delete ed (aw_flags w) = snd (snd v)"
      by (simp_all add: update_conv' flag_unused [OF assms])
    moreover have "u' = (live (aw_attached w), aw_guards w, snd (snd v))" using on by (cases u') (simp add: view_def)
    ultimately show ?thesis using on(1)
      by (simp add: take_flag_def reads_def get_exec_data_flag_def remove_exec_data_flag_def view_def)
  qed
qed

lemma symfony_command_restores:
  assumes "guard_laws lib live ground" and "balanced_php lib live" and "unused ed v"
  shows "vtriple live (\<lambda>u. u = v) (symfony_command_pre lib ed) (\<lambda>_. flagged ed v)"
    "vtriple live (flagged ed v) (symfony_command_post lib ed) (\<lambda>_ u. u = v)"
proof -
  let ?v1 = "(fst v, fst (snd v), AList.update ed True (snd (snd v)))"
  have free: "ed \<notin> fst ` set (fst (snd v))" "ed \<notin> fst ` set (fst (snd ?v1))" using assms(3) by (auto simp: unused_def)
  have flag: "vtriple live (\<lambda>u. u = v) (set_flag ed b) (\<lambda>_ u. u = (fst v, fst (snd v), AList.update ed b (snd (snd v))))" for b
    by (auto simp: vtriple_def set_flag_def set_exec_data_flag_def view_def)
  have "vtriple live (\<lambda>u. u = ?v1) (command_started lib t n ed) (\<lambda>_. flagged ed v)" for t n
    by (rule vtriple_weaken [OF starts_open(1) [OF assms(1,2) free(2)] opened_flagged])
  from vtriple_bind [OF flag this] have started: "vtriple live (\<lambda>u. u = v)
      (State_Monad.bind (set_flag ed True) (\<lambda>_. command_started lib t n ed)) (\<lambda>_. flagged ed v)" for t n .
  have "vtriple live (\<lambda>u. u = v) (set_flag ed False) (\<lambda>_. flagged ed v)"
    by (rule vtriple_weaken [OF flag]) (simp add: flagged_def)
  with started show "vtriple live (\<lambda>u. u = v) (symfony_command_pre lib ed) (\<lambda>_. flagged ed v)"
    unfolding symfony_command_pre_def
    by (intro vtriple_silent_bind [OF silent_frameworks(6) [OF assms(2)]] vtriple_if)
  note take = take_flagged [OF assms(3), of live]
  have "vtriple live (\<lambda>u. if b then opened ed v u else u = v)
      (if b then command_ended lib ed else State_Monad.return ()) (\<lambda>_ u. u = v)" for b
    using ends_restore(2) [OF assms(1,2) free(1)] by (auto simp: vtriple_def)
  from vtriple_bind [OF take this]
  show "vtriple live (flagged ed v) (symfony_command_post lib ed) (\<lambda>_ u. u = v)"
    by (simp add: symfony_command_post_def)
qed

lemma vtriple_pre: "vtriple live P m Q \<Longrightarrow> (\<And>u. P' u \<Longrightarrow> P u) \<Longrightarrow> vtriple live P' m Q"
  by (simp add: vtriple_def)

lemma set_flag_flagged:
  "vtriple live (opened ed v) (set_flag ed True) (\<lambda>_. flagged ed v)"
  "vtriple live (\<lambda>u. u = v) (set_flag ed False) (\<lambda>_. flagged ed v)"
proof -
  have "flagged ed v (a, b, AList.update ed True c)" if "opened ed v (a, b, c)" for a b c
    using that opened_flags [OF that] unfolding flagged_def by (intro disjI2 exI [of _ "(a, b, c)"]) simp
  then show "vtriple live (opened ed v) (set_flag ed True) (\<lambda>_. flagged ed v)"
    by (simp add: vtriple_def set_flag_def set_exec_data_flag_def view_def)
  show "vtriple live (\<lambda>u. u = v) (set_flag ed False) (\<lambda>_. flagged ed v)"
    by (auto simp: vtriple_def set_flag_def set_exec_data_flag_def view_def flagged_def)
qed

lemma zf1_connect_opens:
  assumes "guard_laws lib live ground" and "balanced_php lib live" and "unused ed v"
  shows "vtriple live (\<lambda>u. u = v) (zf1_connect_pre lib ed) (\<lambda>_. flagged ed v)"
proof -
  have free: "ed \<notin> fst ` set (fst (snd v))" using assms(3) by (simp add: unused_def)
  have flags: "vtriple live (\<lambda>u. u = v)
      (State_Monad.bind (if b then zf1_connect_span lib ed h c else State_Monad.return ()) (\<lambda>_. set_flag ed b))
      (\<lambda>_. flagged ed v)" for b h c
  proof (cases b)
    case True
    with vtriple_bind [OF starts_open(10) [OF assms(1,2) free] set_flag_flagged(1)] show ?thesis by simp
  next
    case False
    with set_flag_flagged(2) show ?thesis by simp
  qed
  have none: "vtriple live (\<lambda>u. u = v) (State_Monad.return ()) (\<lambda>_. flagged ed v)"
    by (rule vtriple_silent [OF silent_return]) (simp add: flagged_def)
  show ?thesis
    unfolding zf1_connect_pre_def Let_def frame_defs
    by (intro vtriple_silent_bind [OF silent_reads] vtriple_silent_bind [OF silent_php(2) [OF assms(2)]]
        vtriple_option none flags)
qed

text \<open>After the hook took the guard its own flag is still there.\<close>

definition taken_flagged :: "nat \<Rightarrow> ('c, 'g) view \<Rightarrow> 'g option \<Rightarrow> ('c, 'g) view \<Rightarrow> bool" where
  "taken_flagged ed v g u \<longleftrightarrow>
     taken v g (fst u, fst (snd u), snd (snd v)) \<and> AList.delete ed (snd (snd u)) = snd (snd v)"

lemma zf1_connect_closes:
  fixes lib :: "('c, 'sc, 'f, 'g, 's, 'u) auto_lib"
  assumes "guard_laws lib live ground" and "balanced_php lib live" and "unused ed v"
  shows "vtriple live (flagged ed v) (zf1_connect_post lib ed) (\<lambda>_ u. u = v)"
proof -
  have free: "ed \<notin> fst ` set (fst (snd v))" using assms(3) by (simp add: unused_def)
  have flag: "vtriple live (flagged ed v) (reads (\<lambda>w. get_exec_data_flag ed (aw_flags w) = Some True))
      (\<lambda>b u. flagged ed v u \<and> b = (map_of (snd (snd u)) ed = Some True))"
    by (simp add: vtriple_def reads_def get_exec_data_flag_def view_def)
  have guard: "vtriple live (\<lambda>u. flagged ed v u \<and> b = (map_of (snd (snd u)) ed = Some True))
      (if b then take_guard ed else State_Monad.return None :: ('c, 'sc, 'f, 'g, 's, 'g option) act)
      (taken_flagged ed v)" for b
    unfolding vtriple_def
  proof (intro allI impI, elim conjE)
    fix w :: "('c, 'sc, 'f, 'g, 's) auto_world"
    assume w: "flagged ed v (view live w)" "b = (map_of (snd (snd (view live w))) ed = Some True)"
    show "taken_flagged ed v (fst (run_state (if b then take_guard ed else State_Monad.return None) w))
      (view live (snd (run_state (if b then take_guard ed else State_Monad.return None) w)))"
      using w(1)
    proof (cases rule: flagged_cases)
      case (on u')
      with w(2) have b: b by (simp add: update_conv')
      let ?w = "w\<lparr>aw_flags := snd (snd v)\<rparr>"
      have "view live ?w = u'" using on by (cases u') (simp add: view_def)
      with on(1) take_opened [OF free, of live, unfolded vtriple_def, rule_format, of ?w]
      have "taken v (map_of (aw_guards w) ed) (live (aw_attached w), AList.delete ed (aw_guards w), snd (snd v))"
        by (simp add: take_guard_def reads_def view_def)
      moreover have "AList.delete ed (aw_flags w) = snd (snd v)"
        using on(3) flag_unused(3) [OF assms(3)] by (simp add: view_def)
      ultimately show ?thesis using b by (simp add: take_guard_def reads_def taken_flagged_def view_def)
    qed (use w(2) flag_unused [OF assms(3)] in \<open>simp_all add: taken_flagged_def taken_def update_conv'\<close>)
  qed
  have unflag: "vtriple live (taken_flagged ed v g)
      (State_Monad.update (\<lambda>w. w\<lparr>aw_flags := remove_exec_data_flag ed (aw_flags w)\<rparr>)) (\<lambda>_. taken v g)" for g
    by (simp add: vtriple_def taken_flagged_def remove_exec_data_flag_def view_def)
  show ?thesis unfolding zf1_connect_post_def
    by (rule vtriple_bind [OF flag], rule vtriple_bind [OF guard],
        rule vtriple_silent_bind [OF silent_texts(7) [OF assms(2)]],
        rule vtriple_bind [OF unflag drop_taken [OF assms(1)]])
qed

section \<open>Every handler restores\<close>

definition optional_hook :: "'w hook option \<Rightarrow> nat \<Rightarrow> 'w \<Rightarrow> 'w" where
  "optional_hook h ed w = (case h of Some f \<Rightarrow> snd (f ed w) | None \<Rightarrow> w)"

definition view_keys :: "('c, 'g) view \<Rightarrow> nat set" where
  "view_keys u = fst ` set (fst (snd u)) \<union> fst ` set (snd (snd u))"

definition handler_restores :: "('s \<Rightarrow> ('g \<times> 'c) list) \<Rightarrow> ('c, 'sc, 'f, 'g, 's) auto_world handler \<Rightarrow> bool" where
  "handler_restores live h \<longleftrightarrow> (\<forall>ed v. unused ed v \<longrightarrow>
     (\<exists>M. (\<forall>u. M u \<longrightarrow> view_keys u \<subseteq> insert ed (view_keys v))
       \<and> (\<forall>w. view live w = v \<longrightarrow> M (view live (optional_hook (pre_observe h) ed w)))
       \<and> (\<forall>w. M (view live w) \<longrightarrow> view live (optional_hook (post_observe h) ed w) = v)))"

lemma handler_restoresE:
  assumes "handler_restores live h" and "unused ed v"
  obtains M where "\<And>u. M u \<Longrightarrow> view_keys u \<subseteq> insert ed (view_keys v)"
    "\<And>w. view live w = v \<Longrightarrow> M (view live (optional_hook (pre_observe h) ed w))"
    "\<And>w. M (view live w) \<Longrightarrow> view live (optional_hook (post_observe h) ed w) = v"
proof -
  from assms(1) [unfolded handler_restores_def, THEN spec, THEN spec, THEN mp, OF assms(2)] obtain M where
    "(\<forall>u. M u \<longrightarrow> view_keys u \<subseteq> insert ed (view_keys v))
      \<and> (\<forall>w. view live w = v \<longrightarrow> M (view live (optional_hook (pre_observe h) ed w)))
      \<and> (\<forall>w. M (view live w) \<longrightarrow> view live (optional_hook (post_observe h) ed w) = v)" ..
  then show thesis by (intro that [of M]) (simp_all del: split_paired_All)
qed

lemma pair_restores:
  assumes "\<And>ed v. unused ed v \<Longrightarrow> vtriple live (\<lambda>u. u = v) (f ed) (\<lambda>_. M ed v)"
    and "\<And>ed v. unused ed v \<Longrightarrow> vtriple live (M ed v) (g ed) (\<lambda>_ u. u = v)"
    and "\<And>ed v u. M ed v u \<Longrightarrow> view_keys u \<subseteq> insert ed (view_keys v)"
  shows "handler_restores live \<lparr>handler_targets = ts, pre_observe = Some (hook_of f), post_observe = Some (hook_of g)\<rparr>"
proof -
  have "\<exists>N. (\<forall>u. N u \<longrightarrow> view_keys u \<subseteq> insert ed (view_keys v))
      \<and> (\<forall>w. view live w = v \<longrightarrow> N (view live (snd (run_state (f ed) w))))
      \<and> (\<forall>w. N (view live w) \<longrightarrow> view live (snd (run_state (g ed) w)) = v)" if "unused ed v" for ed v
    using assms(1,2) [OF that] assms(3) by (intro exI [of _ "M ed v"]) (simp add: vtriple_def)
  then show ?thesis by (simp add: handler_restores_def optional_hook_def hook_of_def)
qed

lemma silent_restores:
  assumes "case pre of Some f \<Rightarrow> (\<forall>ed. silent live (f ed)) | None \<Rightarrow> True"
    and "case post of Some f \<Rightarrow> (\<forall>ed. silent live (f ed)) | None \<Rightarrow> True"
  shows "handler_restores live
    \<lparr>handler_targets = ts, pre_observe = map_option hook_of pre, post_observe = map_option hook_of post\<rparr>"
proof -
  have "view live (optional_hook (map_option hook_of p) ed w) = view live w"
    if "case p of Some f \<Rightarrow> (\<forall>ed. silent live (f ed)) | None \<Rightarrow> True" for p ed w
    using that by (cases p) (simp_all add: optional_hook_def hook_of_def silent_def)
  from this [OF assms(1)] this [OF assms(2)] show ?thesis
    unfolding handler_restores_def by (auto intro!: exI [where x = "\<lambda>u. u = v" for v])
qed

lemma update_keys: "fst ` set (AList.update k x l) = insert k (fst ` set l)"
  using dom_update [of k x l] by (simp add: dom_map_of_conv_image_fst)

lemma opened_keys: "opened ed v u \<Longrightarrow> view_keys u \<subseteq> insert ed (view_keys v)"
  unfolding opened_def view_keys_def
  by (elim disjE exE conjE) (simp_all only: update_keys fst_conv snd_conv, blast+)

lemma flagged_keys: "flagged ed v u \<Longrightarrow> view_keys u \<subseteq> insert ed (view_keys v)"
proof (erule flagged_cases)
  fix u' assume "opened ed v u'" "snd (snd u') = snd (snd v)" "u = (fst u', fst (snd u'), AList.update ed True (snd (snd v)))"
  with opened_keys [of ed v u'] show ?thesis unfolding view_keys_def by (simp only: update_keys fst_conv snd_conv) blast
qed (simp_all only: view_keys_def update_keys fst_conv snd_conv, blast+)

lemma span_handler_restores:
  assumes "\<And>ed v. ed \<notin> fst ` set (fst (snd v)) \<Longrightarrow> vtriple live (\<lambda>u. u = v) (f ed) (\<lambda>_. opened ed v)"
    and "\<And>ed v. ed \<notin> fst ` set (fst (snd v)) \<Longrightarrow> vtriple live (opened ed v) (g ed) (\<lambda>_ u. u = v)"
  shows "handler_restores live \<lparr>handler_targets = ts, pre_observe = Some (hook_of f), post_observe = Some (hook_of g)\<rparr>"
  by (rule pair_restores [where M = opened]) (simp_all add: assms unused_def opened_keys)

lemma framework_handlers_restore:
  assumes "guard_laws lib live ground" and "balanced_php lib live"
    and "h \<in> set (plugin_handlers (laravel_plugin lib)) \<union> set (plugin_handlers (psr18_plugin lib))
      \<union> set (plugin_handlers (symfony_plugin lib))"
  shows "handler_restores live h"
proof -
  note ends = ends_restore [OF assms(1,2)] and starts = starts_open [OF assms(1,2)]
  have "handler_restores live h" if "h \<in> set (plugin_handlers (laravel_plugin lib))"
    using that silent_restores [where pre = "Some (\<lambda>ed. set_framework_name lib ''laravel'')" and post = "Some (laravel_http_post lib)"]
      silent_texts(8) [OF assms(2)] silent_frameworks(5) [OF assms(2)]
    by (auto simp: laravel_plugin_def framework_handler_defs laravel_command_pre_def [abs_def] intro: span_handler_restores starts ends)
  moreover have "handler_restores live h" if "h \<in> set (plugin_handlers (psr18_plugin lib))"
    using that by (auto simp: psr18_plugin_def framework_handler_defs intro: span_handler_restores starts ends)
  moreover have "handler_restores live h" if "h \<in> set (plugin_handlers (symfony_plugin lib))"
    using that silent_restores [where pre = None and post = "Some (symfony_http_post lib)"] silent_frameworks(8) [OF assms(2)]
    by (auto simp: symfony_plugin_def framework_handler_defs simp del: split_paired_All
        intro: pair_restores [where M = flagged, OF symfony_command_restores [OF assms(1,2)] flagged_keys])
  ultimately show ?thesis using assms(3) by blast
qed

lemma database_handlers_restore:
  assumes "guard_laws lib live ground" and "balanced_php lib live"
    and "h \<in> set (plugin_handlers (laminas_plugin lib)) \<union> set (plugin_handlers (zf1_plugin lib))"
  shows "handler_restores live h"
proof -
  note ends = ends_restore [OF assms(1,2)] and starts = starts_open [OF assms(1,2)]
  have "handler_restores live h" if "h \<in> set (plugin_handlers (laminas_plugin lib))"
    using that silent_restores [where pre = "Some (laminas_complete_pre lib)" and post = None]
      silent_restores [where pre = "Some (laminas_route_pre lib)" and post = None] silent_databases(2,3) [OF assms(2)]
    by (auto simp: laminas_plugin_def database_handler_defs intro: span_handler_restores starts ends)
  moreover have "handler_restores live h" if "h \<in> set (plugin_handlers (zf1_plugin lib))"
    using that silent_restores [where pre = None and post = "Some (zf1_route_post lib)"]
      silent_restores [where pre = None and post = "Some (zf1_send_response_post lib)"] silent_databases(6,8) [OF assms(2)]
    by (auto simp: zf1_plugin_def database_handler_defs intro: span_handler_restores starts ends
        pair_restores [where M = flagged, OF zf1_connect_opens [OF assms(1,2)] zf1_connect_closes [OF assms(1,2)] flagged_keys])
  ultimately show ?thesis using assms(3) by blast
qed

lemma builtin_restores:
  assumes "guard_laws lib live ground" and "balanced_php lib live"
    and "h \<in> set (all_handlers (builtin_manager lib ini))"
  shows "handler_restores live h"
  using builtin_handlers [OF assms(3)] framework_handlers_restore [OF assms(1,2)] database_handlers_restore [OF assms(1,2)]
  by blast

section \<open>Calls of traced functions\<close>

lemma run_optional:
  "auto_world (contained sink (run_hooks (case h of Some f \<Rightarrow> [f] | None \<Rightarrow> []) ed) s) = optional_hook h ed (auto_world s)"
  by (cases h) (auto simp: contained_def optional_hook_def split: prod.split outcome.split)

lemma contained_auto_cache: "cache_current io plugins F (contained sink h s) = cache_current io plugins F s"
  by (simp add: cache_current_def)

lemma world_auto_cache: "cache_current io plugins F (s\<lparr>auto_world := w\<rparr>) = cache_current io plugins F s"
  by (simp add: cache_current_def)

lemma lookup_world: "auto_world (snd (get_function_observer io plugins f s)) = auto_world s"
  by (simp add: get_function_observer_def Let_def split: option.split)

definition calls_restore ::
  "('s \<Rightarrow> ('g \<times> 'c) list) \<Rightarrow> (('c, 'sc, 'f, 'g, 's) auto_world auto_state \<Rightarrow> bool) \<Rightarrow> nat set \<Rightarrow>
     (('c, 'sc, 'f, 'g, 's) auto_world auto_state \<Rightarrow> ('c, 'sc, 'f, 'g, 's) auto_world auto_state) \<Rightarrow> bool" where
  "calls_restore live J A run \<longleftrightarrow>
     (\<forall>s. J s \<and> view_keys (view live (auto_world s)) \<subseteq> A \<longrightarrow>
        J (run s) \<and> view live (auto_world (run s)) = view live (auto_world s))"

lemma calls_restoreD:
  assumes "calls_restore live J A run" and "J s" and "view_keys (view live (auto_world s)) \<subseteq> A"
  shows "J (run s)" "view live (auto_world (run s)) = view live (auto_world s)"
  using assms by (auto simp: calls_restore_def)

lemma fold_restores:
  "(\<And>g. g \<in> set gs \<Longrightarrow> calls_restore live J A g) \<Longrightarrow> calls_restore live J A (fold (\<lambda>run. run) gs)"
proof (induction gs)
  case (Cons g gs)
  then have g: "calls_restore live J A g" and gs: "calls_restore live J A (fold (\<lambda>run. run) gs)" by auto
  show ?case unfolding calls_restore_def
  proof (intro allI impI, elim conjE)
    fix s assume s: "J s" "view_keys (view live (auto_world s)) \<subseteq> A"
    note 1 = calls_restoreD [OF g s]
    with calls_restoreD [OF gs 1(1)] s(2)
    show "J (fold (\<lambda>run. run) (g # gs) s)
      \<and> view live (auto_world (fold (\<lambda>run. run) (g # gs) s)) = view live (auto_world s)" by simp
  qed
qed (simp add: calls_restore_def)

text \<open>One call: what \<open>upstream\<close> does between the hooks restores what it finds.\<close>

lemma call_restores:
  assumes keeps: "\<And>e. keeps_observers (upstream e)"
    and inner: "calls_restore live (cache_current io plugins F) (insert ed A) (upstream (Some ed))"
    and same: "\<And>g h. g \<in> F \<Longrightarrow> h \<in> F \<Longrightarrow> get_fqn g = get_fqn h \<Longrightarrow> matching io plugins g = matching io plugins h"
    and f: "f \<in> F" "length (matching io plugins f) \<le> 1" and ed: "ed \<notin> A"
    and all: "\<And>h. h \<in> set (all_handlers plugins) \<Longrightarrow> handler_restores live h"
  shows "calls_restore live (cache_current io plugins F) A (execute_ex sink io (Some plugins) upstream (Some (ed, f)))"
  unfolding calls_restore_def
proof (intro allI impI, elim conjE)
  fix s assume s: "cache_current io plugins F s" "view_keys (view live (auto_world s)) \<subseteq> A"
  let ?J = "cache_current io plugins F" and ?v = "view live (auto_world s)"
  obtain r s1 where look: "get_function_observer io plugins f s = (r, s1)" by (cases "get_function_observer io plugins f s")
  have builds: "build_observer io plugins g = build_observer io plugins h"
    if "g \<in> F" "h \<in> F" "get_fqn g = get_fqn h" for g h
    using same [OF that] by (simp add: build_observer_matching)
  have current: "fst (get_function_observer io plugins f s) = fresh_answer io plugins f
      \<and> ?J (snd (get_function_observer io plugins f s))"
    by (rule lookup_current [OF s(1) f(1)]) (rule builds)
  have 1: "r = fresh_answer io plugins f" "?J s1" "auto_world s1 = auto_world s"
    using current look lookup_world [of io plugins f s] by simp_all
  note run = execute_ex_run [OF keeps look, where sink = sink and ed = ed]
  have unused: "unused ed ?v" using s(2) ed by (auto simp: unused_def view_keys_def)
  let ?run = "execute_ex sink io (Some plugins) upstream (Some (ed, f))"
  have sub: "X \<subseteq> A \<Longrightarrow> X \<subseteq> insert ed A" for X by auto
  show "?J (?run s) \<and> view live (auto_world (?run s)) = ?v"
  proof (cases r)
    case None
    with get_function_observer_None look have "s1 = s" by blast
    with run None calls_restoreD [OF inner s(1)] s(2) show ?thesis by auto
  next
    case (Some ob)
    with 1(1) have ob: "ob = build_observer io plugins f" "has_hooks ob"
      by (auto simp: fresh_answer_def Let_def split: if_splits)
    then have "matching io plugins f \<noteq> []" by (auto simp: build_observer_matching has_hooks_def map_filter_simps)
    with f(2) obtain h where h: "matching io plugins f = [h]" by (cases "matching io plugins f") auto
    then have "h \<in> set (matching io plugins f)" by simp
    then have "h \<in> set (all_handlers plugins)" by (simp add: matching_def)
    from all [OF this] unused obtain M
      where keys: "\<And>u. M u \<Longrightarrow> view_keys u \<subseteq> insert ed (view_keys ?v)"
        and pre: "\<And>w. view live w = ?v \<Longrightarrow> M (view live (optional_hook (pre_observe h) ed w))"
        and post: "\<And>w. M (view live w) \<Longrightarrow> view live (optional_hook (post_observe h) ed w) = ?v"
      by (rule handler_restoresE) (rule that)
    have "List.map_filter g [h] = (case g h of Some x \<Rightarrow> [x] | None \<Rightarrow> [])" for g :: "_ \<Rightarrow> (_ hook) option"
      by (simp add: map_filter_simps split: option.split)
    then have hooks: "pre_hooks ob = (case pre_observe h of Some g \<Rightarrow> [g] | None \<Rightarrow> [])"
      "post_hooks ob = (case post_observe h of Some g \<Rightarrow> [g] | None \<Rightarrow> [])"
      by (simp_all add: ob(1) build_observer_matching h)
    let ?s2 = "contained sink (run_hooks (pre_hooks ob) ed) s1"
    have "M (view live (auto_world ?s2))" using pre 1(3) by (simp add: hooks run_optional)
    moreover have "?J ?s2" using 1(2) by (simp add: contained_auto_cache)
    moreover have "view_keys (view live (auto_world ?s2)) \<subseteq> insert ed A"
      using keys [OF calculation(1)] s(2) by blast
    ultimately have 3: "?J (upstream (Some ed) ?s2)" "M (view live (auto_world (upstream (Some ed) ?s2)))"
      using calls_restoreD [OF inner] by auto
    with run Some post show ?thesis by (simp add: hooks run_optional contained_auto_cache)
  qed
qed

lemma tree_restores:
  assumes "guard_laws lib live ground" and "balanced_php lib live" and "\<And>ed w. view live (body ed w) = view live w"
    and "\<And>g h. g \<in> F \<Longrightarrow> h \<in> F \<Longrightarrow> get_fqn g = get_fqn h \<Longrightarrow>
      matching io (builtin_manager lib ini) g = matching io (builtin_manager lib ini) h"
    and "\<And>f. f \<in> F \<Longrightarrow> length (matching io (builtin_manager lib ini) f) \<le> 1"
    and "called_functions t \<subseteq> F" and "fresh_calls t A"
  shows "calls_restore live (cache_current io (builtin_manager lib ini) F) A
    (run_calls sink io (builtin_manager lib ini) body t)"
  using assms(6,7)
proof (induction t arbitrary: A)
  case (Call ed f calls)
  let ?pl = "builtin_manager lib ini"
  let ?run = "run_calls sink io ?pl body" and ?J = "cache_current io ?pl F"
  have "calls_restore live ?J (insert ed A) (fold (\<lambda>run. run) (map ?run calls))"
  proof (rule fold_restores)
    fix g assume "g \<in> set (map ?run calls)"
    then obtain t where t: "t \<in> set calls" "g = ?run t" by auto
    with Call.prems have "called_functions t \<subseteq> F" "fresh_calls t (insert ed A)"
      by (auto simp: list_all_iff)
    with Call.IH t show "calls_restore live ?J (insert ed A) g" by blast
  qed
  then have inner: "calls_restore live ?J (insert ed A) ((\<lambda>_ s. fold (\<lambda>run. run) (map ?run calls) (s\<lparr>auto_world := body ed (auto_world s)\<rparr>)) (Some ed))"
    using assms(3) by (simp add: calls_restore_def world_auto_cache)
  have keeps: "keeps_observers ((\<lambda>_ s. fold (\<lambda>run. run) (map ?run calls) (s\<lparr>auto_world := body ed (auto_world s)\<rparr>)) e)"
    for e :: "nat option"
  proof -
    have "keeps_observers (fold (\<lambda>run. run) (map ?run calls))" by (rule fold_keeps) (auto intro: run_calls_keeps)
    then show ?thesis by (simp add: keeps_observers_def)
  qed
  have f: "f \<in> F" "ed \<notin> A" using Call.prems by auto
  show ?case unfolding run_calls.simps
    by (rule call_restores [OF keeps inner assms(4) f(1) assms(5) [OF f(1)] f(2) builtin_restores [OF assms(1,2)]])
qed

section \<open>Properties\<close>

text \<open>
  C30. Tracing is transparent to context propagation. However traced functions call each other, after a
  call the context that is current, the contexts attached, the guards stored for hooks and the flags of
  calls are as before it: each span that a hook made current is taken back by the hook after the same
  call. PHP code in between and called by hooks restores the context it found, at most one handler of the
  plugins matches each function, and calls that run at the same time have different addresses.
\<close>

theorem tracing_restores_context:
  assumes "guard_laws lib live ground" and "balanced_php lib live" and "\<forall>ed w. view live (body ed w) = view live w"
    and "\<forall>g\<in>called_functions t. \<forall>h\<in>called_functions t. get_fqn g = get_fqn h \<longrightarrow>
      matching instance_of (builtin_manager lib ini) g = matching instance_of (builtin_manager lib ini) h"
    and "\<forall>f\<in>called_functions t. length (matching instance_of (builtin_manager lib ini) f) \<le> 1"
    and "observer_cache s = []"
    and "fresh_calls t (fst ` set (aw_guards (auto_world s)) \<union> fst ` set (aw_flags (auto_world s)))"
  shows "let w = auto_world s; w' = auto_world (run_calls sink instance_of (builtin_manager lib ini) body t s)
    in al_current lib (aw_attached w') = al_current lib (aw_attached w) \<and> live (aw_attached w') = live (aw_attached w)
      \<and> aw_guards w' = aw_guards w \<and> aw_flags w' = aw_flags w"
proof -
  let ?F = "called_functions t" and ?A = "view_keys (view live (auto_world s))"
  have same: "matching instance_of (builtin_manager lib ini) g = matching instance_of (builtin_manager lib ini) h"
    if "g \<in> ?F" "h \<in> ?F" "get_fqn g = get_fqn h" for g h
    using assms(4) that by blast
  have "fresh_calls t ?A" using assms(7) by (simp add: view_keys_def view_def)
  then have "calls_restore live (cache_current instance_of (builtin_manager lib ini) ?F) ?A
      (run_calls sink instance_of (builtin_manager lib ini) body t)"
    by (intro tree_restores [where F = ?F, OF assms(1,2)]) (use assms(3,5) same in \<open>blast+\<close>)
  moreover have "cache_current instance_of (builtin_manager lib ini) ?F s" by (simp add: cache_current_def assms(6))
  ultimately have "view live (auto_world (run_calls sink instance_of (builtin_manager lib ini) body t s)) = view live (auto_world s)"
    by (rule calls_restoreD) simp
  moreover have "al_current lib s' = (case live s' of [] \<Rightarrow> ground | (_, c) # _ \<Rightarrow> c)" for s'
    using assms(1) by (simp add: guard_laws_def)
  ultimately show ?thesis by (simp add: view_def Let_def)
qed

text \<open>An SDK whose contexts are the numbers of their spans, and a command that sends a request.\<close>

definition list_guard :: "(nat \<times> nat) list \<Rightarrow> nat" where
  "list_guard s = Suc (sum_list (map fst s))"

definition example_auto_lib :: "(nat, nat, unit, nat, (nat \<times> nat) list, string) auto_lib" where
  "example_auto_lib =
     \<lparr>al_api = \<lparr>base_api = plain_api, ctx_span = (\<lambda>c. c), span_identity = (\<lambda>i. i), ctx_with_remote = (\<lambda>sc c. c), ctx_with_noop = (\<lambda>c. c)\<rparr>,
      al_with_span = (\<lambda>n c. n), al_attach = (\<lambda>c s. (list_guard s, (list_guard s, c) # s)),
      al_drop = (\<lambda>g. filter (\<lambda>p. fst p \<noteq> g)), al_current = (\<lambda>s. case s of [] \<Rightarrow> 0 | (_, c) # _ \<Rightarrow> c),
      al_inject = (\<lambda>c. [(''traceparent'', ''00'')]), al_record_error = (\<lambda>t. CallAddEvent ''exception'' None []),
      al_url = text_url_api, al_sql_name = (\<lambda>_. None), al_env = [], al_limits = attribute_limits_from_env [],
      al_request_method = None,
      al_throwable = (\<lambda>h. \<lparr>get_message = Ok (ZStr ''secret''), class_name = ''Exception'', get_trace_as_string = Ok ZNull\<rparr>),
      al_display = (\<lambda>h. ''secret''), al_instance = (\<lambda>h c. False), al_call = (\<lambda>h m args w. (None, w)), al_property = (\<lambda>h p w. (ZNull, w))\<rparr>"

definition example_instance :: "bytes \<Rightarrow> string \<Rightarrow> bool" where
  "example_instance c i \<longleftrightarrow>
     c = ''Sync'' \<and> i = class_path [''Illuminate'', ''Console'', ''Command'']
     \<or> c = ''Client'' \<and> i = class_path [''Psr'', ''Http'', ''Client'', ''ClientInterface'']"

definition example_command :: php_function where
  "example_command =
     \<lparr>fn_name = Some ''execute'', fn_class = Some ''Sync'', full_name = ''Sync::execute'', fn_file = None, fn_line = None\<rparr>"

definition example_client :: php_function where
  "example_client =
     \<lparr>fn_name = Some ''sendRequest'', fn_class = Some ''Client'', full_name = ''Client::sendRequest'', fn_file = None, fn_line = None\<rparr>"

definition example_frame :: "php_function \<Rightarrow> unit frame" where
  "example_frame f =
     \<lparr>fr_function = f, fr_this = Some 1, fr_args = [], fr_num_args = 0, fr_retval = ZNull, fr_exception = Some 9\<rparr>"

definition example_world :: "(nat, nat, unit, nat, (nat \<times> nat) list) auto_world" where
  "example_world =
     \<lparr>aw_attached = [], aw_guards = [], aw_flags = [],
      aw_frames = (\<lambda>ed. Some (example_frame (if ed = 1 then example_command else example_client))),
      aw_started = [], aw_calls = (\<lambda>_. []), aw_local_root = None,
      aw_capture = \<lparr>request_capture = Some False, invalid_value_warned = False\<rparr>,
      laminas_connections = [], laminas_statements = [], zf1_connections = [], zf1_statements = []\<rparr>"

definition example_calls :: call_tree where
  "example_calls = Call 1 example_command [Call 2 example_client []]"

definition example_start :: "(nat, nat, unit, nat, (nat \<times> nat) list) auto_world auto_state" where
  "example_start =
     \<lparr>auto_world = example_world, auto_panics = panic_init, observer_cache = [], function_observers = None\<rparr>"

lemma example_guard_laws: "guard_laws example_auto_lib (\<lambda>s. s) 0"
proof -
  have "list_guard s \<notin> fst ` set s" for s :: "(nat \<times> nat) list"
    using member_le_sum_list [of _ "map fst s"] by (fastforce simp: list_guard_def)
  then show ?thesis by (simp add: guard_laws_def example_auto_lib_def)
qed

lemma example_balanced: "balanced_php example_auto_lib (\<lambda>s. s)"
  by (simp add: balanced_php_def silent_def php_call_def php_property_def example_auto_lib_def)

lemma builtin_targets:
  "map handler_targets (all_handlers (builtin_manager lib None)) =
     [[(Some (class_path [''Illuminate'', ''Contracts'', ''Http'', ''Kernel'']), ''handle'')],
      [(Some (class_path [''Illuminate'', ''Console'', ''Command'']), ''execute'')],
      [(Some (class_path [''Laminas'', ''Mvc'', ''Application'']), ''run'')],
      [(Some (class_path [''Laminas'', ''Mvc'', ''Application'']), ''completeRequest'')],
      [(Some (class_path [''Laminas'', ''Mvc'', ''MvcEvent'']), ''setRouteMatch'')],
      [(Some (class_path [''Laminas'', ''Db'', ''Adapter'', ''Driver'', ''AbstractConnection'']), ''connect'')],
      [(Some (class_path [''Laminas'', ''Db'', ''Adapter'', ''Driver'', ''StatementInterface'']), ''prepare'')],
      [(Some (class_path [''Laminas'', ''Db'', ''Adapter'', ''Driver'', ''StatementInterface'']), ''execute'')],
      [(Some (class_path [''Laminas'', ''Db'', ''Adapter'', ''Driver'', ''ConnectionInterface'']), ''execute'')],
      [(Some (class_path [''Psr'', ''Http'', ''Client'', ''ClientInterface'']), ''sendRequest'')],
      [(Some (class_path [''Symfony'', ''Component'', ''HttpKernel'', ''HttpKernel'']), ''handle'')],
      [(Some (class_path [''Symfony'', ''Component'', ''Console'', ''Command'', ''Command'']), ''run'')],
      [(Some ''Zend_Controller_Router_Interface'', ''route'')],
      [(Some ''Zend_Controller_Response_Abstract'', ''sendResponse'')],
      [(Some ''Zend_Db_Adapter_Abstract'', ''_connect'')],
      [(Some ''Zend_Db_Adapter_Abstract'', ''prepare'')],
      [(Some ''Zend_Db_Statement_Interface'', ''execute'')]]"
proof -
  have "get_disabled_plugins None = {}" using set_trim [of "[]"] by (auto simp: get_disabled_plugins_def Let_def)
  then show ?thesis
    by (simp add: all_handlers_def builtin_manager_def manager_new_def Let_def builtin_plugin_def laravel_plugin_def
        laminas_plugin_def psr18_plugin_def symfony_plugin_def zf1_plugin_def framework_handler_defs database_handler_defs)
qed

lemma matching_targets:
  "length (matching io plugins f) = length (filter (should_trace io f) (map handler_targets (all_handlers plugins)))"
  by (simp add: matching_def filter_map comp_def)

lemma example_names:
  "to_str (full_name example_command) = Some ''Sync::execute''" "to_str (full_name example_client) = Some ''Client::sendRequest''"
  "get_fqn example_command = Some ''Sync::execute''" "get_fqn example_client = Some ''Client::sendRequest''"
  "method_of ''Sync::execute'' = (Some ''Sync'', ''execute'')" "method_of ''Client::sendRequest'' = (Some ''Client'', ''sendRequest'')"
  by (simp_all add: example_command_def example_client_def to_str_def byte_in_def get_fqn_def get_function_and_class_name_def
      method_of_def)

lemma example_traces:
  "should_trace example_instance example_command [(Some i, m)] \<longleftrightarrow>
     m = ''execute'' \<and> (i = ''Sync'' \<or> i = class_path [''Illuminate'', ''Console'', ''Command''])"
  "should_trace example_instance example_client [(Some i, m)] \<longleftrightarrow>
     m = ''sendRequest'' \<and> (i = ''Client'' \<or> i = class_path [''Psr'', ''Http'', ''Client'', ''ClientInterface''])"
  by (auto simp: should_trace_def example_names) (auto simp: example_command_def example_client_def example_instance_def)

lemma example_matching:
  "length (matching example_instance (builtin_manager example_auto_lib None) example_command) = 1"
  "length (matching example_instance (builtin_manager example_auto_lib None) example_client) = 1"
  unfolding matching_targets builtin_targets by (simp_all add: example_traces class_path_def)

lemma example_empty:
  "aw_attached (auto_world example_start) = []" "aw_guards (auto_world example_start) = []"
  "aw_flags (auto_world example_start) = []" "observer_cache example_start = []"
  by (simp_all add: example_start_def example_world_def)

theorem tracing_restores_context_witness:
  "let w = auto_world (run_calls (\<lambda>_. True) example_instance (builtin_manager example_auto_lib None) (\<lambda>_ w. w) example_calls
      example_start) in aw_attached w = [] \<and> aw_guards w = [] \<and> aw_flags w = []"
proof -
  have called: "called_functions example_calls = {example_command, example_client}" by (simp add: example_calls_def)
  have same: "\<forall>g\<in>called_functions example_calls. \<forall>h\<in>called_functions example_calls. get_fqn g = get_fqn h \<longrightarrow>
      matching example_instance (builtin_manager example_auto_lib None) g
        = matching example_instance (builtin_manager example_auto_lib None) h"
    unfolding called by (simp add: example_names)
  have single: "\<forall>f\<in>called_functions example_calls. length (matching example_instance (builtin_manager example_auto_lib None) f) \<le> 1"
    unfolding called by (simp add: example_matching)
  have fresh: "fresh_calls example_calls (fst ` set (aw_guards (auto_world example_start)) \<union> fst ` set (aw_flags (auto_world example_start)))"
    by (simp add: example_calls_def example_empty)
  have silent: "\<forall>ed w. view (\<lambda>s. s) ((\<lambda>_ w. w) ed w) = view (\<lambda>s. s) w" by simp
  note tracing_restores_context [OF example_guard_laws example_balanced silent same single example_empty(4) fresh, where sink = "\<lambda>_. True"]
  then show ?thesis unfolding Let_def example_empty by blast
qed

end
