(* ===== verification/Auto_Sensitive.thy ===== *)
theory Auto_Sensitive
  imports Auto_Plugins
begin

text \<open>
  With the capture of sensitive data off (\<open>config/sensitive_data.rs\<close>): which texts the hooks of the
  plugins may give to spans, as names, attributes, events and status descriptions. The text of a query,
  the message and trace of an exception and the full text of a URL are not among their sources.
\<close>

section \<open>Public texts\<close>

text \<open>
  A text is public when it consists of the characters fixed texts of the plugins are made of and of those
  in the set \<open>B\<close>. The set is arbitrary: what follows holds for each choice of it for which the sources
  below are public, so a character that only comes from other sources never gets into a public text.
\<close>

definition FIXED_CHARS :: string where
  "FIXED_CHARS = ''abcdefghijklmnopqrstuvwxyzABCDEFGHIJKLMNOPQRSTUVWXYZ0123456789 /._:''"

definition public :: "char set \<Rightarrow> string \<Rightarrow> bool" where
  "public B t \<longleftrightarrow> (\<forall>c\<in>set t. c \<in> set FIXED_CHARS \<or> c \<in> B)"

lemma public_simps [simp]:
  "public B []" "public B (c # t) \<longleftrightarrow> (c \<in> set FIXED_CHARS \<or> c \<in> B) \<and> public B t"
  "public B (s @ t) \<longleftrightarrow> public B s \<and> public B t" "public B (rev t) = public B t"
  by (auto simp: public_def)

definition maybe_public :: "char set \<Rightarrow> string option \<Rightarrow> bool" where
  "maybe_public B v \<longleftrightarrow> (\<forall>t. v = Some t \<longrightarrow> public B t)"

lemma maybe_public_simps [simp]: "maybe_public B None" "maybe_public B (Some t) = public B t"
  by (simp_all add: maybe_public_def)

abbreviation stripped :: "('c, 'sc, 'f, 'g, 's, 'u) auto_lib \<Rightarrow> string \<Rightarrow> string" where
  "stripped lib t \<equiv> sanitize_url_value (al_url lib) t False"

text \<open>The methods of PHP objects whose texts hooks give to spans.\<close>

definition PUBLIC_METHODS :: "string list" where
  "PUBLIC_METHODS =
     [''getName'', ''getScheme'', ''getPath'', ''getHost'', ''getMethod'', ''method'', ''uri'', ''getActionName'',
      ''getMatchedRouteName'', ''getParam'', ''get'', ''getModuleName'', ''getControllerName'']"

definition answer_public ::
  "char set \<Rightarrow> ('c, 'sc, 'f, 'g, 's, 'u) auto_lib \<Rightarrow> string \<Rightarrow> 'f zval option \<Rightarrow> bool" where
  "answer_public B lib m r \<longleftrightarrow>
     (m \<in> set PUBLIC_METHODS \<longrightarrow> maybe_public B (Option.bind r utf8_text))
     \<and> (m = ''__toString'' \<longrightarrow> (\<forall>t. Option.bind r utf8_text = Some t \<longrightarrow> public B (stripped lib t)))
     \<and> (m = ''getConnectionParameters'' \<longrightarrow>
          (\<forall>a. \<forall>k\<in>set LAMINAS_NAMESPACE_KEYS. r = Some (ZArr a) \<longrightarrow> maybe_public B (arr_text a k)))"

definition property_public :: "char set \<Rightarrow> string \<Rightarrow> 'f zval \<Rightarrow> bool" where
  "property_public B p v \<longleftrightarrow>
     (p = ''_config'' \<longrightarrow>
       (\<forall>a. v = ZArr a \<longrightarrow> maybe_public B (Option.bind (map_of a (symtable_key ''dbname'')) utf8_text)))"

text \<open>
  The sources: the names taken from SQL, URLs after they were stripped, the method of the request, the
  classes of exceptions, and what the methods above, the parameters of a connection and the
  configuration of an adapter answer.
\<close>

definition public_sources :: "char set \<Rightarrow> ('c, 'sc, 'f, 'g, 's, 'u) auto_lib \<Rightarrow> bool" where
  "public_sources B lib \<longleftrightarrow>
     (\<forall>sql. maybe_public B (al_sql_name lib sql)) \<and> maybe_public B (al_request_method lib)
     \<and> (\<forall>h. public B (exception_type (al_throwable lib h)))
     \<and> (\<forall>h m args w. answer_public B lib m (fst (al_call lib h m args w)))
     \<and> (\<forall>h p w. property_public B p (fst (al_property lib h p w)))"

definition public_function :: "char set \<Rightarrow> php_function \<Rightarrow> bool" where
  "public_function B f \<longleftrightarrow> maybe_public B (get_fqn f) \<and> maybe_public B (map_option fst (get_file_and_line f))"

section \<open>What spans may hold\<close>

definition SPAN_KEYS :: "string list" where
  "SPAN_KEYS =
     [''code.function.name'', ''code.file.path'', ''code.line.number'', ''php.framework.name'',
      ''php.framework.controller.name'', ''php.framework.action.name'', ''php.framework.module.name'',
      ''console.command'', ''http.route'', ''http.request.method'', ''http.response.status_code'',
      ''url.full'', ''url.scheme'', ''url.path'', ''server.address'', ''server.port'',
      ''db.namespace'', ''db.system.name'', ''exception.type'']"

fun public_value :: "char set \<Rightarrow> 'f otel_value \<Rightarrow> bool" where
  "public_value B (VString t) = public B t"
| "public_value B (VI64 i) = True"
| "public_value B v = False"

text \<open>An attribute before it was cut to the limits, and after.\<close>

definition raw_clean :: "char set \<Rightarrow> ('c, 'sc, 'f, 'g, 's, 'u) auto_lib \<Rightarrow> 'f key_value \<Rightarrow> bool" where
  "raw_clean B lib kv \<longleftrightarrow> fst kv \<in> set SPAN_KEYS \<and> public_value B (snd kv)
     \<and> (fst kv = ''url.full'' \<longrightarrow> (\<exists>t. snd kv = VString (stripped lib t)))"

definition clean :: "char set \<Rightarrow> ('c, 'sc, 'f, 'g, 's, 'u) auto_lib \<Rightarrow> 'f key_value \<Rightarrow> bool" where
  "clean B lib kv \<longleftrightarrow> fst kv \<in> set SPAN_KEYS \<and> public_value B (snd kv)
     \<and> (fst kv = ''url.full'' \<longrightarrow> (\<exists>t n. snd kv = VString (truncate_string (stripped lib t) n)))"

fun call_clean :: "char set \<Rightarrow> ('c, 'sc, 'f, 'g, 's, 'u) auto_lib \<Rightarrow> ('f, 'sc) span_call \<Rightarrow> bool" where
  "call_clean B lib (CallEnd at) \<longleftrightarrow> True"
| "call_clean B lib (CallSetStatus (StatusError description)) \<longleftrightarrow> description = []"
| "call_clean B lib (CallSetStatus status) \<longleftrightarrow> True"
| "call_clean B lib (CallSetAttribute kv) \<longleftrightarrow> clean B lib kv"
| "call_clean B lib (CallSetAttributes kvs) \<longleftrightarrow> list_all (clean B lib) kvs"
| "call_clean B lib (CallAddLink sc kvs) \<longleftrightarrow> list_all (clean B lib) kvs"
| "call_clean B lib (CallAddEvent name at kvs) \<longleftrightarrow> public B name \<and> list_all (clean B lib) kvs"
| "call_clean B lib (CallUpdateName name) \<longleftrightarrow> public B name"

definition started_clean :: "char set \<Rightarrow> ('c, 'sc, 'f, 'g, 's, 'u) auto_lib \<Rightarrow> ('c, 'sc, 'f) started_span \<Rightarrow> bool" where
  "started_clean B lib sp \<longleftrightarrow>
     public B (builder_name (started_builder sp)) \<and> builder_links (started_builder sp) = None
     \<and> (case builder_attributes (started_builder sp) of Some kvs \<Rightarrow> list_all (clean B lib) kvs | None \<Rightarrow> True)"

definition info_clean ::
  "char set \<Rightarrow> ('c, 'sc, 'f, 'g, 's, 'u) auto_lib \<Rightarrow> ('f, 'sc, 'z) connection_info_scheme \<Rightarrow> bool" where
  "info_clean B lib i \<longleftrightarrow> list_all (raw_clean B lib) (info_attributes i)"

definition statement_clean ::
  "char set \<Rightarrow> ('c, 'sc, 'f, 'g, 's, 'u) auto_lib \<Rightarrow> ('f, 'sc) statement_info \<Rightarrow> bool" where
  "statement_clean B lib i \<longleftrightarrow> info_clean B lib i \<and> public B (info_name i)"

definition world_clean :: "char set \<Rightarrow> ('c, 'sc, 'f, 'g, 's, 'u) auto_lib \<Rightarrow> ('c, 'sc, 'f, 'g, 's) auto_world \<Rightarrow> bool" where
  "world_clean B lib w \<longleftrightarrow> \<not> fst (capture (al_env lib) (aw_capture w))
     \<and> list_all (started_clean B lib) (aw_started w) \<and> (\<forall>i. list_all (call_clean B lib) (aw_calls w i))
     \<and> list_all (info_clean B lib \<circ> snd) (laminas_connections w)
     \<and> list_all (statement_clean B lib \<circ> snd) (laminas_statements w)
     \<and> list_all (info_clean B lib \<circ> snd) (zf1_connections w) \<and> list_all (statement_clean B lib \<circ> snd) (zf1_statements w)
     \<and> (\<forall>ed f. aw_frames w ed = Some f \<longrightarrow> public_function B (fr_function f))"

lemma raw_clean_clean: "raw_clean B lib kv \<Longrightarrow> clean B lib kv"
proof -
  assume raw: "raw_clean B lib kv"
  have "\<exists>n. stripped lib t = truncate_string (stripped lib t) n" for t
    by (rule exI [of _ usize_max]) (simp add: truncate_string_def)
  with raw show ?thesis unfolding raw_clean_def clean_def by metis
qed

lemma raw_list_clean: "list_all (raw_clean B lib) kvs \<Longrightarrow> list_all (clean B lib) kvs"
  by (auto simp: list_all_iff raw_clean_clean)

lemma truncate_public: "public B t \<Longrightarrow> public B (truncate_string t n)"
proof -
  assume "public B t"
  moreover have "c \<in> set t" if "y \<in> set (utf8_chars t)" "c \<in> set y" for c y
    using that concat_utf8_chars [of t] by (metis UN_I set_concat)
  ultimately have "public B (concat (take n (utf8_chars t)))"
    by (auto simp: public_def dest!: in_set_takeD)
  with \<open>public B t\<close> show ?thesis by (simp add: truncate_string_def)
qed

lemma limited_clean:
  assumes "list_all (raw_clean B lib) kvs"
  shows "list_all (clean B lib) (limit_key_values config kvs d)"
proof -
  have "clean B lib (k, limit_value v limits)" if "raw_clean B lib (k, v)" for k v limits
  proof -
    have "public_value B (limit_value v limits)"
      using that by (cases v) (auto simp: raw_clean_def truncate_public)
    then show ?thesis
      using that by (cases "k = ''url.full''") (auto simp: raw_clean_def clean_def, blast)
  qed
  with assms show ?thesis
    by (auto simp: limit_key_values_def Let_def list_all_iff map_filter_def dest!: in_set_takeD split: if_splits)
qed

lemma default_clean: "public_function B f \<Longrightarrow> list_all (raw_clean B lib) (get_default_attributes f)"
  by (auto simp: get_default_attributes_def raw_clean_def SPAN_KEYS_def public_function_def split: option.split)

section \<open>Programs that keep it so\<close>

definition keeps_clean ::
  "char set \<Rightarrow> ('c, 'sc, 'f, 'g, 's, 'u) auto_lib \<Rightarrow> ('c, 'sc, 'f, 'g, 's, 'a) act \<Rightarrow> ('a \<Rightarrow> bool) \<Rightarrow> bool" where
  "keeps_clean B lib m R \<longleftrightarrow>
     (\<forall>w. world_clean B lib w \<longrightarrow> world_clean B lib (snd (run_state m w)) \<and> R (fst (run_state m w)))"

text \<open>PHP code that hooks call gives nothing sensitive to spans of its own.\<close>

definition clean_php :: "char set \<Rightarrow> ('c, 'sc, 'f, 'g, 's, 'u) auto_lib \<Rightarrow> bool" where
  "clean_php B lib \<longleftrightarrow> (\<forall>h m args. keeps_clean B lib (php_call lib h m args) (\<lambda>_. True))
     \<and> (\<forall>h p. keeps_clean B lib (php_property lib h p) (\<lambda>_. True))"

definition trusted :: "char set \<Rightarrow> ('c, 'sc, 'f, 'g, 's, 'u) auto_lib \<Rightarrow> bool" where
  "trusted B lib \<longleftrightarrow> clean_php B lib \<and> public_sources B lib"

named_theorems keeps_rules \<open>programs that keep the world clean\<close>

lemma keeps_bind:
  "keeps_clean B lib m Q \<Longrightarrow> (\<And>x. Q x \<Longrightarrow> keeps_clean B lib (f x) R) \<Longrightarrow> keeps_clean B lib (State_Monad.bind m f) R"
  by (simp add: keeps_clean_def split: prod.split) (metis fst_conv snd_conv)

lemma keeps_return [keeps_rules]: "R x \<Longrightarrow> keeps_clean B lib (State_Monad.return x) R"
  by (simp add: keeps_clean_def)

lemma keeps_if [keeps_rules]:
  "(b \<Longrightarrow> keeps_clean B lib m R) \<Longrightarrow> (\<not> b \<Longrightarrow> keeps_clean B lib n R) \<Longrightarrow> keeps_clean B lib (if b then m else n) R"
  by simp

lemma keeps_option [keeps_rules]:
  "(v = None \<Longrightarrow> keeps_clean B lib m R) \<Longrightarrow> (\<And>x. v = Some x \<Longrightarrow> keeps_clean B lib (f x) R) \<Longrightarrow>
    keeps_clean B lib (case v of None \<Rightarrow> m | Some x \<Rightarrow> f x) R"
  by (cases v) auto

lemma keeps_prod [keeps_rules]:
  "(\<And>a b. p = (a, b) \<Longrightarrow> keeps_clean B lib (f a b) R) \<Longrightarrow> keeps_clean B lib (case p of (a, b) \<Rightarrow> f a b) R"
  by (cases p) auto

lemma keeps_list [keeps_rules]:
  "keeps_clean B lib m R \<Longrightarrow> (\<And>x xs. keeps_clean B lib (f x xs) R) \<Longrightarrow>
    keeps_clean B lib (case l of [] \<Rightarrow> m | x # xs \<Rightarrow> f x xs) R"
  by (cases l) auto

lemma keeps_bool [keeps_rules]:
  "keeps_clean B lib m R \<Longrightarrow> keeps_clean B lib n R \<Longrightarrow> keeps_clean B lib (case b of True \<Rightarrow> m | False \<Rightarrow> n) R"
  by (cases b) auto

lemma keeps_zval [keeps_rules]:
  assumes "keeps_clean B lib n R" "\<And>b. keeps_clean B lib (fb b) R" "\<And>i. keeps_clean B lib (fi i) R"
    "\<And>d. keeps_clean B lib (fd d) R" "\<And>t. keeps_clean B lib (fs t) R" "\<And>a. v = ZArr a \<Longrightarrow> keeps_clean B lib (fa a) R"
    "\<And>h. keeps_clean B lib (fo h) R"
  shows "keeps_clean B lib (case v of ZNull \<Rightarrow> n | ZBool b \<Rightarrow> fb b | ZLong i \<Rightarrow> fi i | ZDouble d \<Rightarrow> fd d
    | ZStr t \<Rightarrow> fs t | ZArr a \<Rightarrow> fa a | ZObj h \<Rightarrow> fo h) R"
  using assms by (cases v) auto

lemma keeps_weaken: "keeps_clean B lib m Q \<Longrightarrow> (\<And>x. Q x \<Longrightarrow> R x) \<Longrightarrow> keeps_clean B lib m R"
  by (simp add: keeps_clean_def)

lemma keeps_reads: "keeps_clean B lib (reads f) (\<lambda>_. True)"
  by (simp add: keeps_clean_def reads_def)

lemma table_clean: "list_all (P \<circ> snd) l \<Longrightarrow> map_of l k = Some i \<Longrightarrow> P i"
  by (auto simp: list_all_iff dest!: map_of_SomeD)

lemma update_clean:
  assumes "list_all (P \<circ> snd) l" and "P i"
  shows "list_all (P \<circ> snd) (AList.update k i l)"
  using assms by (induction l) auto

lemma keeps_tables:
  "keeps_clean B lib (reads (\<lambda>w. map_of (laminas_connections w) k)) (\<lambda>r. \<forall>i. r = Some i \<longrightarrow> info_clean B lib i)"
  "keeps_clean B lib (reads (\<lambda>w. Option.bind this (map_of (laminas_statements w)))) (\<lambda>r. \<forall>i. r = Some i \<longrightarrow> statement_clean B lib i)"
  "keeps_clean B lib (reads (\<lambda>w. Option.bind this (map_of (zf1_connections w)))) (\<lambda>r. \<forall>i. r = Some i \<longrightarrow> info_clean B lib i)"
  "keeps_clean B lib (reads (\<lambda>w. Option.bind this (map_of (zf1_statements w)))) (\<lambda>r. \<forall>i. r = Some i \<longrightarrow> statement_clean B lib i)"
  by (auto simp: keeps_clean_def reads_def world_clean_def bind_eq_Some_conv intro: table_clean)

lemma keeps_updates:
  "info_clean B lib i \<Longrightarrow> keeps_clean B lib
     (State_Monad.update (\<lambda>w. w\<lparr>laminas_connections := AList.update h i (laminas_connections w)\<rparr>)) (\<lambda>_. True)"
  "statement_clean B lib j \<Longrightarrow> keeps_clean B lib
     (State_Monad.update (\<lambda>w. w\<lparr>laminas_statements := AList.update h j (laminas_statements w)\<rparr>)) (\<lambda>_. True)"
  "info_clean B lib i \<Longrightarrow> keeps_clean B lib
     (State_Monad.update (\<lambda>w. w\<lparr>zf1_connections := AList.update h i (zf1_connections w)\<rparr>)) (\<lambda>_. True)"
  "statement_clean B lib j \<Longrightarrow> keeps_clean B lib
     (State_Monad.update (\<lambda>w. w\<lparr>zf1_statements := AList.update h j (zf1_statements w)\<rparr>)) (\<lambda>_. True)"
  by (simp_all add: keeps_clean_def world_clean_def update_clean)

lemma keeps_ask: "call_clean B lib x \<Longrightarrow> keeps_clean B lib (ask lib c x) (\<lambda>_. True)"
  by (simp add: keeps_clean_def ask_def world_clean_def deliver_def)

lemma capture_again: "fst (capture env (snd (capture env s))) = fst (capture env s)"
  by (simp add: capture_def Let_def split: option.split prod.split)

lemma keeps_capturing: "keeps_clean B lib (capturing lib) (\<lambda>cap. \<not> cap)"
  using capture_again [of "al_env lib"]
  by (auto simp: keeps_clean_def capturing_def world_clean_def Let_def split: prod.split) (metis fst_conv snd_conv)+

lemma keeps_exception_attributes:
  assumes "trusted B lib"
  shows "keeps_clean B lib (auto_exception_attributes lib h) (list_all (raw_clean B lib))"
proof -
  have "raw_clean B lib (''exception.type'', VString (exception_type (al_throwable lib h)))"
    using assms by (simp add: raw_clean_def SPAN_KEYS_def trusted_def public_sources_def)
  then show ?thesis using capture_again [of "al_env lib"]
    by (auto simp: keeps_clean_def auto_exception_attributes_def php_exception_to_auto_attributes_def world_clean_def
        Let_def split: prod.split) (metis fst_conv snd_conv)+
qed

lemma keeps_php:
  assumes "trusted B lib"
  shows "keeps_clean B lib (php_call lib h m args) (answer_public B lib m)"
    "keeps_clean B lib (php_property lib h p) (property_public B p)"
  using assms
  by (simp_all add: trusted_def clean_php_def public_sources_def keeps_clean_def php_call_def php_property_def)

lemma keeps_guards:
  "keeps_clean B lib (take_guard ed) (\<lambda>_. True)" "keeps_clean B lib (drop_guard lib g) (\<lambda>_. True)"
  "keeps_clean B lib (store_guard lib ed k) (\<lambda>_. True)" "keeps_clean B lib (set_flag ed b) (\<lambda>_. True)"
  "keeps_clean B lib (take_flag ed) (\<lambda>_. True)" "keeps_clean B lib (set_frame_arg ed i v) (\<lambda>_. True)"
  by (auto simp: keeps_clean_def take_guard_def drop_guard_def store_guard_def set_flag_def take_flag_def
      set_frame_arg_def reads_def world_clean_def split: option.split)

lemma keeps_frame:
  "keeps_clean B lib (frame_this ed) (\<lambda>_. True)" "keeps_clean B lib (frame_arg ed i) (\<lambda>_. True)"
  "keeps_clean B lib (frame_num_args ed) (\<lambda>_. True)" "keeps_clean B lib (frame_retval ed) (\<lambda>_. True)"
  "keeps_clean B lib (frame_exception ed) (\<lambda>_. True)" "keeps_clean B lib (auto_current lib') (\<lambda>_. True)"
  "keeps_clean B lib local_root (\<lambda>_. True)" "keeps_clean B lib (current_span_context lib') (\<lambda>_. True)"
  unfolding frame_defs by (intro keeps_reads keeps_bind [OF keeps_reads] keeps_return TrueI)+

lemma keeps_start:
  assumes "list_all (raw_clean B lib) kvs" and "public B name"
  shows "keeps_clean B lib (start_and_activate_span lib tracer name kvs ed kind) (\<lambda>_. True)"
proof -
  have started: "keeps_clean B lib (State_Monad.update (\<lambda>w. w\<lparr>aw_started := aw_started w @ [sp]\<rparr>)) (\<lambda>_. True)"
    if "started_clean B lib sp" for sp
    using that by (simp add: keeps_clean_def world_clean_def)
  have attach: "keeps_clean B lib (State (\<lambda>w. case al_attach lib c (aw_attached w) of (g, s) \<Rightarrow> (g, w\<lparr>aw_attached := s\<rparr>))) (\<lambda>_. True)" for c
    by (simp add: keeps_clean_def world_clean_def split: prod.split)
  have frame: "keeps_clean B lib (reads (\<lambda>w. aw_frames w ed)) (\<lambda>r. \<forall>f. r = Some f \<longrightarrow> public_function B (fr_function f))"
    by (simp add: keeps_clean_def reads_def world_clean_def)
  have "list_all (raw_clean B lib) (get_default_attributes f @ kvs)" if "public_function B f" for f
    using assms(1) default_clean [OF that] by simp
  note clean = limited_clean [OF this]
  show ?thesis unfolding start_and_activate_span_def
    by (rule keeps_bind [OF frame], intro keeps_rules keeps_bind [OF keeps_reads] keeps_bind [OF keeps_frame(6)] keeps_bind [OF started]
        keeps_bind [OF attach] keeps_guards) (simp_all add: started_clean_def clean assms(2))
qed

lemmas keeps_binds = keeps_bind [OF keeps_ask] keeps_bind [OF keeps_capturing]
  keeps_frame [THEN keeps_bind] keeps_guards [THEN keeps_bind]

text \<open>What holds of a text that a method answers.\<close>

definition text_public :: "char set \<Rightarrow> ('c, 'sc, 'f, 'g, 's, 'u) auto_lib \<Rightarrow> string \<Rightarrow> string option \<Rightarrow> bool" where
  "text_public B lib m v \<longleftrightarrow> (m \<in> set PUBLIC_METHODS \<longrightarrow> maybe_public B v)
     \<and> (m = ''__toString'' \<longrightarrow> (\<forall>t. v = Some t \<longrightarrow> public B (stripped lib t)))"

lemma keeps_texts:
  assumes "trusted B lib"
  shows "keeps_clean B lib (call_text lib h m args) (text_public B lib m)" "keeps_clean B lib (call_string lib h m) (text_public B lib m)"
    "keeps_clean B lib (sanitized lib t) (\<lambda>u. u = stripped lib t)" "keeps_clean B lib (query_text lib t) (\<lambda>r. r = [])"
    "keeps_clean B lib (record_exception lib c e) (\<lambda>_. True)" "keeps_clean B lib (record_pending lib ed) (\<lambda>_. True)"
    "keeps_clean B lib (parameter_bag_string lib h k) (maybe_public B)"
proof -
  note php = keeps_php [OF assms]
  show texts: "keeps_clean B lib (call_text lib h m args) (text_public B lib m)" for h m args
    unfolding call_text_def
    by (rule keeps_bind [OF php(1)], rule keeps_return) (auto simp: answer_public_def text_public_def)
  then show "keeps_clean B lib (call_string lib h m) (text_public B lib m)" by (simp add: call_string_def)
  show "keeps_clean B lib (parameter_bag_string lib h k) (maybe_public B)"
    unfolding parameter_bag_string_def
    by (rule keeps_weaken [OF texts]) (simp add: text_public_def PUBLIC_METHODS_def)
  show "keeps_clean B lib (sanitized lib t) (\<lambda>u. u = stripped lib t)" "keeps_clean B lib (query_text lib t) (\<lambda>r. r = [])"
    unfolding sanitized_def query_text_def by (rule keeps_bind [OF keeps_capturing], rule keeps_return, simp)+
  show exception: "keeps_clean B lib (record_exception lib c e) (\<lambda>_. True)" for c e
    unfolding record_exception_def
    by (rule keeps_bind [OF keeps_exception_attributes [OF assms]], intro keeps_binds keeps_ask)
      (simp_all add: limited_clean FIXED_CHARS_def)
  show "keeps_clean B lib (record_pending lib ed) (\<lambda>_. True)"
    unfolding record_pending_def by (intro keeps_binds keeps_rules exception TrueI)
qed

text \<open>Attributes by their key.\<close>

lemma plain_clean:
  "k \<in> set SPAN_KEYS \<Longrightarrow> k \<noteq> ''url.full'' \<Longrightarrow> raw_clean B lib (k, v) \<longleftrightarrow> public_value B v"
  "k \<in> set SPAN_KEYS \<Longrightarrow> k \<noteq> ''url.full'' \<Longrightarrow> clean B lib (k, v) \<longleftrightarrow> public_value B v"
  "k \<in> set SPAN_KEYS \<Longrightarrow> k \<noteq> ''url.full'' \<Longrightarrow> maybe_public B t \<Longrightarrow> list_all (raw_clean B lib) (text_attribute k t)"
  by (auto simp: raw_clean_def clean_def text_attribute_def split: option.split)

lemmas key_simps = SPAN_KEYS_def plain_clean
lemmas text_simps = text_public_def PUBLIC_METHODS_def FIXED_CHARS_def

text \<open>Taking names apart keeps them public.\<close>

lemma split_public:
  assumes "public B t"
  shows "split_action_name t = Some (a, b) \<Longrightarrow> public B a \<and> public B b"
    "split_controller_name t = Some (a, b) \<Longrightarrow> public B a \<and> public B b"
    "public B (normalize_route t)"
proof -
  have parts: "set a \<union> set b \<subseteq> set s" if "rsplit_once_str p s = Some (a, b)" for p s a b
    using that by (induction p s arbitrary: a b rule: rsplit_once_str.induct)
      (auto split: if_splits option.splits dest: in_set_dropD)
  have once: "set a \<union> set b \<subseteq> set s" if "rsplit_once c s = Some (a, b)" for c s and a b :: string
    using that by (auto simp: rsplit_once_def dest!: split_once_SomeD arg_cong [where f = set])
  show "split_action_name t = Some (a, b) \<Longrightarrow> public B a \<and> public B b"
    "split_controller_name t = Some (a, b) \<Longrightarrow> public B a \<and> public B b"
    using assms parts once
    by (auto simp: split_action_name_def split_controller_name_def both_nonempty_def public_def
        split: if_splits option.splits, blast+)
  show "public B (normalize_route t)" using assms by (simp add: normalize_route_def FIXED_CHARS_def)
qed

lemma maybe_public_choice:
  "maybe_public B a \<Longrightarrow> maybe_public B b \<Longrightarrow> public B d \<Longrightarrow> public B (Auto_Frameworks.or_else a b d)"
  "maybe_public B a \<Longrightarrow> public B d \<Longrightarrow> public B (named_or d a)"
  "maybe_public B a \<Longrightarrow> maybe_public B (nonempty a)"
  by (auto simp: Auto_Frameworks.or_else_def named_or_def nonempty_def maybe_public_def split: option.splits)

lemma source_public:
  assumes "trusted B lib"
  shows "maybe_public B (al_sql_name lib sql)" "maybe_public B (al_request_method lib)"
  using assms by (simp_all add: trusted_def public_sources_def)

definition names_public :: "char set \<Rightarrow> (string \<times> string) option \<Rightarrow> bool" where
  "names_public B names \<longleftrightarrow> (\<forall>a b. names = Some (a, b) \<longrightarrow> public B a \<and> public B b)"

lemma keeps_shared:
  assumes "trusted B lib"
  shows "public B t \<Longrightarrow> keeps_clean B lib (set_framework_name lib t) (\<lambda>_. True)"
    "names_public B names \<Longrightarrow> keeps_clean B lib (set_controller lib c names) (\<lambda>_. True)"
    "k \<in> set SPAN_KEYS \<Longrightarrow> k \<noteq> ''url.full'' \<Longrightarrow> maybe_public B v \<Longrightarrow>
      keeps_clean B lib (set_text_attribute lib c k v) (\<lambda>_. True)"
    "keeps_clean B lib (command_name lib ed) (public B)"
    "public B framework \<Longrightarrow> keeps_clean B lib (command_started lib tracer framework ed) (\<lambda>_. True)"
    "keeps_clean B lib (command_ended lib ed) (\<lambda>_. True)" "keeps_clean B lib (span_ended lib ed) (\<lambda>_. True)"
    "keeps_clean B lib (is_laravel_command lib ed) (\<lambda>_. True)"
proof -
  note texts = keeps_texts [OF assms]
  show "public B t \<Longrightarrow> keeps_clean B lib (set_framework_name lib t) (\<lambda>_. True)"
    "names_public B names \<Longrightarrow> keeps_clean B lib (set_controller lib c names) (\<lambda>_. True)"
    unfolding set_framework_name_def set_controller_def
    by (intro keeps_binds keeps_rules keeps_ask TrueI; simp add: key_simps names_public_def)+
  show "k \<in> set SPAN_KEYS \<Longrightarrow> k \<noteq> ''url.full'' \<Longrightarrow> maybe_public B v \<Longrightarrow>
      keeps_clean B lib (set_text_attribute lib c k v) (\<lambda>_. True)"
    unfolding set_text_attribute_def by (intro keeps_rules keeps_ask TrueI) (simp add: plain_clean)
  have getName: "keeps_clean B lib (case this of Some h \<Rightarrow> call_string lib h ''getName'' | None \<Rightarrow> State_Monad.return None)
      (maybe_public B)" for this
    by (intro keeps_rules keeps_weaken [OF texts(2)]) (simp_all add: text_simps)
  show name: "keeps_clean B lib (command_name lib ed) (public B)" for ed
    unfolding command_name_def
    by (intro keeps_binds keeps_bind [OF getName] keeps_return)
      (auto simp: nonempty_def maybe_public_def FIXED_CHARS_def split: option.split)
  show "public B framework \<Longrightarrow> keeps_clean B lib (command_started lib tracer framework ed) (\<lambda>_. True)"
    unfolding command_started_def
    by (rule keeps_bind [OF name], rule keeps_start) (simp_all add: key_simps FIXED_CHARS_def)
  show "keeps_clean B lib (command_ended lib ed) (\<lambda>_. True)"
    unfolding command_ended_def
    by (intro keeps_binds keeps_bind [where Q = "\<lambda>_. True"] keeps_rules keeps_ask texts(5) keeps_guards TrueI) simp
  show "keeps_clean B lib (span_ended lib ed) (\<lambda>_. True)"
    unfolding span_ended_def by (intro keeps_binds keeps_bind [OF texts(6)] keeps_guards)
  show "keeps_clean B lib (is_laravel_command lib ed) (\<lambda>_. True)"
    unfolding is_laravel_command_def by (intro keeps_binds keeps_return TrueI)
qed

lemma keeps_any:
  assumes "trusted B lib"
  shows "keeps_clean B lib (php_call lib h m args) (\<lambda>_. True)" "keeps_clean B lib (call_text lib h m args) (\<lambda>_. True)"
  by (rule keeps_weaken [OF keeps_php(1) [OF assms]] keeps_weaken [OF keeps_texts(1) [OF assms]], rule TrueI)+

lemma keeps_headers:
  assumes "trusted B lib"
  shows "keeps_clean B lib (inject_headers lib carrier request) (\<lambda>_. True)"
proof (induction carrier arbitrary: request)
  case (Cons kv carrier)
  then show ?case
    by (cases kv) (auto intro!: keeps_bind [where Q = "\<lambda>_. True"] keeps_rules keeps_any [OF assms])
qed (simp add: keeps_return)

lemma keeps_uri:
  assumes "trusted B lib"
  shows "keeps_clean B lib (uri_attributes lib u) (list_all (raw_clean B lib))"
proof -
  note texts = keeps_texts [OF assms] and php = keeps_php [OF assms]
  have full: "keeps_clean B lib (case ot of Some t \<Rightarrow> State_Monad.bind (sanitized lib t)
      (\<lambda>u. State_Monad.return [(''url.full'', VString u)]) | None \<Rightarrow> State_Monad.return []) (list_all (raw_clean B lib))"
    if "text_public B lib ''__toString'' ot" for ot :: "string option"
    using that by (intro keeps_rules keeps_bind [OF texts(3)]) (auto simp: raw_clean_def SPAN_KEYS_def text_public_def)
  show ?thesis unfolding uri_attributes_def
    by (intro keeps_bind [OF texts(2)] keeps_bind [OF full] keeps_bind [OF php(1)] keeps_return, assumption)
      (auto simp: key_simps text_public_def PUBLIC_METHODS_def split: option.split)
qed

lemma keeps_psr18:
  assumes "trusted B lib"
  shows "keeps_clean B lib (psr18_pre lib ed) (\<lambda>_. True)" "keeps_clean B lib (psr18_post lib ed) (\<lambda>_. True)"
proof -
  note texts = keeps_texts [OF assms] and php = keeps_php [OF assms]
  have uri: "keeps_clean B lib (case v of Some (ZObj u) \<Rightarrow> uri_attributes lib u | _ \<Rightarrow> State_Monad.return []) (list_all (raw_clean B lib))"
    for v by (intro keeps_rules keeps_uri [OF assms]) simp_all
  have request: "keeps_clean B lib (psr18_request lib v) (\<lambda>r. public B (fst r) \<and> list_all (raw_clean B lib) (snd r))" for v
    unfolding psr18_request_def
    by (intro keeps_rules keeps_bind [OF php(1)] keeps_bind [OF uri] keeps_bind [OF texts(2)])
      (auto simp: key_simps text_public_def PUBLIC_METHODS_def FIXED_CHARS_def split: option.split)
  show "keeps_clean B lib (psr18_pre lib ed) (\<lambda>_. True)"
    unfolding psr18_pre_def
    by (intro keeps_binds keeps_bind [OF request] keeps_prod keeps_bind [OF keeps_start] keeps_bind [OF keeps_headers [OF assms]]
        keeps_guards) simp_all
  show "keeps_clean B lib (psr18_post lib ed) (\<lambda>_. True)"
    unfolding psr18_post_def psr18_response_def
    by (intro keeps_binds keeps_bind [OF php(1)] keeps_bind [where Q = "\<lambda>_. True"] keeps_rules keeps_ask texts(5) keeps_guards TrueI)
      (simp_all add: key_simps)
qed

lemma keeps_frameworks:
  assumes "trusted B lib"
  shows "keeps_clean B lib (laravel_http_post lib ed) (\<lambda>_. True)" "keeps_clean B lib (symfony_http_post lib ed) (\<lambda>_. True)"
    "keeps_clean B lib (symfony_command_pre lib ed) (\<lambda>_. True)" "keeps_clean B lib (symfony_command_post lib ed) (\<lambda>_. True)"
proof -
  note texts = keeps_texts [OF assms] and php = keeps_php [OF assms] and shared = keeps_shared [OF assms]
  have action: "names_public B (Option.bind v split_action_name)" "names_public B (Option.bind v split_controller_name)"
    if "maybe_public B v" for v
  proof -
    have "names_public B (split_action_name t)" "names_public B (split_controller_name t)" if "public B t" for t
      unfolding names_public_def by (intro allI impI split_public(1) [OF that] split_public(2) [OF that], assumption)+
    with that show "names_public B (Option.bind v split_action_name)" "names_public B (Option.bind v split_controller_name)"
      by (cases v; simp add: names_public_def [of B None])+
  qed
  have laravel: "keeps_clean B lib (laravel_route lib c m r) (\<lambda>_. True)" if "public B m" for c m r
    unfolding laravel_route_def
  proof (rule keeps_bind [OF texts(2)])
    fix u
    assume u: "text_public B lib ''uri'' u"
    have "public B v" if "nonempty u = Some v" for v
      using u that by (auto simp: nonempty_def text_public_def PUBLIC_METHODS_def split: option.splits if_splits)
    then show "keeps_clean B lib (case nonempty u of None \<Rightarrow> State_Monad.return () | Some v \<Rightarrow>
        State_Monad.bind (ask lib c (CallUpdateName (m @ '' '' @ normalize_route v))) (\<lambda>_.
        State_Monad.bind (ask lib c (CallSetAttribute (''http.route'', VString (normalize_route v)))) (\<lambda>_.
        State_Monad.bind (call_string lib r ''getActionName'') (\<lambda>a. set_controller lib c (Option.bind a split_action_name)))))
      (\<lambda>_. True)"
      by (intro keeps_rules keeps_binds keeps_bind [OF texts(2)] shared(2) TrueI action(1))
        (auto simp: \<open>public B m\<close> key_simps FIXED_CHARS_def split_public(3) text_public_def PUBLIC_METHODS_def)
  qed
  have choice: "public B (Auto_Frameworks.or_else m (al_request_method lib) ''unknown'')"
    if "text_public B lib k m" "k \<in> set PUBLIC_METHODS" for k m
    using that source_public(2) [OF assms]
    by (intro maybe_public_choice) (auto simp: text_public_def FIXED_CHARS_def)
  show "keeps_clean B lib (laravel_http_post lib ed) (\<lambda>_. True)"
    unfolding laravel_http_post_def
    by (intro keeps_binds keeps_bind [OF texts(2)] keeps_bind [OF php(1)] keeps_rules laravel TrueI choice [where k = "''method''"])
      (simp_all add: PUBLIC_METHODS_def)
  have symfony: "keeps_clean B lib (symfony_route lib c m a) (\<lambda>_. True)" if "public B m" for c m a
  proof -
    have named: "keeps_clean B lib (case nonempty v of Some r \<Rightarrow>
        State_Monad.bind (ask lib c (CallUpdateName (m @ '' '' @ r))) (\<lambda>_. ask lib c (CallSetAttribute (''http.route'', VString r)))
      | None \<Rightarrow> State_Monad.return ()) (\<lambda>_. True)" if v: "maybe_public B v" for v
    proof -
      have "public B r" if "nonempty v = Some r" for r
        using v that by (auto simp: nonempty_def maybe_public_def split: option.splits if_splits)
      with \<open>public B m\<close> show ?thesis
        by (intro keeps_rules keeps_binds keeps_ask TrueI) (simp_all add: key_simps FIXED_CHARS_def)
    qed
    show ?thesis unfolding symfony_route_def
      by (intro keeps_bind [OF texts(7)] keeps_bind [OF named] shared(2) action(2))
  qed
  show "keeps_clean B lib (symfony_http_post lib ed) (\<lambda>_. True)"
    unfolding symfony_http_post_def
    by (intro keeps_binds keeps_bind [OF texts(2)] keeps_bind [OF php(2)] keeps_rules symfony TrueI choice [where k = "''getMethod''"])
      (simp_all add: key_simps PUBLIC_METHODS_def FIXED_CHARS_def)
  show "keeps_clean B lib (symfony_command_pre lib ed) (\<lambda>_. True)" "keeps_clean B lib (symfony_command_post lib ed) (\<lambda>_. True)"
    unfolding symfony_command_pre_def symfony_command_post_def
    by (intro keeps_binds keeps_bind [OF shared(8)] keeps_rules keeps_guards shared TrueI; simp add: FIXED_CHARS_def)+
qed

lemma systems_public: "public B (system_or_other LAMINAS_DRIVERS d)" "public B (system_or_other DSN_SYSTEMS d)"
  "public B (system_or_other ZF1_ADAPTERS d)"
proof -
  have table: "public B (system_or_other table d)" if "\<forall>s\<in>snd ` set table. public B s" for table d
    using that by (auto simp: system_or_other_def FIXED_CHARS_def split: option.split dest!: map_of_SomeD)
  show "public B (system_or_other LAMINAS_DRIVERS d)" "public B (system_or_other DSN_SYSTEMS d)"
    "public B (system_or_other ZF1_ADAPTERS d)"
    by (rule table, simp add: LAMINAS_DRIVERS_def DSN_SYSTEMS_def ZF1_ADAPTERS_def FIXED_CHARS_def)+
qed

lemma connection_attributes_clean:
  assumes "\<forall>k\<in>set LAMINAS_NAMESPACE_KEYS. maybe_public B (arr_text a k)"
  shows "list_all (raw_clean B lib) (laminas_connection_attributes a)"
proof -
  have "public B (extract_laminas_db_namespace a)"
  proof (cases "filter (\<lambda>t. t \<noteq> []) (List.map_filter (arr_text a) LAMINAS_NAMESPACE_KEYS)")
    case (Cons t ts)
    have "t \<in> set (filter (\<lambda>t. t \<noteq> []) (List.map_filter (arr_text a) LAMINAS_NAMESPACE_KEYS))"
      unfolding Cons by simp
    with assms have "public B t" by (auto simp: map_filter_def maybe_public_def)
    with Cons show ?thesis by (simp add: extract_laminas_db_namespace_def)
  qed (simp add: extract_laminas_db_namespace_def)
  moreover have "public B (case v of Some driver \<Rightarrow> map_laminas_driver_to_semconv driver a | None \<Rightarrow> [])" for v
    by (auto simp: map_laminas_driver_to_semconv_def Let_def systems_public FIXED_CHARS_def split: option.split)
  ultimately show ?thesis by (simp add: laminas_connection_attributes_def Let_def key_simps)
qed

lemma keeps_laminas_app:
  assumes "trusted B lib"
  shows "keeps_clean B lib (laminas_run_pre lib ed) (\<lambda>_. True)" "keeps_clean B lib (laminas_run_post lib ed) (\<lambda>_. True)"
    "keeps_clean B lib (laminas_complete_pre lib ed) (\<lambda>_. True)" "keeps_clean B lib (laminas_route_pre lib ed) (\<lambda>_. True)"
proof -
  note texts = keeps_texts [OF assms] and php = keeps_php [OF assms] and shared = keeps_shared [OF assms]
  show "keeps_clean B lib (laminas_run_pre lib ed) (\<lambda>_. True)" "keeps_clean B lib (laminas_run_post lib ed) (\<lambda>_. True)"
    unfolding laminas_run_pre_def laminas_run_post_def
    by (intro keeps_binds keeps_bind [OF shared(1)] keeps_start keeps_guards; simp add: FIXED_CHARS_def)+
  have error: "keeps_clean B lib (laminas_error lib c h) (\<lambda>_. True)" for c h
    unfolding laminas_error_def
    by (intro keeps_bind [OF php(1)] keeps_bind [OF keeps_exception_attributes [OF assms]] keeps_binds keeps_rules keeps_ask TrueI)
      (simp_all add: raw_list_clean FIXED_CHARS_def)
  show "keeps_clean B lib (laminas_complete_pre lib ed) (\<lambda>_. True)"
    unfolding laminas_complete_pre_def by (intro keeps_binds keeps_bind [OF php(1)] keeps_rules error TrueI)
  have m: "public B (named_or ''GET'' (al_request_method lib))"
    using source_public(2) [OF assms] by (intro maybe_public_choice) (simp_all add: FIXED_CHARS_def)
  show "keeps_clean B lib (laminas_route_pre lib ed) (\<lambda>_. True)"
    unfolding laminas_route_pre_def
    by (intro keeps_binds keeps_bind [OF texts(1)] keeps_bind [OF texts(2)] keeps_bind [OF shared(3)] keeps_rules
        shared(3) TrueI) (simp_all add: m SPAN_KEYS_def text_public_def PUBLIC_METHODS_def FIXED_CHARS_def)
qed

text \<open>The names of database spans: fixed texts and names taken from SQL.\<close>

lemma sql_names_public:
  assumes "trusted B lib"
  shows "public B (named_or ''OTHER'' (al_sql_name lib s))" "public B (named_or ''OTHER'' (Option.bind v (al_sql_name lib)))"
    "public B (named_or ''execute'' (al_sql_name lib s))"
proof -
  have "maybe_public B (Option.bind v (al_sql_name lib))" using source_public(1) [OF assms] by (cases v) simp_all
  then show "public B (named_or ''OTHER'' (al_sql_name lib s))" "public B (named_or ''OTHER'' (Option.bind v (al_sql_name lib)))"
    "public B (named_or ''execute'' (al_sql_name lib s))"
    using source_public(1) [OF assms] by (auto intro!: maybe_public_choice simp: FIXED_CHARS_def)
qed

lemma keeps_laminas_db:
  assumes "trusted B lib"
  shows "keeps_clean B lib (laminas_connect_pre lib ed) (\<lambda>_. True)" "keeps_clean B lib (laminas_prepare_pre lib ed) (\<lambda>_. True)"
    "keeps_clean B lib (laminas_prepare_post lib ed) (\<lambda>_. True)" "keeps_clean B lib (laminas_execute_pre lib ed) (\<lambda>_. True)"
    "keeps_clean B lib (laminas_execute_post lib ed) (\<lambda>_. True)"
    "keeps_clean B lib (laminas_connection_execute_pre lib ed) (\<lambda>_. True)"
proof -
  note texts = keeps_texts [OF assms] and php = keeps_php [OF assms] and names = sql_names_public [OF assms]
  have start: "keeps_clean B lib (start_and_activate_span lib t n [] ed k) (\<lambda>_. True)" if "public B n" for t n k
    by (rule keeps_start) (simp_all add: that)
  then show "keeps_clean B lib (laminas_prepare_pre lib ed) (\<lambda>_. True)" "keeps_clean B lib (laminas_execute_pre lib ed) (\<lambda>_. True)"
    by (simp_all add: laminas_prepare_pre_def laminas_execute_pre_def FIXED_CHARS_def)
  have params: "keeps_clean B lib (case v of
        Some (ZArr a) \<Rightarrow> State_Monad.bind (auto_current lib) (\<lambda>c.
          State_Monad.bind (ask lib c (CallSetAttributes (laminas_connection_attributes a)))
            (\<lambda>_. State_Monad.return (laminas_connection_attributes a)))
      | _ \<Rightarrow> State_Monad.return []) (list_all (raw_clean B lib))"
    if "answer_public B lib ''getConnectionParameters'' v" for v
    using that by (intro keeps_binds keeps_rules)
      (auto simp: answer_public_def raw_list_clean intro!: connection_attributes_clean raw_list_clean)
  show "keeps_clean B lib (laminas_connect_pre lib ed) (\<lambda>_. True)"
    unfolding laminas_connect_pre_def
    by (intro keeps_bind [OF start] keeps_binds keeps_bind [OF php(1)] keeps_bind [OF params] keeps_rules keeps_updates TrueI)
      (simp_all add: info_clean_def FIXED_CHARS_def)
  have connection: "keeps_clean B lib (laminas_connection_of lib h) (\<lambda>r. \<forall>i. r = Some i \<longrightarrow> info_clean B lib i)" for h
    unfolding laminas_connection_of_def
    by (intro keeps_bind [OF php(1)] keeps_bind [OF php(2)] keeps_rules keeps_tables) simp_all
  have query: "keeps_clean B lib (case sql of Some t \<Rightarrow> query_text lib t | None \<Rightarrow> State_Monad.return []) (\<lambda>r. r = [])" for sql
    by (intro keeps_rules texts) simp
  have sql: "keeps_clean B lib (case v of Some t \<Rightarrow> State_Monad.return (Some t) | None \<Rightarrow> call_string lib h ''getSql'') (\<lambda>_. True)"
    for v h by (intro keeps_rules keeps_weaken [OF texts(2)] TrueI)
  have prepared: "keeps_clean B lib (laminas_prepared lib h v) (\<lambda>r. public B (fst r) \<and> list_all (raw_clean B lib) (snd r))" for h v
    unfolding laminas_prepared_def Let_def
    by (rule keeps_bind [OF sql], rule keeps_bind [OF query], rule keeps_bind [OF connection],
        rule keeps_bind [where Q = "\<lambda>_. True"], intro keeps_rules keeps_binds keeps_ask TrueI, simp, intro keeps_binds,
        rule keeps_bind [OF keeps_updates(2)])
      (auto simp: info_clean_def statement_clean_def names FIXED_CHARS_def intro!: keeps_return split: option.split)
  show "keeps_clean B lib (laminas_prepare_post lib ed) (\<lambda>_. True)"
    unfolding laminas_prepare_post_def
    by (intro keeps_binds keeps_bind [OF texts(6)]
        keeps_bind [where Q = "\<lambda>r. public B (fst r) \<and> list_all (raw_clean B lib) (snd r)"] keeps_rules
        prepared keeps_guards) (simp_all add: raw_list_clean FIXED_CHARS_def)
  show "keeps_clean B lib (laminas_execute_post lib ed) (\<lambda>_. True)"
    unfolding laminas_execute_post_def
    by (intro keeps_binds keeps_bind [OF texts(6)] keeps_bind [OF keeps_tables(2)] keeps_bind [where Q = "\<lambda>_. True"]
        keeps_rules keeps_ask keeps_guards TrueI) (simp_all add: statement_clean_def info_clean_def raw_list_clean)
  show "keeps_clean B lib (laminas_connection_execute_pre lib ed) (\<lambda>_. True)"
    unfolding laminas_connection_execute_pre_def
    by (intro keeps_binds keeps_bind [OF texts(4)] keeps_start) (simp_all add: names)
qed

lemma keeps_zf1_app:
  assumes "trusted B lib"
  shows "keeps_clean B lib (zf1_route_post lib ed) (\<lambda>_. True)" "keeps_clean B lib (zf1_send_response_post lib ed) (\<lambda>_. True)"
proof -
  note texts = keeps_texts [OF assms] and php = keeps_php [OF assms] and shared = keeps_shared [OF assms]
  show "keeps_clean B lib (zf1_route_post lib ed) (\<lambda>_. True)"
    unfolding zf1_route_post_def
    by (intro keeps_binds keeps_bind [OF texts(2)] keeps_bind [OF shared(3)] keeps_rules shared(3) TrueI)
      (simp_all add: maybe_public_choice(2) key_simps text_simps)
  have exception: "keeps_clean B lib (zf1_exception lib c h) (\<lambda>d. d = [])" for c h
    unfolding zf1_exception_def
    by (rule keeps_bind [OF keeps_capturing], simp,
        intro keeps_bind [OF keeps_exception_attributes [OF assms]] keeps_binds keeps_return)
      (simp_all add: raw_list_clean FIXED_CHARS_def)
  have first: "keeps_clean B lib (case v of Some (ZArr ((_, ZObj h) # _)) \<Rightarrow> zf1_exception lib c h | _ \<Rightarrow> State_Monad.return [])
      (\<lambda>d. d = [])" for v c
    by (intro keeps_rules exception) simp_all
  show "keeps_clean B lib (zf1_send_response_post lib ed) (\<lambda>_. True)"
    unfolding zf1_send_response_post_def
    by (intro keeps_binds keeps_bind [OF php(1)] keeps_bind [OF first] keeps_rules keeps_ask TrueI) simp
qed

lemma keeps_zf1_db:
  assumes "trusted B lib"
  shows "keeps_clean B lib (zf1_connect_pre lib ed) (\<lambda>_. True)" "keeps_clean B lib (zf1_connect_post lib ed) (\<lambda>_. True)"
    "keeps_clean B lib (zf1_prepare_pre lib ed) (\<lambda>_. True)" "keeps_clean B lib (zf1_prepare_post lib ed) (\<lambda>_. True)"
    "keeps_clean B lib (zf1_execute_pre lib ed) (\<lambda>_. True)"
proof -
  note texts = keeps_texts [OF assms] and php = keeps_php [OF assms] and names = sql_names_public [OF assms]
  have adapter: "list_all (raw_clean B lib)
      ((case c of Some t \<Rightarrow> [(''db.system.name'', VString (map_adapter_class_to_db_system t))] | None \<Rightarrow> [])
       @ (case config of
            ZArr a \<Rightarrow> (case map_of a (symtable_key ''dbname'') of
               Some v \<Rightarrow> [(''db.namespace'', VString (named_or [] (utf8_text v)))] | None \<Rightarrow> [])
          | _ \<Rightarrow> []))" if "property_public B ''_config'' config" for c config
    using that
    by (auto simp: key_simps property_public_def map_adapter_class_to_db_system_def systems_public named_or_def maybe_public_def
        split: option.split zval.split)
  have span: "keeps_clean B lib (zf1_connect_span lib ed h c) (\<lambda>_. True)" for h c
    unfolding zf1_connect_span_def Let_def
    by (rule keeps_bind [OF php(2)], intro keeps_bind [OF keeps_start] keeps_binds keeps_updates;
        (simp only: info_clean_def connection_info.simps)?; (rule adapter, assumption)?; simp add: FIXED_CHARS_def)
  show "keeps_clean B lib (zf1_connect_pre lib ed) (\<lambda>_. True)"
    unfolding zf1_connect_pre_def Let_def
    by (intro keeps_binds keeps_bind [OF keeps_reads] keeps_bind [OF php(2)] keeps_bind [where Q = "\<lambda>_. True"] keeps_rules span
        keeps_guards TrueI)
  have unflag: "keeps_clean B lib (State_Monad.update (\<lambda>w. w\<lparr>aw_flags := remove_exec_data_flag ed (aw_flags w)\<rparr>)) (\<lambda>_. True)"
    by (simp add: keeps_clean_def world_clean_def)
  show "keeps_clean B lib (zf1_connect_post lib ed) (\<lambda>_. True)"
    unfolding zf1_connect_post_def
    by (intro keeps_bind [OF keeps_reads] keeps_bind [OF texts(6)] keeps_bind [OF unflag] keeps_bind [where Q = "\<lambda>_. True"]
        keeps_rules keeps_guards TrueI)
  have query: "keeps_clean B lib (case sql of Some t \<Rightarrow> query_text lib t | None \<Rightarrow> State_Monad.return []) (\<lambda>r. r = [])" for sql
    by (intro keeps_rules texts) simp
  show "keeps_clean B lib (zf1_prepare_pre lib ed) (\<lambda>_. True)"
    unfolding zf1_prepare_pre_def
    by (intro keeps_binds keeps_bind [OF query] keeps_start)
      (auto simp: names FIXED_CHARS_def split: option.split)
  have prepared: "keeps_clean B lib (zf1_prepared lib ed h) (\<lambda>_. True)" for h
    unfolding zf1_prepared_def Let_def
    by (intro keeps_binds keeps_bind [OF keeps_tables(3)] keeps_bind [OF texts(4)] keeps_bind [where Q = "\<lambda>_. True"]
        keeps_rules keeps_ask keeps_updates TrueI)
      (auto simp: info_clean_def statement_clean_def raw_list_clean names FIXED_CHARS_def split: option.split)
  show "keeps_clean B lib (zf1_prepare_post lib ed) (\<lambda>_. True)"
    unfolding zf1_prepare_post_def
    by (intro keeps_binds keeps_bind [OF texts(6)] keeps_bind [where Q = "\<lambda>_. True"] keeps_rules prepared keeps_guards TrueI)
  show "keeps_clean B lib (zf1_execute_pre lib ed) (\<lambda>_. True)"
    unfolding zf1_execute_pre_def
    by (intro keeps_binds keeps_bind [OF keeps_tables(4)] keeps_bind [OF keeps_start] keeps_rules keeps_ask TrueI)
      (auto simp: statement_clean_def info_clean_def FIXED_CHARS_def split: option.split)
qed

lemma hook_of_clean:
  "(\<And>ed. keeps_clean B lib (f ed) (\<lambda>_. True)) \<Longrightarrow> hook_keeps (world_clean B lib) (hook_of f)"
  by (simp add: hook_keeps_def hook_of_def keeps_clean_def)

lemma builtin_handlers_clean:
  assumes "trusted B lib"
  shows "handlers_keep (world_clean B lib) (builtin_manager lib ini)"
proof -
  note shared = keeps_shared [OF assms]
  have name: "keeps_clean B lib (set_framework_name lib t) (\<lambda>_. True)" if "public {} t" for t
    using that by (intro shared(1)) (auto simp: public_def)
  note all = keeps_psr18 [OF assms] keeps_frameworks [OF assms] keeps_laminas_app [OF assms] keeps_laminas_db [OF assms]
    keeps_zf1_app [OF assms] keeps_zf1_db [OF assms] name shared(6,7)
  have laravel: "keeps_clean B lib (laravel_command_pre lib ed) (\<lambda>_. True)" for ed
    by (simp add: laravel_command_pre_def shared(5) FIXED_CHARS_def)
  show ?thesis unfolding handlers_keep_def
    by (auto dest!: builtin_handlers simp: laravel_plugin_def laminas_plugin_def psr18_plugin_def symfony_plugin_def zf1_plugin_def
        framework_handler_defs database_handler_defs FIXED_CHARS_def
        intro!: hook_of_clean all laravel)
qed

section \<open>Properties\<close>

text \<open>
  C31. With the capture of sensitive data off, the built-in plugins give to spans only what comes from a
  short list of sources. Choose any set \<open>B\<close> of characters such that these consist of characters of \<open>B\<close>
  and of the letters, digits and marks of \<open>FIXED_CHARS\<close>: the names taken from SQL, URLs after
  \<open>sanitize_url_value\<close> (without capture), the method of the request, the classes of exceptions, the names
  and files of traced functions, what the methods of \<open>PUBLIC_METHODS\<close> answer, the namespace parameters of
  a Laminas connection and the database name of a Zend adapter. Then, however traced functions call each
  other and whatever they do, every span is started with, and given, only names, event names and texts
  that consist of those characters too, although queries, messages and traces of exceptions, arguments and
  full URLs may have any other. An attribute has one of the keys of \<open>SPAN_KEYS\<close>, which has none for the text
  of a query or the message or trace of an exception, and holds a text or an integer; \<open>url.full\<close> is what
  \<open>sanitize_url_value\<close> leaves, cut to a length; no status has a description. The same holds for what is
  remembered of connections and statements. Assumed: what traced functions do themselves, and PHP code
  that hooks call, keeps to this. The names and URLs can still hold a part of their origin:
  \<open>Sql_Names.from_in_literal\<close>, \<open>Diagnostics.sanitize_keeps_userinfo\<close>, \<open>connection_string_is_namespace\<close>.
\<close>

theorem plugins_keep_secrets:
  assumes "clean_php B lib" and "public_sources B lib"
    and "\<forall>ed w. world_clean B lib w \<longrightarrow> world_clean B lib (body ed w)"
    and "observer_cache s = []" and "world_clean B lib (auto_world s)"
  shows "world_clean B lib (auto_world (run_calls sink instance_of (builtin_manager lib ini) body t s))"
proof -
  have "trusted B lib" using assms(1,2) by (simp add: trusted_def)
  moreover have "state_keeps (world_clean B lib) s" using assms(4,5) by (simp add: state_keeps_def)
  ultimately have "state_keeps (world_clean B lib) (run_calls sink instance_of (builtin_manager lib ini) body t s)"
    using builtin_handlers_clean assms(3) by (intro run_calls_invariant) blast+
  then show ?thesis by (simp add: state_keeps_def)
qed

text \<open>Exceptions whose message and trace have characters that no source has.\<close>

definition secretive_lib :: "(nat, nat, unit, nat, (nat \<times> nat) list, string) auto_lib" where
  "secretive_lib = example_auto_lib\<lparr>al_throwable :=
     (\<lambda>h. \<lparr>get_message = Ok (ZStr ''<secret>''), class_name = ''Exception'', get_trace_as_string = Ok (ZStr ''#0 (secret)'')\<rparr>)\<rparr>"

theorem plugins_keep_secrets_witness:
  "world_clean {} secretive_lib (auto_world (run_calls (\<lambda>_. True) example_instance (builtin_manager secretive_lib None)
     (\<lambda>_ w. w) example_calls example_start))"
proof (rule plugins_keep_secrets)
  show "clean_php {} secretive_lib"
    by (simp add: clean_php_def keeps_clean_def php_call_def php_property_def secretive_lib_def example_auto_lib_def)
  show "public_sources {} secretive_lib"
    by (simp add: public_sources_def answer_public_def property_public_def secretive_lib_def example_auto_lib_def
        exception_type_def to_str_def byte_in_def FIXED_CHARS_def)
  show "world_clean {} secretive_lib (auto_world example_start)"
    by (simp add: world_clean_def example_start_def example_world_def capture_def example_frame_def public_function_def
        example_names) (simp add: FIXED_CHARS_def example_command_def example_client_def get_file_and_line_def)
qed (simp_all add: example_empty)

section \<open>What is given away all the same\<close>

text \<open>
  The namespace of a Laminas connection falls back to its connection string, which can hold a password,
  and is an attribute of every query whether sensitive data may be captured or not.
\<close>

lemma connection_string_is_namespace:
  assumes "\<And>k. k \<in> set (butlast LAMINAS_NAMESPACE_KEYS) \<Longrightarrow> arr_text params k = None"
    and "arr_text params ''connection_string'' = Some t" and "t \<noteq> []"
  shows "(''db.namespace'', VString t) \<in> set (laminas_connection_attributes params)"
  using assms by (simp add: laminas_connection_attributes_def Let_def extract_laminas_db_namespace_def
      LAMINAS_NAMESPACE_KEYS_def map_filter_simps)

text \<open>The attributes of a connection are not cut to the limits of the request, unlike those a span starts with.\<close>

lemma namespace_not_limited:
  assumes "arr_text params ''database'' = Some t" and "t \<noteq> []"
  shows "(''db.namespace'', VString t) \<in> set (laminas_connection_attributes params)"
  using assms by (simp add: laminas_connection_attributes_def Let_def extract_laminas_db_namespace_def
      LAMINAS_NAMESPACE_KEYS_def map_filter_simps)

text \<open>
  An exception of a connect that needed no span (there was a connection already) is recorded on the span
  that happens to be current, and marks it as failed.
\<close>

lemma reconnect_exception_on_outer_span:
  assumes "map_of (aw_flags w) ed \<noteq> Some True" and "aw_frames w ed = Some f" and "fr_exception f = Some h"
    and "al_current lib (aw_attached w) = c" and "capture (al_env lib) (aw_capture w) = (False, aw_capture w)"
  shows "last (aw_calls (snd (run_state (zf1_connect_post lib ed) w)) (ctx_span (al_api lib) c)) =
    CallSetStatus (StatusError [])"
  using assms by (simp add: zf1_connect_post_def reads_def get_exec_data_flag_def record_pending_def frame_exception_def
      auto_current_def record_exception_def auto_exception_attributes_def php_exception_to_auto_attributes_def capturing_def
      ask_def deliver_def drop_guard_def)

end
