(* ===== verification/Globals.thy ===== *)
theory Globals
  imports Php_Values "HOL-Library.State_Monad"
begin

text \<open>
  \<open>OpenTelemetry API Globals\<close> (\<open>globals.rs\<close>): the providers and propagators PHP code gets when it asks for
  none in particular. What the current context holds wins; otherwise an object is made once, from native
  defaults and what registered initializers make of them.

  Calls of PHP functions, methods and closures and the making of objects are the record \<open>globals_lib\<close>.
  They may change the world, the static properties of the class included; an error is an exception.
\<close>

section \<open>Programs that can fail\<close>

type_synonym ('w, 'a) php = "('w, (php_error, 'a) result) state"

definition try_bind :: "('w, 'a) php \<Rightarrow> ('a \<Rightarrow> ('w, 'b) php) \<Rightarrow> ('w, 'b) php" where
  "try_bind m f = do {
     r \<leftarrow> m;
     case r of Inl e \<Rightarrow> State_Monad.return (Err e) | Inr x \<Rightarrow> f x
   }"

definition try_return :: "'a \<Rightarrow> ('w, 'a) php" where
  "try_return x = State_Monad.return (Ok x)"

definition look :: "('w \<Rightarrow> 'a) \<Rightarrow> ('w, 'a) state" where
  "look f = do { w \<leftarrow> State_Monad.get; State_Monad.return (f w) }"

section \<open>The class and its dependencies\<close>

record 'f globals_state =
  global_tracer_provider :: "'f zval"
  global_meter_provider :: "'f zval"
  global_logger_provider :: "'f zval"
  global_event_logger_provider :: "'f zval"
  global_propagator :: "'f zval"
  global_response_propagator :: "'f zval"

text \<open>The static properties; the object of the class is kept with its state.\<close>

record ('p, 'f) globals_world =
  php_world :: 'p
  static_initializers :: "'f zval"
  static_globals :: "('f zval \<times> 'f globals_state) option"

datatype native_class =
  TracerProviderC | MeterProviderC | LoggerProviderC | TraceContextPropagatorC | BaggagePropagatorC
| MultiPropagatorC | ResponsePropagatorC | GlobalsC

type_synonym ('p, 'f) zval_act = "(('p, 'f) globals_world, 'f zval) php"

record ('p, 'f) globals_lib =
  gx_function :: "string \<Rightarrow> 'f zval list \<Rightarrow> ('p, 'f) zval_act"
  gx_static :: "string \<Rightarrow> string \<Rightarrow> 'f zval list \<Rightarrow> ('p, 'f) zval_act"
  gx_method :: "nat \<Rightarrow> string \<Rightarrow> 'f zval list \<Rightarrow> ('p, 'f) zval_act"
  gx_closure :: "'f zval \<Rightarrow> 'f zval list \<Rightarrow> ('p, 'f) zval_act"
  gx_init :: "native_class \<Rightarrow> ('p, 'f) zval_act"
  gx_new :: "native_class \<Rightarrow> 'f zval list \<Rightarrow> ('p, 'f) zval_act"
  gx_current_context :: "('p, 'f) zval_act"
  gx_loaded :: "string \<Rightarrow> 'p \<Rightarrow> bool"

definition CONFIGURATOR_CLASS :: string where
  "CONFIGURATOR_CLASS = class_path [''OpenTelemetry'', ''API'', ''Instrumentation'', ''Configurator'']"

definition CONTEXT_KEYS_CLASS :: string where
  "CONTEXT_KEYS_CLASS = class_path [''OpenTelemetry'', ''API'', ''Instrumentation'', ''ContextKeys'']"

definition class_exists :: "('p, 'f) globals_lib \<Rightarrow> string \<Rightarrow> (('p, 'f) globals_world, bool) php" where
  "class_exists lib name = do {
     loaded \<leftarrow> look (\<lambda>w. gx_loaded lib name (php_world w));
     if loaded then try_return True
     else try_bind (gx_function lib ''class_exists'' [ZStr name, ZBool True])
       (\<lambda>v. try_return (as_bool v = Some True))
   }"

definition call_method :: "('p, 'f) globals_lib \<Rightarrow> 'f zval \<Rightarrow> string \<Rightarrow> 'f zval list \<Rightarrow> ('p, 'f) zval_act" where
  "call_method lib v m args = try_bind (State_Monad.return (expect_obj v)) (\<lambda>h. gx_method lib h m args)"

section \<open>Defaults and initializers\<close>

definition native_defaults :: "('p, 'f) globals_lib \<Rightarrow> (('p, 'f) globals_world, 'f globals_state) php" where
  "native_defaults lib =
     try_bind (gx_init lib TracerProviderC) (\<lambda>tp.
     try_bind (gx_init lib MeterProviderC) (\<lambda>mp.
     try_bind (gx_init lib LoggerProviderC) (\<lambda>lp.
     try_bind (gx_init lib TraceContextPropagatorC) (\<lambda>trace.
     try_bind (gx_init lib BaggagePropagatorC) (\<lambda>baggage.
     try_bind (gx_new lib MultiPropagatorC [ZArr [(KIndex 0, trace), (KIndex 1, baggage)]]) (\<lambda>propagator.
     try_bind (gx_init lib ResponsePropagatorC) (\<lambda>response.
     try_return \<lparr>global_tracer_provider = tp, global_meter_provider = mp, global_logger_provider = lp,
       global_event_logger_provider = lp, global_propagator = propagator, global_response_propagator = response\<rparr>)))))))"

fun with_each :: "('p, 'f) globals_lib \<Rightarrow> (string \<times> 'f zval) list \<Rightarrow> 'f zval \<Rightarrow> ('p, 'f) zval_act" where
  "with_each lib [] configurator = try_return configurator"
| "with_each lib ((m, v) # rest) configurator =
     try_bind (call_method lib configurator m [v]) (with_each lib rest)"

definition configure_native_defaults ::
  "('p, 'f) globals_lib \<Rightarrow> 'f zval \<Rightarrow> 'f globals_state \<Rightarrow> ('p, 'f) zval_act" where
  "configure_native_defaults lib configurator defaults =
     with_each lib
       [(''withTracerProvider'', global_tracer_provider defaults), (''withMeterProvider'', global_meter_provider defaults),
        (''withLoggerProvider'', global_logger_provider defaults),
        (''withEventLoggerProvider'', global_event_logger_provider defaults),
        (''withPropagator'', global_propagator defaults), (''withResponsePropagator'', global_response_propagator defaults)]
       configurator"

definition context_key :: "('p, 'f) globals_lib \<Rightarrow> string \<Rightarrow> ('p, 'f) zval_act" where
  "context_key lib m = gx_static lib CONTEXT_KEYS_CLASS m []"

definition globals_context_value :: "('p, 'f) globals_lib \<Rightarrow> 'f zval \<Rightarrow> string \<Rightarrow> ('p, 'f) zval_act" where
  "globals_context_value lib c m = try_bind (context_key lib m) (\<lambda>key. call_method lib c ''get'' [key])"

text \<open>An initializer that fails is logged and leaves the configurator as it was.\<close>

fun run_initializers ::
  "('p, 'f) globals_lib \<Rightarrow> 'f zval list \<Rightarrow> 'f zval \<Rightarrow> (('p, 'f) globals_world, 'f zval) state" where
  "run_initializers lib [] configurator = State_Monad.return configurator"
| "run_initializers lib (i # rest) configurator = do {
     r \<leftarrow> gx_closure lib i [configurator];
     run_initializers lib rest (case r of Inr configured \<Rightarrow> configured | Inl _ \<Rightarrow> configurator)
   }"

definition state_of_context ::
  "('p, 'f) globals_lib \<Rightarrow> 'f zval \<Rightarrow> (('p, 'f) globals_world, 'f globals_state) php" where
  "state_of_context lib c =
     try_bind (globals_context_value lib c ''tracerProvider'') (\<lambda>tp.
     try_bind (globals_context_value lib c ''meterProvider'') (\<lambda>mp.
     try_bind (globals_context_value lib c ''loggerProvider'') (\<lambda>lp.
     try_bind (globals_context_value lib c ''eventLoggerProvider'') (\<lambda>ep.
     try_bind (globals_context_value lib c ''propagator'') (\<lambda>propagator.
     try_bind (globals_context_value lib c ''responsePropagator'') (\<lambda>response.
     try_return \<lparr>global_tracer_provider = tp, global_meter_provider = mp, global_logger_provider = lp,
       global_event_logger_provider = ep, global_propagator = propagator, global_response_propagator = response\<rparr>))))))"

text \<open>The initializers run while the configurator is activated; it is detached whatever they do.\<close>

definition run_activated ::
  "('p, 'f) globals_lib \<Rightarrow> 'f zval list \<Rightarrow> 'f zval \<Rightarrow> ('p, 'f) zval_act" where
  "run_activated lib initializers configurator =
     try_bind (call_method lib configurator ''activate'' []) (\<lambda>scope. do {
       configured \<leftarrow> run_initializers lib initializers configurator;
       try_bind (call_method lib scope ''detach'' []) (\<lambda>_. try_return configured)
     })"

definition apply_initializers ::
  "('p, 'f) globals_lib \<Rightarrow> 'f globals_state \<Rightarrow> (('p, 'f) globals_world, 'f globals_state) php" where
  "apply_initializers lib defaults = do {
     initializers \<leftarrow> look static_initializers;
     case initializers of
       ZArr a \<Rightarrow>
         if a = [] then try_return defaults
         else try_bind (class_exists lib CONFIGURATOR_CLASS) (\<lambda>found.
           if \<not> found then try_return defaults
           else
             try_bind (gx_static lib CONFIGURATOR_CLASS ''create'' []) (\<lambda>created.
             try_bind (configure_native_defaults lib created defaults) (\<lambda>configurator.
             try_bind (run_activated lib (map snd a) configurator) (\<lambda>configured.
             try_bind (call_method lib configured ''storeInContext'' []) (state_of_context lib)))))
     | _ \<Rightarrow> try_return defaults
   }"

section \<open>The object\<close>

definition globals_instance ::
  "('p, 'f) globals_lib \<Rightarrow> (('p, 'f) globals_world, 'f zval \<times> 'f globals_state) php" where
  "globals_instance lib = do {
     made \<leftarrow> look static_globals;
     case made of
       Some g \<Rightarrow> try_return g
     | None \<Rightarrow>
         try_bind (native_defaults lib) (\<lambda>defaults.
         try_bind (apply_initializers lib defaults) (\<lambda>st.
         try_bind (gx_init lib GlobalsC) (\<lambda>object. do {
           State_Monad.update (\<lambda>w. w\<lparr>static_globals := Some (object, st)\<rparr>);
           try_return (object, st)
         })))
   }"

datatype global_item = TracerProvider | MeterProvider | LoggerProvider | EventLoggerProvider | Propagator | ResponsePropagator

fun item_method :: "global_item \<Rightarrow> string" where
  "item_method TracerProvider = ''tracerProvider''"
| "item_method MeterProvider = ''meterProvider''"
| "item_method LoggerProvider = ''loggerProvider''"
| "item_method EventLoggerProvider = ''eventLoggerProvider''"
| "item_method Propagator = ''propagator''"
| "item_method ResponsePropagator = ''responsePropagator''"

fun item_value :: "global_item \<Rightarrow> 'f globals_state \<Rightarrow> 'f zval" where
  "item_value TracerProvider = global_tracer_provider"
| "item_value MeterProvider = global_meter_provider"
| "item_value LoggerProvider = global_logger_provider"
| "item_value EventLoggerProvider = global_event_logger_provider"
| "item_value Propagator = global_propagator"
| "item_value ResponsePropagator = global_response_propagator"

definition default_value :: "('p, 'f) globals_lib \<Rightarrow> global_item \<Rightarrow> ('p, 'f) zval_act" where
  "default_value lib item = try_bind (globals_instance lib) (\<lambda>g. try_return (item_value item (snd g)))"

definition contextual_value :: "('p, 'f) globals_lib \<Rightarrow> global_item \<Rightarrow> ('p, 'f) zval_act" where
  "contextual_value lib item =
     try_bind (class_exists lib CONTEXT_KEYS_CLASS) (\<lambda>found.
       if found then
         try_bind (context_key lib (item_method item)) (\<lambda>key.
         try_bind (gx_current_context lib) (\<lambda>c.
         try_bind (call_method lib c ''get'' [key]) (\<lambda>v.
           if v \<noteq> ZNull then try_return v else default_value lib item)))
       else default_value lib item)"

definition register_initializer :: "'f zval list \<Rightarrow> (('p, 'f) globals_world, unit) php" where
  "register_initializer args =
     try_bind (State_Monad.return (arg_at args 0)) (\<lambda>i. do {
       State_Monad.update (\<lambda>w. w\<lparr>static_initializers :=
         (case static_initializers w of
            ZArr a \<Rightarrow> ZArr (a @ [(KIndex (int (length a)), i)]) | _ \<Rightarrow> ZArr [(KIndex 0, i)])\<rparr>);
       try_return ()
     })"

definition globals_reset :: "(('p, 'f) globals_world, unit) php" where
  "globals_reset = do {
     State_Monad.update (\<lambda>w. w\<lparr>static_globals := None, static_initializers := ZNull\<rparr>);
     try_return ()
   }"

text \<open>\<open>__construct\<close>, which PHP code can call for an object of its own.\<close>

definition globals_construct :: "'f zval list \<Rightarrow> (php_error, 'f globals_state) result" where
  "globals_construct args =
     result_bind (arg_at args 0) (\<lambda>tp. result_bind (arg_at args 1) (\<lambda>mp. result_bind (arg_at args 2) (\<lambda>lp.
     result_bind (arg_at args 3) (\<lambda>ep. result_bind (arg_at args 4) (\<lambda>p. result_bind (arg_at args 5) (\<lambda>r.
     Ok \<lparr>global_tracer_provider = tp, global_meter_provider = mp, global_logger_provider = lp,
       global_event_logger_provider = ep, global_propagator = p, global_response_propagator = r\<rparr>))))))"

section \<open>How programs run\<close>

lemma run_try [simp]:
  "run_state (try_return x) w = (Ok x, w)"
  "run_state (look view) w = (view w, w)"
  "run_state (try_bind m f) w = (case run_state m w of (r, w') \<Rightarrow>
     (case r of Inl e \<Rightarrow> (Err e, w') | Inr x \<Rightarrow> run_state (f x) w'))"
  by (simp_all add: try_return_def look_def try_bind_def State_Monad.get_def split: prod.splits sum.splits)

lemma run_update [simp]: "run_state (State_Monad.update f) w = ((), f w)"
  by (simp add: State_Monad.update_def State_Monad.get_def State_Monad.set_def)

lemma try_bind_return [simp]: "try_bind m try_return = m"
  by (rule state.expand, rule ext) (simp split: prod.splits sum.splits)

lemma try_return_bind [simp]: "try_bind (try_return x) f = f x"
  by (rule state.expand, rule ext) simp

lemma try_bind_assoc: "try_bind (try_bind m f) g = try_bind m (\<lambda>x. try_bind (f x) g)"
  by (rule state.expand, rule ext) (simp split: prod.splits sum.splits)

text \<open>A program keeps the object when it leaves a made one as it is.\<close>

definition keeps_made :: "(('p, 'f) globals_world, 'a) state \<Rightarrow> bool" where
  "keeps_made m = (\<forall>w g. static_globals w = Some g \<longrightarrow> static_globals (snd (run_state m w)) = Some g)"

named_theorems keeping

lemma keeps_made_return [keeping]: "keeps_made (State_Monad.return x)" "keeps_made (try_return y)" "keeps_made (look f)"
  by (simp_all add: keeps_made_def)

lemma keeps_made_bind [keeping]: "keeps_made m \<Longrightarrow> (\<And>x. keeps_made (f x)) \<Longrightarrow> keeps_made (State_Monad.bind m f)"
  by (fastforce simp: keeps_made_def split: prod.splits)

lemma keeps_made_try [keeping]: "keeps_made m \<Longrightarrow> (\<And>x. keeps_made (f x)) \<Longrightarrow> keeps_made (try_bind m f)"
  by (fastforce simp: keeps_made_def split: prod.splits sum.splits)

lemma keeps_made_if [keeping]: "keeps_made a \<Longrightarrow> keeps_made b \<Longrightarrow> keeps_made (if c then a else b)"
  by simp

lemma keeps_madeD: "keeps_made m \<Longrightarrow> static_globals w = Some g \<Longrightarrow> static_globals (snd (run_state m w)) = Some g"
  unfolding keeps_made_def by blast

text \<open>What is asked of PHP: what it runs does not call \<open>Globals::reset\<close>.\<close>

definition never_resets :: "('p, 'f) globals_lib \<Rightarrow> bool" where
  "never_resets lib \<longleftrightarrow>
     (\<forall>f args. keeps_made (gx_function lib f args)) \<and> (\<forall>c m args. keeps_made (gx_static lib c m args)) \<and>
     (\<forall>h m args. keeps_made (gx_method lib h m args)) \<and> (\<forall>i args. keeps_made (gx_closure lib i args)) \<and>
     (\<forall>c. keeps_made (gx_init lib c)) \<and> (\<forall>c args. keeps_made (gx_new lib c args)) \<and>
     keeps_made (gx_current_context lib)"

lemma never_resets_call [keeping]:
  assumes "never_resets lib"
  shows "keeps_made (gx_function lib f args)" "keeps_made (gx_static lib c m args)" "keeps_made (gx_method lib h m args)"
    "keeps_made (gx_closure lib i args)" "keeps_made (gx_init lib n)" "keeps_made (gx_new lib n args)"
    "keeps_made (gx_current_context lib)"
  using assms by (simp_all add: never_resets_def)

lemma keeps_made_call_method [keeping]: "never_resets lib \<Longrightarrow> keeps_made (call_method lib v m args)"
  by (auto simp: call_method_def intro!: keeping)

lemma keeps_made_class_exists [keeping]: "never_resets lib \<Longrightarrow> keeps_made (class_exists lib c)"
  by (auto simp: class_exists_def intro!: keeping)

lemma keeps_made_context_key [keeping]: "never_resets lib \<Longrightarrow> keeps_made (context_key lib m)"
  by (auto simp: context_key_def intro!: keeping)

section \<open>What the current context holds wins\<close>

text \<open>The value in the context, \<open>ZNull\<close> when there is none.\<close>

definition value_in_context :: "('p, 'f) globals_lib \<Rightarrow> global_item \<Rightarrow> ('p, 'f) zval_act" where
  "value_in_context lib item =
     try_bind (class_exists lib CONTEXT_KEYS_CLASS) (\<lambda>found.
       if found then
         try_bind (context_key lib (item_method item)) (\<lambda>key.
         try_bind (gx_current_context lib) (\<lambda>c. call_method lib c ''get'' [key]))
       else try_return ZNull)"

lemma contextual_value_alt:
  "contextual_value lib item =
     try_bind (value_in_context lib item) (\<lambda>v. if v \<noteq> ZNull then try_return v else default_value lib item)"
  by (rule state.expand, rule ext)
    (simp add: contextual_value_def value_in_context_def split: prod.splits sum.splits)

lemma keeps_made_value_in_context [keeping]: "never_resets lib \<Longrightarrow> keeps_made (value_in_context lib item)"
  by (auto simp: value_in_context_def intro!: keeping)

section \<open>The object is made once\<close>

lemma globals_instance_made:
  "static_globals w = Some g \<Longrightarrow> run_state (globals_instance lib) w = (Ok g, w)"
  by (simp add: globals_instance_def)

lemma default_value_made:
  "static_globals w = Some g \<Longrightarrow> run_state (default_value lib item) w = (Ok (item_value item (snd g)), w)"
  by (simp add: default_value_def globals_instance_made)

lemma globals_instance_sets:
  assumes "run_state (globals_instance lib) w = (Ok g, w1)"
  shows "static_globals w1 = Some g"
  using assms by (auto simp: globals_instance_def split: option.splits prod.splits sum.splits)

lemma keeps_made_default_value [keeping]: "keeps_made (default_value lib item)"
  by (simp add: keeps_made_def default_value_made)

lemma keeps_made_contextual_value [keeping]: "never_resets lib \<Longrightarrow> keeps_made (contextual_value lib item)"
  by (auto simp: contextual_value_alt intro!: keeping)

lemma keeps_made_register [keeping]: "keeps_made (register_initializer args)"
  by (simp add: register_initializer_def keeps_made_def split: sum.splits)

text \<open>What PHP code calls on the class, \<open>reset\<close> apart.\<close>

datatype 'f globals_access = AskFor global_item | Register "'f zval list"

fun globals_call :: "('p, 'f) globals_lib \<Rightarrow> 'f globals_access \<Rightarrow> ('p, 'f) zval_act" where
  "globals_call lib (AskFor item) = contextual_value lib item"
| "globals_call lib (Register args) = try_bind (register_initializer args) (\<lambda>_. try_return ZNull)"

fun globals_calls :: "('p, 'f) globals_lib \<Rightarrow> 'f globals_access list \<Rightarrow> ('p, 'f) globals_world \<Rightarrow> ('p, 'f) globals_world" where
  "globals_calls lib [] w = w"
| "globals_calls lib (c # cs) w = globals_calls lib cs (snd (run_state (globals_call lib c) w))"

lemma keeps_made_globals_call: "never_resets lib \<Longrightarrow> keeps_made (globals_call lib c)"
  by (cases c) (auto intro!: keeping)

lemma globals_calls_keep:
  "never_resets lib \<Longrightarrow> static_globals w = Some g \<Longrightarrow> static_globals (globals_calls lib cs w) = Some g"
  by (induction cs arbitrary: w) (simp_all add: keeps_madeD keeps_made_globals_call)

section \<open>Initializers\<close>

lemma native_without_initializers:
  assumes "static_initializers w = ZNull \<or> static_initializers w = ZArr []"
  shows "run_state (apply_initializers lib defaults) w = (Ok defaults, w)"
  using assms by (auto simp: apply_initializers_def)

lemma native_without_configurator:
  assumes "run_state (class_exists lib CONFIGURATOR_CLASS) w = (Ok False, w')"
  shows "\<exists>w''. run_state (apply_initializers lib defaults) w = (Ok defaults, w'')"
  using assms by (auto simp: apply_initializers_def split: zval.splits)

definition registered :: "'f zval \<Rightarrow> 'f zval list" where
  "registered v = (case v of ZArr a \<Rightarrow> map snd a | _ \<Rightarrow> [])"

lemma registered_in_order:
  "registered (static_initializers (globals_calls lib (map (\<lambda>i. Register [i]) cs) w)) =
     registered (static_initializers w) @ cs"
  by (induction cs arbitrary: w) (simp_all add: register_initializer_def arg_at_def registered_def split: zval.splits)

text \<open>An initializer that throws has no say: the others see what they would have seen without it.\<close>

lemma failing_initializer_skipped:
  assumes "run_state (gx_closure lib i [c]) w = (Err e, w)"
  shows "run_state (run_initializers lib (i # rest) c) w = run_state (run_initializers lib rest c) w"
  using assms by simp

section \<open>Properties\<close>

text \<open>
  C39. As long as nothing resets it, the object of Globals is made once: after it has been made, any
  sequence of accesses and registrations leaves it, its propagators and its providers the same, a later
  initializer included, and asking for one of them while the current context holds none gives the one in
  the object, without another change of the world.
\<close>

theorem globals_made_once:
  assumes calm: "never_resets lib" and made: "run_state (globals_instance lib) w = (Ok g, w1)"
  shows "let w2 = globals_calls lib cs w1 in
     run_state (globals_instance lib) w2 = (Ok g, w2) \<and>
     run_state (default_value lib item) w2 = (Ok (item_value item (snd g)), w2) \<and>
     (\<forall>w3. run_state (value_in_context lib item) w2 = (Ok ZNull, w3) \<longrightarrow>
        run_state (contextual_value lib item) w2 = (Ok (item_value item (snd g)), w3))"
proof -
  let ?w2 = "globals_calls lib cs w1"
  have still: "static_globals ?w2 = Some g"
    using calm globals_instance_sets [OF made] by (rule globals_calls_keep)
  have "run_state (contextual_value lib item) ?w2 = (Ok (item_value item (snd g)), w3)"
    if none: "run_state (value_in_context lib item) ?w2 = (Ok ZNull, w3)" for w3
  proof -
    have "static_globals w3 = Some g"
      using keeps_madeD [OF keeps_made_value_in_context [OF calm] still] none by (metis snd_conv)
    with none show ?thesis by (simp add: contextual_value_alt default_value_made)
  qed
  with still show ?thesis by (simp add: Let_def globals_instance_made default_value_made)
qed

text \<open>A PHP without an SDK: objects are numbered, the current context holds nothing.\<close>

definition demo_globals_lib :: "(nat, unit) globals_lib" where
  "demo_globals_lib =
     (let fresh = do { w \<leftarrow> State_Monad.get; State_Monad.set (w\<lparr>php_world := php_world w + 1\<rparr>); try_return (ZObj (php_world w)) };
          null = try_return ZNull
      in \<lparr>gx_function = (\<lambda>_ _. null), gx_static = (\<lambda>_ _ _. fresh), gx_method = (\<lambda>_ _ _. null),
        gx_closure = (\<lambda>_ _. null), gx_init = (\<lambda>_. fresh), gx_new = (\<lambda>_ _. fresh),
        gx_current_context = fresh, gx_loaded = (\<lambda>c _. c = CONTEXT_KEYS_CLASS)\<rparr>)"

definition demo_globals_world :: "(nat, unit) globals_world" where
  "demo_globals_world = \<lparr>php_world = 0, static_initializers = ZNull, static_globals = None\<rparr>"

definition demo_made :: "unit zval \<times> unit globals_state" where
  "demo_made = (ZObj 7, \<lparr>global_tracer_provider = ZObj 0, global_meter_provider = ZObj 1, global_logger_provider = ZObj 2,
     global_event_logger_provider = ZObj 2, global_propagator = ZObj 5, global_response_propagator = ZObj 6\<rparr>)"

lemma demo_never_resets: "never_resets demo_globals_lib"
  by (simp add: never_resets_def demo_globals_lib_def keeps_made_def Let_def State_Monad.get_def State_Monad.set_def)

lemma demo_globals_made:
  "run_state (globals_instance demo_globals_lib) demo_globals_world =
     (Ok demo_made, demo_globals_world\<lparr>php_world := 8, static_globals := Some demo_made\<rparr>)"
  by (simp add: globals_instance_def native_defaults_def apply_initializers_def demo_globals_lib_def demo_globals_world_def
      demo_made_def Let_def State_Monad.get_def State_Monad.set_def)

theorem globals_made_once_witness:
  "run_state (default_value demo_globals_lib Propagator)
     (globals_calls demo_globals_lib [AskFor TracerProvider, Register [ZObj 3]]
       (demo_globals_world\<lparr>php_world := 8, static_globals := Some demo_made\<rparr>)) =
   (Ok (ZObj 5), globals_calls demo_globals_lib [AskFor TracerProvider, Register [ZObj 3]]
       (demo_globals_world\<lparr>php_world := 8, static_globals := Some demo_made\<rparr>))"
  using globals_made_once [OF demo_never_resets demo_globals_made,
      of "[AskFor TracerProvider, Register [ZObj 3]]" Propagator]
  by (simp add: Let_def demo_made_def del: globals_calls.simps)

end
