(* ===== verification/Memory_Exporters.thy ===== *)
theory Memory_Exporters
  imports Log_Record Tracer_Provider "HOL-Library.Char_ord" "HOL-Library.List_Lexorder"
begin

text \<open>
  The exporters that keep what they are given in memory (\<open>trace/memory_exporter.rs\<close>,
  \<open>logs/memory_exporter.rs\<close>, \<open>metrics/memory_exporter.rs\<close>) and turn it into PHP arrays for tests.

  The stores and the records in them are the SDK's: \<open>memory_store\<close> is what is asked of a store, and the
  records below name the parts of a record that are read. Texts that Rust's \<open>Debug\<close> or a date format
  prints are parameters.
\<close>

section \<open>Arrays\<close>

definition zlist :: "'f zval list \<Rightarrow> 'f zval" where
  "zlist vs = ZArr (map (\<lambda>(i, v). (KIndex (int i), v)) (List.enumerate 0 vs))"

definition ztable :: "(string \<times> 'f zval) list \<Rightarrow> 'f zval" where
  "ztable es = ZArr (fold (\<lambda>(k, v). zarr_insert (symtable_key k) v) es [])"

definition as_i64 :: "nat \<Rightarrow> int" where
  "as_i64 n = sint (word_of_nat n :: 64 word)"

text \<open>Microseconds since the epoch of a time in nanoseconds; a time before the epoch is the epoch.\<close>

definition micros :: "int \<Rightarrow> int" where
  "micros t = as_i64 (nat t div 1000)"

record ('x, 'a) memory_store =
  finished_items :: "'x \<Rightarrow> 'a list option"
  forget_items :: "'x \<Rightarrow> 'x"

definition memory_count :: "('x, 'a) memory_store \<Rightarrow> 'x \<Rightarrow> int" where
  "memory_count store x = (case finished_items store x of Some items \<Rightarrow> as_i64 (length items) | None \<Rightarrow> 0)"

definition memory_items :: "('x, 'a) memory_store \<Rightarrow> 'x \<Rightarrow> 'a list" where
  "memory_items store x = (case finished_items store x of Some items \<Rightarrow> items | None \<Rightarrow> [])"

section \<open>Spans\<close>

fun array_zval :: "'f otel_array \<Rightarrow> 'f zval" where
  "array_zval (ABool bs) = zlist (map ZBool bs)"
| "array_zval (AI64 ints) = zlist (map ZLong ints)"
| "array_zval (AF64 fs) = zlist (map ZDouble fs)"
| "array_zval (AString ss) = zlist (map ZStr ss)"

fun value_zval :: "'f otel_value \<Rightarrow> 'f zval" where
  "value_zval (VString s) = ZStr s"
| "value_zval (VI64 i) = ZLong i"
| "value_zval (VF64 d) = ZDouble d"
| "value_zval (VBool b) = ZBool b"
| "value_zval (VArray a) = array_zval a"

definition attributes_zval :: "'f key_value list \<Rightarrow> 'f zval" where
  "attributes_zval kvs = ztable (map (\<lambda>(k, v). (k, value_zval v)) kvs)"

text \<open>Attributes of a scope: arrays are left out.\<close>

definition scope_attributes_zval :: "'f key_value list \<Rightarrow> 'f zval" where
  "scope_attributes_zval kvs =
     ztable (map (\<lambda>(k, v). (k, value_zval v)) (filter (\<lambda>(_, v). case v of VArray _ \<Rightarrow> False | _ \<Rightarrow> True) kvs))"

definition scope_text :: "string option \<Rightarrow> 'f zval" where
  "scope_text t = ZStr (case t of Some s \<Rightarrow> s | None \<Rightarrow> [])"

definition span_scope_zval :: "'f scope \<Rightarrow> 'f zval" where
  "span_scope_zval s =
     ztable [(''name'', ZStr (scope_name s)), (''version'', scope_text (scope_version s)),
       (''schema_url'', scope_text (scope_schema_url s)), (''attributes'', scope_attributes_zval (scope_attributes s))]"

definition identity_zval :: "('t, 's, 'ts, 'sc, 'm) trace_sdk_scheme \<Rightarrow> 'sc \<Rightarrow> 'f zval" where
  "identity_zval sdk c =
     ztable [(''trace_id'', ZStr (trace_to_string sdk (sc_trace_id sdk c))),
       (''span_id'', ZStr (span_to_string sdk (sc_span_id sdk c))),
       (''trace_flags'', ZStr (hex_text [sc_flags sdk c])), (''is_remote'', ZBool (sc_remote sdk c))]"

record 'f span_event =
  event_name :: string
  event_time :: int
  event_attributes :: "'f key_value list"

record ('sc, 's, 'f) finished_span =
  fs_name :: string
  fs_context :: 'sc
  fs_parent :: 's
  fs_kind :: span_kind
  fs_start :: int
  fs_end :: int
  fs_scope :: "'f scope"
  fs_status :: span_status
  fs_attributes :: "'f key_value list"
  fs_events :: "'f span_event list"
  fs_links :: "('sc \<times> 'f key_value list) list"

definition event_zval :: "'f span_event \<Rightarrow> 'f zval" where
  "event_zval e =
     ztable [(''name'', ZStr (event_name e)), (''timestamp'', ZLong (micros (event_time e))),
       (''attributes'', attributes_zval (event_attributes e))]"

definition link_zval :: "('t, 's, 'ts, 'sc, 'm) trace_sdk_scheme \<Rightarrow> 'sc \<times> 'f key_value list \<Rightarrow> 'f zval" where
  "link_zval sdk link =
     ztable [(''span_context'', identity_zval sdk (fst link)), (''attributes'', attributes_zval (snd link))]"

definition span_zval ::
  "('t, 's, 'ts, 'sc, 'm) trace_sdk_scheme \<Rightarrow> (span_kind \<Rightarrow> string) \<Rightarrow> (span_status \<Rightarrow> string) \<Rightarrow>
     ('sc, 's, 'f) finished_span \<Rightarrow> 'f zval" where
  "span_zval sdk debug_kind debug_status s =
     ztable
       [(''name'', ZStr (fs_name s)), (''span_context'', identity_zval sdk (fs_context s)),
        (''parent_span_id'', ZStr (span_to_string sdk (fs_parent s))), (''span_kind'', ZStr (debug_kind (fs_kind s))),
        (''start_time'', ZLong (micros (fs_start s))), (''end_time'', ZLong (micros (fs_end s))),
        (''instrumentation_scope'', span_scope_zval (fs_scope s)), (''status'', ZStr (debug_status (fs_status s))),
        (''attributes'', attributes_zval (fs_attributes s)), (''events'', zlist (map event_zval (fs_events s))),
        (''links'', zlist (map (link_zval sdk) (fs_links s)))]"

definition get_spans ::
  "('t, 's, 'ts, 'sc, 'm) trace_sdk_scheme \<Rightarrow> (span_kind \<Rightarrow> string) \<Rightarrow> (span_status \<Rightarrow> string) \<Rightarrow>
     ('x, ('sc, 's, 'f) finished_span) memory_store \<Rightarrow> 'x \<Rightarrow> 'f zval" where
  "get_spans sdk debug_kind debug_status store x =
     zlist (map (span_zval sdk debug_kind debug_status) (memory_items store x))"

definition memory_reset :: "('x, 'a) memory_store \<Rightarrow> 'x \<Rightarrow> 'x" where
  "memory_reset store x = forget_items store x"

section \<open>Logs\<close>

record ('t, 's, 'f) stored_log =
  sl_body :: "'f any_value option"
  sl_severity :: "otel_severity option"
  sl_severity_text :: "string option"
  sl_event_name :: "string option"
  sl_trace :: "('t \<times> 's \<times> u8 option) option"
  sl_timestamp :: "int option"
  sl_observed :: "int option"
  sl_attributes :: "(string \<times> 'f any_value) list"
  sl_scope :: "'f scope"
  sl_resource :: "(string \<times> 'f otel_value) list"

record ('t, 's, 'f) log_texts =
  debug_body :: "'f any_value option \<Rightarrow> string"
  debug_any :: "'f any_value \<Rightarrow> string"
  debug_value :: "'f otel_value \<Rightarrow> string"
  hex_trace :: "'t \<Rightarrow> string"
  hex_span :: "'s \<Rightarrow> string"
  rfc3339 :: "int \<Rightarrow> nat \<Rightarrow> string option"

definition severity_as_i64 :: "otel_severity option \<Rightarrow> int" where
  "severity_as_i64 s = (case find (\<lambda>n. severity_of_number n = s) [1..24] of Some n \<Rightarrow> n | None \<Rightarrow> 0)"

definition trace_entries :: "('t, 's, 'f) log_texts \<Rightarrow> ('t \<times> 's \<times> u8 option) option \<Rightarrow> (string \<times> 'f zval) list" where
  "trace_entries texts c =
     (case c of
        None \<Rightarrow> []
      | Some (t, s, flags) \<Rightarrow>
          [(''trace_id'', ZStr (hex_trace texts t)), (''span_id'', ZStr (hex_span texts s))] @
          (case flags of Some f \<Rightarrow> [(''trace_flags'', ZLong (uint f))] | None \<Rightarrow> []))"

text \<open>A time before the epoch, and one the calendar does not reach, is left out.\<close>

definition time_text :: "('t, 's, 'f) log_texts \<Rightarrow> int \<Rightarrow> string option" where
  "time_text texts t =
     (if t < 0 then None else rfc3339 texts (as_i64 (nat t div 1000000000)) (nat t mod 1000000000))"

definition time_entry :: "('t, 's, 'f) log_texts \<Rightarrow> string \<Rightarrow> int option \<Rightarrow> (string \<times> 'f zval) list" where
  "time_entry texts name t =
     (case Option.bind t (time_text texts) of Some x \<Rightarrow> [(name, ZStr x)] | None \<Rightarrow> [])"

definition texts_zval :: "('a \<Rightarrow> string) \<Rightarrow> (string \<times> 'a) list \<Rightarrow> 'f zval" where
  "texts_zval debug es = ztable (map (\<lambda>(k, v). (k, ZStr (debug v))) es)"

definition log_scope_zval :: "('t, 's, 'f) log_texts \<Rightarrow> 'f scope \<Rightarrow> 'f zval" where
  "log_scope_zval texts s =
     ztable [(''name'', ZStr (scope_name s)), (''version'', scope_text (scope_version s)),
       (''schema_url'', scope_text (scope_schema_url s)),
       (''attributes'', texts_zval (debug_value texts) (scope_attributes s))]"

definition log_zval :: "('t, 's, 'f) log_texts \<Rightarrow> ('t, 's, 'f) stored_log \<Rightarrow> 'f zval" where
  "log_zval texts r =
     ztable
       ([(''body'', ZStr (debug_body texts (sl_body r))),
         (''severity_number'', ZLong (case sl_severity r of Some s \<Rightarrow> severity_as_i64 (Some s) | None \<Rightarrow> 0)),
         (''severity_text'', scope_text (sl_severity_text r)), (''event_name'', scope_text (sl_event_name r))] @
        trace_entries texts (sl_trace r) @
        time_entry texts ''timestamp'' (sl_timestamp r) @ time_entry texts ''observed_timestamp'' (sl_observed r) @
        [(''attributes'', texts_zval (debug_any texts) (sl_attributes r)),
         (''instrumentation_scope'', log_scope_zval texts (sl_scope r)),
         (''resource'', texts_zval (debug_value texts) (sort_key fst (sl_resource r)))])"

definition get_logs ::
  "('t, 's, 'f) log_texts \<Rightarrow> ('x, ('t, 's, 'f) stored_log) memory_store \<Rightarrow> 'x \<Rightarrow> 'f zval" where
  "get_logs texts store x = zlist (map (log_zval texts) (memory_items store x))"

section \<open>Metrics\<close>

record ('n, 'f) histogram_point =
  hp_count :: nat
  hp_sum :: 'n
  hp_min :: "'n option"
  hp_max :: "'n option"
  hp_bounds :: "'f list"
  hp_buckets :: "nat list"
  hp_attributes :: "'f key_value list"

datatype ('n, 'e, 'f) metric_data =
  GaugeData "('n \<times> 'f key_value list) list"
| SumData bool "('n \<times> 'f key_value list) list"
| HistogramData "('n, 'f) histogram_point list"
| ExponentialHistogramData "'e list"

datatype ('e, 'f) aggregated_metrics =
  AggregatedF64 "('f, 'e, 'f) metric_data"
| AggregatedI64 "(int, 'e, 'f) metric_data"
| AggregatedU64 "(nat, 'e, 'f) metric_data"

record ('e, 'f) metric_texts =
  i64_as_f64 :: "int \<Rightarrow> 'f"
  u64_as_f64 :: "nat \<Rightarrow> 'f"
  debug_array :: "'f otel_array \<Rightarrow> string"
  debug_point :: "'e \<Rightarrow> string"

definition metric_attributes_zval :: "('e, 'f) metric_texts \<Rightarrow> 'f key_value list \<Rightarrow> 'f zval" where
  "metric_attributes_zval texts kvs =
     ztable (map (\<lambda>(k, v). (k, case v of VArray a \<Rightarrow> ZStr (debug_array texts a) | _ \<Rightarrow> value_zval v)) kvs)"

definition number_point_zval :: "('e, 'f) metric_texts \<Rightarrow> ('n \<Rightarrow> 'f) \<Rightarrow> 'n \<times> 'f key_value list \<Rightarrow> 'f zval" where
  "number_point_zval texts as_f64 point =
     ztable [(''value'', ZDouble (as_f64 (fst point))), (''attributes'', metric_attributes_zval texts (snd point))]"

definition histogram_point_zval :: "('e, 'f) metric_texts \<Rightarrow> ('n \<Rightarrow> 'f) \<Rightarrow> ('n, 'f) histogram_point \<Rightarrow> 'f zval" where
  "histogram_point_zval texts as_f64 p =
     ztable
       ([(''count'', ZLong (as_i64 (hp_count p))), (''sum'', ZDouble (as_f64 (hp_sum p)))] @
        (case hp_min p of Some m \<Rightarrow> [(''min'', ZDouble (as_f64 m))] | None \<Rightarrow> []) @
        (case hp_max p of Some m \<Rightarrow> [(''max'', ZDouble (as_f64 m))] | None \<Rightarrow> []) @
        [(''bounds'', zlist (map ZDouble (hp_bounds p))),
         (''bucket_counts'', zlist (map (\<lambda>n. ZLong (as_i64 n)) (hp_buckets p))),
         (''attributes'', metric_attributes_zval texts (hp_attributes p))])"

fun serialize_data :: "('e, 'f) metric_texts \<Rightarrow> ('n \<Rightarrow> 'f) \<Rightarrow> ('n, 'e, 'f) metric_data \<Rightarrow> string \<times> 'f zval" where
  "serialize_data texts as_f64 (GaugeData points) = (''gauge'', zlist (map (number_point_zval texts as_f64) points))"
| "serialize_data texts as_f64 (SumData monotonic points) =
     (if monotonic then ''counter'' else ''up_down_counter'', zlist (map (number_point_zval texts as_f64) points))"
| "serialize_data texts as_f64 (HistogramData points) =
     (''histogram'', zlist (map (histogram_point_zval texts as_f64) points))"
| "serialize_data texts as_f64 (ExponentialHistogramData points) =
     (''exponential_histogram'', zlist (map (\<lambda>p. ztable [(''debug'', ZStr (debug_point texts p))]) points))"

record ('e, 'f) stored_metric =
  sm_name :: string
  sm_description :: string
  sm_unit :: string
  sm_data :: "('e, 'f) aggregated_metrics"

type_synonym ('e, 'f) stored_scope = "string \<times> ('e, 'f) stored_metric list"

fun metric_data_zval :: "('e, 'f) metric_texts \<Rightarrow> ('e, 'f) aggregated_metrics \<Rightarrow> string \<times> 'f zval" where
  "metric_data_zval texts (AggregatedF64 d) = serialize_data texts (\<lambda>x. x) d"
| "metric_data_zval texts (AggregatedI64 d) = serialize_data texts (i64_as_f64 texts) d"
| "metric_data_zval texts (AggregatedU64 d) = serialize_data texts (u64_as_f64 texts) d"

definition metric_zval :: "('e, 'f) metric_texts \<Rightarrow> string \<Rightarrow> ('e, 'f) stored_metric \<Rightarrow> 'f zval" where
  "metric_zval texts scope m =
     (let (kind, points) = metric_data_zval texts (sm_data m) in
      ztable [(''name'', ZStr (sm_name m)), (''description'', ZStr (sm_description m)), (''unit'', ZStr (sm_unit m)),
        (''kind'', ZStr kind), (''scope'', ZStr scope), (''data_points'', points)])"

definition metrics_count :: "('x, ('e, 'f) stored_scope list) memory_store \<Rightarrow> 'x \<Rightarrow> int" where
  "metrics_count store x = as_i64 (length (concat (map snd (concat (memory_items store x)))))"

definition get_metrics :: "('e, 'f) metric_texts \<Rightarrow> ('x, ('e, 'f) stored_scope list) memory_store \<Rightarrow> 'x \<Rightarrow> 'f zval" where
  "get_metrics texts store x =
     zlist (concat (map (\<lambda>resource. concat (map (\<lambda>(scope, metrics). map (metric_zval texts scope) metrics) resource))
       (memory_items store x)))"

section \<open>Arrays that are read back\<close>

lemma zlist_snd: "zlist vs = ZArr a \<Longrightarrow> map snd a = vs"
  by (auto simp: zlist_def intro!: nth_equalityI simp: nth_enumerate_eq)

lemma zlist_of_values: "map fst a = map (\<lambda>i. KIndex (int i)) [0..<length a] \<Longrightarrow> zlist (map snd a) = ZArr a"
proof -
  assume keys: "map fst a = map (\<lambda>i. KIndex (int i)) [0..<length a]"
  have "fst (a ! i) = KIndex (int i)" if "i < length a" for i
    using arg_cong [OF keys, of "\<lambda>l. l ! i"] that by simp
  then show ?thesis
    unfolding zlist_def by (auto intro!: nth_equalityI simp: nth_enumerate_eq) (metis prod.collapse)
qed

lemma ztable_distinct:
  "distinct (map fst es) \<Longrightarrow> ztable es = ZArr (map (\<lambda>(k, v). (symtable_key k, v)) es)"
proof -
  have "distinct (map fst es) \<Longrightarrow> (\<forall>k\<in>fst ` set es. symtable_key k \<notin> fst ` set acc) \<Longrightarrow>
      fold (\<lambda>(k, v). zarr_insert (symtable_key k) v) es acc = acc @ map (\<lambda>(k, v). (symtable_key k, v)) es" for acc
  proof (induction es arbitrary: acc)
    case (Cons ke es)
    obtain k e where ke: "ke = (k, e)" by (cases ke)
    have new: "zarr_insert (symtable_key k) e acc = acc @ [(symtable_key k, e)]"
      using Cons.prems(2) ke by (intro zarr_insert_new) auto
    have "\<forall>l\<in>fst ` set es. symtable_key l \<notin> fst ` set (acc @ [(symtable_key k, e)])"
      using Cons.prems ke by (auto simp: symtable_key_inj image_iff)
    with Cons ke show ?case by (simp add: new)
  qed simp
  from this [of "[]"] show "distinct (map fst es) \<Longrightarrow> ztable es = ZArr (map (\<lambda>(k, v). (symtable_key k, v)) es)"
    by (simp add: ztable_def)
qed

lemma length_concat_concat:
  "(\<And>x. length (f x) = length (g x)) \<Longrightarrow>
     length (concat (map (\<lambda>r. concat (map f r)) xs)) = length (concat (map g (concat xs)))"
proof -
  assume same: "\<And>x. length (f x) = length (g x)"
  have "length (concat (map f r)) = length (concat (map g r))" for r
    by (induction r) (simp_all add: same)
  then show ?thesis by (induction xs) simp_all
qed

lemma counts_are_lengths:
  "\<exists>a. get_spans sdk dk ds store x = ZArr a \<and> memory_count store x = as_i64 (length a)"
  "\<exists>a. get_logs texts lstore y = ZArr a \<and> memory_count lstore y = as_i64 (length a)"
  "\<exists>a. get_metrics mtexts mstore z = ZArr a \<and> metrics_count mstore z = as_i64 (length a)"
proof -
  show "\<exists>a. get_spans sdk dk ds store x = ZArr a \<and> memory_count store x = as_i64 (length a)"
    by (simp add: get_spans_def zlist_def memory_count_def memory_items_def as_i64_def split: option.splits)
  show "\<exists>a. get_logs texts lstore y = ZArr a \<and> memory_count lstore y = as_i64 (length a)"
    by (simp add: get_logs_def zlist_def memory_count_def memory_items_def as_i64_def split: option.splits)
  have "length (concat (map (\<lambda>r. concat (map (\<lambda>(scope, metrics). map (metric_zval mtexts scope) metrics) r)) xs)) =
      length (concat (map snd (concat xs)))" for xs
    by (rule length_concat_concat) auto
  then show "\<exists>a. get_metrics mtexts mstore z = ZArr a \<and> metrics_count mstore z = as_i64 (length a)"
    by (simp add: get_metrics_def zlist_def metrics_count_def)
qed

text \<open>Values that the extension takes as they are: texts that fit, numbers, and lists of one type that fit.\<close>

fun text_fits :: "attr_limits \<Rightarrow> 'f zval \<Rightarrow> bool" where
  "text_fits l (ZStr b) = (valid_utf8 b \<and> fits (limit_value_length l) b)"
| "text_fits l v = False"

fun double_of :: "'f zval \<Rightarrow> 'f option" where
  "double_of (ZDouble d) = Some d"
| "double_of v = None"

definition plain_list :: "attr_limits \<Rightarrow> (zkey \<times> 'f zval) list \<Rightarrow> bool" where
  "plain_list l a \<longleftrightarrow>
     map fst a = map (\<lambda>i. KIndex (int i)) [0..<length a] \<and> length a \<le> limit_array_length l \<and>
     (let vs = map snd a in
      list_all (text_fits l) vs \<or> list_all (\<lambda>v. long_of v \<noteq> None) vs \<or>
      list_all (\<lambda>v. double_of v \<noteq> None) vs \<or> list_all (\<lambda>v. bool_of v \<noteq> None) vs)"

fun plain_value :: "attr_limits \<Rightarrow> 'f zval \<Rightarrow> bool" where
  "plain_value l ZNull = False"
| "plain_value l (ZBool b) = True"
| "plain_value l (ZLong i) = True"
| "plain_value l (ZDouble d) = True"
| "plain_value l (ZStr b) = (valid_utf8 b \<and> fits (limit_value_length l) b)"
| "plain_value l (ZArr a) = plain_list l a"
| "plain_value l (ZObj h) = False"

definition plain_key :: "attr_limits \<Rightarrow> zkey \<Rightarrow> bool" where
  "plain_key l k \<longleftrightarrow>
     (case k of KIndex _ \<Rightarrow> False
      | KStr b \<Rightarrow> valid_utf8 b \<and> symtable_key b = KStr b \<and> valid_attribute_key b l)"

definition plain_array :: "attr_limits \<Rightarrow> (zkey \<times> 'f zval) list \<Rightarrow> bool" where
  "plain_array l a \<longleftrightarrow>
     length a \<le> limit_count l \<and> distinct (map fst a) \<and> list_all (\<lambda>(k, v). plain_key l k \<and> plain_value l v) a"

lemma all_of_map:
  "(\<And>v x. f v = Some x \<Longrightarrow> v = mk x) \<Longrightarrow> list_all (\<lambda>v. f v \<noteq> None) vs \<Longrightarrow>
     \<exists>xs. all_of f vs = Some xs \<and> vs = map mk xs"
  by (rule exI [of _ "map (\<lambda>v. the (f v)) vs"]) (auto simp: all_of_def list_all_iff map_idI)

lemma long_of_Some: "long_of v = Some i \<Longrightarrow> v = ZLong i" by (cases v) auto
lemma double_of_Some: "double_of v = Some d \<Longrightarrow> v = ZDouble d" by (cases v) auto
lemma bool_of_Some: "bool_of v = Some b \<Longrightarrow> v = ZBool b" by (cases v) auto

lemma all_of_const:
  "all_of utf8_text (map ZLong is) = (if is = [] then Some [] else None)"
  "all_of utf8_text (map ZDouble ds) = (if ds = [] then Some [] else None)"
  "all_of utf8_text (map ZBool bs) = (if bs = [] then Some [] else None)"
  "all_of long_of (map ZDouble ds) = (if ds = [] then Some [] else None)"
  "all_of long_of (map ZBool bs) = (if bs = [] then Some [] else None)"
  "all_of (number_of t) (map ZBool bs) = (if bs = [] then Some [] else None)"
  "all_of (number_of t) (map ZDouble ds) = Some ds"
  "all_of long_of (map ZLong is) = Some is"
  "all_of bool_of (map ZBool bs) = Some bs"
  by (auto simp: all_of_def intro!: map_idI)

text \<open>A plain list becomes an array of the SDK with the same values.\<close>

lemma plain_list_kind:
  assumes "plain_list l a"
  shows "\<exists>kind. reference_kind t l (map snd a) = Some kind \<and> array_zval (array_of_kind kind) = ZArr a"
proof -
  have z: "zlist (map snd a) = ZArr a" and n: "length a \<le> limit_array_length l"
    using assms zlist_of_values by (auto simp: plain_list_def)
  consider (S) "list_all (text_fits l) (map snd a)" | (I) xs where "map snd a = map ZLong xs"
    | (D) xs where "map snd a = map ZDouble xs" | (B) xs where "map snd a = map ZBool xs"
    using assms all_of_map [of long_of ZLong, OF long_of_Some] all_of_map [of double_of ZDouble, OF double_of_Some]
      all_of_map [of bool_of ZBool, OF bool_of_Some]
    unfolding plain_list_def Let_def by metis
  then show ?thesis
  proof cases
    case S
    let ?texts = "map (\<lambda>v. the (utf8_text v)) (map snd a)"
    have fit: "\<exists>b. v = ZStr b \<and> valid_utf8 b \<and> fits (limit_value_length l) b" if "v \<in> set (map snd a)" for v
    proof -
      have "text_fits l v" using S that by (auto simp: list_all_iff)
      then show ?thesis by (cases v) auto
    qed
    then have all: "all_of utf8_text (map snd a) = Some ?texts"
      unfolding all_of_def by (fastforce simp: to_str_def)
    have cut: "map (\<lambda>s. truncate_string s (limit_value_length l)) ?texts = ?texts" "map ZStr ?texts = map snd a"
      using fit by (force simp: to_str_def truncate_id intro!: map_idI)+
    show ?thesis
    proof (cases "a = []")
      case False
      then have "reference_kind t l (map snd a) = Some (KString ?texts)"
        using all cut(1) n by (simp add: reference_kind_def Let_def)
      with z cut(2) show ?thesis by (metis array_of_kind.simps(2) array_zval.simps(4))
    qed (use z in \<open>simp add: reference_kind_def\<close>)
  next
    case (I xs)
    with n have "length xs \<le> limit_array_length l" by (metis length_map)
    with I z show ?thesis by (cases "xs = []") (auto simp: reference_kind_def all_of_const)
  next
    case (D xs)
    with n have "length xs \<le> limit_array_length l" by (metis length_map)
    with D z show ?thesis by (cases "xs = []") (auto simp: reference_kind_def all_of_const)
  next
    case (B xs)
    with n have "length xs \<le> limit_array_length l" by (metis length_map)
    with B z show ?thesis by (cases "xs = []") (auto simp: reference_kind_def all_of_const)
  qed
qed

lemma plain_value_back:
  assumes "valid_attribute_key k (for_destination c d)" and "plain_value (for_destination c d) v"
  shows "\<exists>w. zval_to_key_value t c d k v = Some (k, w) \<and> value_zval w = v"
proof (cases v)
  case (ZArr a)
  with assms(2) obtain kind where
    "reference_kind t (for_destination c d) (map snd a) = Some kind" "array_zval (array_of_kind kind) = ZArr a"
    using plain_list_kind by fastforce
  then show ?thesis
    using assms(1) ZArr array_loop_reference [of t "for_destination c d" "[]" KEmpty "map snd a"]
    by (simp add: zval_to_key_value_def zval_to_vec_def reference_kind_def)
qed (use assms in \<open>simp_all add: zval_to_key_value_def to_str_def truncate_id\<close>)

lemma convert_plain:
  assumes "list_all (\<lambda>(k, v). plain_key (for_destination c d) k \<and> plain_value (for_destination c d) v) a"
  shows "map (\<lambda>(k, v). (symtable_key k, value_zval v)) (List.map_filter (convert_entry t c d) a) = a"
  using assms
proof (induction a)
  case (Cons e a)
  obtain k v where e: "e = (k, v)" by (cases e)
  with Cons.prems obtain b where b: "k = KStr b" "valid_utf8 b" "symtable_key b = KStr b"
      "valid_attribute_key b (for_destination c d)" "plain_value (for_destination c d) v"
    by (auto simp: plain_key_def split: zkey.splits)
  from plain_value_back [OF b(4,5), of t] obtain w
    where "zval_to_key_value t c d b v = Some (b, w)" "value_zval w = v" by blast
  with Cons e b show ?case by (simp add: map_filter_simps to_str_def)
qed (simp add: map_filter_simps)

lemma plain_array_back:
  assumes "plain_array (for_destination c d) a"
  shows "attributes_zval (zval_arr_to_key_value_vec t c a d) = ZArr a"
proof -
  let ?kvs = "List.map_filter (convert_entry t c d) a"
  have entries: "map (\<lambda>(k, v). (symtable_key k, value_zval v)) ?kvs = a"
    by (rule convert_plain) (use assms in \<open>simp add: plain_array_def\<close>)
  have "length ?kvs = length a" using arg_cong [OF entries, of length] by simp
  then have all: "zval_arr_to_key_value_vec t c a d = ?kvs"
    using assms by (simp add: zval_arr_to_key_value_vec_take plain_array_def)
  have "map fst a = map symtable_key (map fst ?kvs)"
    using arg_cong [OF entries, of "map fst"] by (simp add: comp_def case_prod_beta')
  then have "distinct (map fst ?kvs)"
    using assms by (metis distinct_map plain_array_def)
  with entries all show ?thesis
    by (simp add: attributes_zval_def ztable_distinct comp_def case_prod_beta')
qed

definition table_entry :: "'f zval \<Rightarrow> string \<Rightarrow> 'f zval option" where
  "table_entry v name = (case v of ZArr a \<Rightarrow> map_of a (symtable_key name) | _ \<Rightarrow> None)"

lemma map_of_symtable [simp]: "map_of (map (\<lambda>(k, v). (symtable_key k, v)) es) (symtable_key name) = map_of es name"
  by (induction es) (auto simp: symtable_key_inj)

lemma table_entry_ztable: "distinct (map fst es) \<Longrightarrow> table_entry (ztable es) name = map_of es name"
  by (simp add: ztable_distinct table_entry_def)

lemma span_entry: "table_entry (span_zval sdk dk ds s) ''attributes'' = Some (attributes_zval (fs_attributes s))"
  by (simp add: span_zval_def table_entry_ztable)

lemma event_entry: "table_entry (event_zval e) ''attributes'' = Some (attributes_zval (event_attributes e))"
  by (simp add: event_zval_def table_entry_ztable)

lemma link_entry: "table_entry (link_zval sdk (c, kvs)) ''attributes'' = Some (attributes_zval kvs)"
  by (simp add: link_zval_def table_entry_ztable)

section \<open>Properties\<close>

text \<open>
  C40. What PHP code gives as attributes is what it reads back: an array with textual keys whose values are
  booleans, numbers, texts and lists of one of these types, all within the limits, is found under
  \<open>attributes\<close> in the array the memory exporter makes of a span, an event or a link that got the converted
  attributes, with the same keys and values in the same order.
\<close>

theorem attributes_read_back:
  assumes "plain_array (for_destination c d) arr"
  shows "let kvs = zval_arr_to_key_value_vec to_f64 c arr d in
    table_entry (span_zval sdk debug_kind debug_status (s\<lparr>fs_attributes := kvs\<rparr>)) ''attributes'' = Some (ZArr arr)
  \<and> table_entry (event_zval (e\<lparr>event_attributes := kvs\<rparr>)) ''attributes'' = Some (ZArr arr)
  \<and> table_entry (link_zval sdk (identity, kvs)) ''attributes'' = Some (ZArr arr)"
  using plain_array_back [OF assms, of to_f64] by (simp add: Let_def span_entry event_entry link_entry)

definition demo_attributes :: "(zkey \<times> int zval) list" where
  "demo_attributes =
     [(KStr ''user'', ZStr ''ann''), (KStr ''ids'', ZArr [(KIndex 0, ZLong 4), (KIndex 1, ZLong 2)]), (KStr ''load'', ZDouble 7),
      (KStr ''tags'', ZArr [])]"

definition demo_memory_limits :: attr_limit_config where
  "demo_memory_limits = attribute_limits_from_env []"

definition demo_event :: "int span_event" where
  "demo_event = \<lparr>event_name = ''login'', event_time = 0, event_attributes = []\<rparr>"

lemma no_settings: "configured_limit [] name fallback = fallback"
  by (simp add: configured_limit_def env_var_def)

lemma demo_memory_limits_event:
  "for_destination demo_memory_limits Event =
     \<lparr>limit_count = 128, limit_key_length = 256, limit_value_length = usize_max, limit_array_length = 128\<rparr>"
  by (simp add: demo_memory_limits_def attribute_limits_from_env_def Let_def no_settings DEFAULT_ATTRIBUTE_COUNT_LIMIT_def
      DEFAULT_ATTRIBUTE_KEY_LENGTH_LIMIT_def DEFAULT_ATTRIBUTE_ARRAY_LENGTH_LIMIT_def)

lemma demo_keys:
  "valid_utf8 ''user''" "valid_utf8 ''ids''" "valid_utf8 ''load''" "valid_utf8 ''tags''" "valid_utf8 ''ann''"
  by (simp_all add: byte_in_def)

lemma demo_key_lengths:
  "char_count ''user'' \<le> 256" "char_count ''ids'' \<le> 256" "char_count ''load'' \<le> 256" "char_count ''tags'' \<le> 256"
  using length_utf8_chars_le [of "''user''"] length_utf8_chars_le [of "''ids''"] length_utf8_chars_le [of "''load''"]
    length_utf8_chars_le [of "''tags''"]
  by (simp_all add: char_count_def)

lemma demo_attributes_plain: "plain_array (for_destination demo_memory_limits Event) demo_attributes"
  unfolding demo_memory_limits_event
  by (simp add: plain_array_def demo_attributes_def plain_key_def plain_list_def valid_attribute_key_def fits_def demo_keys
      demo_key_lengths symtable_key_name is_ascii_digit_def del: valid_utf8.simps)

theorem attributes_read_back_witness:
  "table_entry (event_zval (demo_event\<lparr>event_attributes :=
     zval_arr_to_key_value_vec (\<lambda>i. i) demo_memory_limits demo_attributes Event\<rparr>)) ''attributes'' = Some (ZArr demo_attributes)"
  using attributes_read_back [OF demo_attributes_plain, of "\<lambda>i. i" byte_sdk "\<lambda>_. ''Server''" "\<lambda>_. ''Unset''" _ demo_event]
  unfolding Let_def by blast

end
