(* ===== verification/Baggage_Binding.thy ===== *)
theory Baggage_Binding
  imports Span_Binding Baggage
begin

text \<open>
  Baggage in contexts (\<open>baggage/baggage.rs\<close>: \<open>fromContext\<close>, \<open>getEmpty\<close>, \<open>getCurrent\<close>, \<open>activate\<close>,
  \<open>storeInContext\<close>) and the static methods of \<open>Context\<close> (\<open>context/context_class.rs\<close>: \<open>createKey\<close>,
  \<open>getCurrent\<close>, \<open>resolve\<close>, \<open>setStorage\<close>, \<open>storage\<close>).

  A baggage object is stored in a context under the baggage key; a context without one has the shared
  empty baggage. Making objects is the record \<open>baggage_lib\<close>; \<open>baggage_statics\<close> are the static properties.
\<close>

section \<open>Static properties\<close>





section \<open>The baggage of a context\<close>





text \<open>The constructors: a baggage takes what is not an array for no entries, metadata must be a string.\<close>

definition baggage_construct :: "(zkey \<times> 'f entry) list option \<Rightarrow> 'f entries" where
  "baggage_construct a = (case a of Some es \<Rightarrow> entries_from_array es | None \<Rightarrow> [])"

definition metadata_construct :: "'f zval list \<Rightarrow> (php_error, bytes) result" where
  "metadata_construct args = result_bind (arg_at args 0) expect_str"

section \<open>Static methods of Context\<close>

definition create_key :: "'f zval list \<Rightarrow> (php_error, string) result" where
  "create_key args = result_bind (arg_at args 0) expect_utf8"

definition key_construct :: "'f zval list \<Rightarrow> string option" where
  "key_construct args = (case args of ZStr b # _ \<Rightarrow> to_str b | _ \<Rightarrow> None)"

definition set_storage :: "'f zval list \<Rightarrow> 'f zval option \<Rightarrow> (php_error, unit) result \<times> 'f zval option" where
  "set_storage args custom = (case arg_at args 0 of Inl e \<Rightarrow> (Err e, custom) | Inr v \<Rightarrow> (Ok (), Some v))"

definition clear_custom_storage :: "'f zval option \<Rightarrow> 'f zval option" where
  "clear_custom_storage custom = None"

text \<open>\<open>resolve\<close>: the object that was passed, or a new object for a native context.\<close>

datatype ('c, 'f) resolved = Given "'f zval" | NewContext "('c, 'f) context_obj"

definition answer_or_root ::
  "('c, 'sc) otel_api \<Rightarrow> (php_error, 'f zval) result \<Rightarrow> (php_error, ('c, 'f) resolved) result" where
  "answer_or_root api answer =
     result_bind answer (\<lambda>v. Ok (if is_obj v then Given v else NewContext (context_get_root api)))"

definition context_resolve ::
  "('c, 'sc) otel_api \<Rightarrow> (nat \<Rightarrow> (php_error, 'f zval) result) \<Rightarrow> 'f zval option \<Rightarrow> 'c \<Rightarrow> 'f zval list \<Rightarrow>
     ('c, 'f) ctx_storage \<Rightarrow> (php_error, ('c, 'f) resolved) result \<times> ('c, 'f) ctx_storage" where
  "context_resolve api call_current custom ambient args st =
     (case arg_at args 0 of
        Inl e \<Rightarrow> (Err e, st)
      | Inr (ZObj h) \<Rightarrow> (Ok (Given (ZObj h)), st)
      | Inr (ZBool False) \<Rightarrow> (Ok (NewContext (context_get_root api)), st)
      | Inr _ \<Rightarrow>
          (case nth_arg args 1 of
             Some (ZObj s) \<Rightarrow> (answer_or_root api (call_current s), st)
           | _ \<Rightarrow>
               (case custom of
                  Some storage \<Rightarrow> (answer_or_root api (result_bind (expect_obj storage) call_current), st)
                | None \<Rightarrow>
                    (case current_context_value None ambient st of
                       (r, st1) \<Rightarrow> (result_bind r (\<lambda>ob. Ok (NewContext ob)), st1)))))"

section \<open>Lemmas\<close>





text \<open>A resolved context is never missing: an object, a root or the current context.\<close>

lemma resolve_false_is_root:
  "context_resolve api cc custom ambient (ZBool False # args) st = (Ok (NewContext (context_get_root api)), st)"
  by (simp add: context_resolve_def arg_at_def)

lemma resolve_null_is_current:
  assumes "storage_inv st"
  shows "context_resolve api cc None ambient [ZNull] st =
    (Ok (NewContext (init_context_object (fst (current_context ambient st)) (fst (current_context_instance_id st)))), st)"
  by (simp add: context_resolve_def arg_at_def nth_arg_def current_value_native [OF assms])


section \<open>Properties\<close>





end
