(* ===== verification/Process_Services.thy ===== *)
theory Process_Services
  imports Native_Span
begin

text \<open>
  What a process keeps for all its requests beside the providers: the Tokio runtime (\<open>runtime.rs\<close>), the log
  of the extension (\<open>logging.rs\<close>), and the tracer object that starts span builders (\<open>trace/tracer.rs\<close>).

  A child made by \<open>fork\<close> starts with a copy of this state and a pid of its own. Whether a runtime can be
  built and what opening or writing a file answers are parameters.
\<close>

section \<open>The runtime\<close>

type_synonym 'r runtimes = "nat \<Rightarrow> 'r option"

definition init_tokio_runtime :: "(string + 'r) \<Rightarrow> nat \<Rightarrow> 'r runtimes \<Rightarrow> (string + 'r) \<times> 'r runtimes" where
  "init_tokio_runtime build pid runtimes =
     (case runtimes pid of
        Some runtime \<Rightarrow> (Inr runtime, runtimes)
      | None \<Rightarrow>
          (case build of
             Inl e \<Rightarrow> (Inl e, runtimes)
           | Inr runtime \<Rightarrow> (Inr runtime, runtimes(pid \<mapsto> runtime))))"

text \<open>A runtime that is handed out was built by the process that asks, once.\<close>

lemma runtime_of_own_process:
  assumes "runtimes pid = None" and "init_tokio_runtime build pid runtimes = (Inr r, runtimes')"
  shows "build = Inr r" and "init_tokio_runtime build' pid runtimes' = (Inr r, runtimes')"
    and "other \<noteq> pid \<Longrightarrow> runtimes' other = runtimes other"
  using assms by (auto simp: init_tokio_runtime_def split: sum.splits)

lemma failed_runtime_retried:
  "runtimes pid = None \<Longrightarrow> init_tokio_runtime (Inl e) pid runtimes = (Inl e, runtimes)"
  by (simp add: init_tokio_runtime_def)

section \<open>The log\<close>

datatype log_level = LevelError | LevelWarn | LevelInfo | LevelDebug | LevelTrace | LevelOff

datatype log_sink = StdOut | StdErr | LogFile string

record log_state =
  log_path :: "string option"
  logger_pids :: "nat set"
  subscriber :: "log_level option"
  log_output :: "(log_sink \<times> string) list"

definition level_of_setting :: "bytes option \<Rightarrow> log_level" where
  "level_of_setting setting =
     (let name = (case Option.bind setting to_str of Some t \<Rightarrow> t | None \<Rightarrow> ''none'') in
      if name = ''error'' then LevelError else if name = ''warn'' then LevelWarn
      else if name = ''info'' then LevelInfo else if name = ''debug'' then LevelDebug
      else if name = ''trace'' then LevelTrace else LevelOff)"

text \<open>
  \<open>init_once\<close>: \<open>set_global_default\<close> of the tracing crate succeeds once in the memory of a process, and
  fails when a subscriber is there.
\<close>

definition logging_init_once :: "nat \<Rightarrow> bytes option \<Rightarrow> log_state \<Rightarrow> log_state" where
  "logging_init_once pid setting s =
     (if pid \<in> logger_pids s then s
      else case subscriber s of
          Some _ \<Rightarrow> s
        | None \<Rightarrow> s\<lparr>subscriber := Some (level_of_setting setting), logger_pids := insert pid (logger_pids s)\<rparr>)"

definition resolve_log_path :: "bytes option \<Rightarrow> log_state \<Rightarrow> string \<times> log_state" where
  "resolve_log_path setting s =
     (case log_path s of
        Some p \<Rightarrow> (p, s)
      | None \<Rightarrow>
          let p = (case Option.bind setting to_str of Some t \<Rightarrow> t | None \<Rightarrow> ''/dev/stderr'')
          in (p, s\<lparr>log_path := Some p\<rparr>))"

text \<open>
  \<open>log_message\<close>: an open or a write that fails is reported to the standard error output. \<open>log_output\<close> lists what is
  handed to each destination; what the standard streams make of it is ignored.
\<close>

definition log_message ::
  "bytes option \<Rightarrow> (string \<Rightarrow> (string, unit) result) \<Rightarrow> (string \<Rightarrow> (string, unit) result) \<Rightarrow> string \<Rightarrow>
     log_state \<Rightarrow> log_state" where
  "log_message setting open_file write_file message s =
     (case resolve_log_path setting s of
        (p, s1) \<Rightarrow>
          let put = (\<lambda>sink t. s1\<lparr>log_output := log_output s1 @ [(sink, t)]\<rparr>) in
          if p = ''/dev/stdout'' then put StdOut message
          else if p = ''/dev/stderr'' then put StdErr message
          else case open_file p of
              Inl e \<Rightarrow> put StdErr (''[ERROR] Failed to open log file '' @ [CHR 0x27] @ p @ [CHR 0x27] @ '': '' @ e)
            | Inr _ \<Rightarrow>
                (case write_file p of
                   Inr _ \<Rightarrow> put (LogFile p) message
                 | Inl e \<Rightarrow> put StdErr (''[ERROR] Failed to write to log file '' @ [CHR 0x27] @ p @ [CHR 0x27] @ '': '' @ e)))"

text \<open>Where the log goes is decided by the first message, whatever the setting is later.\<close>

lemma log_path_fixed:
  "log_path (log_message setting f g m s) = Some (fst (resolve_log_path setting s))"
  "log_path s = Some p \<Longrightarrow> log_path (log_message setting f g m s) = Some p"
  by (auto simp: log_message_def resolve_log_path_def Let_def split: option.splits sum.splits)

lemma one_line_per_message: "length (log_output (log_message setting f g m s)) = length (log_output s) + 1"
  by (auto simp: log_message_def resolve_log_path_def Let_def split: option.splits sum.splits)

text \<open>A child of a process that has a subscriber keeps it, with its level, and is never entered.\<close>

lemma forked_child_keeps_subscriber:
  assumes "subscriber s = Some level" and "child \<notin> logger_pids s"
  shows "logging_init_once child setting s = s"
  using assms by (simp add: logging_init_once_def)

section \<open>Tracers\<close>

text \<open>A tracer of the no-op provider has no state; its builders are empty.\<close>

definition tracer_span_builder ::
  "('tr \<Rightarrow> string \<Rightarrow> ('f, 'sc) span_builder) \<Rightarrow> 'tr option \<Rightarrow> 'f zval list \<Rightarrow>
     (php_error, ('c, 'f, 'sc, 'tr) span_builder_state) result" where
  "tracer_span_builder sdk_builder tracer args =
     result_bind (result_bind (arg_at args 0) expect_utf8) (\<lambda>name.
     Ok (case tracer of Some tr \<Rightarrow> builder_new (sdk_builder tr name) tr | None \<Rightarrow> builder_empty))"

definition tracer_is_enabled :: "'tr option \<Rightarrow> bool" where
  "tracer_is_enabled tracer \<longleftrightarrow> tracer \<noteq> None"

lemma disabled_tracer_builds_nothing:
  "\<not> tracer_is_enabled tracer \<Longrightarrow> tracer_span_builder sdk tracer args = Ok b \<Longrightarrow> b = builder_empty"
  by (auto simp: tracer_is_enabled_def tracer_span_builder_def result_bind_Inr_conv)

end
