(* ===== verification/Sql_Names.thy ===== *)
theory Sql_Names
  imports Php_Values
begin

text \<open>
  Names of database spans (\<open>auto/utils.rs\<close>: \<open>extract_span_name_from_sql\<close>). The patterns are written as
  lists of items, and matched as the \<open>regex\<close> crate documents it: alternatives in order of preference, the
  first one that leads to a match of the whole pattern counts (leftmost-first).

  A text is the list of its code points, each given by its bytes. Which code points are word characters is
  the argument \<open>word\<close>.
\<close>

section \<open>Patterns\<close>

type_synonym code_point = string

text \<open>A code point of a class; repetition of a class, greedy or lazy; a word boundary; a saved position.\<close>

datatype item = One "code_point \<Rightarrow> bool" | Many bool nat "code_point \<Rightarrow> bool" | Boundary | Save nat

definition word_at :: "(code_point \<Rightarrow> bool) \<Rightarrow> code_point list \<Rightarrow> nat \<Rightarrow> bool" where
  "word_at word t i \<longleftrightarrow> i < length t \<and> word (t ! i)"

definition at_boundary :: "(code_point \<Rightarrow> bool) \<Rightarrow> code_point list \<Rightarrow> nat \<Rightarrow> bool" where
  "at_boundary word t i \<longleftrightarrow> (i \<noteq> 0 \<and> word_at word t (i - 1)) \<noteq> word_at word t i"

definition repetitions :: "bool \<Rightarrow> nat \<Rightarrow> (code_point \<Rightarrow> bool) \<Rightarrow> code_point list \<Rightarrow> nat \<Rightarrow> nat list" where
  "repetitions greedy least p t i =
     (let ends = map (\<lambda>k. i + k) [least..<Suc (length (takeWhile p (drop i t)))]
      in if greedy then rev ends else ends)"

type_synonym saved = "(nat \<times> nat) list"

fun ways :: "(code_point \<Rightarrow> bool) \<Rightarrow> item list \<Rightarrow> code_point list \<Rightarrow> nat \<Rightarrow> saved \<Rightarrow> (nat \<times> saved) list" where
  "ways word [] t i m = [(i, m)]"
| "ways word (One p # r) t i m = (if i < length t \<and> p (t ! i) then ways word r t (i + 1) m else [])"
| "ways word (Many greedy least p # r) t i m =
     concat (map (\<lambda>j. ways word r t j m) (repetitions greedy least p t i))"
| "ways word (Boundary # r) t i m = (if at_boundary word t i then ways word r t i m else [])"
| "ways word (Save n # r) t i m = ways word r t i ((n, i) # m)"

text \<open>All patterns begin with \<open>^\<close>: a match begins where the text does.\<close>

definition captures :: "(code_point \<Rightarrow> bool) \<Rightarrow> item list \<Rightarrow> code_point list \<Rightarrow> saved option" where
  "captures word pattern t = (case ways word pattern t 0 [] of [] \<Rightarrow> None | (_, m) # _ \<Rightarrow> Some m)"

text \<open>The text between two saved positions.\<close>

definition group :: "code_point list \<Rightarrow> saved \<Rightarrow> code_point list" where
  "group t m = (case (map_of m 0, map_of m 1) of (Some a, Some b) \<Rightarrow> drop a (take b t) | _ \<Rightarrow> [])"

section \<open>The patterns of the code\<close>

text \<open>
  \<open>(?i)\<close>: both cases of a letter, and the code points whose simple case folding is the letter: the long
  s and the Kelvin sign.
\<close>

definition LONG_S :: code_point where "LONG_S = [CHR 0xC5, CHR 0xBF]"
definition KELVIN :: code_point where "KELVIN = [CHR 0xE2, CHR 0x84, CHR 0xAA]"

definition either_case :: "char \<Rightarrow> code_point \<Rightarrow> bool" where
  "either_case c p \<longleftrightarrow> p = [c] \<or> p = [to_ascii_lowercase c] \<or> c = CHR ''S'' \<and> p = LONG_S \<or> c = CHR ''K'' \<and> p = KELVIN"

definition keyword :: "string \<Rightarrow> item list" where
  "keyword k = map (\<lambda>c. One (either_case c)) k"

definition ascii_letter :: "char \<Rightarrow> bool" where
  "ascii_letter c \<longleftrightarrow> 65 \<le> ord c \<and> ord c \<le> 90 \<or> 97 \<le> ord c \<and> ord c \<le> 122"

definition identifier_char :: "code_point \<Rightarrow> bool" where
  "identifier_char p \<longleftrightarrow>
     (case p of [c] \<Rightarrow> ascii_letter c \<or> is_ascii_digit c \<or> c = CHR ''_'' \<or> c = CHR ''.'' | _ \<Rightarrow> False)"

definition quote_char :: "code_point \<Rightarrow> bool" where
  "quote_char p \<longleftrightarrow> p = [CHR 0x22] \<or> p = [CHR 0x60]"

definition table_char :: "code_point \<Rightarrow> bool" where
  "table_char p \<longleftrightarrow> identifier_char p \<or> quote_char p"

definition table_char_folded :: "code_point \<Rightarrow> bool" where
  "table_char_folded p \<longleftrightarrow> table_char p \<or> p = LONG_S \<or> p = KELVIN"

definition spaces :: "nat \<Rightarrow> item" where
  "spaces least = Many True least is_whitespace"

definition select_pattern :: "item list" where
  "select_pattern =
     spaces 0 # keyword ''SELECT'' @ Boundary # Many False 0 (\<lambda>_. True) # Boundary # keyword ''FROM'' @
     [Boundary, Save 0, Many True 0 (\<lambda>_. True), Save 1]"

definition insert_pattern :: "item list" where
  "insert_pattern =
     spaces 0 # keyword ''INSERT'' @ spaces 1 # keyword ''INTO'' @ [spaces 1, Save 0, Many True 1 table_char_folded, Save 1]"

definition update_pattern :: "item list" where
  "update_pattern = spaces 0 # keyword ''UPDATE'' @ [spaces 1, Save 0, Many True 1 table_char_folded, Save 1]"

definition delete_pattern :: "item list" where
  "delete_pattern =
     spaces 0 # keyword ''DELETE'' @ spaces 1 # keyword ''FROM'' @ [spaces 1, Save 0, Many True 1 table_char_folded, Save 1]"

definition table_pattern :: "item list" where
  "table_pattern = [Save 0, Many True 1 table_char, Save 1]"

section \<open>The name\<close>

definition unquoted :: "code_point list \<Rightarrow> string" where
  "unquoted t = concat (filter (\<lambda>p. \<not> quote_char p) t)"

definition named_after :: "(code_point \<Rightarrow> bool) \<Rightarrow> string \<Rightarrow> item list \<Rightarrow> code_point list \<Rightarrow> string option" where
  "named_after word kind pattern t =
     map_option (\<lambda>m. kind @ '' '' @ unquoted (group t m)) (captures word pattern t)"

definition select_name :: "(code_point \<Rightarrow> bool) \<Rightarrow> code_point list \<Rightarrow> string option" where
  "select_name word t =
     Option.bind (captures word select_pattern t) (\<lambda>m.
     let after_from = dropWhile is_whitespace (group t m) in
     if take 1 after_from = [''(''] then Some ''SELECT''
     else named_after word ''SELECT'' table_pattern after_from)"

definition or_else :: "'a option \<Rightarrow> 'a option \<Rightarrow> 'a option" where
  "or_else a b = (case a of Some x \<Rightarrow> Some x | None \<Rightarrow> b)"

definition extract_span_name_from_sql :: "(code_point \<Rightarrow> bool) \<Rightarrow> string \<Rightarrow> string option" where
  "extract_span_name_from_sql word sql =
     (let t = utf8_chars (trim sql) in
      or_else (select_name word t)
        (or_else (named_after word ''INSERT'' insert_pattern t)
          (or_else (named_after word ''UPDATE'' update_pattern t)
             (named_after word ''DELETE'' delete_pattern t))))"

section \<open>What a match saves\<close>














section \<open>Where the name comes from\<close>








definition ascii_word :: "code_point \<Rightarrow> bool" where
  "ascii_word p \<longleftrightarrow> (case p of [c] \<Rightarrow> ascii_letter c \<or> is_ascii_digit c \<or> c = CHR ''_'' | _ \<Rightarrow> False)"

text \<open>Some of the tests of the code.\<close>

lemma tested_names:
  "extract_span_name_from_sql ascii_word ''SELECT * FROM users'' = Some ''SELECT users''"
  "extract_span_name_from_sql ascii_word (''INSERT INTO products VALUES (1, '' @ [CHR 0x27] @ ''foo'' @ [CHR 0x27] @ '')'') =
     Some ''INSERT products''"
  "extract_span_name_from_sql ascii_word ''DELETE FROM sessions WHERE id = 1'' = Some ''DELETE sessions''"
  "extract_span_name_from_sql ascii_word ''DROP TABLE users'' = None"
  "extract_span_name_from_sql ascii_word ''SELECT * FROM (SELECT * FROM users) AS sub'' = Some ''SELECT''"
  by code_simp+

lemma tested_quotes:
  "extract_span_name_from_sql ascii_word (''select * from '' @ [CHR 0x60] @ ''MyTable'' @ [CHR 0x60]) = Some ''SELECT MyTable''"
  "extract_span_name_from_sql ascii_word (''INSERT INTO '' @ [CHR 0x22] @ ''OtherTable'' @ [CHR 0x22]) = Some ''INSERT OtherTable''"
  "extract_span_name_from_sql ascii_word (''SELECT'' @ [CHR 0x0A] @ ''  *'' @ [CHR 0x0A] @ ''FROM'' @ [CHR 0x0A] @ ''  users'') =
     Some ''SELECT users''"
  by code_simp+

text \<open>
  The first \<open>FROM\<close> need not be that of the statement: it can belong to a function, or stand in a literal,
  whose next word is then the name.
\<close>

lemma from_of_function:
  "extract_span_name_from_sql ascii_word ''SELECT EXTRACT(YEAR FROM born) FROM people'' = Some ''SELECT born''"
  by code_simp

lemma from_in_literal:
  "extract_span_name_from_sql ascii_word (''SELECT * , '' @ [CHR 0x27] @ ''from hunter2'' @ [CHR 0x27] @ '' FROM t'') =
     Some ''SELECT hunter2''"
  by code_simp


end
