(* ===== verification/Spec2Isabelle.thy ===== *)
theory Spec2Isabelle
  imports Batch_Processor Propagation Request_Lifecycle Logger Meter Auto_Sensitive Globals Memory_Exporters Baggage_Binding Process_Services Sql_Names
begin

text \<open>
  A verification development of the OpenTelemetry extension for PHP written in Rust
  (\<open>src/otel/src\<close>). The extension gives PHP code the OpenTelemetry API (contexts and scopes, spans,
  baggage, propagators, logs, metrics) on top of the Rust SDK, configures the SDK from the environment
  of each request, and exports spans through a bounded batch processor of its own.

  \<^bold>\<open>How the parts interact.\<close> At the start of a request \<open>request.rs\<close> backs up and overrides the \<open>OTEL_*\<close>
  variables, after which attribute limits and the configuration hashes of the three signals are read
  once and cached; tracer, logger and meter providers are looked up by process and hash, and created
  when missing. A tracer provider is built from the transport settings of \<open>otlp_transport.rs\<close> and the
  batch configuration, and its processor (\<open>batch_processor.rs\<close>) takes ended spans from request threads
  to a worker that exports them with retries. During the request PHP code attaches and detaches
  contexts, whose entries hold spans and baggage; it starts spans, emits log records and records
  measurements, whose attributes are converted within the limits; propagators write and read contexts
  as headers; \<open>Globals\<close> hands out providers and propagators. Plugins hook PHP functions, start spans
  before them and end them after. At the end the root span is closed, the environment is restored and
  the state of the request is dropped.

  \<^bold>\<open>Theories.\<close>
  \<^item> \<open>Prelude\<close>, \<open>Rust_Std\<close>, \<open>Interfaces\<close>: shared lemmas; the standard library functions the code uses
    (UTF-8, splitting, trimming, number parsing, the process environment); the contracts that several
    components share, as locales (keyed stores, codecs, values cached for a request, transition systems).
  \<^item> \<open>Php_Values\<close>: PHP values, array keys and the errors of method calls.
  \<^item> \<open>Trace_State\<close> (\<open>trace/trace_state.rs\<close>): the W3C tracestate list. Every list that can be constructed is
    well formed and its header parses back to it; updates keep the order the standard asks for; the
    shortened header fits its limit.
  \<^item> \<open>Batch_Config\<close>, \<open>Batch_Export\<close>, \<open>Batch_Processor\<close> (\<open>trace/batch_processor.rs\<close>): configuration and
    its bounds, classification of failures, the export loop with retries, and the processor shared by
    request threads and the worker as a system of interleaved steps over 64-bit counters. Every span that
    ended is accounted for: queued, with the worker, in a call, exported or counted as dropped, or, once
    the worker has stopped, lost with the channel it drops, which no counter of the code names
    (\<open>late_span_discarded\<close>). A round books the final answer of the exporter for each batch; the queue is
    bounded; attempts are bounded; a flush delivers; what a shutdown that times out accounts for.
  \<^item> \<open>Baggage\<close> (\<open>baggage/\<close>): builder, object, header parser and writer. A header that was written is
    read back to the same baggage, URL encoding loses nothing, and what is read is bounded.
  \<^item> \<open>Context_Storage\<close> (\<open>context/\<close>): context stacks per execution, guards, scopes and native contexts.
    The SDK's stack holds contexts attached by PHP code and by hooks: what PHP sees as current is what the
    SDK has, unless a hook attached a context on top of an active scope, which PHP does not see
    (\<open>hook_context_hidden\<close>); the storage refines a stack per execution; nested scopes restore; refused
    detaches change nothing.
  \<^item> \<open>Attributes\<close> (\<open>util.rs\<close>): limits and their cache, conversion of PHP values and arrays. Results are
    within the limits and well-formed; the incremental array conversion equals a reference; limits stay
    fixed during a request and reach the SDK without loss.
  \<^item> \<open>Request_Env\<close> (\<open>request.rs\<close>): backup, override and restoration of the environment, the \<open>.env\<close> file,
    excluded URLs, request headers. The end of a request gives the \<open>OTEL_*\<close> variables their values of
    before, or panics when a variable is not Unicode; exclusion finds
    every URL its pattern matches; the nearest \<open>.env\<close> is used and its resource attributes win.
  \<^item> \<open>Otlp_Transport\<close> (\<open>trace/otlp_transport.rs\<close>): endpoint, TLS, compression, headers, masking of
    variables. Accepted settings are well formed; an endpoint without scheme uses TLS unless told
    otherwise; headers are read back exactly; building an exporter leaves the environment alone.
  \<^item> \<open>Provider_Registry\<close>, \<open>Tracer_Provider\<close>, \<open>Signal_Providers\<close> (\<open>trace/tracer_provider.rs\<close>,
    \<open>logs/logger_provider.rs\<close>, \<open>metrics/meter_provider.rs\<close>): the provider tables. A provider of spans is
    only handed to the process that built it, under the configuration hash it was built for; the hash covers everything the choice of a provider
    depends on; a request keeps its provider; shutdown removes exactly the providers of the process.
  \<^item> \<open>Carrier\<close>, \<open>Span_Context\<close>, \<open>Diagnostics\<close>: access to headers in PHP arrays and objects, identities of spans
    and their conversion between PHP and the SDK, contained panics, the switch for sensitive data and
    exceptions as attributes.
  \<^item> \<open>Native_Span\<close>, \<open>Span_Binding\<close>, \<open>Baggage_Binding\<close> (\<open>trace/span.rs\<close>, \<open>trace/span_builder.rs\<close>,
    \<open>trace/local_root_span.rs\<close>, \<open>baggage/baggage.rs\<close>, \<open>context/context_class.rs\<close>): what each method asks of a
    span of the SDK, always within the limits; spans and baggage in contexts. Activating a span makes it
    current for PHP and the SDK, activating a baggage changes nothing else, and detaching undoes either.
  \<^item> \<open>Request_Lifecycle\<close> (\<open>request.rs\<close>, \<open>module.rs\<close>): start and end of a request over the states of all
    components. The end of a request drops all its contexts, guards and cached configuration, unless
    restoring the environment panics first; the configuration is that of the start.
  \<^item> \<open>Propagation\<close> (\<open>trace_context_propagator.rs\<close>, \<open>multi_text_map_propagator.rs\<close>): inject and extract. An
    identity and a baggage written into the same headers are both read back.
  \<^item> \<open>Log_Record\<close>, \<open>Logger\<close> (\<open>logs/\<close>): the attributes of records stay within the limits, emitting hands every
    field to the SDK, the table of interned texts is bounded.
  \<^item> \<open>Observable\<close>, \<open>Meter\<close> (\<open>metrics/\<close>): callbacks, caches and instruments. Counters take no negative
    amounts. For callbacks that only observe through the observers they are given, a failed registration
    leaves nothing and the end of a request releases callbacks and observations; others can outlive it.
  \<^item> \<open>Auto_Hooks\<close> (\<open>auto/\<close>): matching of plugins, the observer cache, the two ways of running hooks. A hooked
    function runs once; the cache answers with the hooks of the first function of a qualified name that had
    any.
  \<^item> \<open>Auto_Spans\<close>, \<open>Auto_Frameworks\<close>, \<open>Auto_Databases\<close>, \<open>Auto_Plugins\<close> (\<open>auto/plugin/\<close>): the PSR-18, Laravel,
    Symfony, Laminas and Zend Framework hooks as programs over a state; any nesting of traced calls leaves
    contexts, guards and flags as they were. \<open>Auto_Sensitive\<close>: with capture off the names, keys and texts
    that hooks give to spans come from a list of sources, which the text of a query and what an exception
    says are not among.
  \<^item> \<open>Sql_Names\<close> (\<open>auto/utils.rs\<close>): the patterns that name a span after its SQL, as items with the leftmost-first
    matching of the \<open>regex\<close> crate. A name is the kind
    of the statement and at most one identifier of the query.
  \<^item> \<open>Globals\<close> (\<open>globals.rs\<close>): the default providers, made once and configured by initializers.
  \<^item> \<open>Memory_Exporters\<close>: the exporters for tests; attributes that were set are read back unchanged.
  \<^item> \<open>Process_Services\<close> (\<open>runtime.rs\<close>, \<open>logging.rs\<close>, \<open>trace/tracer.rs\<close>): the runtime of a process, where log lines
    go, tracers.

  \<^bold>\<open>Conventions.\<close> A Rust string is the list of its bytes; code points are counted only where the code
  counts them. A panic or an absent value is \<^const>\<open>None\<close>, an error the left side of a sum; what PHP code does when it is
  called is a parameter that may change the state and raise. Counters of the
  batch processor are 64-bit words and wrap; sizes that the parsers bound are naturals. Hash maps are
  association lists with distinct keys. The process environment is the list of its variables as raw
  bytes. Third-party crates (\<open>url\<close>, \<open>http\<close>, \<open>rustls\<close>, \<open>dotenvy\<close>, the SDK builders), the file system and
  calls back into PHP are arguments.

  \<^bold>\<open>Bounds and termination.\<close> Every loop of the code is a total function: the retry loop of an export
  round recurses on the attempts the policy leaves, and runs at most \<open>max_attempts\<close> times because each
  attempt takes one away; the run of the worker is given as many turns as there are messages, and the
  claims on it are about the turns themselves; all other loops recurse on the data they consume.

  \<^bold>\<open>Not modelled.\<close> Registration of classes and argument types (\<open>class_registry.rs\<close>, the interface files and
  the \<open>make_*_class\<close> boilerplate), which declares names and types to PHP and has no behaviour;
  swapping the function pointers of the engine and reading its structures;
  building TLS and HTTP clients, which hands the settings to other crates; the no-op response propagator,
  which does nothing, and the plugin compiled for tests; and the binding layer under \<open>third_party/phper\<close>.
\<close>

end
